(* ===== verification/Prelude.thy ===== *)
theory Prelude imports Main "HOL-Library.Word" "HOL-Library.AList" begin

text \<open>
  Shared vocabulary of the development: the machine types of the C sources, the fact
  collections the component proofs are driven by, and generic facts on association lists,
  lists and words.  Every other theory imports this one.

  C's \<open>int\<close> and \<open>pid_t\<close> are 32-bit words read as two's complement where the code compares
  them by order; the tools compare them for equality almost everywhere.  \<open>u64\<close> clocks and
  counters are 64-bit words, so that sums and differences wrap as in C.
\<close>

type_synonym u8 = "8 word"
type_synonym u16 = "16 word"
type_synonym u32 = "32 word"
type_synonym s32 = "32 word"
type_synonym u64 = "64 word"
type_synonym pid_t = "32 word"

text \<open>
  The collections: \<open>map_simps\<close> rewrites the map operations of the platform, \<open>handler_defs\<close>
  gathers the defining equations of one tool's helpers, \<open>inv_rules\<close> the preservation rules.
\<close>

named_theorems map_simps
named_theorems handler_defs
named_theorems inv_rules

subsection \<open>Association lists\<close>

lemma map_of_AList_update [map_simps]:
  "map_of (AList.update k v xs) = (map_of xs)(k \<mapsto> v)"
  by (rule update_conv')

lemma map_of_AList_delete [map_simps]:
  "map_of (AList.delete k xs) = (map_of xs)(k := None)"
  by (rule delete_conv')

lemma distinct_AList_update:
  "distinct (map fst xs) \<Longrightarrow> distinct (map fst (AList.update k v xs))"
  by (rule distinct_update)

lemma distinct_AList_delete:
  "distinct (map fst xs) \<Longrightarrow> distinct (map fst (AList.delete k xs))"
  by (rule distinct_delete)

lemma length_AList_update:
  "length (AList.update k v xs) = (if k \<in> fst ` set xs then length xs else Suc (length xs))"
  by (induction xs) auto

lemma length_AList_delete_le: "length (AList.delete k xs) \<le> length xs"
  by (simp add: AList.delete_eq)

lemma fst_set_AList_update: "fst ` set (AList.update k v xs) = insert k (fst ` set xs)"
  by (simp add: dom_update)

lemma snd_set_AList_update: "snd ` set (AList.update k v xs) \<subseteq> insert v (snd ` set xs)"
  by (induction xs) auto

lemma set_AList_update_subset: "set (AList.update k v xs) \<subseteq> insert (k, v) (set xs)"
  by (induction xs) auto

lemma set_AList_delete_subset: "set (AList.delete k xs) \<subseteq> set xs"
  by (auto simp: AList.delete_eq)

lemma map_of_None_iff: "map_of xs k = None \<longleftrightarrow> k \<notin> fst ` set xs"
  by (rule map_of_eq_None_iff)

lemma in_keys_iff: "k \<in> fst ` set xs \<longleftrightarrow> map_of xs k \<noteq> None"
  by (simp add: map_of_None_iff)

subsection \<open>Runs of a step function\<close>

text \<open>
  An execution of a tool is the fold of its step function over the list of events the kernel
  delivered, in delivery order.
\<close>

definition run :: "('e \<Rightarrow> 's \<Rightarrow> 's) \<Rightarrow> 'e list \<Rightarrow> 's \<Rightarrow> 's" where
  "run step es s = fold step es s"

lemma run_Nil [simp]: "run step [] s = s"
  by (simp add: run_def)

lemma run_Cons [simp]: "run step (e # es) s = run step es (step e s)"
  by (simp add: run_def)

lemma run_append [simp]: "run step (es @ fs) s = run step fs (run step es s)"
  by (simp add: run_def)

subsection \<open>Words\<close>

lemma unat_plus_no_wrap:
  fixes a b :: "'a::len word"
  assumes "unat a + unat b < 2 ^ LENGTH('a)"
  shows "unat (a + b) = unat a + unat b"
  using assms by (simp add: unat_word_ariths)

lemma unat_Suc_no_wrap:
  fixes a :: "'a::len word"
  assumes "Suc (unat a) < 2 ^ LENGTH('a)"
  shows "unat (a + 1) = Suc (unat a)"
  using assms by (cases "LENGTH('a)") (auto simp: unat_word_ariths)

lemma sint_small:
  fixes w :: "32 word"
  assumes "unat w < 2 ^ 31"
  shows "sint w = int (unat w)"
proof -
  have u: "uint w = int (unat w)" by simp
  have "uint w < 2 ^ 31"
    using assms unfolding u by (metis of_nat_less_iff of_nat_numeral of_nat_power)
  moreover have "- (2 ^ 31) \<le> uint w"
    using uint_ge_0 [of w] by (rule order_trans [rotated]) simp
  ultimately have "signed_take_bit 31 (uint w) = uint w"
    by (intro signed_take_bit_int_eq_self)
  moreover have "sint w = signed_take_bit 31 (uint w)"
    using sint_uint [of w] by simp
  ultimately show ?thesis by (simp only: u)
qed

lemma sint_word_of_int_small:
  assumes "0 \<le> v" and "v < 2147483648"
  shows "sint (word_of_int v :: 32 word) = v"
proof -
  have "uint (word_of_int v :: 32 word) = v mod 4294967296"
    by (simp add: uint_word_of_int)
  then have u: "uint (word_of_int v :: 32 word) = v" using assms by simp
  then have n: "unat (word_of_int v :: 32 word) = nat v"
    using assms by (metis nat_uint_eq)
  then have "unat (word_of_int v :: 32 word) < 2 ^ 31" using assms by simp
  then have "sint (word_of_int v :: 32 word) = int (unat (word_of_int v :: 32 word))" by (rule sint_small)
  then show ?thesis using n assms by (simp only: n int_nat_eq)  simp
qed

lemma word_neq_minus1_imp: "(x::'a::len word) = -1 \<Longrightarrow> x \<noteq> 0"
  by auto

end
