(* ===== verification/Bpf.thy ===== *)
theory Bpf imports Prelude begin

text \<open>
  The eBPF platform as the tools use it.  The maps are declared by the sources
  (\<open>SEC(".maps")\<close>) and reached through the helper calls; the helpers' answers that the sources
  do not determine are inputs of the model.

  \<^item> A \<open>BPF_MAP_TYPE_HASH\<close> is a list of entries with distinct keys and a capacity
    (\<open>max_entries\<close>).  The list order stands for the kernel's iteration order.
  \<^item> A \<open>BPF_MAP_TYPE_ARRAY\<close> is a list of fixed length, zeroed when the program is loaded:
    a lookup of an index in range never gives NULL, and a deletion is refused.
  \<^item> A \<open>BPF_MAP_TYPE_RINGBUF\<close> is the list of the records submitted so far.
  \<^item> A \<open>kern\<close> record holds what the kernel answers during one run of one handler: the current
    thread, the CPU, the clock at each call site (\<open>kn_ktime i\<close> is the reading at the \<open>i\<close>-th
    call site of the handler in source order), the error with which the kernel refuses the
    update at a call site (\<open>0\<close>: it does not refuse), and the record \<open>bpf_ringbuf_reserve\<close>
    hands out at a call site (\<open>None\<close>: no room).  A reserved record is not cleared, so a field
    the handler does not write keeps the content the model gets here.

  Each handler runs as one atomic step: the interleaving of two handlers that run at the same
  moment on two CPUs is not modelled.
\<close>

subsection \<open>Kernel answers\<close>

record 'r kern =
  kn_pid_tgid :: u64
  kn_cpu :: s32
  kn_ktime :: "nat \<Rightarrow> u64"
  kn_upd :: "nat \<Rightarrow> s32"
  kn_rsv :: "nat \<Rightarrow> 'r option"

text \<open>\<open>pid_t pid = bpf_get_current_pid_tgid();\<close> keeps the low half, \<open>>> 32\<close> gives the high one.\<close>

definition cur_pid :: "('r, 'x) kern_scheme \<Rightarrow> pid_t" where
  "cur_pid kn = ucast (kn_pid_tgid kn)"

definition cur_tgid :: "('r, 'x) kern_scheme \<Rightarrow> s32" where
  "cur_tgid kn = ucast (drop_bit 32 (kn_pid_tgid kn))"

text \<open>A kernel that refuses nothing, for concrete runs.\<close>

definition calm :: "pid_t \<Rightarrow> s32 \<Rightarrow> u64 \<Rightarrow> 'r \<Rightarrow> 'r kern" where
  "calm pid tgid t slot = \<lparr>kn_pid_tgid = or (push_bit 32 (ucast tgid)) (ucast pid),
     kn_cpu = 0, kn_ktime = (\<lambda>_. t), kn_upd = (\<lambda>_. 0), kn_rsv = (\<lambda>_. Some slot)\<rparr>"

lemma ucast_or_push32: "(ucast (or (push_bit 32 (ucast (tgid::32 word))) (ucast (pid::32 word)) :: 64 word) :: 32 word) = pid"
  by (rule bit_word_eqI) (auto simp: bit_simps)

lemma ucast_drop_or_push32:
  "(ucast (drop_bit 32 (or (push_bit 32 (ucast (tgid::32 word))) (ucast (pid::32 word)) :: 64 word)) :: 32 word) = tgid"
  by (rule bit_word_eqI) (auto simp: bit_simps dest: bit_imp_le_length)

lemma calm_simps [simp]:
  "cur_pid (calm p g t r) = p" "cur_tgid (calm p g t r) = g"
  "kn_cpu (calm p g t r) = 0" "kn_ktime (calm p g t r) = (\<lambda>_. t)"
  "kn_upd (calm p g t r) = (\<lambda>_. 0)" "kn_rsv (calm p g t r) = (\<lambda>_. Some r)"
  by (simp_all only: calm_def cur_pid_def cur_tgid_def ucast_or_push32 ucast_drop_or_push32 kern.simps)

lemma extend_simps [simp]:
  "cur_pid (kern.extend k x) = cur_pid k" "cur_tgid (kern.extend k x) = cur_tgid k"
  "kn_cpu (kern.extend k x) = kn_cpu k" "kn_ktime (kern.extend k x) = kn_ktime k"
  "kn_upd (kern.extend k x) = kn_upd k" "kn_rsv (kern.extend k x) = kn_rsv k"
  by (simp_all add: cur_pid_def cur_tgid_def kern.defs)

subsection \<open>Hash maps\<close>

record ('k, 'v) hmap =
  hm_max :: nat
  hm_ents :: "('k \<times> 'v) list"

abbreviation (input) E2BIG :: s32 where "E2BIG \<equiv> 7"
abbreviation (input) EINVAL :: s32 where "EINVAL \<equiv> 22"
abbreviation (input) ENOENT :: s32 where "ENOENT \<equiv> 2"

definition hm_new :: "nat \<Rightarrow> ('k, 'v) hmap" where
  "hm_new n = \<lparr>hm_max = n, hm_ents = []\<rparr>"

definition hm_lookup :: "('k, 'v) hmap \<Rightarrow> 'k \<Rightarrow> 'v option" where
  "hm_lookup m k = map_of (hm_ents m) k"

text \<open>\<open>bpf_map_update_elem(.., BPF_ANY)\<close>: a new key is refused when the map is full.\<close>

definition hm_update :: "s32 \<Rightarrow> ('k, 'v) hmap \<Rightarrow> 'k \<Rightarrow> 'v \<Rightarrow> s32 \<times> ('k, 'v) hmap" where
  "hm_update fault m k v =
     (if fault \<noteq> 0 then (fault, m)
      else if hm_lookup m k = None \<and> hm_max m \<le> length (hm_ents m) then (- E2BIG, m)
      else (0, m\<lparr>hm_ents := AList.update k v (hm_ents m)\<rparr>))"

text \<open>A write through the pointer that a lookup returned: no capacity check, no failure.\<close>

definition hm_poke :: "('k, 'v) hmap \<Rightarrow> 'k \<Rightarrow> 'v \<Rightarrow> ('k, 'v) hmap" where
  "hm_poke m k v =
     (if hm_lookup m k = None then m else m\<lparr>hm_ents := AList.update k v (hm_ents m)\<rparr>)"

definition hm_delete :: "('k, 'v) hmap \<Rightarrow> 'k \<Rightarrow> ('k, 'v) hmap" where
  "hm_delete m k = m\<lparr>hm_ents := AList.delete k (hm_ents m)\<rparr>"

definition hm_ok :: "('k, 'v) hmap \<Rightarrow> bool" where
  "hm_ok m \<longleftrightarrow> distinct (map fst (hm_ents m)) \<and> length (hm_ents m) \<le> hm_max m"

text \<open>Whether the kernel will accept the next update of a key.\<close>

definition hm_room :: "('k, 'v) hmap \<Rightarrow> 'k \<Rightarrow> bool" where
  "hm_room m k \<longleftrightarrow> hm_lookup m k \<noteq> None \<or> length (hm_ents m) < hm_max m"

subsection \<open>Arrays\<close>

definition arr_lookup :: "'v list \<Rightarrow> nat \<Rightarrow> 'v option" where
  "arr_lookup a k = (if k < length a then Some (a ! k) else None)"

definition arr_update :: "s32 \<Rightarrow> 'v list \<Rightarrow> nat \<Rightarrow> 'v \<Rightarrow> s32 \<times> 'v list" where
  "arr_update fault a k v =
     (if fault \<noteq> 0 then (fault, a)
      else if k < length a then (0, a[k := v])
      else (- E2BIG, a))"

text \<open>\<open>bpf_map_delete_elem\<close> on an array is always refused.\<close>

definition arr_delete :: "'v list \<Rightarrow> nat \<Rightarrow> s32 \<times> 'v list" where
  "arr_delete a k = (- EINVAL, a)"

subsection \<open>Per-CPU hash maps\<close>

text \<open>
  A \<open>BPF_MAP_TYPE_PERCPU_HASH\<close> has one key space and, for each key, a value per CPU.  A program
  reads and writes the value of the CPU it runs on; when an update makes a new entry the other
  CPUs' values are zeroed.
\<close>

type_synonym ('k, 'v) pcmap = "('k, s32 \<Rightarrow> 'v) hmap"

definition pc_lookup :: "s32 \<Rightarrow> ('k, 'v) pcmap \<Rightarrow> 'k \<Rightarrow> 'v option" where
  "pc_lookup cpu m k = (case hm_lookup m k of None \<Rightarrow> None | Some f \<Rightarrow> Some (f cpu))"

definition pc_update :: "s32 \<Rightarrow> s32 \<Rightarrow> 'v \<Rightarrow> ('k, 'v) pcmap \<Rightarrow> 'k \<Rightarrow> 'v \<Rightarrow> s32 \<times> ('k, 'v) pcmap" where
  "pc_update fault cpu zero m k v =
     hm_update fault m k ((case hm_lookup m k of None \<Rightarrow> (\<lambda>_. zero) | Some f \<Rightarrow> f)(cpu := v))"

subsection \<open>The laws the clients rely on\<close>

text \<open>
  \<open>kv_map\<close>: what every map promises about lookups after an update; \<open>kv_store\<close> adds deletion.
  The tools store a value when a probe fires and take it back when the matching return probe
  fires; \<open>put_take\<close> and the frame lemmas are what they use.
\<close>

locale kv_map =
  fixes lookup :: "'m \<Rightarrow> 'k \<Rightarrow> 'v option"
    and update :: "s32 \<Rightarrow> 'm \<Rightarrow> 'k \<Rightarrow> 'v \<Rightarrow> s32 \<times> 'm"
    and ok :: "'m \<Rightarrow> bool"
    and room :: "'m \<Rightarrow> 'k \<Rightarrow> bool"
  assumes update_ok: "ok m \<Longrightarrow> ok (snd (update f m k v))"
    and update_refused: "fst (update f m k v) \<noteq> 0 \<Longrightarrow> snd (update f m k v) = m"
    and update_done: "fst (update f m k v) = 0 \<Longrightarrow> lookup (snd (update f m k v)) = (lookup m)(k \<mapsto> v)"
    and update_accepted: "fst (update f m k v) = 0 \<longleftrightarrow> f = 0 \<and> room m k"
begin

lemma lookup_update_other:
  "k' \<noteq> k \<Longrightarrow> lookup (snd (update f m k v)) k' = lookup m k'"
  by (cases "fst (update f m k v) = 0") (simp_all add: update_done update_refused)

lemma lookup_update_same:
  "f = 0 \<Longrightarrow> room m k \<Longrightarrow> lookup (snd (update f m k v)) k = Some v"
  by (simp add: update_done update_accepted)

lemma lookup_update:
  "lookup (snd (update f m k v)) k' =
     (if f = 0 \<and> room m k \<and> k' = k then Some v else lookup m k')"
  by (auto simp: lookup_update_same lookup_update_other update_refused update_accepted)

lemma lookup_update_cases:
  "lookup (snd (update f m k v)) k' = Some w \<Longrightarrow> k' = k \<and> w = v \<or> lookup m k' = Some w"
  by (auto simp: lookup_update split: if_splits)

end

locale kv_store = kv_map lookup update ok room
  for lookup :: "'m \<Rightarrow> 'k \<Rightarrow> 'v option" and update and ok and room +
  fixes del :: "'m \<Rightarrow> 'k \<Rightarrow> 'm"
  assumes del_ok: "ok m \<Longrightarrow> ok (del m k)"
    and lookup_del: "lookup (del m k) = (lookup m)(k := None)"
begin

lemma lookup_del_same: "lookup (del m k) k = None"
  by (simp add: lookup_del)

lemma lookup_del_other: "k' \<noteq> k \<Longrightarrow> lookup (del m k) k' = lookup m k'"
  by (simp add: lookup_del)

lemma lookup_del_cases: "lookup (del m k) k' = Some w \<Longrightarrow> lookup m k' = Some w"
  by (auto simp: lookup_del split: if_splits)

lemma put_take:
  "f = 0 \<Longrightarrow> room m k \<Longrightarrow> k' \<noteq> k \<Longrightarrow>
   lookup (snd (update f m k v)) k = Some v \<and>
   lookup (del (snd (update f m k v)) k) k = None \<and>
   lookup (del (snd (update f m k v)) k) k' = lookup m k'"
  by (simp add: lookup_update_same lookup_del lookup_update_other)

end

subsection \<open>The platform's maps satisfy them\<close>

lemma hm_lookup_None: "hm_lookup m k = None \<longleftrightarrow> k \<notin> fst ` set (hm_ents m)"
  by (simp add: hm_lookup_def map_of_None_iff)

lemma hm_update_ok: "hm_ok m \<Longrightarrow> hm_ok (snd (hm_update f m k v))"
  by (auto simp: hm_ok_def hm_update_def distinct_AList_update length_AList_update hm_lookup_None
        image_iff)

lemma hm_update_done:
  "fst (hm_update f m k v) = 0 \<Longrightarrow> hm_lookup (snd (hm_update f m k v)) = (hm_lookup m)(k \<mapsto> v)"
  by (auto simp: hm_update_def hm_lookup_def fun_eq_iff map_of_AList_update split: if_splits)

lemma hm_update_accepted: "fst (hm_update f m k v) = 0 \<longleftrightarrow> f = 0 \<and> hm_room m k"
  by (auto simp: hm_update_def hm_room_def)

lemma hm_delete_ok: "hm_ok m \<Longrightarrow> hm_ok (hm_delete m k)"
  using length_AList_delete_le [of k "hm_ents m"]
  by (simp add: hm_ok_def hm_delete_def distinct_AList_delete)

lemma hm_lookup_delete: "hm_lookup (hm_delete m k) = (hm_lookup m)(k := None)"
  by (simp add: hm_lookup_def hm_delete_def fun_eq_iff map_of_AList_delete)

interpretation hash: kv_store hm_lookup hm_update hm_ok hm_room hm_delete
proof unfold_locales
  show "snd (hm_update f m k v) = m" if "fst (hm_update f m k v) \<noteq> 0"
    for f and m :: "('a, 'b) hmap" and k v
    using that by (auto simp: hm_update_def split: if_splits)
qed (simp_all add: hm_update_ok hm_update_done hm_update_accepted hm_delete_ok hm_lookup_delete)

interpretation arr: kv_map arr_lookup arr_update "\<lambda>a. True" "\<lambda>a k. k < length a"
  by unfold_locales
    (auto simp: arr_lookup_def arr_update_def fun_eq_iff split: if_splits)

lemma hm_max_update [simp]: "hm_max (snd (hm_update f m k v)) = hm_max m"
  by (simp add: hm_update_def)

lemma hm_max_delete [simp]: "hm_max (hm_delete m k) = hm_max m"
  by (simp add: hm_delete_def)

lemma hm_max_poke [simp]: "hm_max (hm_poke m k v) = hm_max m"
  by (simp add: hm_poke_def)

lemma hm_poke_ok: "hm_ok m \<Longrightarrow> hm_ok (hm_poke m k v)"
  by (auto simp: hm_ok_def hm_poke_def distinct_AList_update length_AList_update hm_lookup_None image_iff)

lemma hm_lookup_poke:
  "hm_lookup (hm_poke m k v) k' =
     (if k' = k \<and> hm_lookup m k \<noteq> None then Some v else hm_lookup m k')"
  by (auto simp: hm_poke_def hm_lookup_def map_of_AList_update)

lemma hm_lookup_new [simp]: "hm_lookup (hm_new n) k = None"
  by (simp add: hm_lookup_def hm_new_def)

lemma dom_hm_new [simp]: "dom (hm_lookup (hm_new n)) = {}"
  by (simp add: dom_def)

lemma hm_max_new [simp]: "hm_max (hm_new n) = n"
  by (simp add: hm_new_def)

lemma hm_ok_new [simp]: "hm_ok (hm_new n)"
  by (simp add: hm_ok_def hm_new_def)

lemma hm_room_poke [simp]: "hm_room (hm_poke m k v) k' = hm_room m k'"
proof (cases "hm_lookup m k = None")
  case True
  then show ?thesis by (simp add: hm_poke_def)
next
  case False
  then have "length (hm_ents (hm_poke m k v)) = length (hm_ents m)"
    by (simp add: hm_poke_def length_AList_update hm_lookup_None)
  moreover have "hm_lookup (hm_poke m k v) k' = None \<longleftrightarrow> hm_lookup m k' = None"
    using False by (simp add: hm_lookup_poke)
  ultimately show ?thesis by (simp add: hm_room_def)
qed

lemma length_arr_update [simp]: "length (snd (arr_update f a k v)) = length a"
  by (simp add: arr_update_def)

lemma hm_room_present: "hm_lookup m k = Some v \<Longrightarrow> hm_room m k"
  by (simp add: hm_room_def)

text \<open>A map has room for the keys of a set no larger than its capacity that holds all its keys.\<close>

lemma hm_room_card:
  assumes "hm_ok m" and "dom (hm_lookup m) \<subseteq> K" and "finite K" and "card K \<le> hm_max m" and "k \<in> K"
  shows "hm_room m k"
proof (cases "hm_lookup m k")
  case None
  have len: "length (hm_ents m) = card (dom (hm_lookup m))"
    using assms(1) distinct_card [of "map fst (hm_ents m)"]
    by (simp add: hm_ok_def hm_lookup_def [abs_def] dom_map_of_conv_image_fst)
  have "dom (hm_lookup m) \<subset> K"
    using None assms(2,5) by (auto simp: domIff)
  then have "card (dom (hm_lookup m)) < card K"
    using assms(3) by (rule psubset_card_mono [rotated])
  with len assms(4) show ?thesis by (simp add: hm_room_def)
next
  case (Some v)
  then show ?thesis by (rule hm_room_present)
qed

lemma dom_hm_update: "dom (hm_lookup (snd (hm_update f m k v))) \<subseteq> insert k (dom (hm_lookup m))"
  by (auto simp: hash.lookup_update split: if_splits)

lemma dom_hm_delete: "dom (hm_lookup (hm_delete m k)) \<subseteq> dom (hm_lookup m)"
  by (auto simp: hash.lookup_del split: if_splits)

lemma dom_hm_poke: "dom (hm_lookup (hm_poke m k v)) = dom (hm_lookup m)"
  by (auto simp: hm_lookup_poke split: if_splits)

text \<open>The maps whose keys stay inside a set.\<close>

definition hm_within :: "'k set \<Rightarrow> ('k, 'v) hmap \<Rightarrow> bool" where
  "hm_within K m \<longleftrightarrow> hm_ok m \<and> dom (hm_lookup m) \<subseteq> K"

lemma hm_within_new [simp]: "hm_within K (hm_new n)"
  by (simp add: hm_within_def dom_def)

lemma hm_within_rules [inv_rules]:
  "hm_within K m \<Longrightarrow> k \<in> K \<Longrightarrow> hm_within K (snd (hm_update f m k v))"
  "hm_within K m \<Longrightarrow> hm_within K (hm_poke m k v)"
  "hm_within K m \<Longrightarrow> hm_within K (hm_delete m k)"
  using dom_hm_update [of f m k v] dom_hm_delete [of m k]
  unfolding hm_within_def dom_hm_poke
  by (blast intro: hm_update_ok hm_delete_ok hm_poke_ok)+

lemma hm_within_room:
  "hm_within K m \<Longrightarrow> finite K \<Longrightarrow> card K \<le> hm_max m \<Longrightarrow> k \<in> K \<Longrightarrow> hm_room m k"
  unfolding hm_within_def by (rule hm_room_card) auto

lemmas map_rules = hash.lookup_update hash.lookup_del hm_lookup_poke arr.lookup_update

lemmas hm_ok_rules [intro] = hash.update_ok hash.del_ok hm_poke_ok

subsection \<open>Tools\<close>

text \<open>
  A tool is a step function over the events the kernel delivers.  \<open>tool\<close>: an invariant kept by
  every step on an event the kernel can deliver (\<open>valid\<close>) holds after every run.  \<open>gated_tool\<close>: the contract of the control maps: while the
  tool is switched off, no event changes its state.
\<close>

locale tool =
  fixes step :: "'e \<Rightarrow> 's \<Rightarrow> 's"
    and inv :: "'s \<Rightarrow> bool"
    and valid :: "'e \<Rightarrow> bool"
  assumes step_inv: "valid e \<Longrightarrow> inv s \<Longrightarrow> inv (step e s)"
begin

lemma run_inv: "(\<And>e. e \<in> set es \<Longrightarrow> valid e) \<Longrightarrow> inv s \<Longrightarrow> inv (run step es s)"
  by (induction es arbitrary: s) (simp_all add: step_inv)

end

locale gated_tool =
  fixes step :: "'e \<Rightarrow> 's \<Rightarrow> 's"
    and enabled :: "'s \<Rightarrow> bool"
  assumes step_off: "\<not> enabled s \<Longrightarrow> step e s = s"
begin

lemma run_off: "\<not> enabled s \<Longrightarrow> run step es s = s"
  by (induction es) (simp_all add: step_off)

end

text \<open>
  \<open>ungated_tool\<close>: the opposite contract, of tools whose probes do not look at their control map:
  what a step does commutes with any change of it.
\<close>

locale ungated_tool =
  fixes step :: "'e \<Rightarrow> 's \<Rightarrow> 's"
    and set_ctrl :: "'c \<Rightarrow> 's \<Rightarrow> 's"
  assumes step_ctrl: "step e (set_ctrl c s) = set_ctrl c (step e s)"
begin

lemma run_ctrl: "run step es (set_ctrl c s) = set_ctrl c (run step es s)"
  by (induction es arbitrary: s) (simp_all add: step_ctrl)

end

text \<open>
  \<open>keyed_tool\<close>: an event that does not touch a party leaves the party's view of the state alone.
  Then a whole run of such events does.
\<close>

locale keyed_tool =
  fixes step :: "'e \<Rightarrow> 's \<Rightarrow> 's"
    and touches :: "'e \<Rightarrow> 'p \<Rightarrow> bool"
    and view :: "'p \<Rightarrow> 's \<Rightarrow> 'w"
  assumes step_frame: "\<not> touches e p \<Longrightarrow> view p (step e s) = view p s"
begin

lemma run_frame: "(\<And>e. e \<in> set es \<Longrightarrow> \<not> touches e p) \<Longrightarrow> view p (run step es s) = view p s"
  by (induction es arbitrary: s) (simp_all add: step_frame)

end

text \<open>
  \<open>sliced_tool\<close>: the tool behaves for each party as a machine of that party's own (\<open>astep\<close>), which
  sees only the events that touch it; one event may touch two parties.  Then every interleaving
  of the parties' events does.
\<close>

locale sliced_tool = tool step inv valid
  for step :: "'e \<Rightarrow> 's \<Rightarrow> 's" and inv and valid +
  fixes touches :: "'e \<Rightarrow> 'p \<Rightarrow> bool"
    and view :: "'p \<Rightarrow> 's \<Rightarrow> 'w"
    and astep :: "'p \<Rightarrow> 'e \<Rightarrow> 'w \<Rightarrow> 'w"
  assumes own_step: "inv s \<Longrightarrow> valid e \<Longrightarrow> touches e p \<Longrightarrow> view p (step e s) = astep p e (view p s)"
    and other_step: "inv s \<Longrightarrow> valid e \<Longrightarrow> \<not> touches e p \<Longrightarrow> view p (step e s) = view p s"
begin

lemma run_slice:
  "inv s \<Longrightarrow> \<forall>e \<in> set es. valid e \<Longrightarrow>
   view p (run step es s) = run (astep p) (filter (\<lambda>e. touches e p) es) (view p s)"
proof (induction es arbitrary: s)
  case Nil
  then show ?case by simp
next
  case (Cons e es)
  then have "inv (step e s)" by (simp add: step_inv)
  with Cons show ?case
    using own_step [of s e p] other_step [of s e p] by auto
qed

end

end
