(* ===== verification/LockImage.thy ===== *)
theory LockImage imports Bpf begin

text \<open>
  The kernel half of the user-lock tool: \<open>include/lock_image.h\<close> (the four recorders),
  \<open>bpf/lock_image.bpf.c\<close> (the maps and the twenty-two probes on the pthread functions) and the
  structures of \<open>include/proc_image.h\<close> they share with user space.

  A thread that enters a lock function leaves the lock's address in \<open>proc_lock\<close> under its pid
  and the lock's kind; the return probe takes it back and reports.  Unlocking goes through
  \<open>proc_unlock\<close> the same way, and \<open>locktype\<close> remembers per lock address whether a
  read-write lock was last taken for reading (1) or writing (2), so that the common unlock
  function can report the right kind.
\<close>

subsection \<open>Structures and maps\<close>

record lock_ctrl =
  lock_func :: bool
  lc_enable_myproc :: bool
  lc_target_pid :: pid_t
  lc_target_tgid :: pid_t

text \<open>The key \<open>struct proc_flag\<close>: the thread and the kind of lock (1 mutex, 2 rwlock, 3 spin).\<close>

record proc_flag =
  pf_pid :: s32
  pf_flag :: s32

record lock_event =
  le_lock_status :: s32
  le_pid :: s32
  le_tgid :: s32
  le_ret :: s32
  le_lock_ptr :: u64
  le_time :: u64

record lock_st =
  lock_ctrl_map :: "lock_ctrl list"
  proc_lock :: "(proc_flag, u64) hmap"
  proc_unlock :: "(proc_flag, u64) hmap"
  locktype :: "(u64, s32) hmap"
  lock_rb :: "lock_event list"

definition lock_maps :: lock_st where
  "lock_maps = \<lparr>
     lock_ctrl_map = [\<lparr>lock_func = False, lc_enable_myproc = False, lc_target_pid = 0, lc_target_tgid = 0\<rparr>],
     proc_lock = hm_new 10240,
     proc_unlock = hm_new 10240,
     locktype = hm_new 10240,
     lock_rb = []\<rparr>"

subsection \<open>The recorders\<close>

text \<open>
  \<open>if(!lock_ctrl || !lock_ctrl->lock_func) return 0;\<close> and the pid filter that follows, the same
  lines in all four recorders.
\<close>

definition lock_ctrl_on :: "lock_st \<Rightarrow> lock_ctrl option" where
  "lock_ctrl_on s = (case arr_lookup (lock_ctrl_map s) 0 of
       None \<Rightarrow> None
     | Some c \<Rightarrow> if lock_func c then Some c else None)"

definition lock_filter :: "s32 \<Rightarrow> lock_ctrl \<Rightarrow> pid_t \<Rightarrow> s32 \<Rightarrow> bool" where
  "lock_filter ignore_tgid c pid tgid \<longleftrightarrow>
     (lc_enable_myproc c \<or> tgid \<noteq> ignore_tgid) \<and>
     ((lc_target_pid c = -1 \<and> lc_target_tgid c = -1) \<or>
      (lc_target_pid c \<noteq> 0 \<and> pid = lc_target_pid c) \<or>
      (lc_target_tgid c \<noteq> 0 \<and> tgid = lc_target_tgid c))"

definition event_tgid :: "lock_ctrl \<Rightarrow> s32 \<Rightarrow> s32" where
  "event_tgid c tgid = (if lc_target_tgid c \<noteq> -1 then tgid else -1)"

definition record_lock_enter ::
  "lock_event kern \<Rightarrow> s32 \<Rightarrow> s32 \<Rightarrow> s32 \<Rightarrow> u64 \<Rightarrow> lock_st \<Rightarrow> lock_st" where
  "record_lock_enter kn ignore_tgid lock_status flag lock_ptr s =
     (case lock_ctrl_on s of None \<Rightarrow> s
      | Some c \<Rightarrow>
          (let pid = cur_pid kn; tgid = cur_tgid kn in
           if lock_filter ignore_tgid c pid tgid then
             (let key = \<lparr>pf_pid = pid, pf_flag = flag\<rparr>;
                  (err, m) = hm_update (kn_upd kn 0) (proc_lock s) key lock_ptr;
                  s = s\<lparr>proc_lock := m\<rparr>
              in if err \<noteq> 0 then s
                 else (case kn_rsv kn 0 of None \<Rightarrow> s
                   | Some e \<Rightarrow> s\<lparr>lock_rb := lock_rb s @
                       [e\<lparr>le_lock_status := lock_status, le_pid := pid,
                          le_tgid := event_tgid c tgid,
                          le_lock_ptr := lock_ptr, le_time := kn_ktime kn 0\<rparr>]\<rparr>))
           else s))"

text \<open>The type \<open>record_lock_exit\<close> stores for a read-write lock: 1 after status 5, 2 after 8.\<close>

definition record_lock_exit ::
  "lock_event kern \<Rightarrow> s32 \<Rightarrow> s32 \<Rightarrow> s32 \<Rightarrow> s32 \<Rightarrow> lock_st \<Rightarrow> lock_st" where
  "record_lock_exit kn ignore_tgid lock_status flag ret s =
     (case lock_ctrl_on s of None \<Rightarrow> s
      | Some c \<Rightarrow>
          (let pid = cur_pid kn; tgid = cur_tgid kn in
           if lock_filter ignore_tgid c pid tgid then
             (let key = \<lparr>pf_pid = pid, pf_flag = flag\<rparr> in
              case hm_lookup (proc_lock s) key of None \<Rightarrow> s
              | Some temp_lock_ptr \<Rightarrow>
                 (let s = s\<lparr>proc_lock := hm_delete (proc_lock s) key\<rparr>;
                      rw = (lock_status = 5 \<or> lock_status = 8) \<and> ret = 0;
                      (err, m) = (if rw
                         then hm_update (kn_upd kn 0) (locktype s) temp_lock_ptr
                                (if lock_status = 5 then 1 else 2)
                         else (0, locktype s));
                      s = s\<lparr>locktype := m\<rparr>
                  in if err \<noteq> 0 then s
                     else (case kn_rsv kn 0 of None \<Rightarrow> s
                       | Some e \<Rightarrow> s\<lparr>lock_rb := lock_rb s @
                           [e\<lparr>le_lock_status := lock_status, le_pid := pid,
                              le_tgid := event_tgid c tgid, le_ret := ret,
                              le_lock_ptr := temp_lock_ptr, le_time := kn_ktime kn 0\<rparr>]\<rparr>)))
           else s))"

definition record_unlock_enter ::
  "lock_event kern \<Rightarrow> s32 \<Rightarrow> s32 \<Rightarrow> u64 \<Rightarrow> lock_st \<Rightarrow> lock_st" where
  "record_unlock_enter kn ignore_tgid flag lock_ptr s =
     (case lock_ctrl_on s of None \<Rightarrow> s
      | Some c \<Rightarrow>
          (let pid = cur_pid kn; tgid = cur_tgid kn in
           if lock_filter ignore_tgid c pid tgid then
             s\<lparr>proc_unlock := snd (hm_update (kn_upd kn 0) (proc_unlock s)
                                   \<lparr>pf_pid = pid, pf_flag = flag\<rparr> lock_ptr)\<rparr>
           else s))"

text \<open>
  The read-write unlock is probed with \<open>lock_status == 0\<close> and takes the status of its report
  from \<open>locktype\<close>; without an entry there it reports nothing.
\<close>

definition record_unlock_exit ::
  "lock_event kern \<Rightarrow> s32 \<Rightarrow> s32 \<Rightarrow> s32 \<Rightarrow> lock_st \<Rightarrow> lock_st" where
  "record_unlock_exit kn ignore_tgid lock_status flag s =
     (case lock_ctrl_on s of None \<Rightarrow> s
      | Some c \<Rightarrow>
          (let pid = cur_pid kn; tgid = cur_tgid kn in
           if lock_filter ignore_tgid c pid tgid then
             (let key = \<lparr>pf_pid = pid, pf_flag = flag\<rparr> in
              case hm_lookup (proc_unlock s) key of None \<Rightarrow> s
              | Some temp_lock_ptr \<Rightarrow>
                 (let s = s\<lparr>proc_unlock := hm_delete (proc_unlock s) key\<rparr>;
                      report = (\<lambda>status s. case kn_rsv kn 0 of None \<Rightarrow> s
                        | Some e \<Rightarrow> s\<lparr>lock_rb := lock_rb s @
                            [e\<lparr>le_lock_status := status, le_pid := pid,
                               le_tgid := event_tgid c tgid,
                               le_lock_ptr := temp_lock_ptr, le_time := kn_ktime kn 0\<rparr>]\<rparr>)
                  in if lock_status = 0 then
                       (case hm_lookup (locktype s) temp_lock_ptr of None \<Rightarrow> s
                        | Some ty \<Rightarrow>
                            report (if ty = 1 then 6 else if ty = 2 then 9 else lock_status)
                              (s\<lparr>locktype := hm_delete (locktype s) temp_lock_ptr\<rparr>))
                     else report lock_status s))
           else s))"

subsection \<open>The probes\<close>

text \<open>
  One definition per probe of \<open>bpf/lock_image.bpf.c\<close>, with the status and the kind it passes.
  A leading double underscore of the C name is dropped.
\<close>

definition pthread_mutex_lock_enter :: "s32 \<Rightarrow> lock_event kern \<Rightarrow> u64 \<Rightarrow> lock_st \<Rightarrow> lock_st" where
  "pthread_mutex_lock_enter ignore_tgid kn lk = record_lock_enter kn ignore_tgid 1 1 lk"

definition pthread_mutex_lock_exit :: "s32 \<Rightarrow> lock_event kern \<Rightarrow> s32 \<Rightarrow> lock_st \<Rightarrow> lock_st" where
  "pthread_mutex_lock_exit ignore_tgid kn ret = record_lock_exit kn ignore_tgid 2 1 ret"

definition pthread_mutex_trylock_enter :: "s32 \<Rightarrow> lock_event kern \<Rightarrow> u64 \<Rightarrow> lock_st \<Rightarrow> lock_st" where
  "pthread_mutex_trylock_enter ignore_tgid kn lk = record_lock_enter kn ignore_tgid 1 1 lk"

definition pthread_mutex_trylock_exit :: "s32 \<Rightarrow> lock_event kern \<Rightarrow> s32 \<Rightarrow> lock_st \<Rightarrow> lock_st" where
  "pthread_mutex_trylock_exit ignore_tgid kn ret = record_lock_exit kn ignore_tgid 2 1 ret"

definition pthread_mutex_unlock_enter :: "s32 \<Rightarrow> lock_event kern \<Rightarrow> u64 \<Rightarrow> lock_st \<Rightarrow> lock_st" where
  "pthread_mutex_unlock_enter ignore_tgid kn lk = record_unlock_enter kn ignore_tgid 1 lk"

definition pthread_mutex_unlock_exit :: "s32 \<Rightarrow> lock_event kern \<Rightarrow> lock_st \<Rightarrow> lock_st" where
  "pthread_mutex_unlock_exit ignore_tgid kn = record_unlock_exit kn ignore_tgid 3 1"

definition pthread_rwlock_rdlock_enter :: "s32 \<Rightarrow> lock_event kern \<Rightarrow> u64 \<Rightarrow> lock_st \<Rightarrow> lock_st" where
  "pthread_rwlock_rdlock_enter ignore_tgid kn lk = record_lock_enter kn ignore_tgid 4 2 lk"

definition pthread_rwlock_rdlock_exit :: "s32 \<Rightarrow> lock_event kern \<Rightarrow> s32 \<Rightarrow> lock_st \<Rightarrow> lock_st" where
  "pthread_rwlock_rdlock_exit ignore_tgid kn ret = record_lock_exit kn ignore_tgid 5 2 ret"

definition pthread_rwlock_tryrdlock_enter :: "s32 \<Rightarrow> lock_event kern \<Rightarrow> u64 \<Rightarrow> lock_st \<Rightarrow> lock_st" where
  "pthread_rwlock_tryrdlock_enter ignore_tgid kn lk = record_lock_enter kn ignore_tgid 4 2 lk"

definition pthread_rwlock_tryrdlock_exit :: "s32 \<Rightarrow> lock_event kern \<Rightarrow> s32 \<Rightarrow> lock_st \<Rightarrow> lock_st" where
  "pthread_rwlock_tryrdlock_exit ignore_tgid kn ret = record_lock_exit kn ignore_tgid 5 2 ret"

definition pthread_rwlock_wrlock_enter :: "s32 \<Rightarrow> lock_event kern \<Rightarrow> u64 \<Rightarrow> lock_st \<Rightarrow> lock_st" where
  "pthread_rwlock_wrlock_enter ignore_tgid kn lk = record_lock_enter kn ignore_tgid 7 2 lk"

definition pthread_rwlock_wrlock_exit :: "s32 \<Rightarrow> lock_event kern \<Rightarrow> s32 \<Rightarrow> lock_st \<Rightarrow> lock_st" where
  "pthread_rwlock_wrlock_exit ignore_tgid kn ret = record_lock_exit kn ignore_tgid 8 2 ret"

definition pthread_rwlock_trywrlock_enter :: "s32 \<Rightarrow> lock_event kern \<Rightarrow> u64 \<Rightarrow> lock_st \<Rightarrow> lock_st" where
  "pthread_rwlock_trywrlock_enter ignore_tgid kn lk = record_lock_enter kn ignore_tgid 7 2 lk"

definition pthread_rwlock_trywrlock_exit :: "s32 \<Rightarrow> lock_event kern \<Rightarrow> s32 \<Rightarrow> lock_st \<Rightarrow> lock_st" where
  "pthread_rwlock_trywrlock_exit ignore_tgid kn ret = record_lock_exit kn ignore_tgid 8 2 ret"

definition pthread_rwlock_unlock_enter :: "s32 \<Rightarrow> lock_event kern \<Rightarrow> u64 \<Rightarrow> lock_st \<Rightarrow> lock_st" where
  "pthread_rwlock_unlock_enter ignore_tgid kn lk = record_unlock_enter kn ignore_tgid 2 lk"

definition pthread_rwlock_unlock_exit :: "s32 \<Rightarrow> lock_event kern \<Rightarrow> lock_st \<Rightarrow> lock_st" where
  "pthread_rwlock_unlock_exit ignore_tgid kn = record_unlock_exit kn ignore_tgid 0 2"

definition pthread_spin_lock_enter :: "s32 \<Rightarrow> lock_event kern \<Rightarrow> u64 \<Rightarrow> lock_st \<Rightarrow> lock_st" where
  "pthread_spin_lock_enter ignore_tgid kn lk = record_lock_enter kn ignore_tgid 10 3 lk"

definition pthread_spin_lock_exit :: "s32 \<Rightarrow> lock_event kern \<Rightarrow> s32 \<Rightarrow> lock_st \<Rightarrow> lock_st" where
  "pthread_spin_lock_exit ignore_tgid kn ret = record_lock_exit kn ignore_tgid 11 3 ret"

definition pthread_spin_trylock_enter :: "s32 \<Rightarrow> lock_event kern \<Rightarrow> u64 \<Rightarrow> lock_st \<Rightarrow> lock_st" where
  "pthread_spin_trylock_enter ignore_tgid kn lk = record_lock_enter kn ignore_tgid 10 3 lk"

definition pthread_spin_trylock_exit :: "s32 \<Rightarrow> lock_event kern \<Rightarrow> s32 \<Rightarrow> lock_st \<Rightarrow> lock_st" where
  "pthread_spin_trylock_exit ignore_tgid kn ret = record_lock_exit kn ignore_tgid 11 3 ret"

definition pthread_spin_unlock_enter :: "s32 \<Rightarrow> lock_event kern \<Rightarrow> u64 \<Rightarrow> lock_st \<Rightarrow> lock_st" where
  "pthread_spin_unlock_enter ignore_tgid kn lk = record_unlock_enter kn ignore_tgid 3 lk"

definition pthread_spin_unlock_exit :: "s32 \<Rightarrow> lock_event kern \<Rightarrow> lock_st \<Rightarrow> lock_st" where
  "pthread_spin_unlock_exit ignore_tgid kn = record_unlock_exit kn ignore_tgid 12 3"

datatype lock_probe =
    Pthread_mutex_lock_enter u64
  | Pthread_mutex_lock_exit s32
  | Pthread_mutex_trylock_enter u64
  | Pthread_mutex_trylock_exit s32
  | Pthread_mutex_unlock_enter u64
  | Pthread_mutex_unlock_exit
  | Pthread_rwlock_rdlock_enter u64
  | Pthread_rwlock_rdlock_exit s32
  | Pthread_rwlock_tryrdlock_enter u64
  | Pthread_rwlock_tryrdlock_exit s32
  | Pthread_rwlock_wrlock_enter u64
  | Pthread_rwlock_wrlock_exit s32
  | Pthread_rwlock_trywrlock_enter u64
  | Pthread_rwlock_trywrlock_exit s32
  | Pthread_rwlock_unlock_enter u64
  | Pthread_rwlock_unlock_exit
  | Pthread_spin_lock_enter u64
  | Pthread_spin_lock_exit s32
  | Pthread_spin_trylock_enter u64
  | Pthread_spin_trylock_exit s32
  | Pthread_spin_unlock_enter u64
  | Pthread_spin_unlock_exit

fun lock_probe_step :: "s32 \<Rightarrow> lock_event kern \<Rightarrow> lock_probe \<Rightarrow> lock_st \<Rightarrow> lock_st" where
  "lock_probe_step g kn (Pthread_mutex_lock_enter lk) = pthread_mutex_lock_enter g kn lk"
| "lock_probe_step g kn (Pthread_mutex_lock_exit ret) = pthread_mutex_lock_exit g kn ret"
| "lock_probe_step g kn (Pthread_mutex_trylock_enter lk) = pthread_mutex_trylock_enter g kn lk"
| "lock_probe_step g kn (Pthread_mutex_trylock_exit ret) = pthread_mutex_trylock_exit g kn ret"
| "lock_probe_step g kn (Pthread_mutex_unlock_enter lk) = pthread_mutex_unlock_enter g kn lk"
| "lock_probe_step g kn Pthread_mutex_unlock_exit = pthread_mutex_unlock_exit g kn"
| "lock_probe_step g kn (Pthread_rwlock_rdlock_enter lk) = pthread_rwlock_rdlock_enter g kn lk"
| "lock_probe_step g kn (Pthread_rwlock_rdlock_exit ret) = pthread_rwlock_rdlock_exit g kn ret"
| "lock_probe_step g kn (Pthread_rwlock_tryrdlock_enter lk) = pthread_rwlock_tryrdlock_enter g kn lk"
| "lock_probe_step g kn (Pthread_rwlock_tryrdlock_exit ret) = pthread_rwlock_tryrdlock_exit g kn ret"
| "lock_probe_step g kn (Pthread_rwlock_wrlock_enter lk) = pthread_rwlock_wrlock_enter g kn lk"
| "lock_probe_step g kn (Pthread_rwlock_wrlock_exit ret) = pthread_rwlock_wrlock_exit g kn ret"
| "lock_probe_step g kn (Pthread_rwlock_trywrlock_enter lk) = pthread_rwlock_trywrlock_enter g kn lk"
| "lock_probe_step g kn (Pthread_rwlock_trywrlock_exit ret) = pthread_rwlock_trywrlock_exit g kn ret"
| "lock_probe_step g kn (Pthread_rwlock_unlock_enter lk) = pthread_rwlock_unlock_enter g kn lk"
| "lock_probe_step g kn Pthread_rwlock_unlock_exit = pthread_rwlock_unlock_exit g kn"
| "lock_probe_step g kn (Pthread_spin_lock_enter lk) = pthread_spin_lock_enter g kn lk"
| "lock_probe_step g kn (Pthread_spin_lock_exit ret) = pthread_spin_lock_exit g kn ret"
| "lock_probe_step g kn (Pthread_spin_trylock_enter lk) = pthread_spin_trylock_enter g kn lk"
| "lock_probe_step g kn (Pthread_spin_trylock_exit ret) = pthread_spin_trylock_exit g kn ret"
| "lock_probe_step g kn (Pthread_spin_unlock_enter lk) = pthread_spin_unlock_enter g kn lk"
| "lock_probe_step g kn Pthread_spin_unlock_exit = pthread_spin_unlock_exit g kn"

definition lock_step :: "s32 \<Rightarrow> lock_event kern \<times> lock_probe \<Rightarrow> lock_st \<Rightarrow> lock_st" where
  "lock_step ignore_tgid e s = lock_probe_step ignore_tgid (fst e) (snd e) s"

lemmas probe_defs =
  pthread_mutex_lock_enter_def pthread_mutex_lock_exit_def
  pthread_mutex_trylock_enter_def pthread_mutex_trylock_exit_def
  pthread_mutex_unlock_enter_def pthread_mutex_unlock_exit_def
  pthread_rwlock_rdlock_enter_def pthread_rwlock_rdlock_exit_def
  pthread_rwlock_tryrdlock_enter_def pthread_rwlock_tryrdlock_exit_def
  pthread_rwlock_wrlock_enter_def pthread_rwlock_wrlock_exit_def
  pthread_rwlock_trywrlock_enter_def pthread_rwlock_trywrlock_exit_def
  pthread_rwlock_unlock_enter_def pthread_rwlock_unlock_exit_def
  pthread_spin_lock_enter_def pthread_spin_lock_exit_def
  pthread_spin_trylock_enter_def pthread_spin_trylock_exit_def
  pthread_spin_unlock_enter_def pthread_spin_unlock_exit_def

subsection \<open>What a step can do\<close>

text \<open>Every probe is one of the four recorders with one of the listed statuses and kinds.\<close>

lemma lock_step_cases:
  assumes "\<And>st f lk. (st, f) \<in> {(1, 1), (4, 2), (7, 2), (10, 3)} \<Longrightarrow> P (record_lock_enter kn g st f lk s)"
    and "\<And>st f ret. (st, f) \<in> {(2, 1), (5, 2), (8, 2), (11, 3)} \<Longrightarrow> P (record_lock_exit kn g st f ret s)"
    and "\<And>f lk. f \<in> {1, 2, 3} \<Longrightarrow> P (record_unlock_enter kn g f lk s)"
    and "\<And>st f. (st, f) \<in> {(3, 1), (0, 2), (12, 3)} \<Longrightarrow> P (record_unlock_exit kn g st f s)"
  shows "P (lock_step g (kn, pr) s)"
  by (cases pr) (simp_all add: lock_step_def probe_defs assms)

lemma lock_ctrl_record [simp]:
  "lock_ctrl_map (record_lock_enter kn g st f lk s) = lock_ctrl_map s"
  "lock_ctrl_map (record_lock_exit kn g st f ret s) = lock_ctrl_map s"
  "lock_ctrl_map (record_unlock_enter kn g f lk s) = lock_ctrl_map s"
  "lock_ctrl_map (record_unlock_exit kn g st f s) = lock_ctrl_map s"
  by (auto simp: record_lock_enter_def record_lock_exit_def record_unlock_enter_def
      record_unlock_exit_def Let_def case_prod_beta split: option.splits)

lemma lock_ctrl_step [simp]: "lock_ctrl_map (lock_step g e s) = lock_ctrl_map s"
proof (cases e)
  case (Pair kn pr)
  then show ?thesis by (simp add: lock_step_cases [where P = "\<lambda>t. lock_ctrl_map t = lock_ctrl_map s"])
qed

lemma lock_ctrl_run [simp]: "lock_ctrl_map (run (lock_step g) es s) = lock_ctrl_map s"
  by (induction es arbitrary: s) simp_all

lemma lock_ctrl_on_run [simp]: "lock_ctrl_on (run (lock_step g) es s) = lock_ctrl_on s"
  by (simp add: lock_ctrl_on_def)

text \<open>The control map is the tool's switch.\<close>

lemma lock_step_off: "lock_ctrl_on s = None \<Longrightarrow> lock_step g e s = s"
proof (cases e)
  case (Pair kn pr)
  moreover assume "lock_ctrl_on s = None"
  ultimately show ?thesis
    by (simp add: lock_step_cases [where P = "\<lambda>t. t = s"] record_lock_enter_def
        record_lock_exit_def record_unlock_enter_def record_unlock_exit_def)
qed

interpretation lock: gated_tool "lock_step g" "\<lambda>s. lock_ctrl_on s \<noteq> None"
  by unfold_locales (simp add: lock_step_off)

text \<open>
  A probe of one thread leaves the pending addresses of every other thread alone: the keys of
  \<open>proc_lock\<close> and \<open>proc_unlock\<close> carry the pid.
\<close>

definition lock_pending :: "pid_t \<Rightarrow> lock_st \<Rightarrow> (s32 \<Rightarrow> u64 option) \<times> (s32 \<Rightarrow> u64 option)" where
  "lock_pending p s =
     ((\<lambda>f. hm_lookup (proc_lock s) \<lparr>pf_pid = p, pf_flag = f\<rparr>),
      (\<lambda>f. hm_lookup (proc_unlock s) \<lparr>pf_pid = p, pf_flag = f\<rparr>))"

lemma lock_pending_record:
  assumes "cur_pid kn \<noteq> p"
  shows "lock_pending p (record_lock_enter kn g st f lk s) = lock_pending p s"
    and "lock_pending p (record_lock_exit kn g st f ret s) = lock_pending p s"
    and "lock_pending p (record_unlock_enter kn g f lk s) = lock_pending p s"
    and "lock_pending p (record_unlock_exit kn g st f s) = lock_pending p s"
  using assms
  by (auto simp: lock_pending_def fun_eq_iff record_lock_enter_def record_lock_exit_def
      record_unlock_enter_def record_unlock_exit_def Let_def hash.lookup_del
      hash.lookup_update_other case_prod_beta split: option.splits)

interpretation lock_owner: keyed_tool "lock_step g" "\<lambda>e p. cur_pid (fst e) = p" lock_pending
proof unfold_locales
  fix e :: "lock_event kern \<times> lock_probe" and p s
  assume "cur_pid (fst e) \<noteq> p"
  then show "lock_pending p (lock_step g e s) = lock_pending p s"
    by (cases e) (simp add: lock_step_cases [where P = "\<lambda>t. lock_pending p t = lock_pending p s"]
        lock_pending_record)
qed

end
