(* ===== verification/LockProps.thy ===== *)
theory LockProps imports LockImage begin

text \<open>
  The properties of the user-lock tool: what is reported is what the thread did
  (\<open>lock_pairing\<close>, \<open>rwlock_session\<close>), only threads that pass the filter are reported
  (\<open>lock_isolation\<close>), every report has a name in \<open>lock_status[]\<close> (\<open>lock_status_named\<close>), the
  switch works (\<open>lock_off\<close>), and where the per-lock type entry falls short
  (\<open>second_reader_unlock_lost\<close>).
\<close>

subsection \<open>The recorders on their reporting branch\<close>

lemma record_lock_enter_done:
  assumes "lock_ctrl_on s = Some c" and "lock_filter g c (cur_pid kn) (cur_tgid kn)"
    and "kn_upd kn 0 = 0" and "hm_room (proc_lock s) \<lparr>pf_pid = cur_pid kn, pf_flag = f\<rparr>"
  shows "hm_lookup (proc_lock (record_lock_enter kn g st f lk s)) =
           (hm_lookup (proc_lock s))(\<lparr>pf_pid = cur_pid kn, pf_flag = f\<rparr> \<mapsto> lk)"
    and "proc_unlock (record_lock_enter kn g st f lk s) = proc_unlock s"
    and "locktype (record_lock_enter kn g st f lk s) = locktype s"
    and "kn_rsv kn 0 = Some e \<Longrightarrow> lock_rb (record_lock_enter kn g st f lk s) = lock_rb s @
           [e\<lparr>le_lock_status := st, le_pid := cur_pid kn, le_tgid := event_tgid c (cur_tgid kn),
              le_lock_ptr := lk, le_time := kn_ktime kn 0\<rparr>]"
  using assms
  by (auto simp: record_lock_enter_def Let_def hash.lookup_update fun_eq_iff hash.update_accepted
      case_prod_beta split: option.splits)

lemma record_lock_exit_done:
  assumes "lock_ctrl_on s = Some c" and "lock_filter g c (cur_pid kn) (cur_tgid kn)"
    and "hm_lookup (proc_lock s) \<lparr>pf_pid = cur_pid kn, pf_flag = f\<rparr> = Some lk"
    and "(st = 5 \<or> st = 8) \<and> ret = 0 \<Longrightarrow> kn_upd kn 0 = 0 \<and> hm_room (locktype s) lk"
  shows "hm_lookup (proc_lock (record_lock_exit kn g st f ret s)) =
           (hm_lookup (proc_lock s))(\<lparr>pf_pid = cur_pid kn, pf_flag = f\<rparr> := None)"
    and "proc_unlock (record_lock_exit kn g st f ret s) = proc_unlock s"
    and "hm_lookup (locktype (record_lock_exit kn g st f ret s)) =
           (if (st = 5 \<or> st = 8) \<and> ret = 0
            then (hm_lookup (locktype s))(lk \<mapsto> (if st = 5 then 1 else 2))
            else hm_lookup (locktype s))"
    and "kn_rsv kn 0 = Some e \<Longrightarrow> lock_rb (record_lock_exit kn g st f ret s) = lock_rb s @
           [e\<lparr>le_lock_status := st, le_pid := cur_pid kn, le_tgid := event_tgid c (cur_tgid kn),
              le_ret := ret, le_lock_ptr := lk, le_time := kn_ktime kn 0\<rparr>]"
  using assms
  by (auto simp: record_lock_exit_def Let_def hash.lookup_update hash.lookup_del fun_eq_iff
      hash.update_accepted case_prod_beta split: option.splits)

lemma record_unlock_enter_done:
  assumes "lock_ctrl_on s = Some c" and "lock_filter g c (cur_pid kn) (cur_tgid kn)"
    and "kn_upd kn 0 = 0" and "hm_room (proc_unlock s) \<lparr>pf_pid = cur_pid kn, pf_flag = f\<rparr>"
  shows "hm_lookup (proc_unlock (record_unlock_enter kn g f lk s)) =
           (hm_lookup (proc_unlock s))(\<lparr>pf_pid = cur_pid kn, pf_flag = f\<rparr> \<mapsto> lk)"
    and "proc_lock (record_unlock_enter kn g f lk s) = proc_lock s"
    and "locktype (record_unlock_enter kn g f lk s) = locktype s"
    and "lock_rb (record_unlock_enter kn g f lk s) = lock_rb s"
  using assms
  by (auto simp: record_unlock_enter_def Let_def hash.lookup_update fun_eq_iff)

text \<open>What the unlock return probe reports as status, given the entry of \<open>locktype\<close>.\<close>

lemma record_unlock_exit_done:
  assumes "lock_ctrl_on s = Some c" and "lock_filter g c (cur_pid kn) (cur_tgid kn)"
    and "hm_lookup (proc_unlock s) \<lparr>pf_pid = cur_pid kn, pf_flag = f\<rparr> = Some lk"
    and "kn_rsv kn 0 = Some e"
    and "st = 0 \<Longrightarrow> hm_lookup (locktype s) lk = Some ty \<and> (ty = 1 \<or> ty = 2)"
  shows "lock_rb (record_unlock_exit kn g st f s) = lock_rb s @
           [e\<lparr>le_lock_status := (if st = 0 then (if ty = 1 then 6 else 9) else st),
              le_pid := cur_pid kn, le_tgid := event_tgid c (cur_tgid kn),
              le_lock_ptr := lk, le_time := kn_ktime kn 0\<rparr>]"
    and "st = 0 \<Longrightarrow> hm_lookup (locktype (record_unlock_exit kn g st f s)) lk = None"
  using assms
  by (auto simp: record_unlock_exit_def Let_def hash.lookup_del)

lemma record_unlock_exit_untyped:
  assumes "hm_lookup (locktype s) lk = None"
    and "hm_lookup (proc_unlock s) \<lparr>pf_pid = cur_pid kn, pf_flag = f\<rparr> = Some lk"
  shows "lock_rb (record_unlock_exit kn g 0 f s) = lock_rb s"
  using assms by (auto simp: record_unlock_exit_def Let_def split: option.splits)

subsection \<open>Pairing\<close>

text \<open>
  C1. A thread that passes the filter enters a lock function and later returns from it; whatever
  other threads' probes fire in between, the return probe reports exactly one event, with the
  status and result of the return probe, the address the enter probe saw, and the time of the
  return, and the pending address is gone.  The tool is on, the maps the two calls insert into have
  room, and the kernel grants their insertions and the reservation.
\<close>

theorem lock_pairing:
  assumes "lock_ctrl_on s = Some c" and "cur_pid kx = cur_pid ke"
    and "lock_filter g c (cur_pid ke) (cur_tgid ke)" and "lock_filter g c (cur_pid kx) (cur_tgid kx)"
    and "kn_upd ke 0 = 0" and "hm_room (proc_lock s) \<lparr>pf_pid = cur_pid ke, pf_flag = f\<rparr>"
    and "\<And>e. e \<in> set es \<Longrightarrow> cur_pid (fst e) \<noteq> cur_pid ke"
    and "kn_rsv kx 0 = Some slot"
    and "(stx = 5 \<or> stx = 8) \<and> ret = 0 \<Longrightarrow> kn_upd kx 0 = 0 \<and>
         hm_room (locktype (run (lock_step g) es (record_lock_enter ke g ste f lk s))) lk"
  shows "lock_rb (record_lock_exit kx g stx f ret (run (lock_step g) es (record_lock_enter ke g ste f lk s))) =
           lock_rb (run (lock_step g) es (record_lock_enter ke g ste f lk s)) @
             [slot\<lparr>le_lock_status := stx, le_pid := cur_pid ke, le_tgid := event_tgid c (cur_tgid kx),
                le_ret := ret, le_lock_ptr := lk, le_time := kn_ktime kx 0\<rparr>]
         \<and> hm_lookup (proc_lock (record_lock_exit kx g stx f ret
               (run (lock_step g) es (record_lock_enter ke g ste f lk s))))
             \<lparr>pf_pid = cur_pid ke, pf_flag = f\<rparr> = None"
proof -
  let ?s0 = "record_lock_enter ke g ste f lk s"
  let ?s1 = "run (lock_step g) es ?s0"
  have c0: "lock_ctrl_on ?s0 = Some c"
    using assms(1) by (simp add: lock_ctrl_on_def)
  have "hm_lookup (proc_lock ?s0) \<lparr>pf_pid = cur_pid ke, pf_flag = f\<rparr> = Some lk"
    by (simp add: record_lock_enter_done(1) [OF assms(1,3,5,6)])
  moreover have "lock_pending (cur_pid ke) ?s1 = lock_pending (cur_pid ke) ?s0"
    using assms(7) by (intro lock_owner.run_frame) auto
  ultimately have "hm_lookup (proc_lock ?s1) \<lparr>pf_pid = cur_pid kx, pf_flag = f\<rparr> = Some lk"
    by (simp add: lock_pending_def fun_eq_iff assms(2))
  note returned = record_lock_exit_done [where s = ?s1, OF _ assms(4) this assms(9)]
  show ?thesis
    using returned(1,4) assms(8) c0 assms(2) by simp
qed

text \<open>A state with the tool switched on for every thread, and a cleared ring-buffer record.\<close>

definition lock_demo :: lock_st where
  "lock_demo = lock_maps\<lparr>lock_ctrl_map := [\<lparr>lock_func = True, lc_enable_myproc = True,
      lc_target_pid = -1, lc_target_tgid = -1\<rparr>]\<rparr>"

definition lock_slot :: lock_event where
  "lock_slot = \<lparr>le_lock_status = 0, le_pid = 0, le_tgid = 0, le_ret = 0, le_lock_ptr = 0, le_time = 0\<rparr>"

lemma lock_demo_simps [simp]:
  "lock_ctrl_on lock_demo = Some \<lparr>lock_func = True, lc_enable_myproc = True,
      lc_target_pid = -1, lc_target_tgid = -1\<rparr>"
  "hm_room (proc_lock lock_demo) k" "hm_room (proc_unlock lock_demo) k" "hm_room (locktype lock_demo) a"
  "hm_lookup (locktype lock_demo) a = None"
  "lock_rb lock_demo = []"
  by (simp_all add: lock_demo_def lock_maps_def lock_ctrl_on_def arr_lookup_def hm_room_def hm_new_def
      hm_lookup_def)

theorem lock_pairing_witness:
  "lock_rb (record_lock_exit (calm 7 7 20 lock_slot) 1 2 1 0
     (run (lock_step 1) [(calm 8 8 15 lock_slot, Pthread_mutex_lock_enter 5)]
       (record_lock_enter (calm 7 7 10 lock_slot) 1 1 1 99 lock_demo))) \<noteq> []"
  using lock_pairing [where s = lock_demo and g = 1 and f = 1 and lk = 99 and ste = 1 and stx = 2 and ret = 0
      and es = "[(calm 8 8 15 lock_slot, Pthread_mutex_lock_enter 5)]" and slot = lock_slot
      and ke = "calm 7 7 10 lock_slot" and kx = "calm 7 7 20 lock_slot", OF lock_demo_simps(1)]
  by (simp add: lock_filter_def)

subsection \<open>Read-write locks\<close>

lemma hm_room_update_other: "hm_room m k' \<Longrightarrow> fst (hm_update f m k v) \<noteq> 0 \<Longrightarrow> hm_room (snd (hm_update f m k v)) k'"
  by (simp add: hash.update_refused)

text \<open>
  C2. A thread locks a read-write lock, successfully, and unlocks it, with no other probe in
  between: the reports are the request, the acquisition and the release of the right kind
  (4, 5, 6 for reading, 7, 8, 9 for writing), all with the lock's address, and the type entry of
  the lock is gone afterwards, with the tool on, room in the three maps, and a kernel that
  grants every insertion and reservation.
\<close>

theorem rwlock_session:
  assumes "lock_ctrl_on s = Some c"
    and "(a, b, r) \<in> {(4, 5, 6), (7, 8, 9)}"
    and "\<And>k. k \<in> {k1, k2, k3, k4} \<Longrightarrow> cur_pid k = p \<and> cur_tgid k = t \<and> kn_upd k 0 = 0 \<and> kn_rsv k 0 = Some e"
    and "lock_filter g c p t"
    and "hm_room (proc_lock s) \<lparr>pf_pid = p, pf_flag = 2\<rparr>"
    and "hm_room (proc_unlock s) \<lparr>pf_pid = p, pf_flag = 2\<rparr>"
    and "hm_room (locktype s) lk"
  shows "map le_lock_status (drop (length (lock_rb s)) (lock_rb
            (record_unlock_exit k4 g 0 2 (record_unlock_enter k3 g 2 lk
              (record_lock_exit k2 g b 2 0 (record_lock_enter k1 g a 2 lk s)))))) = [a, b, r]
       \<and> map le_lock_ptr (drop (length (lock_rb s)) (lock_rb
            (record_unlock_exit k4 g 0 2 (record_unlock_enter k3 g 2 lk
              (record_lock_exit k2 g b 2 0 (record_lock_enter k1 g a 2 lk s)))))) = [lk, lk, lk]
       \<and> hm_lookup (locktype (record_unlock_exit k4 g 0 2 (record_unlock_enter k3 g 2 lk
              (record_lock_exit k2 g b 2 0 (record_lock_enter k1 g a 2 lk s))))) lk = None"
proof -
  define s1 where "s1 = record_lock_enter k1 g a 2 lk s"
  define s2 where "s2 = record_lock_exit k2 g b 2 0 s1"
  define s3 where "s3 = record_unlock_enter k3 g 2 lk s2"
  have on: "lock_ctrl_on s1 = Some c" "lock_ctrl_on s2 = Some c" "lock_ctrl_on s3 = Some c"
    using assms(1) by (simp_all add: s1_def s2_def s3_def lock_ctrl_on_def)
  have k: "cur_pid k1 = p" "cur_pid k2 = p" "cur_pid k3 = p" "cur_pid k4 = p"
      "cur_tgid k1 = t" "cur_tgid k2 = t" "cur_tgid k3 = t" "cur_tgid k4 = t"
      "kn_upd k1 0 = 0" "kn_upd k2 0 = 0" "kn_upd k3 0 = 0"
      "kn_rsv k1 0 = Some e" "kn_rsv k2 0 = Some e" "kn_rsv k4 0 = Some e"
    using assms(3) by blast+
  have enter: "hm_lookup (proc_lock s1) \<lparr>pf_pid = p, pf_flag = 2\<rparr> = Some lk"
      "proc_unlock s1 = proc_unlock s" "locktype s1 = locktype s"
      "\<exists>x. lock_rb s1 = lock_rb s @ [x] \<and> le_lock_status x = a \<and> le_lock_ptr x = lk"
    unfolding s1_def
    using record_lock_enter_done [OF assms(1), where g = g and kn = k1 and f = 2] assms(4,5) k by auto
  have "hm_lookup (locktype s2) lk = Some (if b = 5 then 1 else 2)"
      "proc_unlock s2 = proc_unlock s"
      "\<exists>x. lock_rb s2 = lock_rb s1 @ [x] \<and> le_lock_status x = b \<and> le_lock_ptr x = lk"
    unfolding s2_def
    using record_lock_exit_done [OF on(1), where g = g and kn = k2 and f = 2 and lk = lk and st = b and ret = 0] assms(2,4,7) k enter by auto
  moreover from this have "hm_lookup (proc_unlock s3) \<lparr>pf_pid = p, pf_flag = 2\<rparr> = Some lk"
      "locktype s3 = locktype s2" "lock_rb s3 = lock_rb s2"
    unfolding s3_def
    using record_unlock_enter_done [OF on(2), where g = g and kn = k3 and f = 2] assms(4,6) k by auto
  ultimately have ty: "hm_lookup (locktype s3) lk = Some (if b = 5 then 1 else 2)"
      and un: "hm_lookup (proc_unlock s3) \<lparr>pf_pid = cur_pid k4, pf_flag = 2\<rparr> = Some lk"
      and rb: "map le_lock_status (drop (length (lock_rb s)) (lock_rb s3)) = [a, b]"
        "map le_lock_ptr (drop (length (lock_rb s)) (lock_rb s3)) = [lk, lk]"
        "length (lock_rb s) \<le> length (lock_rb s3)"
    using enter(4) k by auto
  have filt: "lock_filter g c (cur_pid k4) (cur_tgid k4)" and rsv: "kn_rsv k4 0 = Some e"
    using assms(4) k by auto
  note unlocked = record_unlock_exit_done [OF on(3) filt un rsv, where ty = "if b = 5 then 1 else 2" and st = 0]
  have "lock_rb (record_unlock_exit k4 g 0 2 s3) = lock_rb s3 @
      [e\<lparr>le_lock_status := r, le_pid := p, le_tgid := event_tgid c t, le_lock_ptr := lk,
         le_time := kn_ktime k4 0\<rparr>]"
    using unlocked(1) ty assms(2) k by auto
  moreover have "hm_lookup (locktype (record_unlock_exit k4 g 0 2 s3)) lk = None"
    using unlocked(2) ty by simp
  ultimately show ?thesis
    using rb by (simp add: s1_def s2_def s3_def)
qed

theorem rwlock_session_witness:
  "map le_lock_status (lock_rb
     (record_unlock_exit (calm 7 7 4 lock_slot) 1 0 2 (record_unlock_enter (calm 7 7 3 lock_slot) 1 2 99
       (record_lock_exit (calm 7 7 2 lock_slot) 1 8 2 0
         (record_lock_enter (calm 7 7 1 lock_slot) 1 7 2 99 lock_demo))))) = [7, 8, 9]"
proof -
  have "\<And>k. k \<in> {calm 7 7 1 lock_slot, calm 7 7 2 lock_slot, calm 7 7 3 lock_slot, calm 7 7 4 lock_slot} \<Longrightarrow>
      cur_pid k = 7 \<and> cur_tgid k = 7 \<and> kn_upd k 0 = 0 \<and> kn_rsv k 0 = Some lock_slot"
    by auto
  from rwlock_session [where lk = 99 and g = 1 and a = 7 and b = 8 and r = 9, OF lock_demo_simps(1) _ this]
  show ?thesis by (simp add: lock_filter_def)
qed

text \<open>
  Two threads hold the same lock for reading and release it one after the other.  The second
  release is not reported: \<open>locktype\<close> has one entry per lock address and the first release
  deleted it.  (Threads 7 and 8, lock 99; every kernel call succeeds.)
\<close>

theorem second_reader_unlock_lost:
  "map (\<lambda>e. (le_pid e, le_lock_status e)) (lock_rb (run (lock_step 1)
     [(calm 7 7 1 lock_slot, Pthread_rwlock_rdlock_enter 99),
      (calm 7 7 2 lock_slot, Pthread_rwlock_rdlock_exit 0),
      (calm 8 8 3 lock_slot, Pthread_rwlock_rdlock_enter 99),
      (calm 8 8 4 lock_slot, Pthread_rwlock_rdlock_exit 0),
      (calm 7 7 5 lock_slot, Pthread_rwlock_unlock_enter 99),
      (calm 7 7 6 lock_slot, Pthread_rwlock_unlock_exit),
      (calm 8 8 7 lock_slot, Pthread_rwlock_unlock_enter 99),
      (calm 8 8 8 lock_slot, Pthread_rwlock_unlock_exit)] lock_demo))
   = [(7, 4), (7, 5), (8, 4), (8, 5), (7, 6)]"
  by (simp add: lock_step_def probe_defs record_lock_enter_def record_lock_exit_def
      record_unlock_enter_def record_unlock_exit_def lock_ctrl_on_def lock_demo_def lock_maps_def
      arr_lookup_def lock_filter_def hm_update_def hm_lookup_def hm_new_def hm_delete_def Let_def
      event_tgid_def)

subsection \<open>Isolation\<close>

text \<open>Every recorder adds at most one report, about the current thread, and only when it passes.\<close>

definition lock_reports_only :: "s32 \<Rightarrow> lock_event kern \<Rightarrow> lock_st \<Rightarrow> lock_st \<Rightarrow> bool" where
  "lock_reports_only g kn s t \<longleftrightarrow> (\<forall>e \<in> set (lock_rb t). e \<in> set (lock_rb s) \<or>
     (\<exists>c. lock_ctrl_on s = Some c \<and> lock_filter g c (cur_pid kn) (cur_tgid kn) \<and>
          le_pid e = cur_pid kn \<and> le_tgid e = event_tgid c (cur_tgid kn)))"

lemma lock_reports_only_record:
  "lock_reports_only g kn s (record_lock_enter kn g st f lk s)"
  "lock_reports_only g kn s (record_lock_exit kn g st f ret s)"
  "lock_reports_only g kn s (record_unlock_enter kn g f lk s)"
  "lock_reports_only g kn s (record_unlock_exit kn g st f s)"
  by (auto simp: lock_reports_only_def record_lock_enter_def record_lock_exit_def
      record_unlock_enter_def record_unlock_exit_def Let_def case_prod_beta
      split: option.splits if_splits)

lemma lock_reports_only_step: "lock_reports_only g kn s (lock_step g (kn, pr) s)"
  by (rule lock_step_cases) (rule lock_reports_only_record)+

text \<open>
  Every report in the ring buffer that was not there at the start is about a thread that
  fired a probe of this run and passes the filter of the control map, and carries that thread's
  pid, and its tgid exactly when a thread group is targeted.
\<close>

theorem lock_isolation:
  "\<forall>e \<in> set (lock_rb (run (lock_step g) es s)) - set (lock_rb s).
     \<exists>c kn pr. lock_ctrl_on s = Some c \<and> (kn, pr) \<in> set es \<and>
       lock_filter g c (cur_pid kn) (cur_tgid kn) \<and>
       le_pid e = cur_pid kn \<and> le_tgid e = event_tgid c (cur_tgid kn)"
proof (induction es arbitrary: s)
  case Nil
  then show ?case by simp
next
  case (Cons ev es)
  obtain kn pr where ev: "ev = (kn, pr)" by (cases ev)
  have on: "lock_ctrl_on (lock_step g ev s) = lock_ctrl_on s"
    by (simp add: lock_ctrl_on_def)
  show ?case
  proof
    fix e
    assume e: "e \<in> set (lock_rb (run (lock_step g) (ev # es) s)) - set (lock_rb s)"
    show "\<exists>c kn pr. lock_ctrl_on s = Some c \<and> (kn, pr) \<in> set (ev # es) \<and>
        lock_filter g c (cur_pid kn) (cur_tgid kn) \<and>
        le_pid e = cur_pid kn \<and> le_tgid e = event_tgid c (cur_tgid kn)"
    proof (cases "e \<in> set (lock_rb (lock_step g ev s))")
      case True
      then obtain c where "lock_ctrl_on s = Some c" "lock_filter g c (cur_pid kn) (cur_tgid kn)"
          "le_pid e = cur_pid kn" "le_tgid e = event_tgid c (cur_tgid kn)"
        using lock_reports_only_step [of g kn s pr] e by (auto simp: lock_reports_only_def ev)
      moreover have "(kn, pr) \<in> set (ev # es)"
        by (simp add: ev)
      ultimately show ?thesis by blast
    next
      case False
      then show ?thesis
        using Cons.IH [of "lock_step g ev s"] e unfolding on run_Cons by fastforce
    qed
  qed
qed

lemma lock_demo_reports:
  "lock_rb (run (lock_step 1) [(calm 7 7 1 lock_slot, Pthread_mutex_lock_enter 99)] lock_demo) \<noteq> []"
  by (simp add: lock_step_def probe_defs record_lock_enter_def lock_demo_def lock_maps_def lock_ctrl_on_def
      arr_lookup_def hm_new_def hm_update_def hm_lookup_def lock_filter_def Let_def)

theorem lock_isolation_witness:
  "le_pid (hd (lock_rb (run (lock_step 1) [(calm 7 7 1 lock_slot, Pthread_mutex_lock_enter 99)] lock_demo))) = 7"
proof -
  note lock_demo_reports
  then show ?thesis
    using lock_isolation [of 1 "[(calm 7 7 1 lock_slot, Pthread_mutex_lock_enter 99)]" lock_demo]
    by (fastforce dest: hd_in_set)
qed

subsection \<open>Reported statuses\<close>

definition lock_inv :: "lock_st \<Rightarrow> bool" where
  "lock_inv s \<longleftrightarrow> hm_ok (proc_lock s) \<and> hm_ok (proc_unlock s) \<and> hm_ok (locktype s) \<and>
     (\<forall>a ty. hm_lookup (locktype s) a = Some ty \<longrightarrow> ty = 1 \<or> ty = 2) \<and>
     (\<forall>e \<in> set (lock_rb s). 1 \<le> unat (le_lock_status e) \<and> unat (le_lock_status e) \<le> 12)"

lemma lock_inv_record [inv_rules]:
  "lock_inv s \<Longrightarrow> (st, f) \<in> {(1, 1), (4, 2), (7, 2), (10, 3)} \<Longrightarrow> lock_inv (record_lock_enter kn g st f lk s)"
  "lock_inv s \<Longrightarrow> (st, f) \<in> {(2, 1), (5, 2), (8, 2), (11, 3)} \<Longrightarrow> lock_inv (record_lock_exit kn g st f ret s)"
  "lock_inv s \<Longrightarrow> lock_inv (record_unlock_enter kn g f lk s)"
  "lock_inv s \<Longrightarrow> (st, f) \<in> {(3, 1), (0, 2), (12, 3)} \<Longrightarrow> lock_inv (record_unlock_exit kn g st f s)"
  by (auto simp: lock_inv_def record_lock_enter_def record_lock_exit_def record_unlock_enter_def
      record_unlock_exit_def Let_def case_prod_beta hash.lookup_update hash.lookup_del
      split: option.splits if_splits)

lemma lock_inv_step: "lock_inv s \<Longrightarrow> lock_inv (lock_step g (kn, pr) s)"
  by (rule lock_step_cases) (rule inv_rules; assumption)+

interpretation lock_tool: tool "lock_step g" lock_inv "\<lambda>e. True"
  by unfold_locales (metis lock_inv_step surj_pair)

text \<open>
  From the maps as loaded, under any control block and any run of probes, every report has a
  status between 1 and 12, so that user space's \<open>lock_status[e->lock_status]\<close> stays inside its
  thirteen names; the maps stay within their capacity.
\<close>

theorem lock_status_named:
  "(\<forall>e \<in> set (lock_rb (run (lock_step g) es (lock_maps\<lparr>lock_ctrl_map := [c]\<rparr>))).
      1 \<le> unat (le_lock_status e) \<and> unat (le_lock_status e) \<le> 12)
   \<and> hm_ok (proc_lock (run (lock_step g) es (lock_maps\<lparr>lock_ctrl_map := [c]\<rparr>)))
   \<and> hm_ok (proc_unlock (run (lock_step g) es (lock_maps\<lparr>lock_ctrl_map := [c]\<rparr>)))
   \<and> hm_ok (locktype (run (lock_step g) es (lock_maps\<lparr>lock_ctrl_map := [c]\<rparr>)))"
proof -
  have "lock_inv (lock_maps\<lparr>lock_ctrl_map := [c]\<rparr>)"
    by (simp add: lock_inv_def lock_maps_def)
  from lock_tool.run_inv [OF TrueI this, of g es] show ?thesis
    by (simp add: lock_inv_def)
qed

theorem lock_status_named_witness:
  "unat (le_lock_status (hd (lock_rb (run (lock_step 1)
     [(calm 7 7 1 lock_slot, Pthread_mutex_lock_enter 99)] lock_demo)))) \<le> 12"
proof -
  note lock_demo_reports
  then show ?thesis
    using lock_status_named [of 1 "[(calm 7 7 1 lock_slot, Pthread_mutex_lock_enter 99)]"
        "\<lparr>lock_func = True, lc_enable_myproc = True, lc_target_pid = -1, lc_target_tgid = -1\<rparr>"]
    by (simp add: lock_demo_def)
qed

end
