(* ===== verification/ResourceImage.thy ===== *)
theory ResourceImage imports Bpf begin

text \<open>
  The resource tool, \<open>bpf/resource_image.bpf.c\<close>: one probe on \<open>finish_task_switch\<close>, which
  fires when the CPU has changed from the task \<open>prev\<close> to the current task.  It closes the
  interval of \<open>prev\<close>, adding to \<open>total\<close> the time and the bytes since \<open>start\<close>, and opens the
  interval of the current task.  The structures are those of \<open>include/proc_image.h\<close>.

  What the probe reads from the two \<open>task_struct\<close>s is an input: pid, tgid, the byte counters
  of \<open>ioac\<close> and the three resident-set counters it adds up (\<open>None\<close> where it reads a null
  pointer).
\<close>

subsection \<open>Structures and maps\<close>

record rsc_ctrl =
  rsc_func :: bool
  rc_target_pid :: pid_t
  rc_target_cpu_id :: s32
  rc_enable_myproc :: bool
  rc_target_tgid :: pid_t

record proc_id =
  pd_pid :: s32
  pd_cpu_id :: s32

record start_rsc =
  sr_time :: u64
  sr_readchar :: u64
  sr_writechar :: u64

record total_rsc =
  tr_pid :: s32
  tr_tgid :: s32
  tr_cpu_id :: s32
  tr_time :: u64
  tr_memused :: u64
  tr_readchar :: u64
  tr_writechar :: u64

record rsc_st =
  rsc_ctrl_map :: "rsc_ctrl list"
  rsc_start :: "(proc_id, start_rsc) hmap"
  rsc_total :: "(proc_id, total_rsc) hmap"

definition rsc_maps :: rsc_st where
  "rsc_maps = \<lparr>
     rsc_ctrl_map = [\<lparr>rsc_func = False, rc_target_pid = 0, rc_target_cpu_id = 0,
                      rc_enable_myproc = False, rc_target_tgid = 0\<rparr>],
     rsc_start = hm_new 10240,
     rsc_total = hm_new 10240\<rparr>"

record task =
  t_pid :: pid_t
  t_tgid :: s32
  t_rss :: "(u64 \<times> u64 \<times> u64) option"
  t_rchar :: u64
  t_wchar :: u64

record rsc_kern = "unit kern" +
  rk_prev :: task
  rk_next :: task

subsection \<open>The probe\<close>

definition rsc_ctrl_on :: "rsc_st \<Rightarrow> rsc_ctrl option" where
  "rsc_ctrl_on s = (case arr_lookup (rsc_ctrl_map s) 0 of
       None \<Rightarrow> None
     | Some c \<Rightarrow> if rsc_func c then Some c else None)"

definition rsc_filter :: "s32 \<Rightarrow> rsc_ctrl \<Rightarrow> pid_t \<Rightarrow> s32 \<Rightarrow> s32 \<Rightarrow> bool" where
  "rsc_filter ignore_tgid c pid tgid cpu \<longleftrightarrow>
     (rc_enable_myproc c \<or> tgid \<noteq> ignore_tgid) \<and>
     ((rc_target_pid c = -1 \<and> rc_target_tgid c = -1) \<or>
      (rc_target_pid c \<noteq> 0 \<and> pid = rc_target_pid c) \<or>
      (rc_target_pid c = 0 \<and> pid = rc_target_pid c \<and> cpu = rc_target_cpu_id c) \<or>
      (tgid = rc_target_tgid c))"

text \<open>\<open>struct proc_id pd = {}; pd.pid = pid; if(pid == 0) pd.cpu_id = cpu;\<close>\<close>

definition mk_proc_id :: "pid_t \<Rightarrow> s32 \<Rightarrow> proc_id" where
  "mk_proc_id pid cpu = \<lparr>pd_pid = pid, pd_cpu_id = (if pid = 0 then cpu else 0)\<rparr>"

text \<open>
  Closing the interval of \<open>prev\<close>.  The code looks \<open>start\<close> and \<open>total\<close> up twice, which gives the
  same answer twice; the flag of the result is False where it returns early from the handler.
\<close>

definition rsc_close :: "rsc_kern \<Rightarrow> rsc_ctrl \<Rightarrow> rsc_st \<Rightarrow> bool \<times> rsc_st" where
  "rsc_close kn c s =
     (let prev = rk_prev kn; pd = mk_proc_id (t_pid prev) (kn_cpu kn) in
      case hm_lookup (rsc_start s) pd of
        None \<Rightarrow> (True, s)
      | Some st \<Rightarrow>
          (case hm_lookup (rsc_total s) pd of
             None \<Rightarrow>
               (case t_rss prev of None \<Rightarrow> (False, s)
                | Some (r0, r1, r3) \<Rightarrow>
                    (True, s\<lparr>rsc_total := snd (hm_update (kn_upd kn 0) (rsc_total s) pd
                       \<lparr>tr_pid = pd_pid pd,
                        tr_tgid = (if rc_target_tgid c \<noteq> -1 then t_tgid prev else -1),
                        tr_cpu_id = kn_cpu kn,
                        tr_time = kn_ktime kn 0 - sr_time st,
                        tr_memused = r0 + r1 + r3,
                        tr_readchar = t_rchar prev - sr_readchar st,
                        tr_writechar = t_wchar prev - sr_writechar st\<rparr>)\<rparr>))
           | Some tot \<Rightarrow>
               (case t_rss prev of None \<Rightarrow> (False, s)
                | Some (r0, r1, r3) \<Rightarrow>
                    (let tot = tot\<lparr>tr_cpu_id := kn_cpu kn,
                        tr_time := tr_time tot + (kn_ktime kn 0 - sr_time st),
                        tr_memused := r0 + r1 + r3,
                        tr_readchar := tr_readchar tot + (t_rchar prev - sr_readchar st),
                        tr_writechar := tr_writechar tot + (t_wchar prev - sr_writechar st)\<rparr>;
                      m = hm_poke (rsc_total s) pd tot
                     in (True, s\<lparr>rsc_total := snd (hm_update (kn_upd kn 0) m pd tot)\<rparr>)))))"

definition rsc_open :: "rsc_kern \<Rightarrow> rsc_st \<Rightarrow> rsc_st" where
  "rsc_open kn s =
     (let nxt = rk_next kn in
      s\<lparr>rsc_start := snd (hm_update (kn_upd kn 1) (rsc_start s) (mk_proc_id (t_pid nxt) (kn_cpu kn))
          \<lparr>sr_time = kn_ktime kn 1, sr_readchar = t_rchar nxt, sr_writechar = t_wchar nxt\<rparr>)\<rparr>)"

definition rsc_finish_task_switch :: "s32 \<Rightarrow> rsc_kern \<Rightarrow> rsc_st \<Rightarrow> rsc_st" where
  "rsc_finish_task_switch ignore_tgid kn s =
     (case rsc_ctrl_on s of None \<Rightarrow> s
      | Some c \<Rightarrow>
          (let (go_on, s) =
             (if rsc_filter ignore_tgid c (t_pid (rk_prev kn)) (t_tgid (rk_prev kn)) (kn_cpu kn)
              then rsc_close kn c s else (True, s))
           in if \<not> go_on then s
              else if rsc_filter ignore_tgid c (t_pid (rk_next kn)) (t_tgid (rk_next kn)) (kn_cpu kn)
              then rsc_open kn s else s))"

lemmas rsc_defs = rsc_finish_task_switch_def rsc_close_def rsc_open_def

subsection \<open>Elementary facts\<close>

lemma rsc_ctrl_step [simp]: "rsc_ctrl_map (rsc_finish_task_switch g kn s) = rsc_ctrl_map s"
  by (auto simp: rsc_defs Let_def split: option.splits prod.splits)

lemma rsc_ctrl_on_step [simp]: "rsc_ctrl_on (rsc_finish_task_switch g kn s) = rsc_ctrl_on s"
  by (simp add: rsc_ctrl_on_def)

lemma rsc_ctrl_on_run [simp]: "rsc_ctrl_on (run (rsc_finish_task_switch g) es s) = rsc_ctrl_on s"
  by (induction es arbitrary: s) simp_all

interpretation rsc: gated_tool "rsc_finish_task_switch g" "\<lambda>s. rsc_ctrl_on s \<noteq> None"
  by unfold_locales (simp add: rsc_finish_task_switch_def)

end
