(* ===== verification/ResourceProps.thy ===== *)
theory ResourceProps imports ResourceImage begin

text \<open>
  The properties of the resource tool: the totals of a process are the sums over its intervals on
  a CPU (\<open>rsc_accounting\<close>; \<open>rsc_slices_sum\<close> has tasks without a memory map as well), the keys are normalised (\<open>rsc_keys_normal\<close>), and only processes
  that pass the filter get an entry (\<open>rsc_isolation\<close>).
\<close>

subsection \<open>One process\<close>

text \<open>The part of the state that belongs to one key.\<close>

definition rsc_view :: "proc_id \<Rightarrow> rsc_st \<Rightarrow> start_rsc option \<times> total_rsc option" where
  "rsc_view k s = (hm_lookup (rsc_start s) k, hm_lookup (rsc_total s) k)"

definition rsc_prev_id :: "rsc_kern \<Rightarrow> proc_id" where
  "rsc_prev_id kn = mk_proc_id (t_pid (rk_prev kn)) (kn_cpu kn)"

definition rsc_next_id :: "rsc_kern \<Rightarrow> proc_id" where
  "rsc_next_id kn = mk_proc_id (t_pid (rk_next kn)) (kn_cpu kn)"

definition rsc_prev_passes :: "s32 \<Rightarrow> rsc_ctrl \<Rightarrow> rsc_kern \<Rightarrow> bool" where
  "rsc_prev_passes g c kn = rsc_filter g c (t_pid (rk_prev kn)) (t_tgid (rk_prev kn)) (kn_cpu kn)"

definition rsc_next_passes :: "s32 \<Rightarrow> rsc_ctrl \<Rightarrow> rsc_kern \<Rightarrow> bool" where
  "rsc_next_passes g c kn = rsc_filter g c (t_pid (rk_next kn)) (t_tgid (rk_next kn)) (kn_cpu kn)"

text \<open>
  The abstract account of one key: when it leaves a CPU the open interval is added, when it gets
  one the interval is opened.  The three sums are the CPU time and the bytes read and written;
  \<open>None\<close> for the sums says that no interval has been closed.
\<close>

record account =
  ac_open :: "start_rsc option"
  ac_sums :: "(u64 \<times> u64 \<times> u64) option"

definition ac_close :: "rsc_kern \<Rightarrow> account \<Rightarrow> account" where
  "ac_close kn a = (case ac_open a of None \<Rightarrow> a
     | Some st \<Rightarrow>
        (let (t, r, w) = (case ac_sums a of None \<Rightarrow> (0, 0, 0) | Some x \<Rightarrow> x) in
         a\<lparr>ac_sums := Some (t + (kn_ktime kn 0 - sr_time st),
              r + (t_rchar (rk_prev kn) - sr_readchar st),
              w + (t_wchar (rk_prev kn) - sr_writechar st))\<rparr>))"

definition ac_start :: "rsc_kern \<Rightarrow> account \<Rightarrow> account" where
  "ac_start kn a = a\<lparr>ac_open := Some \<lparr>sr_time = kn_ktime kn 1, sr_readchar = t_rchar (rk_next kn),
      sr_writechar = t_wchar (rk_next kn)\<rparr>\<rparr>"

definition account_step :: "s32 \<Rightarrow> rsc_ctrl \<Rightarrow> proc_id \<Rightarrow> rsc_kern \<Rightarrow> account \<Rightarrow> account" where
  "account_step g c k kn a =
     (let a = (if rsc_prev_id kn = k \<and> rsc_prev_passes g c kn then ac_close kn a else a)
      in if rsc_next_id kn = k \<and> rsc_next_passes g c kn then ac_start kn a else a)"

definition account_of :: "proc_id \<Rightarrow> rsc_st \<Rightarrow> account" where
  "account_of k s = \<lparr>ac_open = hm_lookup (rsc_start s) k,
     ac_sums = map_option (\<lambda>t. (tr_time t, tr_readchar t, tr_writechar t)) (hm_lookup (rsc_total s) k)\<rparr>"

subsection \<open>Capacity\<close>

definition rsc_within :: "proc_id set \<Rightarrow> rsc_st \<Rightarrow> bool" where
  "rsc_within K s \<longleftrightarrow> hm_within K (rsc_start s) \<and> hm_within K (rsc_total s) \<and>
     hm_max (rsc_start s) = 10240 \<and> hm_max (rsc_total s) = 10240"

text \<open>An event about tasks of \<open>K\<close> on which the kernel refuses nothing and every task has a memory map.\<close>

definition rsc_smooth :: "proc_id set \<Rightarrow> rsc_kern \<Rightarrow> bool" where
  "rsc_smooth K kn \<longleftrightarrow> rsc_prev_id kn \<in> K \<and> rsc_next_id kn \<in> K \<and> kn_upd kn 0 = 0 \<and> kn_upd kn 1 = 0 \<and>
     t_rss (rk_prev kn) \<noteq> None"

lemma rsc_close_within:
  "rsc_within K s \<Longrightarrow> rsc_prev_id kn \<in> K \<Longrightarrow> rsc_within K (snd (rsc_close kn c s))"
  by (auto simp: rsc_within_def rsc_close_def rsc_prev_id_def Let_def inv_rules split: option.splits)

lemma rsc_open_within:
  "rsc_within K s \<Longrightarrow> rsc_next_id kn \<in> K \<Longrightarrow> rsc_within K (rsc_open kn s)"
  by (auto simp: rsc_within_def rsc_open_def rsc_next_id_def Let_def inv_rules)

lemma rsc_step_within:
  "rsc_within K s \<Longrightarrow> rsc_prev_id kn \<in> K \<Longrightarrow> rsc_next_id kn \<in> K \<Longrightarrow>
   rsc_within K (rsc_finish_task_switch g kn s)"
  using rsc_close_within [of K s kn] rsc_open_within [of K]
  by (auto simp: rsc_finish_task_switch_def Let_def case_prod_beta split: option.splits)

subsection \<open>The code keeps the account\<close>

lemma account_close:
  assumes "rsc_within K s" and "finite K" and "card K \<le> 10240" and "rsc_smooth K kn"
  shows "fst (rsc_close kn c s)"
    and "account_of k (snd (rsc_close kn c s)) =
           (if rsc_prev_id kn = k then ac_close kn (account_of k s) else account_of k s)"
proof -
  have "hm_room (rsc_total s) (rsc_prev_id kn)"
    using assms by (auto simp: rsc_within_def rsc_smooth_def intro: hm_within_room)
  moreover obtain r0 r1 r3 where "t_rss (rk_prev kn) = Some (r0, r1, r3)"
    using assms(4) by (auto simp: rsc_smooth_def)
  moreover have "kn_upd kn 0 = 0"
    using assms(4) by (simp add: rsc_smooth_def)
  ultimately show "fst (rsc_close kn c s)"
    and "account_of k (snd (rsc_close kn c s)) =
           (if rsc_prev_id kn = k then ac_close kn (account_of k s) else account_of k s)"
    by (auto simp: rsc_close_def account_of_def ac_close_def rsc_prev_id_def Let_def map_rules
        split: option.splits)
qed

lemma account_open:
  assumes "rsc_within K s" and "finite K" and "card K \<le> 10240" and "rsc_smooth K kn"
  shows "account_of k (rsc_open kn s) =
           (if rsc_next_id kn = k then ac_start kn (account_of k s) else account_of k s)"
proof -
  have "hm_room (rsc_start s) (rsc_next_id kn)"
    using assms by (auto simp: rsc_within_def rsc_smooth_def intro: hm_within_room)
  then show ?thesis
    using assms(4)
    by (auto simp: rsc_open_def account_of_def ac_start_def rsc_next_id_def rsc_smooth_def Let_def map_rules)
qed

lemma account_step_refines:
  assumes "rsc_ctrl_on s = Some c" and "rsc_within K s" and "finite K" and "card K \<le> 10240"
    and "rsc_smooth K kn"
  shows "account_of k (rsc_finish_task_switch g kn s) = account_step g c k kn (account_of k s)"
proof -
  define s1 where "s1 = (if rsc_prev_passes g c kn then snd (rsc_close kn c s) else s)"
  have eq: "rsc_finish_task_switch g kn s = (if rsc_next_passes g c kn then rsc_open kn s1 else s1)"
    using account_close(1) [OF assms(2-5), of c] assms(1)
    by (simp add: rsc_finish_task_switch_def rsc_prev_passes_def rsc_next_passes_def s1_def Let_def
        case_prod_beta)
  have within: "rsc_within K s1"
    using assms(2,5) rsc_close_within by (simp add: rsc_smooth_def s1_def)
  have closed: "account_of k s1 = (if rsc_prev_id kn = k \<and> rsc_prev_passes g c kn
      then ac_close kn (account_of k s) else account_of k s)"
    using account_close(2) [OF assms(2-5), of k c] by (simp add: s1_def)
  show ?thesis
    using account_open [OF within assms(3-5), of k] closed
    by (cases "rsc_next_passes g c kn") (simp_all add: eq account_step_def Let_def)
qed

lemma account_refines:
  assumes "rsc_ctrl_on s = Some c" and "rsc_within K s" and "finite K" and "card K \<le> 10240"
    and "\<forall>kn \<in> set es. rsc_smooth K kn"
  shows "account_of k (run (rsc_finish_task_switch g) es s) = run (account_step g c k) es (account_of k s)"
  using assms(1,2,5)
proof (induction es arbitrary: s)
  case Nil
  then show ?case by simp
next
  case (Cons kn es)
  have "rsc_smooth K kn" using Cons.prems by simp
  then have "rsc_within K (rsc_finish_task_switch g kn s)"
    using Cons.prems(2) rsc_step_within by (simp add: rsc_smooth_def)
  moreover have "account_of k (rsc_finish_task_switch g kn s) = account_step g c k kn (account_of k s)"
    using Cons.prems assms(3,4) by (intro account_step_refines) auto
  ultimately show ?case
    using Cons.IH [of "rsc_finish_task_switch g kn s"] Cons.prems by simp
qed

text \<open>
  C3. Refinement: with at most 10240 tasks, a kernel that refuses no update and tasks that all
  have a memory map, the entries of every key after any run of task switches are those of the
  abstract account, run over the same switches: the code adds exactly the intervals between the
  key's getting and leaving a CPU, modulo 2 to the 64.
\<close>

theorem rsc_accounting:
  assumes "rsc_ctrl_on s = Some c" and "rsc_within K s" and "finite K" and "card K \<le> 10240"
    and "\<forall>kn \<in> set es. rsc_smooth K kn"
  shows "account_of k (run (rsc_finish_task_switch g) es s) = run (account_step g c k) es (account_of k s)"
  by (rule account_refines [OF assms])

text \<open>A concrete switch from the idle task to task 7 and back, on CPU 0.\<close>

definition demo_task :: "pid_t \<Rightarrow> u64 \<Rightarrow> u64 \<Rightarrow> task" where
  "demo_task p r w = \<lparr>t_pid = p, t_tgid = p, t_rss = Some (1, 2, 3), t_rchar = r, t_wchar = w\<rparr>"

definition demo_switch :: "u64 \<Rightarrow> task \<Rightarrow> task \<Rightarrow> rsc_kern" where
  "demo_switch t prev nxt = \<lparr>kn_pid_tgid = 0, kn_cpu = 0, kn_ktime = (\<lambda>_. t), kn_upd = (\<lambda>_. 0),
     kn_rsv = (\<lambda>_. None), rk_prev = prev, rk_next = nxt\<rparr>"

definition rsc_demo :: rsc_st where
  "rsc_demo = rsc_maps\<lparr>rsc_ctrl_map := [\<lparr>rsc_func = True, rc_target_pid = -1, rc_target_cpu_id = -1,
      rc_enable_myproc = True, rc_target_tgid = -1\<rparr>]\<rparr>"

lemma rsc_demo_simps [simp]:
  "rsc_ctrl_on rsc_demo = Some \<lparr>rsc_func = True, rc_target_pid = -1, rc_target_cpu_id = -1,
      rc_enable_myproc = True, rc_target_tgid = -1\<rparr>"
  "rsc_within K rsc_demo"
  "account_of k rsc_demo = \<lparr>ac_open = None, ac_sums = None\<rparr>"
  by (simp_all add: rsc_demo_def rsc_maps_def rsc_ctrl_on_def arr_lookup_def rsc_within_def
      account_of_def)

abbreviation demo_run :: "rsc_kern list" where
  "demo_run \<equiv> [demo_switch 10 (demo_task 0 0 0) (demo_task 7 100 0),
     demo_switch 25 (demo_task 7 140 8) (demo_task 0 0 0)]"

lemma demo_run_smooth: "\<forall>kn \<in> set demo_run. rsc_smooth {mk_proc_id 0 0, mk_proc_id 7 0} kn"
  by (auto simp: rsc_smooth_def demo_switch_def demo_task_def rsc_prev_id_def rsc_next_id_def)

lemmas demo_defs = rsc_prev_id_def rsc_next_id_def rsc_prev_passes_def rsc_next_passes_def
  demo_switch_def demo_task_def rsc_filter_def mk_proc_id_def

lemmas rsc_demo_run_defs = demo_defs rsc_finish_task_switch_def rsc_open_def rsc_close_def Let_def hm_new_def hm_update_def
  hm_lookup_def hm_poke_def hm_delete_def rsc_demo_def rsc_maps_def rsc_ctrl_on_def arr_lookup_def

theorem rsc_accounting_witness:
  "ac_sums (account_of (mk_proc_id 7 0) (run (rsc_finish_task_switch 1) demo_run rsc_demo)) = Some (15, 40, 8)"
proof -
  have "account_of (mk_proc_id 7 0) (run (rsc_finish_task_switch 1) demo_run rsc_demo) =
      run (account_step 1 \<lparr>rsc_func = True, rc_target_pid = -1, rc_target_cpu_id = -1,
        rc_enable_myproc = True, rc_target_tgid = -1\<rparr> (mk_proc_id 7 0)) demo_run
        \<lparr>ac_open = None, ac_sums = None\<rparr>"
    using rsc_accounting [OF rsc_demo_simps(1,2), where K = "{mk_proc_id 0 0, mk_proc_id 7 0}"
        and k = "mk_proc_id 7 0" and g = 1 and es = demo_run, OF _ _ demo_run_smooth]
    by (simp add: card_insert_if)
  then show ?thesis
    by (simp add: demo_defs account_step_def ac_close_def ac_start_def)
qed

subsection \<open>Sums over slices, with tasks that have no memory map\<close>

text \<open>
  A task without a memory map (a kernel thread, the idle task) ends the probe early once it has an
  entry in \<open>start\<close>: the switch from it is passed over, and the task that gets the CPU keeps the start it had.
  The keys that have an entry so far are \<open>seen\<close>.
\<close>

definition rsc_passed_over :: "s32 \<Rightarrow> rsc_ctrl \<Rightarrow> proc_id set \<Rightarrow> rsc_kern \<Rightarrow> bool" where
  "rsc_passed_over g c seen kn \<longleftrightarrow> rsc_prev_passes g c kn \<and> rsc_prev_id kn \<in> seen \<and> t_rss (rk_prev kn) = None"

text \<open>
  The slices of a key in a run of switches: each switch that takes a CPU from it, with the last switch before
  that gave it one (\<open>on\<close>), both among those that are not passed over.
\<close>

fun rsc_slices :: "s32 \<Rightarrow> rsc_ctrl \<Rightarrow> proc_id \<Rightarrow> proc_id set \<Rightarrow> rsc_kern option \<Rightarrow> rsc_kern list \<Rightarrow>
    (rsc_kern \<times> rsc_kern) list" where
  "rsc_slices g c k seen on [] = []"
| "rsc_slices g c k seen on (kn # es) =
     (if rsc_passed_over g c seen kn then rsc_slices g c k seen on es
      else (case on of None \<Rightarrow> []
            | Some a \<Rightarrow> if rsc_prev_id kn = k \<and> rsc_prev_passes g c kn then [(a, kn)] else []) @
        rsc_slices g c k (if rsc_next_passes g c kn then insert (rsc_next_id kn) seen else seen)
          (if rsc_next_id kn = k \<and> rsc_next_passes g c kn then Some kn else on) es)"

definition slice_time :: "rsc_kern \<times> rsc_kern \<Rightarrow> u64" where
  "slice_time sl = kn_ktime (snd sl) 0 - kn_ktime (fst sl) 1"

definition slice_read :: "rsc_kern \<times> rsc_kern \<Rightarrow> u64" where
  "slice_read sl = t_rchar (rk_prev (snd sl)) - t_rchar (rk_next (fst sl))"

definition slice_written :: "rsc_kern \<times> rsc_kern \<Rightarrow> u64" where
  "slice_written sl = t_wchar (rk_prev (snd sl)) - t_wchar (rk_next (fst sl))"

fun sums_after :: "(u64 \<times> u64 \<times> u64) option \<Rightarrow> (rsc_kern \<times> rsc_kern) list \<Rightarrow> (u64 \<times> u64 \<times> u64) option" where
  "sums_after x [] = x"
| "sums_after None (sl # sls) = sums_after (Some (slice_time sl, slice_read sl, slice_written sl)) sls"
| "sums_after (Some (t, r, w)) (sl # sls) =
     sums_after (Some (t + slice_time sl, r + slice_read sl, w + slice_written sl)) sls"

lemma sums_after_Some:
  "sums_after (Some (t, r, w)) sls =
     Some (t + (\<Sum>x\<leftarrow>sls. slice_time x), r + (\<Sum>x\<leftarrow>sls. slice_read x), w + (\<Sum>x\<leftarrow>sls. slice_written x))"
  by (induction sls arbitrary: t r w) (simp_all add: add.assoc)

lemma sums_after_None:
  "sums_after None sls = (if sls = [] then None
     else Some (\<Sum>x\<leftarrow>sls. slice_time x, \<Sum>x\<leftarrow>sls. slice_read x, \<Sum>x\<leftarrow>sls. slice_written x))"
  by (cases sls) (simp_all add: sums_after_Some)

text \<open>A switch between tasks of \<open>K\<close> on which the kernel refuses nothing.\<close>

definition rsc_granted :: "proc_id set \<Rightarrow> rsc_kern \<Rightarrow> bool" where
  "rsc_granted K kn \<longleftrightarrow> rsc_prev_id kn \<in> K \<and> rsc_next_id kn \<in> K \<and> kn_upd kn 0 = 0 \<and> kn_upd kn 1 = 0"

definition opened_at :: "rsc_kern \<Rightarrow> start_rsc" where
  "opened_at kn = \<lparr>sr_time = kn_ktime kn 1, sr_readchar = t_rchar (rk_next kn), sr_writechar = t_wchar (rk_next kn)\<rparr>"

lemma rsc_open_step:
  assumes "hm_room (rsc_start s) (rsc_next_id kn)" and "kn_upd kn 1 = 0"
  shows "hm_lookup (rsc_start (rsc_open kn s)) = (hm_lookup (rsc_start s))(rsc_next_id kn \<mapsto> opened_at kn)"
  using assms by (auto simp: rsc_open_def rsc_next_id_def opened_at_def Let_def map_rules)

lemma rsc_close_step:
  assumes "hm_room (rsc_total s) (rsc_prev_id kn)" and "kn_upd kn 0 = 0"
    and "\<not> (rsc_prev_id kn \<in> dom (hm_lookup (rsc_start s)) \<and> t_rss (rk_prev kn) = None)"
    and "hm_lookup (rsc_start s) k = map_option opened_at on"
  shows "fst (rsc_close kn c s)"
    and "ac_sums (account_of k (snd (rsc_close kn c s))) = sums_after (ac_sums (account_of k s))
      (case on of None \<Rightarrow> [] | Some a \<Rightarrow> if rsc_prev_id kn = k then [(a, kn)] else [])"
  using assms
  by (cases on; auto simp: rsc_close_def account_of_def rsc_prev_id_def Let_def map_rules opened_at_def slice_time_def
      slice_read_def slice_written_def split: option.splits)+

lemma rsc_slices_step:
  assumes "rsc_ctrl_on s = Some c" and "rsc_within K s" and "finite K" and "card K \<le> 10240" and "rsc_granted K kn"
    and "dom (hm_lookup (rsc_start s)) = seen" and "hm_lookup (rsc_start s) k = map_option opened_at on"
    and "\<not> rsc_passed_over g c seen kn" and "s' = rsc_finish_task_switch g kn s"
  shows "rsc_within K s'"
    and "dom (hm_lookup (rsc_start s')) = (if rsc_next_passes g c kn then insert (rsc_next_id kn) seen else seen)"
    and "hm_lookup (rsc_start s') k =
      map_option opened_at (if rsc_next_id kn = k \<and> rsc_next_passes g c kn then Some kn else on)"
    and "ac_sums (account_of k s') = sums_after (ac_sums (account_of k s))
      (case on of None \<Rightarrow> [] | Some a \<Rightarrow> if rsc_prev_id kn = k \<and> rsc_prev_passes g c kn then [(a, kn)] else [])"
proof -
  define s1 where "s1 = (if rsc_prev_passes g c kn then snd (rsc_close kn c s) else s)"
  have room: "hm_room (rsc_total s) (rsc_prev_id kn)" and upd: "kn_upd kn 0 = 0" "kn_upd kn 1 = 0"
    using assms(2-5) by (auto simp: rsc_within_def rsc_granted_def intro: hm_within_room)
  note close = rsc_close_step [OF room upd(1) _ assms(7), of c]
  have go_on: "rsc_prev_passes g c kn \<Longrightarrow> fst (rsc_close kn c s)"
    using close(1) assms(6,8) by (auto simp: rsc_passed_over_def)
  have s': "s' = (if rsc_next_passes g c kn then rsc_open kn s1 else s1)"
    using go_on assms(1,9)
    by (auto simp: rsc_finish_task_switch_def rsc_prev_passes_def rsc_next_passes_def s1_def Let_def case_prod_beta)
  have within: "rsc_within K s1"
    using assms(2,5) rsc_close_within by (simp add: rsc_granted_def s1_def)
  have start1: "rsc_start s1 = rsc_start s"
    by (auto simp: s1_def rsc_close_def Let_def split: option.splits)
  have room1: "hm_room (rsc_start s1) (rsc_next_id kn)"
    using within assms(3-5) by (auto simp: rsc_within_def rsc_granted_def intro: hm_within_room)
  show "rsc_within K s'"
    using assms(2,5,9) rsc_step_within by (simp add: rsc_granted_def)
  show "dom (hm_lookup (rsc_start s')) = (if rsc_next_passes g c kn then insert (rsc_next_id kn) seen else seen)"
    and "hm_lookup (rsc_start s') k =
      map_option opened_at (if rsc_next_id kn = k \<and> rsc_next_passes g c kn then Some kn else on)"
    using rsc_open_step [OF room1 upd(2)] assms(6,7) start1 by (auto simp: s')
  have "account_of k (rsc_open kn s1) = (account_of k s1)\<lparr>ac_open := hm_lookup (rsc_start (rsc_open kn s1)) k\<rparr>"
    by (simp add: account_of_def rsc_open_def Let_def)
  then have "ac_sums (account_of k s') = ac_sums (account_of k s1)" by (simp add: s')
  then show "ac_sums (account_of k s') = sums_after (ac_sums (account_of k s))
      (case on of None \<Rightarrow> [] | Some a \<Rightarrow> if rsc_prev_id kn = k \<and> rsc_prev_passes g c kn then [(a, kn)] else [])"
    using close(2) assms(6,8) by (auto simp: s1_def rsc_passed_over_def split: option.splits)
qed

lemma rsc_passed_over_step:
  assumes "rsc_ctrl_on s = Some c" and "rsc_passed_over g c (dom (hm_lookup (rsc_start s))) kn"
  shows "rsc_finish_task_switch g kn s = s"
  using assms
  by (auto simp: rsc_finish_task_switch_def rsc_passed_over_def rsc_prev_passes_def rsc_prev_id_def rsc_close_def Let_def
      split: option.splits)

lemma sums_after_append: "sums_after x (xs @ ys) = sums_after (sums_after x xs) ys"
  by (induction x xs rule: sums_after.induct) simp_all

lemma rsc_slices_run:
  assumes "rsc_ctrl_on s = Some c" and "rsc_within K s" and "finite K" and "card K \<le> 10240"
    and "\<forall>kn \<in> set es. rsc_granted K kn"
    and "dom (hm_lookup (rsc_start s)) = seen" and "hm_lookup (rsc_start s) k = map_option opened_at on"
  shows "ac_sums (account_of k (run (rsc_finish_task_switch g) es s)) =
    sums_after (ac_sums (account_of k s)) (rsc_slices g c k seen on es)"
  using assms(1,2,5-7)
proof (induction es arbitrary: s seen on)
  case Nil
  then show ?case by simp
next
  case (Cons kn es)
  show ?case
  proof (cases "rsc_passed_over g c seen kn")
    case True
    then show ?thesis
      using rsc_passed_over_step [of s c g kn] Cons.prems Cons.IH [OF Cons.prems(1,2) _ Cons.prems(4,5)] by simp
  next
    case False
    have kn: "rsc_granted K kn" using Cons.prems(3) by simp
    note step = rsc_slices_step [OF Cons.prems(1,2) assms(3,4) kn Cons.prems(4,5) False refl]
    show ?thesis
      using Cons.IH [OF _ step(1) _ step(2,3)] Cons.prems(1,3) False step(4)
      by (simp add: sums_after_append)
  qed
qed

text \<open>
  C21. What the resource tool gathers, for any run of task switches over at most 10240 keys on which
  the kernel refuses no update, whether the tasks have a memory map or not: a key has an entry in the totals exactly when
  it has a slice, and its CPU time and the bytes read and written are the sums over its slices, modulo 2 to the 64.  A
  switch from a task that has no memory map and was seen before is passed over as a whole, so a slice
  after it starts at an earlier arrival of the key (a defect: its time off the CPU is counted).
\<close>

theorem rsc_slices_sum:
  assumes "rsc_func c" and "finite K" and "card K \<le> 10240" and "\<forall>kn \<in> set es. rsc_granted K kn"
    and "sls = rsc_slices g c k {} None es"
  shows "map_option (\<lambda>t. (tr_time t, tr_readchar t, tr_writechar t))
      (hm_lookup (rsc_total (run (rsc_finish_task_switch g) es (rsc_maps\<lparr>rsc_ctrl_map := [c]\<rparr>))) k) =
    (if sls = [] then None
     else Some (\<Sum>sl\<leftarrow>sls. kn_ktime (snd sl) 0 - kn_ktime (fst sl) 1,
                \<Sum>sl\<leftarrow>sls. t_rchar (rk_prev (snd sl)) - t_rchar (rk_next (fst sl)),
                \<Sum>sl\<leftarrow>sls. t_wchar (rk_prev (snd sl)) - t_wchar (rk_next (fst sl))))"
proof -
  let ?s = "rsc_maps\<lparr>rsc_ctrl_map := [c]\<rparr>"
  have "rsc_ctrl_on ?s = Some c" "rsc_within K ?s" "dom (hm_lookup (rsc_start ?s)) = {}"
    "hm_lookup (rsc_start ?s) k = map_option opened_at None" "ac_sums (account_of k ?s) = None"
    using assms(1) by (simp_all add: rsc_maps_def rsc_ctrl_on_def arr_lookup_def rsc_within_def account_of_def)
  then have "ac_sums (account_of k (run (rsc_finish_task_switch g) es ?s)) = sums_after None sls"
    using rsc_slices_run [of ?s c K es "{}" k None g] assms(2-5) by simp
  then show ?thesis
    by (simp add: account_of_def sums_after_None slice_time_def [abs_def] slice_read_def [abs_def]
        slice_written_def [abs_def])
qed

text \<open>
  Task 7 gets the CPU at 5 and leaves it to the idle task at 10, gets it back from the idle task, which
  has no memory map, at 100, and leaves it at 105.  It ran for 10 and is shown with 105.
\<close>

abbreviation idle_run :: "rsc_kern list" where
  "idle_run \<equiv> [demo_switch 5 (demo_task 9 0 0) (demo_task 7 100 0),
     demo_switch 10 (demo_task 7 140 8) (demo_task 0 0 0),
     demo_switch 100 (demo_task 0 0 0\<lparr>t_rss := None\<rparr>) (demo_task 7 140 8),
     demo_switch 105 (demo_task 7 150 9) (demo_task 9 0 0)]"

theorem rsc_slices_sum_witness:
  "map_option (\<lambda>t. (tr_time t, tr_readchar t, tr_writechar t))
     (hm_lookup (rsc_total (run (rsc_finish_task_switch 1) idle_run rsc_demo)) (mk_proc_id 7 0)) = Some (105, 90, 17)"
proof -
  let ?c = "\<lparr>rsc_func = True, rc_target_pid = -1, rc_target_cpu_id = -1, rc_enable_myproc = True, rc_target_tgid = -1\<rparr>"
  let ?K = "{mk_proc_id 0 0, mk_proc_id 7 0, mk_proc_id 9 0}"
  have "card ?K \<le> 10240" by (simp add: card_insert_if)
  moreover have "\<forall>kn \<in> set idle_run. rsc_granted ?K kn"
    by (simp add: rsc_granted_def demo_switch_def demo_task_def rsc_prev_id_def rsc_next_id_def)
  moreover have "rsc_slices 1 ?c (mk_proc_id 7 0) {} None idle_run =
      [(demo_switch 5 (demo_task 9 0 0) (demo_task 7 100 0), demo_switch 10 (demo_task 7 140 8) (demo_task 0 0 0)),
       (demo_switch 5 (demo_task 9 0 0) (demo_task 7 100 0), demo_switch 105 (demo_task 7 150 9) (demo_task 9 0 0))]"
    by (simp add: rsc_passed_over_def demo_defs)
  ultimately show ?thesis
    using rsc_slices_sum [of ?c ?K idle_run _ 1 "mk_proc_id 7 0"]
    by (simp add: rsc_demo_def demo_switch_def demo_task_def)
qed

subsection \<open>Who gets an entry\<close>

text \<open>What the filter lets in: the tasks a record of the maps can be about.\<close>

definition rsc_admits :: "s32 \<Rightarrow> rsc_ctrl \<Rightarrow> rsc_kern \<Rightarrow> proc_id set" where
  "rsc_admits g c kn = (if rsc_prev_passes g c kn then {rsc_prev_id kn} else {}) \<union>
     (if rsc_next_passes g c kn then {rsc_next_id kn} else {})"

lemma rsc_close_dom:
  "rsc_start (snd (rsc_close kn c s)) = rsc_start s"
  "dom (hm_lookup (rsc_total (snd (rsc_close kn c s)))) \<subseteq> insert (rsc_prev_id kn) (dom (hm_lookup (rsc_total s)))"
  by (auto simp: rsc_close_def rsc_prev_id_def Let_def map_rules split: option.splits if_splits)

lemma rsc_open_dom:
  "rsc_total (rsc_open kn s) = rsc_total s"
  "dom (hm_lookup (rsc_start (rsc_open kn s))) \<subseteq> insert (rsc_next_id kn) (dom (hm_lookup (rsc_start s)))"
  by (auto simp: rsc_open_def rsc_next_id_def Let_def map_rules split: if_splits)

text \<open>The step as a composition of its two halves.\<close>

lemma rsc_step_cases:
  assumes "rsc_ctrl_on s = Some c"
  obtains s1 where "s1 = s \<or> s1 = snd (rsc_close kn c s) \<and> rsc_prev_passes g c kn"
    and "rsc_finish_task_switch g kn s = s1 \<or>
         rsc_finish_task_switch g kn s = rsc_open kn s1 \<and> rsc_next_passes g c kn"
proof
  show "(if rsc_prev_passes g c kn then snd (rsc_close kn c s) else s) = s \<or>
      (if rsc_prev_passes g c kn then snd (rsc_close kn c s) else s) = snd (rsc_close kn c s) \<and>
      rsc_prev_passes g c kn" by simp
  show "rsc_finish_task_switch g kn s = (if rsc_prev_passes g c kn then snd (rsc_close kn c s) else s) \<or>
      rsc_finish_task_switch g kn s = rsc_open kn (if rsc_prev_passes g c kn then snd (rsc_close kn c s) else s) \<and>
      rsc_next_passes g c kn"
    using assms
    by (simp add: rsc_finish_task_switch_def rsc_prev_passes_def rsc_next_passes_def Let_def case_prod_beta)
qed

lemma rsc_step_dom:
  assumes "rsc_ctrl_on s = Some c"
  shows "dom (hm_lookup (rsc_start (rsc_finish_task_switch g kn s))) \<subseteq>
           dom (hm_lookup (rsc_start s)) \<union> rsc_admits g c kn"
    and "dom (hm_lookup (rsc_total (rsc_finish_task_switch g kn s))) \<subseteq>
           dom (hm_lookup (rsc_total s)) \<union> rsc_admits g c kn"
proof -
  obtain s1 where s1: "s1 = s \<or> s1 = snd (rsc_close kn c s) \<and> rsc_prev_passes g c kn"
    and step: "rsc_finish_task_switch g kn s = s1 \<or>
         rsc_finish_task_switch g kn s = rsc_open kn s1 \<and> rsc_next_passes g c kn"
    using rsc_step_cases [OF assms] by blast
  show "dom (hm_lookup (rsc_start (rsc_finish_task_switch g kn s))) \<subseteq>
           dom (hm_lookup (rsc_start s)) \<union> rsc_admits g c kn"
    and "dom (hm_lookup (rsc_total (rsc_finish_task_switch g kn s))) \<subseteq>
           dom (hm_lookup (rsc_total s)) \<union> rsc_admits g c kn"
    unfolding rsc_admits_def
    using s1 step rsc_close_dom [of kn c s] rsc_open_dom [of kn s1]
    by (elim disjE conjE; simp; blast)+
qed

lemma rsc_run_dom:
  assumes "rsc_ctrl_on s = Some c"
  shows "dom (hm_lookup (rsc_start (run (rsc_finish_task_switch g) es s))) \<subseteq>
           dom (hm_lookup (rsc_start s)) \<union> (\<Union>kn\<in>set es. rsc_admits g c kn)" (is "?A es s")
    and "dom (hm_lookup (rsc_total (run (rsc_finish_task_switch g) es s))) \<subseteq>
           dom (hm_lookup (rsc_total s)) \<union> (\<Union>kn\<in>set es. rsc_admits g c kn)" (is "?B es s")
proof -
  have "?A es s \<and> ?B es s"
    using assms
  proof (induction es arbitrary: s)
    case Nil
    then show ?case by simp
  next
    case (Cons kn es)
    then have ih: "?A es (rsc_finish_task_switch g kn s)" "?B es (rsc_finish_task_switch g kn s)"
      by simp_all
    show ?case
      unfolding run_Cons
      using order_trans [OF ih(1) Un_mono [OF rsc_step_dom(1) [OF Cons.prems] order_refl]]
        order_trans [OF ih(2) Un_mono [OF rsc_step_dom(2) [OF Cons.prems] order_refl]]
      by (simp only: list.set UN_insert Un_assoc)
  qed
  then show "?A es s" "?B es s" by simp_all
qed

lemma mk_proc_id_normal: "pd_pid (mk_proc_id p c) = 0 \<or> pd_cpu_id (mk_proc_id p c) = 0"
  by (simp add: mk_proc_id_def)

lemma rsc_admits_normal: "k \<in> rsc_admits g c kn \<Longrightarrow> pd_pid k = 0 \<or> pd_cpu_id k = 0"
  using mk_proc_id_normal
  by (auto simp: rsc_admits_def rsc_prev_id_def rsc_next_id_def split: if_splits)

text \<open>
  Isolation: whatever switches are delivered to freshly loaded maps, a key of the totals
  stands for a task that passed the filter in one of them.
\<close>

theorem rsc_isolation:
  assumes "rsc_ctrl_on s = Some c" and "rsc_start s = hm_new 10240" and "rsc_total s = hm_new 10240"
    and "hm_lookup (rsc_total (run (rsc_finish_task_switch g) es s)) k \<noteq> None"
  shows "\<exists>kn\<in>set es. (k = rsc_prev_id kn \<and>
             rsc_filter g c (t_pid (rk_prev kn)) (t_tgid (rk_prev kn)) (kn_cpu kn)) \<or>
           (k = rsc_next_id kn \<and>
             rsc_filter g c (t_pid (rk_next kn)) (t_tgid (rk_next kn)) (kn_cpu kn))"
proof -
  have "k \<in> (\<Union>kn\<in>set es. rsc_admits g c kn)"
    using rsc_run_dom [OF assms(1), of g es] assms(2-4) by (auto simp: domIff)
  then show ?thesis
    by (auto simp: rsc_admits_def rsc_prev_passes_def rsc_next_passes_def split: if_splits)
qed

theorem rsc_isolation_witness:
  "rsc_filter 1 \<lparr>rsc_func = True, rc_target_pid = -1, rc_target_cpu_id = -1, rc_enable_myproc = True,
     rc_target_tgid = -1\<rparr> 7 7 0"
proof -
  have start: "rsc_start rsc_demo = hm_new 10240" "rsc_total rsc_demo = hm_new 10240"
    by (simp_all add: rsc_demo_def rsc_maps_def)
  have "hm_lookup (rsc_total (run (rsc_finish_task_switch 1) demo_run rsc_demo)) (mk_proc_id 7 0) \<noteq> None"
    by (simp add: rsc_demo_run_defs split del: if_split)
  from rsc_isolation [OF rsc_demo_simps(1) start this]
  show ?thesis by (auto simp: demo_defs)
qed

text \<open>
  Only the idle tasks, which share pid 0, are told apart by CPU: after any run on freshly
  loaded maps, every key of the two maps has CPU 0 unless its pid is 0.
\<close>

theorem rsc_keys_normal:
  assumes "rsc_start s = hm_new 10240" and "rsc_total s = hm_new 10240"
    and "s' = run (rsc_finish_task_switch g) es s"
    and "hm_lookup (rsc_start s') k \<noteq> None \<or> hm_lookup (rsc_total s') k \<noteq> None"
  shows "pd_pid k = 0 \<or> pd_cpu_id k = 0"
proof (cases "rsc_ctrl_on s")
  case None
  then show ?thesis using assms rsc.run_off [of s g es] by simp
next
  case (Some c)
  have "k \<in> (\<Union>kn\<in>set es. rsc_admits g c kn)"
    using rsc_run_dom [OF Some, of g es] assms by (auto simp: domIff)
  then show ?thesis using rsc_admits_normal by blast
qed

theorem rsc_keys_normal_witness:
  "pd_pid (mk_proc_id 7 0) = 0 \<or> pd_cpu_id (mk_proc_id 7 0) = 0"
proof -
  have start: "rsc_start rsc_demo = hm_new 10240" "rsc_total rsc_demo = hm_new 10240"
    by (simp_all add: rsc_demo_def rsc_maps_def)
  have "hm_lookup (rsc_start (run (rsc_finish_task_switch 1)
      [demo_switch 10 (demo_task 0 0 0) (demo_task 7 100 0)] rsc_demo)) (mk_proc_id 7 0) \<noteq> None \<or>
    hm_lookup (rsc_total (run (rsc_finish_task_switch 1)
      [demo_switch 10 (demo_task 0 0 0) (demo_task 7 100 0)] rsc_demo)) (mk_proc_id 7 0) \<noteq> None"
    by (simp add: rsc_demo_run_defs split del: if_split)
  from rsc_keys_normal [OF start refl this] show ?thesis .
qed

end
