(* ===== verification/SyscallImage.thy ===== *)
theory SyscallImage imports Bpf begin

text \<open>
  The syscall tool, \<open>bpf/syscall_image.bpf.c\<close>: per thread, the numbers and delays of its system
  calls are gathered between \<open>raw_syscalls/sys_enter\<close> and \<open>sys_exit\<close> and reported whenever
  \<open>sc_ctrl.syscalls\<close> of them are complete.  The structures are those of
  \<open>include/proc_image.h\<close>.

  The name of the current task's UTS namespace (\<open>None\<close> where one of the two pointers to it is
  null) and the argument \<open>id\<close> of the entry tracepoint are inputs.  The container filter compares
  byte buffers of 64 bytes.
\<close>

subsection \<open>Structures and maps\<close>

abbreviation (input) MAX_SYSCALL_COUNT :: nat where "MAX_SYSCALL_COUNT \<equiv> 50"
abbreviation (input) MAX_NODENAME_LEN :: nat where "MAX_NODENAME_LEN \<equiv> 64"

record sc_ctrl =
  sc_func :: bool
  sc_enable_myproc :: bool
  sc_is_container :: bool
  sc_target_pid :: pid_t
  sc_target_tgid :: pid_t
  sc_syscalls :: s32

record syscall_seq =
  sq_pid :: s32
  sq_tgid :: s32
  sq_enter_time :: u64
  sq_sum_delay :: u64
  sq_proc_sd :: u64
  sq_max_delay :: u64
  sq_min_delay :: u64
  sq_count :: u32
  sq_proc_count :: u32
  sq_record :: "s32 list"

record sc_st =
  sc_ctrl_map :: "sc_ctrl list"
  proc_syscall :: "(pid_t, syscall_seq) hmap"
  syscall_rb :: "syscall_seq list"
  container_id_map :: "(pid_t, u8 list) hmap"
  pre_target_pid :: pid_t
  pre_target_tgid :: s32

definition sc_maps :: sc_st where
  "sc_maps = \<lparr>
     sc_ctrl_map = [\<lparr>sc_func = False, sc_enable_myproc = False, sc_is_container = False,
                     sc_target_pid = 0, sc_target_tgid = 0, sc_syscalls = 0\<rparr>],
     proc_syscall = hm_new 10240,
     syscall_rb = [],
     container_id_map = hm_new 8192,
     pre_target_pid = -1,
     pre_target_tgid = -1\<rparr>"

definition zero_seq :: syscall_seq where
  "zero_seq = \<lparr>sq_pid = 0, sq_tgid = 0, sq_enter_time = 0, sq_sum_delay = 0, sq_proc_sd = 0,
     sq_max_delay = 0, sq_min_delay = 0, sq_count = 0, sq_proc_count = 0,
     sq_record = replicate MAX_SYSCALL_COUNT 0\<rparr>"

record sc_kern = "syscall_seq kern" +
  sk_nodename :: "u8 list option"

subsection \<open>The container filter\<close>

text \<open>
  \<open>bpf_probe_read_kernel_str(dst, n, src)\<close> into a cleared buffer of \<open>n\<close> bytes: at most
  \<open>n - 1\<close> bytes before the first NUL.
\<close>

definition read_str :: "nat \<Rightarrow> u8 list \<Rightarrow> u8 list" where
  "read_str n src = (let s = take (n - 1) (takeWhile (\<lambda>x. x \<noteq> 0) src) in s @ replicate (n - length s) 0)"

text \<open>The comparison loop, from index \<open>i\<close>; True when it leaves at a difference.\<close>

function nodename_differs :: "u8 list \<Rightarrow> u8 list \<Rightarrow> nat \<Rightarrow> bool" where
  "nodename_differs nodename hostname i =
     (if i < MAX_NODENAME_LEN then
        (if nodename ! i \<noteq> hostname ! i then True
         else if nodename ! i = 0 \<or> hostname ! i = 0 then False
         else nodename_differs nodename hostname (Suc i))
      else False)"
  by pat_completeness auto
termination by (relation "measure (\<lambda>(_, _, i). MAX_NODENAME_LEN - i)") auto

declare nodename_differs.simps [simp del]

definition is_container_task :: "sc_kern \<Rightarrow> u8 list \<Rightarrow> sc_st \<Rightarrow> bool \<times> sc_st" where
  "is_container_task kn hostname s =
     (case sk_nodename kn of
        None \<Rightarrow> (False, s)
      | Some name \<Rightarrow>
          (let nodename = read_str MAX_NODENAME_LEN name in
           if nodename_differs nodename hostname 0 then
             (True, s\<lparr>container_id_map :=
                snd (hm_update (kn_upd kn 0) (container_id_map s) (cur_pid kn) (take 20 nodename))\<rparr>)
           else (False, s)))"

subsection \<open>Accesses to the record array\<close>

text \<open>
  An assignment \<open>a[i] = v\<close> to an array that a list stands for.  An assignment outside the array
  leaves no array: the empty list, which every later access keeps, so that a list of full length
  says that no access has left the array.
\<close>

definition arr_set :: "'a list \<Rightarrow> nat \<Rightarrow> 'a \<Rightarrow> 'a list" where
  "arr_set xs i v = (if i < length xs then xs[i := v] else [])"

text \<open>The assignment \<open>dst[i] = src[i]\<close>, with the same mark for a read outside \<open>src\<close>.\<close>

definition arr_copy :: "'a list \<Rightarrow> nat \<Rightarrow> 'a list \<Rightarrow> 'a list" where
  "arr_copy src i dst = (if i < length src then arr_set dst i (src ! i) else [])"

lemma arr_set_inside: "i < length xs \<Longrightarrow> arr_set xs i v = xs[i := v]"
  by (simp add: arr_set_def)

lemma arr_copy_inside: "i < length src \<Longrightarrow> i < length dst \<Longrightarrow> arr_copy src i dst = dst[i := src ! i]"
  by (simp add: arr_copy_def arr_set_def)

subsection \<open>The probes\<close>

definition sc_ctrl_on :: "sc_st \<Rightarrow> sc_ctrl option" where
  "sc_ctrl_on s = (case arr_lookup (sc_ctrl_map s) 0 of
       None \<Rightarrow> None
     | Some c \<Rightarrow> if sc_func c then Some c else None)"

text \<open>The condition on the targets, which the source writes out at each use.\<close>

definition sc_is_target :: "sc_ctrl \<Rightarrow> pid_t \<Rightarrow> s32 \<Rightarrow> bool" where
  "sc_is_target c pid tgid \<longleftrightarrow>
     (sc_target_tgid c = -1 \<and> (sc_target_pid c = -1 \<or> pid = sc_target_pid c)) \<or>
     (sc_target_tgid c \<noteq> -1 \<and> tgid = sc_target_tgid c)"

text \<open>The part of \<open>sys_enter\<close> that runs for an existing entry.\<close>

definition seq_enter :: "sc_ctrl \<Rightarrow> pid_t \<Rightarrow> s32 \<Rightarrow> u64 \<Rightarrow> u64 \<Rightarrow> syscall_seq \<Rightarrow> syscall_seq" where
  "seq_enter c pid tgid now nr q =
     (let q = q\<lparr>sq_enter_time := now\<rparr> in
      if sq_count q = 0 then
        (let q = (if sc_is_target c pid tgid
                  then q\<lparr>sq_record := arr_set (sq_record q) (unat (sq_count q)) (ucast nr)\<rparr> else q)
         in q\<lparr>sq_count := sq_count q + 1\<rparr>)
      else if sq_count q \<le> 49 \<and> sq_count q > 0 \<and> unat (sq_count q) \<le> MAX_SYSCALL_COUNT - 1 then
        (let q = (if sc_is_target c pid tgid
                  then q\<lparr>sq_record := arr_set (sq_record q) (unat (sq_count q)) (ucast nr)\<rparr> else q)
         in q\<lparr>sq_count := sq_count q + 1\<rparr>)
      else q)"

text \<open>The entry \<open>sys_enter\<close> makes for a thread that has none.\<close>

definition seq_first :: "sc_ctrl \<Rightarrow> pid_t \<Rightarrow> s32 \<Rightarrow> u64 \<Rightarrow> u64 \<Rightarrow> syscall_seq" where
  "seq_first c pid tgid now nr =
     (let q = zero_seq\<lparr>sq_pid := pid, sq_enter_time := now, sq_count := 1\<rparr> in
      if sc_is_target c pid tgid then q\<lparr>sq_record := arr_set (sq_record q) 0 (ucast nr)\<rparr> else q)"

definition sys_enter :: "s32 \<Rightarrow> u8 list \<Rightarrow> sc_kern \<Rightarrow> u64 \<Rightarrow> sc_st \<Rightarrow> sc_st" where
  "sys_enter ignore_tgid hostname kn nr s =
     (case sc_ctrl_on s of None \<Rightarrow> s
      | Some c \<Rightarrow>
          (let (go_on, s) = (if sc_is_container c then is_container_task kn hostname s else (True, s)) in
           if \<not> go_on then s
           else
             (let pid = cur_pid kn; tgid = cur_tgid kn in
              if sc_enable_myproc c \<or> tgid \<noteq> ignore_tgid then
                (let now = kn_ktime kn 0 in
                 case hm_lookup (proc_syscall s) pid of
                   None \<Rightarrow> s\<lparr>proc_syscall := snd (hm_update (kn_upd kn 1) (proc_syscall s) pid
                              (seq_first c pid tgid now nr))\<rparr>
                 | Some q \<Rightarrow> s\<lparr>proc_syscall := hm_poke (proc_syscall s) pid (seq_enter c pid tgid now nr q)\<rparr>)
              else s)))"

text \<open>The three statements on the delays that both branches of \<open>sys_exit\<close> begin with.\<close>

definition seq_account :: "u64 \<Rightarrow> syscall_seq \<Rightarrow> syscall_seq" where
  "seq_account d q =
     q\<lparr>sq_sum_delay := sq_sum_delay q + d,
       sq_max_delay := (if d > sq_max_delay q then d else sq_max_delay q),
       sq_min_delay := (if sq_min_delay q = 0 \<or> d < sq_min_delay q then d else sq_min_delay q)\<rparr>"

text \<open>
  \<open>for(int i=0; i<=count-1 && i<=MAX_SYSCALL_COUNT-1; i++)\<close>: \<open>count - 1\<close> is unsigned, so the
  comparison is one of unsigned words and a count of 0 copies the whole array.
\<close>

function copy_record :: "u32 \<Rightarrow> s32 list \<Rightarrow> nat \<Rightarrow> s32 list \<Rightarrow> s32 list" where
  "copy_record count src i dst =
     (if (of_nat i :: u32) \<le> count - 1 \<and> i \<le> MAX_SYSCALL_COUNT - 1
      then copy_record count src (Suc i) (arr_copy src i dst)
      else dst)"
  by pat_completeness auto
termination by (relation "measure (\<lambda>(_, _, i, _). Suc MAX_SYSCALL_COUNT - i)") auto

declare copy_record.simps [simp del]

text \<open>What is written into the reserved record \<open>e\<close>.\<close>

definition seq_report :: "sc_ctrl \<Rightarrow> pid_t \<Rightarrow> s32 \<Rightarrow> syscall_seq \<Rightarrow> syscall_seq \<Rightarrow> syscall_seq" where
  "seq_report c pid tgid q e =
     (let e = e\<lparr>sq_pid := pid, sq_tgid := tgid, sq_sum_delay := sq_sum_delay q,
                sq_max_delay := sq_max_delay q, sq_min_delay := sq_min_delay q, sq_count := sq_count q,
                sq_record := copy_record (sq_count q) (sq_record q) 0 (sq_record e)\<rparr> in
      if sc_is_target c pid tgid
      then e\<lparr>sq_proc_count := sq_proc_count q, sq_proc_sd := sq_proc_sd q\<rparr> else e)"

text \<open>The part of \<open>sys_exit\<close> for a thread that has the entry \<open>q\<close>.\<close>

definition sys_exit_entry :: "sc_kern \<Rightarrow> sc_ctrl \<Rightarrow> syscall_seq \<Rightarrow> sc_st \<Rightarrow> sc_st" where
  "sys_exit_entry kn c q s =
     (let pid = cur_pid kn; tgid = cur_tgid kn;
          q1 = seq_account (kn_ktime kn 0 - sq_enter_time q) q;
          s = s\<lparr>proc_syscall := hm_poke (proc_syscall s) pid q1\<rparr> in
      if sq_count q < sc_syscalls c then s
      else if sc_target_tgid c = -1 \<and> sc_target_pid c = pid \<and> sc_target_pid c \<noteq> pre_target_pid s then
        s\<lparr>proc_syscall := hm_poke (proc_syscall s) pid (q1\<lparr>sq_sum_delay := 0, sq_count := 0\<rparr>),
          pre_target_pid := sc_target_pid c\<rparr>
      else if sc_target_tgid c \<noteq> -1 \<and> sc_target_tgid c = tgid \<and> sc_target_tgid c \<noteq> pre_target_tgid s then
        s\<lparr>proc_syscall := hm_poke (proc_syscall s) pid (q1\<lparr>sq_sum_delay := 0, sq_count := 0\<rparr>),
          pre_target_tgid := sc_target_tgid c\<rparr>
      else
        (let q2 = (if sc_is_target c pid tgid
                   then q1\<lparr>sq_proc_count := sq_proc_count q1 + sq_count q1,
                           sq_proc_sd := sq_proc_sd q1 + sq_sum_delay q1\<rparr> else q1);
             s = s\<lparr>proc_syscall := hm_poke (proc_syscall s) pid q2\<rparr> in
         case kn_rsv kn 0 of None \<Rightarrow> s
         | Some e \<Rightarrow>
             s\<lparr>syscall_rb := syscall_rb s @ [seq_report c pid tgid q2 e],
               proc_syscall := hm_poke (proc_syscall s) pid (q2\<lparr>sq_sum_delay := 0, sq_count := 0\<rparr>)\<rparr>))"

definition sys_exit :: "s32 \<Rightarrow> u8 list \<Rightarrow> sc_kern \<Rightarrow> sc_st \<Rightarrow> sc_st" where
  "sys_exit ignore_tgid hostname kn s =
     (case sc_ctrl_on s of None \<Rightarrow> s
      | Some c \<Rightarrow>
          (let (go_on, s) = (if sc_is_container c then is_container_task kn hostname s else (True, s)) in
           if \<not> go_on then s
           else if sc_enable_myproc c \<or> cur_tgid kn \<noteq> ignore_tgid then
             (case hm_lookup (proc_syscall s) (cur_pid kn) of
                None \<Rightarrow> s
              | Some q \<Rightarrow> sys_exit_entry kn c q s)
           else s))"

definition sc_process_exit :: "sc_kern \<Rightarrow> sc_st \<Rightarrow> sc_st" where
  "sc_process_exit kn s =
     (case sc_ctrl_on s of None \<Rightarrow> s
      | Some c \<Rightarrow> s\<lparr>proc_syscall := hm_delete (proc_syscall s) (cur_pid kn)\<rparr>)"

subsection \<open>The tool\<close>

datatype sc_probe = Sc_enter u64 | Sc_exit | Sc_process_exit

fun sc_step :: "s32 \<Rightarrow> u8 list \<Rightarrow> sc_kern \<times> sc_probe \<Rightarrow> sc_st \<Rightarrow> sc_st" where
  "sc_step g h (kn, Sc_enter nr) s = sys_enter g h kn nr s"
| "sc_step g h (kn, Sc_exit) s = sys_exit g h kn s"
| "sc_step g h (kn, Sc_process_exit) s = sc_process_exit kn s"

lemmas sc_handler_defs = sys_enter_def sys_exit_def sc_process_exit_def sys_exit_entry_def is_container_task_def

interpretation sc: gated_tool "sc_step g h" "\<lambda>s. sc_ctrl_on s \<noteq> None"
proof unfold_locales
  fix s :: sc_st and e :: "sc_kern \<times> sc_probe"
  assume "\<not> sc_ctrl_on s \<noteq> None"
  then show "sc_step g h e s = s"
    by (cases "(g, h, e, s)" rule: sc_step.cases) (simp_all add: sc_handler_defs)
qed

lemma sc_container_frame [simp]:
  "sc_ctrl_map (snd (is_container_task kn h s)) = sc_ctrl_map s"
  "proc_syscall (snd (is_container_task kn h s)) = proc_syscall s"
  "syscall_rb (snd (is_container_task kn h s)) = syscall_rb s"
  "pre_target_pid (snd (is_container_task kn h s)) = pre_target_pid s"
  "pre_target_tgid (snd (is_container_task kn h s)) = pre_target_tgid s"
  by (auto simp: is_container_task_def Let_def split: option.splits)

lemma sys_exit_entry_ctrl [simp]: "sc_ctrl_map (sys_exit_entry kn c q s) = sc_ctrl_map s"
  by (auto simp: sys_exit_entry_def Let_def split: option.splits)

lemma sc_ctrl_step [simp]: "sc_ctrl_map (sc_step g h e s) = sc_ctrl_map s"
  by (cases "(g, h, e, s)" rule: sc_step.cases)
    (auto simp: sys_enter_def sys_exit_def sc_process_exit_def Let_def case_prod_beta split: option.splits)

lemma sc_ctrl_on_cong: "sc_ctrl_map s' = sc_ctrl_map s \<Longrightarrow> sc_ctrl_on s' = sc_ctrl_on s"
  by (simp add: sc_ctrl_on_def)

lemma sc_ctrl_on_step [simp]: "sc_ctrl_on (sc_step g h e s) = sc_ctrl_on s"
  by (simp add: sc_ctrl_on_def)

end
