(* ===== verification/SyscallProps.thy ===== *)
theory SyscallProps imports SyscallImage begin

text \<open>
  The properties of the syscall tool: what a thread's reports say about its calls, in any
  interleaving with other threads and in container mode (\<open>syscall_windows\<close>), the bounds of the record buffer
  (\<open>syscall_count_bound\<close>), the container filter as a comparison of C strings
  (\<open>container_filter\<close>), the first batch dropped after a change of target
  (\<open>syscall_switch_drops\<close>), and the batch size that never reports (\<open>syscall_too_long\<close>).
\<close>

subsection \<open>Copying the record\<close>

lemma length_copy_record [simp]:
  "length src = 50 \<Longrightarrow> length dst = 50 \<Longrightarrow> length (copy_record c src i dst) = 50"
  by (induction c src i dst rule: copy_record.induct) (subst copy_record.simps, simp add: arr_copy_inside)

lemma copy_record_prefix:
  assumes "1 \<le> unat c" and "unat c \<le> 50" and "i \<le> unat c" and "length src = 50" and "length dst = 50"
    and "take i dst = take i src"
  shows "take (unat c) (copy_record c src i dst) = take (unat c) src"
  using assms
proof (induction c src i dst rule: copy_record.induct)
  case (1 c src i dst)
  have minus: "unat (c - 1) = unat c - 1"
    using "1.prems"(1) by (intro unat_minus_one) auto
  have idx: "unat (of_nat i :: u32) = i"
    using "1.prems"(2,3) by (simp add: unat_of_nat)
  show ?case
  proof (cases "i < unat c")
    case True
    then have go: "(of_nat i :: u32) \<le> c - 1 \<and> i \<le> 50 - 1"
      using minus idx "1.prems"(2) by (simp add: word_le_nat_alt)
    moreover have "arr_copy src i dst = dst[i := src ! i]"
      using "1.prems" True by (simp add: arr_copy_inside)
    moreover have "take (Suc i) (dst[i := src ! i]) = take (Suc i) src"
      using "1.prems" True by (simp add: take_Suc_conv_app_nth)
    ultimately show ?thesis
      using "1.IH" "1.prems" True by (subst copy_record.simps) simp
  next
    case False
    then have "\<not> ((of_nat i :: u32) \<le> c - 1 \<and> i \<le> 50 - 1)"
      using minus idx "1.prems"(1,3) by (auto simp: word_le_nat_alt)
    then show ?thesis
      using False "1.prems" copy_record.simps [of c src i dst] by (simp only: if_False) simp
  qed
qed

subsection \<open>The container filter\<close>

lemma nodename_differs_drop:
  assumes "length a = 64" and "length b = 64" and "i \<le> 64"
  shows "nodename_differs a b i \<longleftrightarrow>
           takeWhile (\<lambda>x. x \<noteq> 0) (drop i a) \<noteq> takeWhile (\<lambda>x. x \<noteq> 0) (drop i b)"
  using assms
proof (induction a b i rule: nodename_differs.induct)
  case (1 a b i)
  show ?case
  proof (cases "i < 64")
    case True
    then have "drop i a = a ! i # drop (Suc i) a" "drop i b = b ! i # drop (Suc i) b"
      using "1.prems" by (simp_all add: Cons_nth_drop_Suc)
    then show ?thesis
      using "1.IH" "1.prems" True by (subst nodename_differs.simps) auto
  next
    case False
    then show ?thesis
      using "1.prems" by (subst nodename_differs.simps) simp
  qed
qed

lemma length_read_str: "0 < n \<Longrightarrow> length (read_str n src) = n"
  by (simp add: read_str_def Let_def)

lemma cstr_read_str:
  "0 < n \<Longrightarrow> takeWhile (\<lambda>x. x \<noteq> 0) (read_str n src) = take (n - 1) (takeWhile (\<lambda>x. x \<noteq> 0) src)"
proof -
  assume "0 < n"
  let ?s = "take (n - 1) (takeWhile (\<lambda>x. x \<noteq> 0) src)"
  have nz: "x \<noteq> 0" if "x \<in> set ?s" for x
    using set_takeWhileD [OF in_set_takeD [OF that]] by simp
  have zero: "takeWhile (\<lambda>x. x \<noteq> (0::u8)) (replicate k 0) = []" for k
    by (cases k) simp_all
  have "takeWhile (\<lambda>x. x \<noteq> 0) (?s @ replicate k 0) = ?s" for k
    by (simp only: takeWhile_append2 [OF nz] zero append_Nil2)
  then show ?thesis by (simp only: read_str_def Let_def)
qed

text \<open>
  The container filter lets a task through exactly when it has a UTS namespace and its node
  name, cut to 63 bytes, is another C string than the host's name.
\<close>

theorem container_filter:
  assumes "length hostname = 64"
  shows "fst (is_container_task kn hostname s) \<longleftrightarrow>
     (\<exists>name. sk_nodename kn = Some name \<and>
        take 63 (takeWhile (\<lambda>x. x \<noteq> 0) name) \<noteq> takeWhile (\<lambda>x. x \<noteq> 0) hostname)"
  using nodename_differs_drop [OF length_read_str assms, of 0] cstr_read_str [of 64]
  by (auto simp: is_container_task_def Let_def split: option.splits)

subsection \<open>One thread\<close>

text \<open>The entry a thread has, or the one it would be given.\<close>

definition entry_of :: "pid_t \<Rightarrow> syscall_seq option \<Rightarrow> syscall_seq" where
  "entry_of p qo = (case qo of None \<Rightarrow> zero_seq\<lparr>sq_pid := p\<rparr> | Some q \<Rightarrow> q)"

lemma entry_of_Some [simp]: "entry_of p (Some q) = q"
  by (simp add: entry_of_def)

text \<open>
  The events the tool looks at: those of other threads than its own, unless that is enabled, and
  in container mode those of a task whose UTS namespace has another node name than the host.
\<close>

definition in_container :: "u8 list \<Rightarrow> sc_kern \<Rightarrow> bool" where
  "in_container hostname kn = (case sk_nodename kn of None \<Rightarrow> False
     | Some name \<Rightarrow> take 63 (takeWhile (\<lambda>x. x \<noteq> 0) name) \<noteq> takeWhile (\<lambda>x. x \<noteq> 0) hostname)"

definition looked_at :: "s32 \<Rightarrow> u8 list \<Rightarrow> sc_ctrl \<Rightarrow> sc_kern \<Rightarrow> bool" where
  "looked_at g h c kn \<longleftrightarrow> (sc_enable_myproc c \<or> cur_tgid kn \<noteq> g) \<and> (sc_is_container c \<longrightarrow> in_container h kn)"

lemma container_task_in: "length h = 64 \<Longrightarrow> fst (is_container_task kn h s) = in_container h kn"
  by (auto simp: container_filter in_container_def split: option.splits)

text \<open>
  Without a target, the tool is for each thread a machine over the thread's entry and its reports.
\<close>

fun thread_step :: "s32 \<Rightarrow> u8 list \<Rightarrow> sc_ctrl \<Rightarrow> pid_t \<Rightarrow> sc_kern \<times> sc_probe \<Rightarrow>
    syscall_seq option \<times> syscall_seq list \<Rightarrow> syscall_seq option \<times> syscall_seq list" where
  "thread_step g h c p (kn, Sc_enter nr) (qo, out) =
     (if looked_at g h c kn
      then (Some (seq_enter c p (cur_tgid kn) (kn_ktime kn 0) nr (entry_of p qo)), out)
      else (qo, out))"
| "thread_step g h c p (kn, Sc_exit) (qo, out) =
     (case qo of None \<Rightarrow> (None, out)
      | Some q \<Rightarrow>
          if looked_at g h c kn then
            (let q1 = seq_account (kn_ktime kn 0 - sq_enter_time q) q in
             if sq_count q < sc_syscalls c then (Some q1, out)
             else
               (let q2 = q1\<lparr>sq_proc_count := sq_proc_count q1 + sq_count q1,
                            sq_proc_sd := sq_proc_sd q1 + sq_sum_delay q1\<rparr>
                in (Some (q2\<lparr>sq_sum_delay := 0, sq_count := 0\<rparr>),
                    out @ [seq_report c p (cur_tgid kn) q2 (the (kn_rsv kn 0))])))
          else (qo, out))"
| "thread_step g h c p (kn, Sc_process_exit) (qo, out) = (None, out)"

definition thread_view :: "pid_t \<Rightarrow> sc_st \<Rightarrow> syscall_seq option \<times> syscall_seq list" where
  "thread_view p s = (hm_lookup (proc_syscall s) p, filter (\<lambda>e. sq_pid e = p) (syscall_rb s))"

definition thread_ok :: "u8 list \<Rightarrow> sc_ctrl \<Rightarrow> pid_t set \<Rightarrow> sc_st \<Rightarrow> bool" where
  "thread_ok h c K s \<longleftrightarrow> length h = 64 \<and> sc_ctrl_on s = Some c \<and> sc_target_pid c = -1 \<and>
     sc_target_tgid c = -1 \<and> finite K \<and> card K \<le> 10240 \<and> -1 \<notin> K \<and>
     hm_within K (proc_syscall s) \<and> hm_max (proc_syscall s) = 10240"

definition thread_event :: "pid_t set \<Rightarrow> sc_kern \<times> sc_probe \<Rightarrow> bool" where
  "thread_event K e \<longleftrightarrow> cur_pid (fst e) \<in> K \<and> kn_upd (fst e) 1 = 0 \<and> kn_rsv (fst e) 0 \<noteq> None"

lemma seq_first_enter: "seq_first c pid tgid now nr = seq_enter c pid tgid now nr (zero_seq\<lparr>sq_pid := pid\<rparr>)"
  by (simp add: seq_first_def seq_enter_def zero_seq_def Let_def)

lemma seq_report_pid [simp]: "sq_pid (seq_report c pid tgid q e) = pid"
  by (simp add: seq_report_def Let_def)

lemma thread_ok_step:
  assumes "thread_event K e" and "thread_ok h c K s"
  shows "thread_ok h c K (sc_step g h e s)"
  using assms
  by (cases "(g, h, e, s)" rule: sc_step.cases)
    (auto simp: thread_ok_def thread_event_def sys_enter_def sys_exit_def sc_process_exit_def
      sys_exit_entry_def Let_def inv_rules sc_ctrl_on_def case_prod_beta split: option.splits)

lemma thread_room: "thread_ok h c K s \<Longrightarrow> thread_event K e \<Longrightarrow> hm_room (proc_syscall s) (cur_pid (fst e))"
  by (rule hm_within_room [where K = K]) (auto simp: thread_ok_def thread_event_def)

lemma thread_own:
  assumes "thread_ok h c K s" and "thread_event K e"
  shows "thread_view (cur_pid (fst e)) (sc_step g h e s) =
           thread_step g h c (cur_pid (fst e)) e (thread_view (cur_pid (fst e)) s)"
proof -
  have room: "hm_room (proc_syscall s) (cur_pid (fst e))"
    using assms by (rule thread_room)
  have facts: "length h = 64" "sc_ctrl_on s = Some c" "sc_target_pid c = -1" "sc_target_tgid c = -1"
      "kn_upd (fst e) 1 = 0" "cur_pid (fst e) \<noteq> -1"
    using assms by (auto simp: thread_ok_def thread_event_def)
  obtain slot where slot: "kn_rsv (fst e) 0 = Some slot"
    using assms(2) by (auto simp: thread_event_def)
  show ?thesis
  proof (cases "(g, h, e, s)" rule: sc_step.cases)
    case (1 g h kn nr s)
    with room facts show ?thesis
      by (auto simp: thread_view_def sys_enter_def map_rules seq_first_enter entry_of_def Let_def case_prod_beta
          looked_at_def container_task_in split: option.splits)
  next
    case (2 g h kn s)
    with room facts slot show ?thesis
      by (auto simp: thread_view_def sys_exit_def sys_exit_entry_def map_rules sc_is_target_def Let_def
          case_prod_beta looked_at_def container_task_in split: option.splits)
  next
    case (3 g h kn s)
    with facts show ?thesis
      by (auto simp: thread_view_def sc_process_exit_def map_rules)
  qed
qed

lemma thread_other:
  assumes "thread_ok h c K s" and "thread_event K e" and "cur_pid (fst e) \<noteq> p"
  shows "thread_view p (sc_step g h e s) = thread_view p s"
  using assms
  by (cases "(g, h, e, s)" rule: sc_step.cases)
    (auto simp: thread_view_def thread_ok_def sys_enter_def sys_exit_def sc_process_exit_def
      sys_exit_entry_def Let_def map_rules case_prod_beta split: option.splits)

interpretation threads: sliced_tool "sc_step g h" "thread_ok h c K" "thread_event K"
    "\<lambda>e p. cur_pid (fst e) = p" thread_view "thread_step g h c"
  by unfold_locales (use thread_own in \<open>auto simp: thread_ok_step thread_other\<close>)


subsection \<open>A batch of calls\<close>

text \<open>
  A call of a thread: the entry tracepoint, the number and the exit tracepoint.  A batch is what
  the thread does between two reports.
\<close>

record sc_call =
  ca_enter :: sc_kern
  ca_nr :: u64
  ca_exit :: sc_kern

definition call_events :: "sc_call \<Rightarrow> (sc_kern \<times> sc_probe) list" where
  "call_events ca = [(ca_enter ca, Sc_enter (ca_nr ca)), (ca_exit ca, Sc_exit)]"

definition call_delay :: "sc_call \<Rightarrow> u64" where
  "call_delay ca = kn_ktime (ca_exit ca) 0 - kn_ktime (ca_enter ca) 0"

definition call_seen :: "s32 \<Rightarrow> u8 list \<Rightarrow> sc_ctrl \<Rightarrow> sc_call \<Rightarrow> bool" where
  "call_seen g h c ca \<longleftrightarrow>
     looked_at g h c (ca_enter ca) \<and> looked_at g h c (ca_exit ca)
     \<and> (\<exists>e. kn_rsv (ca_exit ca) 0 = Some e \<and> length (sq_record e) = 50)"

definition between_batches :: "pid_t \<Rightarrow> syscall_seq option \<Rightarrow> bool" where
  "between_batches p qo \<longleftrightarrow>
     sq_count (entry_of p qo) = 0 \<and> sq_sum_delay (entry_of p qo) = 0 \<and> length (sq_record (entry_of p qo)) = 50"

text \<open>The entry holds the calls \<open>cs\<close> of the current batch.\<close>

definition batch_holds :: "pid_t \<Rightarrow> syscall_seq option \<Rightarrow> sc_call list \<Rightarrow> bool" where
  "batch_holds p qo cs \<longleftrightarrow>
     unat (sq_count (entry_of p qo)) = length cs \<and>
     sq_sum_delay (entry_of p qo) = (\<Sum>ca\<leftarrow>cs. call_delay ca) \<and>
     length (sq_record (entry_of p qo)) = 50 \<and>
     take (length cs) (sq_record (entry_of p qo)) = map (\<lambda>ca. ucast (ca_nr ca)) cs"

lemma batch_holds_Nil: "between_batches p qo \<longleftrightarrow> batch_holds p qo []"
  by (auto simp: between_batches_def batch_holds_def unat_eq_0)

lemma seq_enter_grows:
  assumes "sc_target_pid c = -1" and "sc_target_tgid c = -1" and "unat (sq_count q) < 50"
    and "length (sq_record q) = 50"
  shows "unat (sq_count (seq_enter c p t now nr q)) = Suc (unat (sq_count q))"
    and "sq_sum_delay (seq_enter c p t now nr q) = sq_sum_delay q"
    and "sq_enter_time (seq_enter c p t now nr q) = now"
    and "sq_record (seq_enter c p t now nr q) = (sq_record q)[unat (sq_count q) := ucast nr]"
proof -
  have bounds: "sq_count q = 0 \<or> sq_count q \<le> 49 \<and> sq_count q > 0 \<and> unat (sq_count q) \<le> 49"
    using assms(3) by (auto simp: word_le_nat_alt word_neq_0_conv [symmetric])
  have suc: "unat (sq_count q + 1) = Suc (unat (sq_count q))"
    using assms(3) by (intro unat_Suc_no_wrap) simp
  have target: "sc_is_target c p t"
    using assms(1,2) by (simp add: sc_is_target_def)
  show "unat (sq_count (seq_enter c p t now nr q)) = Suc (unat (sq_count q))"
    and "sq_sum_delay (seq_enter c p t now nr q) = sq_sum_delay q"
    and "sq_enter_time (seq_enter c p t now nr q) = now"
    and "sq_record (seq_enter c p t now nr q) = (sq_record q)[unat (sq_count q) := ucast nr]"
    using bounds suc target assms(3,4) by (auto simp: seq_enter_def Let_def arr_set_inside)
qed

lemma batch_enter:
  assumes "sc_target_pid c = -1" and "sc_target_tgid c = -1" and "batch_holds p qo cs" and "length cs < 50"
    and q_def: "q = seq_enter c p t now nr (entry_of p qo)"
  shows "unat (sq_count q) = Suc (length cs)" and "sq_sum_delay q = (\<Sum>ca\<leftarrow>cs. call_delay ca)"
    and "sq_enter_time q = now" and "length (sq_record q) = 50"
    and "take (Suc (length cs)) (sq_record q) = map (\<lambda>ca. ucast (ca_nr ca)) cs @ [ucast nr]"
proof -
  have n: "unat (sq_count (entry_of p qo)) = length cs" and len: "length (sq_record (entry_of p qo)) = 50"
    using assms(3) by (simp_all add: batch_holds_def)
  then have lt: "unat (sq_count (entry_of p qo)) < 50" using assms(4) by simp
  note grows = seq_enter_grows [OF assms(1,2) lt len, where p = p and t = t and now = now and nr = nr]
  show "unat (sq_count q) = Suc (length cs)" "sq_sum_delay q = (\<Sum>ca\<leftarrow>cs. call_delay ca)"
    "sq_enter_time q = now" "length (sq_record q) = 50"
    using grows n len assms(3) by (simp_all add: q_def batch_holds_def)
  show "take (Suc (length cs)) (sq_record q) = map (\<lambda>ca. ucast (ca_nr ca)) cs @ [ucast nr]"
    using grows(4) n len assms(3,4) by (simp add: q_def batch_holds_def take_Suc_conv_app_nth)
qed

text \<open>A call that does not complete the batch.\<close>

lemma thread_call_inside:
  assumes "sc_target_pid c = -1" and "sc_target_tgid c = -1" and "batch_holds p qo cs"
    and "call_seen g h c ca" and "Suc (length cs) < unat (sc_syscalls c)" and "length cs < 50"
  shows "\<exists>q. run (thread_step g h c p) (call_events ca) (qo, out) = (Some q, out)
          \<and> batch_holds p (Some q) (cs @ [ca])"
proof -
  note q = batch_enter [OF assms(1-3,6) refl, where t = "cur_tgid (ca_enter ca)"
      and now = "kn_ktime (ca_enter ca) 0" and nr = "ca_nr ca"]
  have "sq_count (seq_enter c p (cur_tgid (ca_enter ca)) (kn_ktime (ca_enter ca) 0) (ca_nr ca) (entry_of p qo))
      < sc_syscalls c"
    using assms(5) by (simp add: word_less_nat_alt q(1))
  then show ?thesis
    using assms(4) q
    by (auto simp: call_events_def call_seen_def seq_account_def Let_def batch_holds_def
        call_delay_def)
qed

text \<open>The call that completes it.\<close>

lemma thread_call_last:
  assumes "sc_target_pid c = -1" and "sc_target_tgid c = -1" and "batch_holds p qo cs"
    and "call_seen g h c ca" and "Suc (length cs) = unat (sc_syscalls c)" and "length cs < 50"
  shows "\<exists>q e. run (thread_step g h c p) (call_events ca) (qo, out) = (Some q, out @ [e])
          \<and> between_batches p (Some q) \<and> unat (sq_count e) = length (cs @ [ca])
          \<and> sq_sum_delay e = (\<Sum>x\<leftarrow>cs @ [ca]. call_delay x)
          \<and> take (length (cs @ [ca])) (sq_record e) = map (\<lambda>x. ucast (ca_nr x)) (cs @ [ca])"
proof -
  define q where "q = seq_enter c p (cur_tgid (ca_enter ca)) (kn_ktime (ca_enter ca) 0) (ca_nr ca) (entry_of p qo)"
  note qs = batch_enter [OF assms(1-3,6) refl, where t = "cur_tgid (ca_enter ca)"
      and now = "kn_ktime (ca_enter ca) 0" and nr = "ca_nr ca", folded q_def]
  obtain slot where slot: "kn_rsv (ca_exit ca) 0 = Some slot" "length (sq_record slot) = 50"
    using assms(4) by (auto simp: call_seen_def)
  have full: "\<not> sq_count q < sc_syscalls c"
    using assms(5) by (simp add: word_less_nat_alt qs(1))
  have copied: "take (unat (sq_count q)) (copy_record (sq_count q) (sq_record q) 0 (sq_record slot)) =
      take (unat (sq_count q)) (sq_record q)"
    using slot(2) qs(1,4) assms(6) by (intro copy_record_prefix) simp_all
  show ?thesis
    using assms(4) slot full qs copied
    by (auto simp: call_events_def call_seen_def q_def [symmetric] seq_account_def Let_def
        between_batches_def call_delay_def seq_report_def)
qed

lemma thread_batch_inside:
  assumes "sc_target_pid c = -1" and "sc_target_tgid c = -1"
    and "batch_holds p qo cs" and "\<forall>ca \<in> set ds. call_seen g h c ca"
    and "length cs + length ds < unat (sc_syscalls c)" and "length cs + length ds < 50"
  shows "\<exists>qo'. run (thread_step g h c p) (concat (map call_events ds)) (qo, out) = (qo', out)
          \<and> batch_holds p qo' (cs @ ds)"
  using assms(3-6)
proof (induction ds arbitrary: qo cs)
  case Nil
  then show ?case by simp
next
  case (Cons d ds)
  then obtain q where "run (thread_step g h c p) (call_events d) (qo, out) = (Some q, out)"
    and "batch_holds p (Some q) (cs @ [d])"
    using thread_call_inside [OF assms(1,2), of p qo cs g h d out] by auto
  then show ?case
    using Cons.IH [of "Some q" "cs @ [d]"] Cons.prems by simp
qed

lemma thread_batch:
  assumes "sc_target_pid c = -1" and "sc_target_tgid c = -1"
    and "between_batches p qo" and "\<forall>ca \<in> set cs. call_seen g h c ca"
    and "length cs = unat (sc_syscalls c)" and "0 < length cs" and "length cs \<le> 50"
  shows "\<exists>q e. run (thread_step g h c p) (concat (map call_events cs)) (qo, out) = (Some q, out @ [e])
          \<and> between_batches p (Some q) \<and> unat (sq_count e) = length cs
          \<and> sq_sum_delay e = (\<Sum>x\<leftarrow>cs. call_delay x)
          \<and> take (length cs) (sq_record e) = map (\<lambda>x. ucast (ca_nr x)) cs"
proof -
  obtain ds d where cs: "cs = ds @ [d]"
    using assms(6) by (cases cs rule: rev_cases) auto
  obtain qo' where "run (thread_step g h c p) (concat (map call_events ds)) (qo, out) = (qo', out)"
    and "batch_holds p qo' ds"
    using thread_batch_inside [OF assms(1,2), of p qo "[]" ds g h out] assms(3-7) cs
    by (auto simp: batch_holds_Nil)
  then show ?thesis
    using thread_call_last [OF assms(1,2), of p qo' ds g h d out] assms(4-7) cs by auto
qed

text \<open>What a report says: how many calls, their summed delay, their numbers.\<close>

definition report_of :: "syscall_seq \<Rightarrow> u64 \<times> s32 list" where
  "report_of e = (sq_sum_delay e, take (unat (sq_count e)) (sq_record e))"

definition batch_report :: "sc_call list \<Rightarrow> u64 \<times> s32 list" where
  "batch_report cs = ((\<Sum>x\<leftarrow>cs. call_delay x), map (\<lambda>x. ucast (ca_nr x)) cs)"

definition batch_ok :: "s32 \<Rightarrow> u8 list \<Rightarrow> sc_ctrl \<Rightarrow> sc_call list \<Rightarrow> bool" where
  "batch_ok g h c cs \<longleftrightarrow> length cs = unat (sc_syscalls c) \<and> 0 < length cs \<and> length cs \<le> 50 \<and>
     (\<forall>ca \<in> set cs. call_seen g h c ca)"

lemma thread_batches:
  assumes "sc_target_pid c = -1" and "sc_target_tgid c = -1"
    and "between_batches p qo" and "\<forall>b \<in> set bs. batch_ok g h c b"
  shows "map report_of (snd (run (thread_step g h c p) (concat (map call_events (concat bs))) (qo, out))) =
           map report_of out @ map batch_report bs"
  using assms(3,4)
proof (induction bs arbitrary: qo out)
  case Nil
  then show ?case by simp
next
  case (Cons b bs)
  then have "batch_ok g h c b" by simp
  with Cons.prems(1) have "between_batches p qo" "\<forall>ca \<in> set b. call_seen g h c ca"
      "length b = unat (sc_syscalls c)" "0 < length b" "length b \<le> 50"
    unfolding batch_ok_def by blast+
  from thread_batch [OF assms(1,2) this, of out]
  obtain q e where "run (thread_step g h c p) (concat (map call_events b)) (qo, out) = (Some q, out @ [e])"
    and "between_batches p (Some q)" and "report_of e = batch_report b"
    unfolding report_of_def batch_report_def by auto
  then show ?case
    using Cons.IH [of "Some q" "out @ [e]"] Cons.prems by simp
qed

text \<open>
  C5. Functional behaviour: let no target be set, at most 10240 threads make events, and the kernel accept
  every insertion and reservation.  A thread that has no entry, and whose events the tool looks at (it is
  not a thread of the tool unless that is enabled, and in container mode its UTS namespace has
  another node name than the host), makes its calls in batches of \<open>syscalls\<close> (1 to 50), while other
  threads, looked at or not, interleave any events.  Then the thread's reports are
  exactly one per batch, each with the sum of the delays of that batch and its call numbers in order.
\<close>

theorem syscall_windows:
  assumes "thread_ok h c K s" and "\<forall>e \<in> set es. thread_event K e"
    and "filter (\<lambda>e. cur_pid (fst e) = p) es = concat (map call_events (concat bs))"
    and "\<forall>b \<in> set bs. batch_ok g h c b"
    and "hm_lookup (proc_syscall s) p = None" and "syscall_rb s = []"
  shows "map report_of (filter (\<lambda>e. sq_pid e = p) (syscall_rb (run (sc_step g h) es s))) = map batch_report bs"
proof -
  have "thread_view p (run (sc_step g h) es s) =
      run (thread_step g h c p) (concat (map call_events (concat bs))) (None, [])"
    using threads.run_slice [OF assms(1,2), where p = p and g = g] assms(3,5,6)
    by (simp add: thread_view_def)
  moreover have "between_batches p None"
    by (simp add: between_batches_def entry_of_def zero_seq_def)
  moreover have "sc_target_pid c = -1" "sc_target_tgid c = -1"
    using assms(1) by (simp_all add: thread_ok_def)
  ultimately show ?thesis
    using thread_batches [where p = p and qo = None and bs = bs and g = g and h = h and c = c and out = "[]"] assms(4)
    by (metis snd_conv thread_view_def append_Nil list.simps(8))
qed

text \<open>A state with the tool on, batches of two, and a cleared record.\<close>

definition sc_demo_ctrl :: sc_ctrl where
  "sc_demo_ctrl = \<lparr>sc_func = True, sc_enable_myproc = False, sc_is_container = False,
     sc_target_pid = -1, sc_target_tgid = -1, sc_syscalls = 2\<rparr>"

definition sc_demo :: sc_st where
  "sc_demo = sc_maps\<lparr>sc_ctrl_map := [sc_demo_ctrl]\<rparr>"

definition sc_calm :: "pid_t \<Rightarrow> s32 \<Rightarrow> u64 \<Rightarrow> sc_kern" where
  "sc_calm p g t = kern.extend (calm p g t zero_seq) \<lparr>sk_nodename = Some []\<rparr>"

lemma sc_calm_simps [simp]:
  "cur_pid (sc_calm p g t) = p" "cur_tgid (sc_calm p g t) = g" "kn_ktime (sc_calm p g t) i = t"
  "kn_upd (sc_calm p g t) i = 0" "kn_rsv (sc_calm p g t) i = Some zero_seq"
  "sk_nodename (sc_calm p g t) = Some []"
  by (simp_all add: sc_calm_def) (simp add: kern.defs)

definition demo_call :: "u64 \<Rightarrow> u64 \<Rightarrow> u64 \<Rightarrow> sc_call" where
  "demo_call nr t u = \<lparr>ca_enter = sc_calm 7 7 t, ca_nr = nr, ca_exit = sc_calm 7 7 u\<rparr>"

text \<open>
  In container mode, on a host called \<open>h\<close>: thread 7 is in a container (its node name is empty),
  thread 8 is not, and thread 9 is the tool's own.
\<close>

definition demo_host :: "u8 list" where
  "demo_host = 104 # replicate 63 0"

definition on_host :: "sc_kern \<Rightarrow> sc_kern" where
  "on_host kn = kn\<lparr>sk_nodename := Some demo_host\<rparr>"

lemma on_host_simps [simp]:
  "cur_pid (on_host kn) = cur_pid kn" "kn_upd (on_host kn) = kn_upd kn" "kn_rsv (on_host kn) = kn_rsv kn"
  by (simp_all add: on_host_def cur_pid_def)

theorem syscall_windows_witness:
  "map report_of (filter (\<lambda>e. sq_pid e = 7) (syscall_rb (run (sc_step 1 demo_host)
     [(sc_calm 7 7 10, Sc_enter 3), (on_host (sc_calm 8 8 11), Sc_enter 9), (sc_calm 7 7 15, Sc_exit),
      (sc_calm 9 1 18, Sc_enter 5),
      (sc_calm 7 7 20, Sc_enter 4), (sc_calm 7 7 28, Sc_exit), (on_host (sc_calm 8 8 30), Sc_exit)]
     (sc_maps\<lparr>sc_ctrl_map := [sc_demo_ctrl\<lparr>sc_is_container := True\<rparr>]\<rparr>))))
   = [(13, [3, 4])]"
proof -
  let ?c = "sc_demo_ctrl\<lparr>sc_is_container := True\<rparr>"
  let ?s = "sc_maps\<lparr>sc_ctrl_map := [?c]\<rparr>"
  let ?es = "[(sc_calm 7 7 10, Sc_enter 3), (on_host (sc_calm 8 8 11), Sc_enter 9), (sc_calm 7 7 15, Sc_exit),
      (sc_calm 9 1 18, Sc_enter 5),
      (sc_calm 7 7 20, Sc_enter 4), (sc_calm 7 7 28, Sc_exit), (on_host (sc_calm 8 8 30), Sc_exit)]"
  let ?bs = "[[demo_call 3 10 15, demo_call 4 20 28]]"
  have ok: "thread_ok demo_host ?c {7, 8, 9} ?s"
    by (simp add: thread_ok_def sc_maps_def sc_ctrl_on_def arr_lookup_def sc_demo_ctrl_def demo_host_def
        card_insert_if)
  have valid: "\<forall>e \<in> set ?es. thread_event {7, 8, 9} e"
    by (simp add: thread_event_def)
  have own: "filter (\<lambda>e. cur_pid (fst e) = 7) ?es = concat (map call_events (concat ?bs))"
    by (simp add: call_events_def demo_call_def)
  have bs: "\<forall>b \<in> set ?bs. batch_ok 1 demo_host ?c b"
    by (simp add: batch_ok_def sc_demo_ctrl_def call_seen_def looked_at_def in_container_def demo_host_def
        demo_call_def zero_seq_def)
  have start: "hm_lookup (proc_syscall ?s) 7 = None" "syscall_rb ?s = []"
    by (simp_all add: sc_maps_def)
  have "batch_report [demo_call 3 10 15, demo_call 4 20 28] = (13, [3, 4])"
    by (simp add: batch_report_def demo_call_def call_delay_def)
  with syscall_windows [OF ok valid own bs start]
  show ?thesis by simp
qed

subsection \<open>Bounds\<close>

definition seq_ok :: "syscall_seq \<Rightarrow> bool" where
  "seq_ok q \<longleftrightarrow> unat (sq_count q) \<le> 50 \<and> length (sq_record q) = 50"

definition seqs_ok :: "sc_st \<Rightarrow> bool" where
  "seqs_ok s \<longleftrightarrow> (\<forall>k q. hm_lookup (proc_syscall s) k = Some q \<longrightarrow> seq_ok q) \<and>
     (\<forall>e \<in> set (syscall_rb s). seq_ok e)"

definition slot_ok :: "sc_kern \<times> sc_probe \<Rightarrow> bool" where
  "slot_ok e \<longleftrightarrow> (\<forall>r. kn_rsv (fst e) 0 = Some r \<longrightarrow> length (sq_record r) = 50)"

lemma seq_ok_count_update: "seq_ok q \<Longrightarrow> sq_count q \<le> 49 \<Longrightarrow> seq_ok (q\<lparr>sq_count := sq_count q + 1\<rparr>)"
proof -
  assume a: "seq_ok q" "sq_count q \<le> 49"
  then have "unat (sq_count q) \<le> 49" by (simp add: word_le_nat_alt)
  then have "unat (sq_count q + 1) = Suc (unat (sq_count q))"
    by (intro unat_Suc_no_wrap) simp
  with a \<open>unat (sq_count q) \<le> 49\<close> show ?thesis by (simp add: seq_ok_def)
qed

lemma seq_ok_update_other [simp]:
  "seq_ok (q\<lparr>sq_enter_time := t\<rparr>) = seq_ok q" "seq_ok (q\<lparr>sq_sum_delay := t\<rparr>) = seq_ok q"
  "seq_ok (q\<lparr>sq_proc_sd := t\<rparr>) = seq_ok q" "seq_ok (q\<lparr>sq_proc_count := n\<rparr>) = seq_ok q"
  "seq_ok (q\<lparr>sq_max_delay := t\<rparr>) = seq_ok q" "seq_ok (q\<lparr>sq_min_delay := t\<rparr>) = seq_ok q"
  "seq_ok (q\<lparr>sq_pid := p\<rparr>) = seq_ok q" "seq_ok (q\<lparr>sq_tgid := p\<rparr>) = seq_ok q"
  by (simp_all add: seq_ok_def)

lemma seq_ok_set [simp]: "seq_ok q \<Longrightarrow> i < 50 \<Longrightarrow> seq_ok (q\<lparr>sq_record := arr_set (sq_record q) i x\<rparr>)"
  by (simp add: seq_ok_def arr_set_inside)

lemma seq_ok_zero [simp]: "seq_ok zero_seq"
  by (simp add: seq_ok_def zero_seq_def)

lemma seq_ok_reset: "seq_ok q \<Longrightarrow> seq_ok (q\<lparr>sq_count := 0\<rparr>)"
  by (simp add: seq_ok_def)

lemma seq_enter_ok:
  assumes "seq_ok q"
  shows "seq_ok (seq_enter c p t now nr q)"
proof (cases "sq_count q \<le> 49")
  case True
  then have inside: "unat (sq_count q) < 50" by (simp add: word_le_nat_alt)
  define q' where "q' = (if sc_is_target c p t
    then q\<lparr>sq_enter_time := now, sq_record := arr_set (sq_record q) (unat (sq_count q)) (ucast nr)\<rparr>
    else q\<lparr>sq_enter_time := now\<rparr>)"
  have "seq_ok q'"
    using assms inside by (simp add: q'_def seq_ok_def arr_set_inside)
  moreover have count: "sq_count q' = sq_count q" by (simp add: q'_def)
  ultimately have "seq_ok (q'\<lparr>sq_count := sq_count q + 1\<rparr>)"
    using seq_ok_count_update [of q'] True by simp
  then show ?thesis
    using assms by (auto simp: seq_enter_def Let_def q'_def)
next
  case False
  then show ?thesis
    using assms by (auto simp: seq_enter_def Let_def)
qed

lemma seq_first_ok: "seq_ok (seq_first c p t now nr)"
  unfolding seq_first_enter by (rule seq_enter_ok) simp

lemma seq_account_ok [simp]: "seq_ok (seq_account d q) = seq_ok q"
  by (simp add: seq_account_def)

lemma seq_report_ok: "seq_ok q \<Longrightarrow> length (sq_record e) = 50 \<Longrightarrow> seq_ok (seq_report c p t q e)"
  by (simp add: seq_report_def seq_ok_def Let_def)

lemma seqs_ok_poke:
  "seqs_ok s \<Longrightarrow> seq_ok q \<Longrightarrow> seqs_ok (s\<lparr>proc_syscall := hm_poke (proc_syscall s) p q\<rparr>)"
  by (auto simp: seqs_ok_def map_rules split: if_splits)

lemma seqs_ok_update:
  "seqs_ok s \<Longrightarrow> seq_ok q \<Longrightarrow> seqs_ok (s\<lparr>proc_syscall := snd (hm_update f (proc_syscall s) p q)\<rparr>)"
  by (auto simp: seqs_ok_def map_rules split: if_splits)

lemma seqs_ok_delete:
  "seqs_ok s \<Longrightarrow> seqs_ok (s\<lparr>proc_syscall := hm_delete (proc_syscall s) p\<rparr>)"
  by (auto simp: seqs_ok_def map_rules split: if_splits)

lemma seqs_ok_cong:
  "proc_syscall s' = proc_syscall s \<Longrightarrow> syscall_rb s' = syscall_rb s \<Longrightarrow> seqs_ok s' = seqs_ok s"
  by (simp add: seqs_ok_def)

lemma seqs_ok_container [simp]: "seqs_ok (snd (is_container_task kn h s)) = seqs_ok s"
  by (rule seqs_ok_cong) simp_all

lemma seqs_ok_lookup: "seqs_ok s \<Longrightarrow> hm_lookup (proc_syscall s) p = Some q \<Longrightarrow> seq_ok q"
  by (simp add: seqs_ok_def)

lemma sys_exit_entry_ok:
  assumes "seqs_ok s" and "seq_ok q" and "\<forall>r. kn_rsv kn 0 = Some r \<longrightarrow> length (sq_record r) = 50"
  shows "seqs_ok (sys_exit_entry kn c q s)"
  using assms
  by (auto simp: sys_exit_entry_def seqs_ok_def map_rules Let_def seq_ok_reset
      intro!: seq_report_ok split: option.splits if_splits)

lemma seqs_ok_step:
  assumes "slot_ok e" and "seqs_ok s"
  shows "seqs_ok (sc_step g h e s)"
proof (cases "(g, h, e, s)" rule: sc_step.cases)
  case (1 g' h' kn nr s')
  with assms show ?thesis
    by (auto simp: sys_enter_def seqs_ok_def Let_def case_prod_beta map_rules seq_first_ok seq_enter_ok
        split: option.splits if_splits)
next
  case (2 g' h' kn s')
  with assms seqs_ok_lookup [of s] show ?thesis
    by (auto simp: sys_exit_def slot_ok_def Let_def case_prod_beta intro!: sys_exit_entry_ok
        split: option.splits)
next
  case (3 g' h' kn s')
  with assms show ?thesis
    by (auto simp: sc_process_exit_def intro: seqs_ok_delete split: option.splits)
qed

interpretation sc_bounds: tool "sc_step g h" seqs_ok slot_ok
  by unfold_locales (rule seqs_ok_step)

text \<open>
  C23. Bounds: whatever the control values, the host name and the order of events, every entry and
  every report counts at most 50 calls and still has its array of 50 elements, provided that the
  ring buffer reserves records with an array of 50 elements.  An access of the two probes outside
  the array, a write as well as the read of the copying loop, would leave the empty list in its
  place, so no access leaves the array, also for a report whose count is 0 and whose loop
  runs to the end of the array.
\<close>

theorem syscall_count_bound:
  assumes "\<forall>e \<in> set es. slot_ok e" and "proc_syscall s = hm_new 10240" and "syscall_rb s = []"
    and "s' = run (sc_step g h) es s"
  shows "(\<forall>k q. hm_lookup (proc_syscall s') k = Some q \<longrightarrow> unat (sq_count q) \<le> 50 \<and> length (sq_record q) = 50)
       \<and> (\<forall>e \<in> set (syscall_rb s'). unat (sq_count e) \<le> 50 \<and> length (sq_record e) = 50)"
proof -
  have "seqs_ok s" using assms(2,3) by (simp add: seqs_ok_def)
  then have "seqs_ok s'" using sc_bounds.run_inv [of es s g h] assms(1,4) by blast
  then show ?thesis by (auto simp: seqs_ok_def seq_ok_def)
qed

theorem syscall_count_bound_witness:
  "\<exists>q. hm_lookup (proc_syscall (run (sc_step 1 []) [(sc_calm 7 7 10, Sc_enter 3)] sc_demo)) 7 = Some q
     \<and> unat (sq_count q) \<le> 50"
proof -
  let ?s = "run (sc_step 1 []) [(sc_calm 7 7 10, Sc_enter 3)] sc_demo"
  have "hm_lookup (proc_syscall ?s) 7 \<noteq> None"
    by code_simp
  then obtain q where q: "hm_lookup (proc_syscall ?s) 7 = Some q"
    by blast
  have "\<forall>e \<in> set [(sc_calm 7 7 10, Sc_enter 3)]. slot_ok e"
    by (simp add: slot_ok_def zero_seq_def)
  moreover have "proc_syscall sc_demo = hm_new 10240" "syscall_rb sc_demo = []"
    by (simp_all add: sc_demo_def sc_maps_def)
  ultimately have "\<forall>k q. hm_lookup (proc_syscall ?s) k = Some q \<longrightarrow>
      unat (sq_count q) \<le> 50 \<and> length (sq_record q) = 50"
    using syscall_count_bound [OF _ _ _ refl] by blast
  with q show ?thesis by blast
qed

lemma too_long_step:
  assumes "sc_ctrl_on s = Some c" and "50 < sc_syscalls c" and "seqs_ok s"
  shows "syscall_rb (sc_step g h e s) = syscall_rb s"
proof -
  have small: "sq_count q < sc_syscalls c" if "hm_lookup (proc_syscall s) k = Some q" for k q
  proof -
    have "sq_count q \<le> 50"
      using assms(3) that by (auto simp: seqs_ok_def seq_ok_def word_le_nat_alt)
    then show ?thesis using assms(2) by simp
  qed
  show ?thesis
    using assms(1) small
    by (cases "(g, h, e, s)" rule: sc_step.cases)
      (auto simp: sys_enter_def sys_exit_def sc_process_exit_def sys_exit_entry_def Let_def case_prod_beta
        split: option.splits)
qed

text \<open>
  A batch size above 50 (as an unsigned number: also every negative one) reports nothing, for
  any events, because the count of an entry stops at 50.
\<close>

theorem syscall_too_long:
  assumes "sc_ctrl_on s = Some c" and "50 < sc_syscalls c" and "seqs_ok s"
    and "\<forall>e \<in> set es. slot_ok e"
  shows "syscall_rb (run (sc_step g h) es s) = syscall_rb s"
  using assms(1,3,4)
proof (induction es arbitrary: s)
  case Nil
  then show ?case by simp
next
  case (Cons e es)
  then show ?case
    using seqs_ok_step [of e s g h] too_long_step [OF Cons.prems(1) assms(2) Cons.prems(2), of g h e]
    by simp
qed

theorem syscall_too_long_witness:
  "syscall_rb (run (sc_step 1 []) [(sc_calm 7 7 10, Sc_enter 3), (sc_calm 7 7 15, Sc_exit)]
     (sc_maps\<lparr>sc_ctrl_map := [sc_demo_ctrl\<lparr>sc_syscalls := 51\<rparr>]\<rparr>)) = []"
proof -
  let ?s = "sc_maps\<lparr>sc_ctrl_map := [sc_demo_ctrl\<lparr>sc_syscalls := 51\<rparr>]\<rparr>"
  have "sc_ctrl_on ?s = Some (sc_demo_ctrl\<lparr>sc_syscalls := 51\<rparr>)" "seqs_ok ?s" "syscall_rb ?s = []"
    by (simp_all add: sc_ctrl_on_def arr_lookup_def sc_demo_ctrl_def seqs_ok_def sc_maps_def)
  moreover have "\<forall>e \<in> set [(sc_calm 7 7 10, Sc_enter 3), (sc_calm 7 7 15, Sc_exit)]. slot_ok e"
    by (simp add: slot_ok_def zero_seq_def)
  ultimately show ?thesis
    using syscall_too_long [where s = ?s and c = "sc_demo_ctrl\<lparr>sc_syscalls := 51\<rparr>"
        and es = "[(sc_calm 7 7 10, Sc_enter 3), (sc_calm 7 7 15, Sc_exit)]"]
    by (simp add: sc_demo_ctrl_def)
qed

theorem container_filter_witness:
  "fst (is_container_task ((sc_calm 7 7 1)\<lparr>sk_nodename := Some [99, 49, 0]\<rparr>) (104 # replicate 63 0) sc_demo)"
  using container_filter [of "104 # replicate 63 0" "(sc_calm 7 7 1)\<lparr>sk_nodename := Some [99, 49, 0]\<rparr>" sc_demo]
  by simp

subsection \<open>Changing the target\<close>

text \<open>
  When a thread becomes the target, the first batch it completes is dropped: nothing is
  reported, its counters restart, and the probe remembers the new target, so that the drop is not
  repeated (\<open>pre_target_pid\<close>); the extreme delays are kept, and already include the call that just returned.
\<close>

theorem syscall_switch_drops:
  assumes "sc_ctrl_on s = Some c" and "\<not> sc_is_container c"
    and "sc_enable_myproc c \<or> cur_tgid kn \<noteq> g"
    and "sc_target_tgid c = -1" and "sc_target_pid c = cur_pid kn" and "pre_target_pid s \<noteq> cur_pid kn"
    and "hm_lookup (proc_syscall s) (cur_pid kn) = Some q" and "sc_syscalls c \<le> sq_count q"
    and "s' = sys_exit g h kn s"
  shows "syscall_rb s' = syscall_rb s \<and> pre_target_pid s' = cur_pid kn \<and>
     (\<exists>q'. hm_lookup (proc_syscall s') (cur_pid kn) = Some q' \<and> sq_count q' = 0 \<and> sq_sum_delay q' = 0 \<and>
        sq_max_delay q' = max (sq_max_delay q) (kn_ktime kn 0 - sq_enter_time q)) \<and>
     (\<forall>p. p \<noteq> cur_pid kn \<longrightarrow> hm_lookup (proc_syscall s') p = hm_lookup (proc_syscall s) p)"
  using assms
  by (auto simp: sys_exit_def sys_exit_entry_def seq_account_def map_rules Let_def max_def not_less)

theorem syscall_switch_drops_witness:
  "pre_target_pid (sys_exit 1 [] (sc_calm 7 7 15) (sys_enter 1 [] (sc_calm 7 7 10) 3
     (sc_maps\<lparr>sc_ctrl_map := [sc_demo_ctrl\<lparr>sc_target_pid := 7, sc_syscalls := 1\<rparr>]\<rparr>))) = 7"
proof -
  let ?c = "sc_demo_ctrl\<lparr>sc_target_pid := 7, sc_syscalls := 1\<rparr>"
  let ?s = "sys_enter 1 [] (sc_calm 7 7 10) 3 (sc_maps\<lparr>sc_ctrl_map := [?c]\<rparr>)"
  have on: "sc_ctrl_on ?s = Some ?c" "pre_target_pid ?s = -1"
    by (simp_all add: sys_enter_def sc_ctrl_on_def arr_lookup_def sc_demo_ctrl_def sc_maps_def Let_def)
  have "hm_room (hm_new 10240) (7 :: pid_t)"
    by (simp add: hm_room_def hm_new_def)
  then have "hm_lookup (proc_syscall ?s) 7 = Some (seq_first ?c 7 7 10 3)"
    by (simp add: sys_enter_def sc_ctrl_on_def arr_lookup_def sc_demo_ctrl_def sc_maps_def Let_def map_rules)
  moreover have "sc_syscalls ?c \<le> sq_count (seq_first ?c 7 7 10 3)"
    by (simp add: sc_demo_ctrl_def seq_first_def zero_seq_def Let_def)
  ultimately show ?thesis
    using syscall_switch_drops [OF on(1) _ _ _ _ _ _ _ refl, where kn = "sc_calm 7 7 15" and g = 1 and h = "[]"] on(2)
    by (simp add: sc_demo_ctrl_def)
qed

end
