(* ===== verification/ScheduleImage.thy ===== *)
theory ScheduleImage imports ResourceImage begin

text \<open>
  The schedule tool, \<open>bpf/schedule_image.bpf.c\<close>: the scheduling delay of a task is the time
  from its wake-up (or from its being put back on the run queue) to its next getting a CPU.
  Probes on \<open>sched_wakeup\<close>, \<open>sched_wakeup_new\<close>, \<open>sched_switch\<close> and \<open>sched_process_exit\<close> keep it
  per task, for the target, for the target's thread group and for the system.

  The key \<open>struct proc_id\<close> is that of the resource tool.  What the probes read from a
  \<open>task_struct\<close> is an input: pid, tgid, state and priority.
\<close>

subsection \<open>Structures and maps\<close>

record sched_ctrl =
  sched_func :: bool
  sd_target_pid :: pid_t
  sd_target_cpu_id :: s32
  sd_target_tgid :: s32

record schedule_event =
  sv_pid :: s32
  sv_tgid :: s32
  sv_prio :: s32
  sv_count :: s32
  sv_enter_time :: u64
  sv_sum_delay :: u64
  sv_max_delay :: u64
  sv_min_delay :: u64

record sum_schedule =
  ss_sum_count :: u64
  ss_sum_delay :: u64
  ss_max_delay :: u64
  ss_min_delay :: u64

definition zero_event :: schedule_event where
  "zero_event = \<lparr>sv_pid = 0, sv_tgid = 0, sv_prio = 0, sv_count = 0, sv_enter_time = 0,
     sv_sum_delay = 0, sv_max_delay = 0, sv_min_delay = 0\<rparr>"

definition zero_sum :: sum_schedule where
  "zero_sum = \<lparr>ss_sum_count = 0, ss_sum_delay = 0, ss_max_delay = 0, ss_min_delay = 0\<rparr>"

record sched_st =
  sched_ctrl_map :: "sched_ctrl list"
  proc_schedule :: "(proc_id, schedule_event) hmap"
  target_schedule :: "schedule_event list"
  enable_add :: "(proc_id, bool) hmap"
  tg_schedule :: "(pid_t, schedule_event) hmap"
  sys_schedule :: "sum_schedule list"

definition sched_maps :: sched_st where
  "sched_maps = \<lparr>
     sched_ctrl_map = [\<lparr>sched_func = False, sd_target_pid = 0, sd_target_cpu_id = 0, sd_target_tgid = 0\<rparr>],
     proc_schedule = hm_new 10240,
     target_schedule = [zero_event],
     enable_add = hm_new 10240,
     tg_schedule = hm_new 1024,
     sys_schedule = [zero_sum]\<rparr>"

record stask =
  st_pid :: pid_t
  st_tgid :: s32
  st_state :: u32
  st_prio :: s32

abbreviation (input) TASK_RUNNING :: u32 where "TASK_RUNNING \<equiv> 0"

subsection \<open>The probes\<close>

definition sched_ctrl_on :: "sched_st \<Rightarrow> sched_ctrl option" where
  "sched_ctrl_on s = (case arr_lookup (sched_ctrl_map s) 0 of
       None \<Rightarrow> None
     | Some c \<Rightarrow> if sched_func c then Some c else None)"

text \<open>
  The delay of \<open>pid\<close> starts now: the part that \<open>sched_wakeup\<close>, \<open>sched_wakeup_new\<close> and the first
  half of \<open>sched_switch\<close> share word for word.  A new entry has count 1, and its flag in
  \<open>enable_add\<close> says that the first switch must not count again.
\<close>

definition sched_enqueue :: "unit kern \<Rightarrow> pid_t \<Rightarrow> s32 \<Rightarrow> sched_st \<Rightarrow> sched_st" where
  "sched_enqueue kn pid tgid s =
     (let pd = mk_proc_id pid (kn_cpu kn); now = kn_ktime kn 0 in
      case hm_lookup (proc_schedule s) pd of
        None \<Rightarrow>
          (let s = s\<lparr>enable_add := snd (hm_update (kn_upd kn 0) (enable_add s) pd False)\<rparr>
           in s\<lparr>proc_schedule := snd (hm_update (kn_upd kn 1) (proc_schedule s) pd
                (zero_event\<lparr>sv_pid := pid, sv_tgid := tgid, sv_count := 1, sv_enter_time := now\<rparr>))\<rparr>)
      | Some ev \<Rightarrow> s\<lparr>proc_schedule := hm_poke (proc_schedule s) pd (ev\<lparr>sv_enter_time := now\<rparr>)\<rparr>)"

definition sched_wakeup :: "unit kern \<Rightarrow> stask \<Rightarrow> sched_st \<Rightarrow> sched_st" where
  "sched_wakeup kn p s =
     (case sched_ctrl_on s of None \<Rightarrow> s | Some c \<Rightarrow> sched_enqueue kn (st_pid p) (st_tgid p) s)"

definition sched_wakeup_new :: "unit kern \<Rightarrow> stask \<Rightarrow> sched_st \<Rightarrow> sched_st" where
  "sched_wakeup_new kn p s =
     (case sched_ctrl_on s of None \<Rightarrow> s | Some c \<Rightarrow> sched_enqueue kn (st_pid p) (st_tgid p) s)"

text \<open>The new delay \<open>d\<close> in the event of the task and in the sums of the system.\<close>

definition event_add :: "s32 \<Rightarrow> u64 \<Rightarrow> schedule_event \<Rightarrow> schedule_event" where
  "event_add prio d ev =
     ev\<lparr>sv_prio := prio,
        sv_sum_delay := sv_sum_delay ev + d,
        sv_max_delay := (if d > sv_max_delay ev then d else sv_max_delay ev),
        sv_min_delay := (if sv_min_delay ev = 0 \<or> d < sv_min_delay ev then d else sv_min_delay ev)\<rparr>"

definition sum_add :: "u64 \<Rightarrow> sum_schedule \<Rightarrow> sum_schedule" where
  "sum_add d t =
     t\<lparr>ss_sum_count := ss_sum_count t + 1,
       ss_sum_delay := ss_sum_delay t + d,
       ss_max_delay := (if d > ss_max_delay t then d else ss_max_delay t),
       ss_min_delay := (if ss_min_delay t = 0 \<or> d < ss_min_delay t then d else ss_min_delay t)\<rparr>"

definition sched_is_target :: "sched_ctrl \<Rightarrow> pid_t \<Rightarrow> s32 \<Rightarrow> bool" where
  "sched_is_target c pid cpu \<longleftrightarrow> sd_target_pid c \<noteq> -1 \<and>
     ((sd_target_pid c \<noteq> 0 \<and> pid = sd_target_pid c) \<or>
      (sd_target_pid c = 0 \<and> pid = sd_target_pid c \<and> cpu = sd_target_cpu_id c))"

text \<open>The second half of \<open>sched_switch\<close>: \<open>next\<close> has waited until now.\<close>

definition sched_dequeue :: "unit kern \<Rightarrow> sched_ctrl \<Rightarrow> stask \<Rightarrow> sched_st \<Rightarrow> sched_st" where
  "sched_dequeue kn c nxt s =
     (let pd = mk_proc_id (st_pid nxt) (kn_cpu kn) in
      case hm_lookup (proc_schedule s) pd of None \<Rightarrow> s
      | Some ev \<Rightarrow>
         (case hm_lookup (enable_add s) pd of None \<Rightarrow> s
          | Some e_add \<Rightarrow>
             (let d = kn_ktime kn 0 - sv_enter_time ev;
                  ev1 = (if e_add then ev\<lparr>sv_count := sv_count ev + 1\<rparr> else ev);
                  ev2 = event_add (st_prio nxt) d ev1;
                  s = s\<lparr>enable_add := (if e_add then enable_add s else hm_poke (enable_add s) pd True)\<rparr>;
                  s = s\<lparr>proc_schedule := hm_poke (proc_schedule s) pd ev2\<rparr>;
                  s = (if sched_is_target c (st_pid nxt) (kn_cpu kn)
                       then s\<lparr>target_schedule := snd (arr_update (kn_upd kn 2) (target_schedule s) 0 ev2)\<rparr>
                       else s);
                  s = (if st_tgid nxt = sd_target_tgid c
                       then s\<lparr>tg_schedule := snd (hm_update (kn_upd kn 3) (tg_schedule s) (st_pid nxt) ev2)\<rparr>
                       else s)
              in case arr_lookup (sys_schedule s) 0 of
                   None \<Rightarrow> s\<lparr>sys_schedule := snd (arr_update (kn_upd kn 4) (sys_schedule s) 0 (sum_add d zero_sum))\<rparr>
                 | Some t \<Rightarrow> s\<lparr>sys_schedule := (sys_schedule s)[0 := sum_add d t]\<rparr>)))"

definition sched_switch :: "unit kern \<Rightarrow> stask \<Rightarrow> stask \<Rightarrow> sched_st \<Rightarrow> sched_st" where
  "sched_switch kn prev nxt s =
     (case sched_ctrl_on s of None \<Rightarrow> s
      | Some c \<Rightarrow>
          (let s = (if st_state prev = TASK_RUNNING then sched_enqueue kn (st_pid prev) (st_tgid prev) s else s)
           in sched_dequeue kn c nxt s))"

definition sched_process_exit :: "unit kern \<Rightarrow> stask \<Rightarrow> sched_st \<Rightarrow> sched_st" where
  "sched_process_exit kn p s =
     (case sched_ctrl_on s of None \<Rightarrow> s
      | Some c \<Rightarrow>
          (let pd = mk_proc_id (st_pid p) (kn_cpu kn);
               s = (if hm_lookup (proc_schedule s) pd \<noteq> None
                    then s\<lparr>proc_schedule := hm_delete (proc_schedule s) pd\<rparr> else s);
               s = (if hm_lookup (enable_add s) pd \<noteq> None
                    then s\<lparr>enable_add := hm_delete (enable_add s) pd\<rparr> else s);
               s = (if sched_is_target c (st_pid p) (kn_cpu kn)
                    then (case arr_lookup (target_schedule s) 0 of None \<Rightarrow> s
                          | Some ev \<Rightarrow> s\<lparr>target_schedule := (target_schedule s)[0 := ev\<lparr>sv_count := 0\<rparr>]\<rparr>)
                    else s)
           in if st_tgid p = sd_target_tgid c
              then s\<lparr>tg_schedule := hm_delete (tg_schedule s) (st_pid p)\<rparr> else s))"

subsection \<open>The tool\<close>

datatype sched_probe =
    Sched_wakeup stask
  | Sched_wakeup_new stask
  | Sched_switch stask stask
  | Sched_process_exit stask

fun sched_step :: "unit kern \<times> sched_probe \<Rightarrow> sched_st \<Rightarrow> sched_st" where
  "sched_step (kn, Sched_wakeup p) s = sched_wakeup kn p s"
| "sched_step (kn, Sched_wakeup_new p) s = sched_wakeup_new kn p s"
| "sched_step (kn, Sched_switch prev nxt) s = sched_switch kn prev nxt s"
| "sched_step (kn, Sched_process_exit p) s = sched_process_exit kn p s"

lemma sched_enqueue_ctrl [simp]: "sched_ctrl_map (sched_enqueue kn p t s) = sched_ctrl_map s"
  by (simp add: sched_enqueue_def Let_def split: option.splits)

lemma sched_dequeue_ctrl [simp]: "sched_ctrl_map (sched_dequeue kn c nxt s) = sched_ctrl_map s"
  by (simp add: sched_dequeue_def Let_def split: option.splits)

lemma sched_ctrl_step [simp]: "sched_ctrl_map (sched_step e s) = sched_ctrl_map s"
  by (cases "(e, s)" rule: sched_step.cases)
    (auto simp: sched_wakeup_def sched_wakeup_new_def sched_switch_def sched_process_exit_def Let_def
      split: option.splits)

lemma sched_ctrl_on_step [simp]: "sched_ctrl_on (sched_step e s) = sched_ctrl_on s"
  by (simp add: sched_ctrl_on_def)

interpretation sched: gated_tool sched_step "\<lambda>s. sched_ctrl_on s \<noteq> None"
proof unfold_locales
  fix s e assume "\<not> sched_ctrl_on s \<noteq> None"
  then show "sched_step e s = s"
    by (cases "(e, s)" rule: sched_step.cases)
      (simp_all add: sched_wakeup_def sched_wakeup_new_def sched_switch_def sched_process_exit_def)
qed

end
