(* ===== verification/ScheduleProps.thy ===== *)
theory ScheduleProps imports ScheduleImage begin

text \<open>
  The properties of the schedule tool: the entry of a task holds exactly the delays the task
  waited, in any interleaving (\<open>sched_delays\<close>); counts are positive, so that the averages the
  user side prints are defined (\<open>sched_count_positive\<close>); the system's maximum bounds every
  task's (\<open>sched_max_dominates\<close>); an exit clears what it should (\<open>sched_exit_clears\<close>).
\<close>

subsection \<open>One task\<close>

text \<open>
  The tool as a machine for the key \<open>k\<close>: what is known of the task is its event and whether a
  delay was counted already; nothing before its first wake-up and after its exit.
\<close>

definition wait_start :: "u64 \<Rightarrow> pid_t \<Rightarrow> s32 \<Rightarrow> (schedule_event \<times> bool) option \<Rightarrow> (schedule_event \<times> bool) option" where
  "wait_start now pid tgid w = (case w of
       None \<Rightarrow> Some (zero_event\<lparr>sv_pid := pid, sv_tgid := tgid, sv_count := 1, sv_enter_time := now\<rparr>, False)
     | Some (ev, b) \<Rightarrow> Some (ev\<lparr>sv_enter_time := now\<rparr>, b))"

definition wait_end :: "u64 \<Rightarrow> s32 \<Rightarrow> (schedule_event \<times> bool) option \<Rightarrow> (schedule_event \<times> bool) option" where
  "wait_end now prio w = (case w of
       None \<Rightarrow> None
     | Some (ev, b) \<Rightarrow> Some (event_add prio (now - sv_enter_time ev)
          (if b then ev\<lparr>sv_count := sv_count ev + 1\<rparr> else ev), True))"

definition skey :: "unit kern \<Rightarrow> stask \<Rightarrow> proc_id" where
  "skey kn p = mk_proc_id (st_pid p) (kn_cpu kn)"

fun wait_step :: "proc_id \<Rightarrow> unit kern \<times> sched_probe \<Rightarrow> (schedule_event \<times> bool) option \<Rightarrow>
    (schedule_event \<times> bool) option" where
  "wait_step k (kn, Sched_wakeup p) w =
     (if skey kn p = k then wait_start (kn_ktime kn 0) (st_pid p) (st_tgid p) w else w)"
| "wait_step k (kn, Sched_wakeup_new p) w =
     (if skey kn p = k then wait_start (kn_ktime kn 0) (st_pid p) (st_tgid p) w else w)"
| "wait_step k (kn, Sched_switch prev nxt) w =
     (let w = (if st_state prev = 0 \<and> skey kn prev = k
               then wait_start (kn_ktime kn 0) (st_pid prev) (st_tgid prev) w else w)
      in if skey kn nxt = k then wait_end (kn_ktime kn 0) (st_prio nxt) w else w)"
| "wait_step k (kn, Sched_process_exit p) w = (if skey kn p = k then None else w)"

fun sched_touches :: "unit kern \<times> sched_probe \<Rightarrow> proc_id \<Rightarrow> bool" where
  "sched_touches (kn, Sched_wakeup p) k = (skey kn p = k)"
| "sched_touches (kn, Sched_wakeup_new p) k = (skey kn p = k)"
| "sched_touches (kn, Sched_switch prev nxt) k = (st_state prev = 0 \<and> skey kn prev = k \<or> skey kn nxt = k)"
| "sched_touches (kn, Sched_process_exit p) k = (skey kn p = k)"

definition wait_of :: "proc_id \<Rightarrow> sched_st \<Rightarrow> (schedule_event \<times> bool) option" where
  "wait_of k s = (case hm_lookup (proc_schedule s) k of None \<Rightarrow> None
     | Some ev \<Rightarrow> (case hm_lookup (enable_add s) k of None \<Rightarrow> None | Some b \<Rightarrow> Some (ev, b)))"

text \<open>
  The invariant under which the tool is that machine: the two maps have the same keys, all from a
  set the maps have room for.
\<close>

definition sched_fits :: "sched_ctrl \<Rightarrow> proc_id set \<Rightarrow> sched_st \<Rightarrow> bool" where
  "sched_fits c K s \<longleftrightarrow> sched_ctrl_on s = Some c \<and> finite K \<and> card K \<le> 10240 \<and>
     hm_within K (proc_schedule s) \<and> hm_max (proc_schedule s) = 10240 \<and>
     hm_within K (enable_add s) \<and> hm_max (enable_add s) = 10240 \<and>
     dom (hm_lookup (proc_schedule s)) = dom (hm_lookup (enable_add s))"

fun sched_tasks :: "sched_probe \<Rightarrow> stask list" where
  "sched_tasks (Sched_wakeup p) = [p]"
| "sched_tasks (Sched_wakeup_new p) = [p]"
| "sched_tasks (Sched_switch prev nxt) = [prev, nxt]"
| "sched_tasks (Sched_process_exit p) = [p]"

definition sched_valid :: "proc_id set \<Rightarrow> unit kern \<times> sched_probe \<Rightarrow> bool" where
  "sched_valid K e \<longleftrightarrow> kn_upd (fst e) 0 = 0 \<and> kn_upd (fst e) 1 = 0 \<and>
     (\<forall>p \<in> set (sched_tasks (snd e)). skey (fst e) p \<in> K)"

lemma same_dom: "dom f = dom g \<Longrightarrow> f k = None \<longleftrightarrow> g k = None"
  by (metis domIff)

lemma enqueue_fits:
  assumes "sched_fits c K s" and "kn_upd kn 0 = 0" and "kn_upd kn 1 = 0" and "skey kn p \<in> K"
  shows "sched_fits c K (sched_enqueue kn (st_pid p) (st_tgid p) s)"
    and "wait_of k (sched_enqueue kn (st_pid p) (st_tgid p) s) =
           (if skey kn p = k then wait_start (kn_ktime kn 0) (st_pid p) (st_tgid p) (wait_of k s) else wait_of k s)"
proof -
  have room: "hm_room (proc_schedule s) (skey kn p)" "hm_room (enable_add s) (skey kn p)"
    using assms by (auto simp: sched_fits_def intro: hm_within_room)
  have same: "hm_lookup (proc_schedule s) x = None \<longleftrightarrow> hm_lookup (enable_add s) x = None" for x
    using assms(1) by (intro same_dom) (simp add: sched_fits_def)
  have looks: "dom (hm_lookup (proc_schedule (sched_enqueue kn (st_pid p) (st_tgid p) s))) =
        insert (skey kn p) (dom (hm_lookup (proc_schedule s)))"
      "dom (hm_lookup (enable_add (sched_enqueue kn (st_pid p) (st_tgid p) s))) =
        (if hm_lookup (proc_schedule s) (skey kn p) = None
         then insert (skey kn p) (dom (hm_lookup (enable_add s))) else dom (hm_lookup (enable_add s)))"
    using assms(2,3) room
    by (auto simp: sched_enqueue_def skey_def Let_def map_rules dom_hm_poke split: option.splits if_splits)
  have "insert (skey kn p) (dom (hm_lookup (proc_schedule s))) =
      (if hm_lookup (proc_schedule s) (skey kn p) = None
       then insert (skey kn p) (dom (hm_lookup (enable_add s))) else dom (hm_lookup (enable_add s)))"
    using assms(1) by (auto simp: sched_fits_def insert_absorb domIff)
  then have doms: "dom (hm_lookup (proc_schedule (sched_enqueue kn (st_pid p) (st_tgid p) s))) =
      dom (hm_lookup (enable_add (sched_enqueue kn (st_pid p) (st_tgid p) s)))"
    by (simp only: looks)
  have "hm_within K (proc_schedule (sched_enqueue kn (st_pid p) (st_tgid p) s))"
      "hm_max (proc_schedule (sched_enqueue kn (st_pid p) (st_tgid p) s)) = 10240"
      "hm_within K (enable_add (sched_enqueue kn (st_pid p) (st_tgid p) s))"
      "hm_max (enable_add (sched_enqueue kn (st_pid p) (st_tgid p) s)) = 10240"
    using assms
    by (simp_all add: sched_fits_def sched_enqueue_def skey_def Let_def inv_rules split: option.splits)
  moreover have "sched_ctrl_on (sched_enqueue kn (st_pid p) (st_tgid p) s) = sched_ctrl_on s"
    by (simp add: sched_ctrl_on_def)
  ultimately show "sched_fits c K (sched_enqueue kn (st_pid p) (st_tgid p) s)"
    using assms(1) doms by (simp add: sched_fits_def)
  show "wait_of k (sched_enqueue kn (st_pid p) (st_tgid p) s) =
      (if skey kn p = k then wait_start (kn_ktime kn 0) (st_pid p) (st_tgid p) (wait_of k s) else wait_of k s)"
    using assms(2,3) room same [of k]
    by (auto simp: wait_of_def wait_start_def sched_enqueue_def skey_def Let_def map_rules
        split: option.splits if_splits)
qed

lemma dequeue_proj [simp]:
  "proc_schedule (sched_dequeue kn c nxt s) = (case hm_lookup (proc_schedule s) (skey kn nxt) of
       None \<Rightarrow> proc_schedule s
     | Some ev \<Rightarrow> (case hm_lookup (enable_add s) (skey kn nxt) of None \<Rightarrow> proc_schedule s
         | Some b \<Rightarrow> hm_poke (proc_schedule s) (skey kn nxt) (event_add (st_prio nxt)
             (kn_ktime kn 0 - sv_enter_time ev) (if b then ev\<lparr>sv_count := sv_count ev + 1\<rparr> else ev))))"
  "enable_add (sched_dequeue kn c nxt s) = (case hm_lookup (proc_schedule s) (skey kn nxt) of
       None \<Rightarrow> enable_add s
     | Some ev \<Rightarrow> (case hm_lookup (enable_add s) (skey kn nxt) of None \<Rightarrow> enable_add s
         | Some b \<Rightarrow> (if b then enable_add s else hm_poke (enable_add s) (skey kn nxt) True)))"
  by (simp_all add: sched_dequeue_def skey_def Let_def split: option.splits)

lemma dequeue_fits:
  assumes "sched_fits c K s"
  shows "sched_fits c K (sched_dequeue kn c' nxt s)"
    and "wait_of k (sched_dequeue kn c' nxt s) =
           (if skey kn nxt = k then wait_end (kn_ktime kn 0) (st_prio nxt) (wait_of k s) else wait_of k s)"
proof -
  show "sched_fits c K (sched_dequeue kn c' nxt s)"
    using assms
    by (auto simp: sched_fits_def inv_rules dom_hm_poke sched_ctrl_on_def split: option.splits)
  show "wait_of k (sched_dequeue kn c' nxt s) =
      (if skey kn nxt = k then wait_end (kn_ktime kn 0) (st_prio nxt) (wait_of k s) else wait_of k s)"
    by (auto simp: wait_of_def wait_end_def map_rules split: option.splits)
qed

lemma exit_proj [simp]:
  assumes "sched_ctrl_on s = Some c"
  shows "hm_lookup (proc_schedule (sched_process_exit kn p s)) = (hm_lookup (proc_schedule s))(skey kn p := None)"
    and "hm_lookup (enable_add (sched_process_exit kn p s)) = (hm_lookup (enable_add s))(skey kn p := None)"
  using assms
  by (auto simp: sched_process_exit_def skey_def Let_def map_rules fun_eq_iff split: option.splits)

lemma exit_fits:
  assumes "sched_fits c K s"
  shows "sched_fits c K (sched_process_exit kn p s)"
proof -
  have on: "sched_ctrl_on s = Some c" using assms by (simp add: sched_fits_def)
  have "hm_within K (proc_schedule (sched_process_exit kn p s))"
    "hm_within K (enable_add (sched_process_exit kn p s))"
    "hm_max (proc_schedule (sched_process_exit kn p s)) = 10240"
    "hm_max (enable_add (sched_process_exit kn p s)) = 10240"
    using assms on
    by (auto simp: sched_fits_def sched_process_exit_def Let_def inv_rules split: option.splits)
  moreover have "sched_ctrl_on (sched_process_exit kn p s) = Some c"
    using sched_ctrl_on_step [of "(kn, Sched_process_exit p)" s] on by simp
  ultimately show ?thesis
    using assms exit_proj [OF on] by (simp add: sched_fits_def)
qed

lemma sched_fits_step:
  assumes "sched_valid K e" and "sched_fits c K s"
  shows "sched_fits c K (sched_step e s)"
  using assms enqueue_fits(1) dequeue_fits(1) exit_fits
  by (cases "(e, s)" rule: sched_step.cases)
    (auto simp: sched_valid_def sched_wakeup_def sched_wakeup_new_def sched_switch_def Let_def
      split: option.splits)

lemma sched_wait_step:
  assumes "sched_fits c K s" and "sched_valid K e"
  shows "wait_of k (sched_step e s) = wait_step k e (wait_of k s)"
proof -
  have on: "sched_ctrl_on s = Some c" using assms(1) by (simp add: sched_fits_def)
  show ?thesis
  proof (cases "(e, s)" rule: sched_step.cases)
    case (1 kn p s')
    with assms on enqueue_fits(2) [of c K s kn p k] show ?thesis
      by (simp add: sched_wakeup_def sched_valid_def)
  next
    case (2 kn p s')
    with assms on enqueue_fits(2) [of c K s kn p k] show ?thesis
      by (simp add: sched_wakeup_new_def sched_valid_def)
  next
    case (3 kn prev nxt s')
    define s1 where "s1 = (if st_state prev = 0 then sched_enqueue kn (st_pid prev) (st_tgid prev) s else s)"
    have "sched_fits c K s1"
      using assms 3 enqueue_fits(1) [of c K s kn prev] by (simp add: s1_def sched_valid_def)
    moreover have "wait_of k s1 = (if st_state prev = 0 \<and> skey kn prev = k
        then wait_start (kn_ktime kn 0) (st_pid prev) (st_tgid prev) (wait_of k s) else wait_of k s)"
      using assms 3 enqueue_fits(2) [of c K s kn prev k] by (simp add: s1_def sched_valid_def)
    moreover have "sched_step e s = sched_dequeue kn c nxt s1"
      using 3 on by (simp add: sched_switch_def s1_def)
    ultimately show ?thesis
      using dequeue_fits(2) [of c K s1 k kn c nxt] 3 by (simp add: Let_def)
  next
    case (4 kn p s')
    with on show ?thesis by (simp add: wait_of_def split: option.splits)
  qed
qed

lemma wait_step_untouched: "\<not> sched_touches e k \<Longrightarrow> wait_step k e w = w"
  by (cases "(k, e, w)" rule: wait_step.cases) (auto simp: Let_def)

interpretation waits: sliced_tool sched_step "sched_fits c K" "sched_valid K" sched_touches wait_of wait_step
  by unfold_locales (simp_all add: sched_fits_step sched_wait_step wait_step_untouched)


subsection \<open>The delays of a task\<close>

text \<open>Events that put the task on the run queue, and switches that take it from there.\<close>

fun puts_waiting :: "proc_id \<Rightarrow> unit kern \<times> sched_probe \<Rightarrow> bool" where
  "puts_waiting k (kn, Sched_wakeup p) = (skey kn p = k)"
| "puts_waiting k (kn, Sched_wakeup_new p) = (skey kn p = k)"
| "puts_waiting k (kn, Sched_switch prev nxt) = (st_state prev = 0 \<and> skey kn prev = k \<and> skey kn nxt \<noteq> k)"
| "puts_waiting k (kn, Sched_process_exit p) = False"

fun gives_cpu :: "proc_id \<Rightarrow> unit kern \<times> sched_probe \<Rightarrow> bool" where
  "gives_cpu k (kn, Sched_switch prev nxt) = (\<not> (st_state prev = 0 \<and> skey kn prev = k) \<and> skey kn nxt = k)"
| "gives_cpu k (kn, _) = False"

type_synonym waiting = "(unit kern \<times> sched_probe) \<times> (unit kern \<times> sched_probe)"

definition waiting_ok :: "proc_id \<Rightarrow> waiting \<Rightarrow> bool" where
  "waiting_ok k w \<longleftrightarrow> puts_waiting k (fst w) \<and> gives_cpu k (snd w)"

definition delay_of :: "waiting \<Rightarrow> u64" where
  "delay_of w = kn_ktime (fst (snd w)) 0 - kn_ktime (fst (fst w)) 0"

abbreviation waiting_events :: "waiting list \<Rightarrow> (unit kern \<times> sched_probe) list" where
  "waiting_events ws \<equiv> concat (map (\<lambda>w. [fst w, snd w]) ws)"

lemma puts_waiting_step:
  "puts_waiting k e \<Longrightarrow> \<exists>p t. wait_step k e x = wait_start (kn_ktime (fst e) 0) p t x"
  by (cases "(k, e)" rule: puts_waiting.cases) auto

lemma gives_cpu_step:
  "gives_cpu k e \<Longrightarrow> \<exists>prio. wait_step k e x = wait_end (kn_ktime (fst e) 0) prio x"
  by (cases "(k, e)" rule: gives_cpu.cases) (auto simp: Let_def)

lemma event_add_proj:
  "sv_sum_delay (event_add prio d ev) = sv_sum_delay ev + d"
  "sv_max_delay (event_add prio d ev) = max (sv_max_delay ev) d"
  "sv_min_delay ev \<noteq> 0 \<Longrightarrow> sv_min_delay (event_add prio d ev) = min (sv_min_delay ev) d"
  by (auto simp: event_add_def max_def min_def)

lemma sv_count_event_add [simp]: "sv_count (event_add prio d ev) = sv_count ev"
  by (simp add: event_add_def)

text \<open>One waiting of the task.\<close>

lemma wait_pair:
  assumes "waiting_ok k w"
  shows "\<exists>p t prio. run (wait_step k) [fst w, snd w] x =
     wait_end (kn_ktime (fst (snd w)) 0) prio (wait_start (kn_ktime (fst (fst w)) 0) p t x)"
  using assms puts_waiting_step [of k "fst w" x] gives_cpu_step [of k "snd w"]
  unfolding waiting_ok_def run_Cons run_Nil by metis

lemma waitings:
  assumes "ws \<noteq> []" and "\<forall>w \<in> set ws. waiting_ok k w \<and> delay_of w \<noteq> 0"
  shows "\<exists>ev. run (wait_step k) (waiting_events ws) None = Some (ev, True)
     \<and> sv_count ev = of_nat (length ws) \<and> sv_sum_delay ev = (\<Sum>w\<leftarrow>ws. delay_of w)
     \<and> sv_max_delay ev = Max (delay_of ` set ws) \<and> sv_min_delay ev = Min (delay_of ` set ws)"
  using assms
proof (induction ws rule: rev_nonempty_induct)
  case (single w)
  then obtain p t prio where "run (wait_step k) [fst w, snd w] None =
     wait_end (kn_ktime (fst (snd w)) 0) prio (wait_start (kn_ktime (fst (fst w)) 0) p t None)"
    using wait_pair [of k w None] by auto
  with single show ?case
    by (auto simp: wait_start_def wait_end_def event_add_def zero_event_def delay_of_def word_gt_0)
next
  case (snoc w ws)
  then obtain ev where ev: "run (wait_step k) (waiting_events ws) None = Some (ev, True)"
    "sv_count ev = of_nat (length ws)" "sv_sum_delay ev = (\<Sum>w\<leftarrow>ws. delay_of w)"
    "sv_max_delay ev = Max (delay_of ` set ws)" "sv_min_delay ev = Min (delay_of ` set ws)" by auto
  obtain p t prio where last: "run (wait_step k) [fst w, snd w] (Some (ev, True)) =
     wait_end (kn_ktime (fst (snd w)) 0) prio (wait_start (kn_ktime (fst (fst w)) 0) p t (Some (ev, True)))"
    using wait_pair [of k w "Some (ev, True)"] snoc.prems by auto
  have "Min (delay_of ` set ws) \<in> delay_of ` set ws"
    using snoc.hyps by (intro Min_in) auto
  then have "Min (delay_of ` set ws) \<noteq> 0" using snoc.prems by auto
  moreover have "Max (insert (delay_of w) (delay_of ` set ws)) = max (delay_of w) (Max (delay_of ` set ws))"
    "Min (insert (delay_of w) (delay_of ` set ws)) = min (delay_of w) (Min (delay_of ` set ws))"
    using snoc.hyps by (simp_all add: Max_insert Min_insert)
  ultimately show ?case
    using ev last
    by (simp add: wait_start_def wait_end_def event_add_proj delay_of_def [symmetric] max.commute min.commute
        add.commute)
qed

text \<open>
  C8. Functional behaviour: from a state where the task is unknown, in any interleaving with the events of
  other tasks, the entry of a task that waited \<open>n\<close> times (for non-zero times) has count \<open>n\<close> and
  the sum, the maximum and the minimum of those times.  The tool is on, at most 10240 tasks
  appear, and the kernel refuses no insertion.
\<close>

theorem sched_delays:
  assumes "sched_fits c K s" and "\<forall>e \<in> set es. sched_valid K e"
    and "filter (\<lambda>e. sched_touches e k) es = waiting_events ws"
    and "ws \<noteq> []" and "\<forall>w \<in> set ws. waiting_ok k w \<and> delay_of w \<noteq> 0"
    and "hm_lookup (proc_schedule s) k = None"
  shows "\<exists>ev. hm_lookup (proc_schedule (run sched_step es s)) k = Some ev
     \<and> sv_count ev = of_nat (length ws) \<and> sv_sum_delay ev = (\<Sum>w\<leftarrow>ws. delay_of w)
     \<and> sv_max_delay ev = Max (delay_of ` set ws) \<and> sv_min_delay ev = Min (delay_of ` set ws)"
proof -
  have "wait_of k (run sched_step es s) = run (wait_step k) (waiting_events ws) (wait_of k s)"
    using waits.run_slice [OF assms(1,2), of k] assms(3) by simp
  moreover have "wait_of k s = None" using assms(6) by (simp add: wait_of_def)
  ultimately show ?thesis
    using waitings [OF assms(4,5)] by (auto simp: wait_of_def split: option.splits)
qed

definition demo_stask :: "pid_t \<Rightarrow> u32 \<Rightarrow> stask" where
  "demo_stask p st = \<lparr>st_pid = p, st_tgid = p, st_state = st, st_prio = 120\<rparr>"

definition sched_demo :: sched_st where
  "sched_demo = sched_maps\<lparr>sched_ctrl_map := [\<lparr>sched_func = True, sd_target_pid = -1,
     sd_target_cpu_id = -1, sd_target_tgid = -1\<rparr>]\<rparr>"

lemma sched_demo_fits:
  "sched_fits \<lparr>sched_func = True, sd_target_pid = -1, sd_target_cpu_id = -1, sd_target_tgid = -1\<rparr>
     {mk_proc_id 7 0, mk_proc_id 8 0} sched_demo"
  by (simp add: sched_fits_def sched_demo_def sched_maps_def sched_ctrl_on_def arr_lookup_def card_insert_if)

definition sk :: "u64 \<Rightarrow> unit kern" where
  "sk t = calm 0 0 t ()"

lemma sk_simps [simp]: "kn_cpu (sk t) = 0" "kn_ktime (sk t) i = t" "kn_upd (sk t) i = 0"
  by (simp_all add: sk_def)

lemma skey_demo [simp]: "skey (sk t) (demo_stask p st) = mk_proc_id p 0"
  by (simp add: skey_def demo_stask_def)

lemma mk_proc_id_eq_iff [simp]: "mk_proc_id p 0 = mk_proc_id q 0 \<longleftrightarrow> p = q"
  by (auto simp: mk_proc_id_def)

theorem sched_delays_witness:
  "\<exists>ev. hm_lookup (proc_schedule (run sched_step
      [(sk 10, Sched_wakeup (demo_stask 7 0)), (sk 12, Sched_wakeup (demo_stask 8 0)),
       (sk 15, Sched_switch (demo_stask 8 1) (demo_stask 7 0)),
       (sk 20, Sched_switch (demo_stask 7 0) (demo_stask 8 0)),
       (sk 29, Sched_switch (demo_stask 8 1) (demo_stask 7 0))] sched_demo)) (mk_proc_id 7 0) = Some ev
     \<and> sv_count ev = 2 \<and> sv_sum_delay ev = 14 \<and> sv_max_delay ev = 9 \<and> sv_min_delay ev = 5"
proof -
  let ?w1 = "((sk 10, Sched_wakeup (demo_stask 7 0)), (sk 15, Sched_switch (demo_stask 8 1) (demo_stask 7 0)))"
  let ?w2 = "((sk 20, Sched_switch (demo_stask 7 0) (demo_stask 8 0)),
      (sk 29, Sched_switch (demo_stask 8 1) (demo_stask 7 0)))"
  let ?es = "[fst ?w1, (sk 12, Sched_wakeup (demo_stask 8 0)), snd ?w1, fst ?w2, snd ?w2]"
  have state: "st_state (demo_stask p x) = x" for p x by (simp add: demo_stask_def)
  have valid: "\<forall>e \<in> set ?es. sched_valid {mk_proc_id 7 0, mk_proc_id 8 0} e"
    by (simp add: sched_valid_def)
  have own: "filter (\<lambda>e. sched_touches e (mk_proc_id 7 0)) ?es = waiting_events [?w1, ?w2]"
    by (simp add: state)
  have ok: "\<forall>w \<in> set [?w1, ?w2]. waiting_ok (mk_proc_id 7 0) w \<and> delay_of w \<noteq> 0"
    by (simp add: waiting_ok_def delay_of_def state)
  have "hm_lookup (proc_schedule sched_demo) (mk_proc_id 7 0) = None"
    by (simp add: sched_demo_def sched_maps_def)
  from sched_delays [OF sched_demo_fits valid own _ ok this]
  show ?thesis by (simp add: delay_of_def max_def min_def)
qed

subsection \<open>Counts\<close>

definition counts_ok :: "nat \<Rightarrow> sched_st \<Rightarrow> bool" where
  "counts_ok n s \<longleftrightarrow> (\<forall>k ev. hm_lookup (proc_schedule s) k = Some ev \<longrightarrow>
     1 \<le> unat (sv_count ev) \<and> unat (sv_count ev) \<le> Suc n)"

lemma counts_ok_mono: "counts_ok m s \<Longrightarrow> m \<le> n \<Longrightarrow> counts_ok n s"
  by (fastforce simp: counts_ok_def)

lemma counts_ok_enqueue: "counts_ok n s \<Longrightarrow> counts_ok n (sched_enqueue kn p t s)"
  by (auto simp: counts_ok_def sched_enqueue_def Let_def map_rules split: option.splits if_splits)

lemma counts_ok_dequeue:
  assumes "counts_ok n s" and "Suc n < 2 ^ 31"
  shows "counts_ok (Suc n) (sched_dequeue kn c nxt s)"
proof -
  have suc: "unat (sv_count ev + 1) = Suc (unat (sv_count ev))"
    if "hm_lookup (proc_schedule s) k = Some ev" for k ev
  proof (rule unat_Suc_no_wrap)
    have "unat (sv_count ev) \<le> Suc n" using assms(1) that by (simp add: counts_ok_def)
    then show "Suc (unat (sv_count ev)) < 2 ^ LENGTH(32)" using assms(2) by simp
  qed
  show ?thesis
    using assms(1) suc
    by (fastforce simp: counts_ok_def map_rules split: option.splits if_splits)
qed

lemma counts_ok_step:
  assumes "counts_ok n s" and "Suc n < 2 ^ 31"
  shows "counts_ok (Suc n) (sched_step e s)"
proof (cases "sched_ctrl_on s")
  case None
  then have "sched_step e s = s" by (intro sched.step_off) simp
  then show ?thesis using assms counts_ok_mono by simp
next
  case (Some c)
  have up: "counts_ok (Suc n) s'" if "counts_ok n s'" for s'
    using that by (rule counts_ok_mono) simp
  show ?thesis
  proof (cases "(e, s)" rule: sched_step.cases)
    case (4 kn p s')
    with Some up [OF assms(1)] show ?thesis by (auto simp: counts_ok_def split: if_splits)
  qed (use Some assms up counts_ok_enqueue counts_ok_dequeue in
      \<open>simp_all add: sched_wakeup_def sched_wakeup_new_def sched_switch_def Let_def\<close>)
qed

lemma counts_ok_run:
  "counts_ok n s \<Longrightarrow> n + length es < 2 ^ 31 \<Longrightarrow> counts_ok (n + length es) (run sched_step es s)"
proof (induction es arbitrary: n s)
  case Nil
  then show ?case by simp
next
  case (Cons e es)
  then show ?case
    using Cons.IH [of "Suc n" "sched_step e s"] counts_ok_step [of n s e] by simp
qed

text \<open>
  Bounds: from fresh maps, after fewer than 2 to the 31 events of any kind and with any
  kernel answers, the count of every entry is a positive \<open>int\<close>: the average the user side prints
  for a task never divides by zero.
\<close>

theorem sched_count_positive:
  assumes "proc_schedule s = hm_new 10240" and "length es < 2 ^ 31 - 1"
    and "hm_lookup (proc_schedule (run sched_step es s)) k = Some ev"
  shows "0 < sint (sv_count ev) \<and> sint (sv_count ev) \<le> 1 + int (length es)"
proof -
  have "counts_ok 0 s" using assms(1) by (simp add: counts_ok_def)
  then have "counts_ok (length es) (run sched_step es s)"
    using counts_ok_run [of 0 s es] assms(2) by simp
  then have n: "1 \<le> unat (sv_count ev)" "unat (sv_count ev) \<le> Suc (length es)"
    using assms(3) by (simp_all add: counts_ok_def)
  then have "unat (sv_count ev) < 2 ^ 31" using assms(2) by simp
  then have "sint (sv_count ev) = int (unat (sv_count ev))"
    by (rule sint_small)
  then show ?thesis using n by linarith
qed

lemma sched_demo_waits:
  "hm_lookup (proc_schedule (run sched_step [(sk 10, Sched_wakeup (demo_stask 7 0))] sched_demo))
     (mk_proc_id 7 0) \<noteq> None"
  by (simp add: sched_wakeup_def sched_enqueue_def sched_demo_def sched_maps_def sched_ctrl_on_def arr_lookup_def
      demo_stask_def hm_new_def hm_update_def hm_lookup_def Let_def)

theorem sched_count_positive_witness:
  "\<exists>ev. hm_lookup (proc_schedule (run sched_step [(sk 10, Sched_wakeup (demo_stask 7 0))] sched_demo))
     (mk_proc_id 7 0) = Some ev \<and> 0 < sint (sv_count ev)"
proof -
  note sched_demo_waits
  moreover have "proc_schedule sched_demo = hm_new 10240"
    by (simp add: sched_demo_def sched_maps_def)
  ultimately show ?thesis
    using sched_count_positive [where s = sched_demo and es = "[(sk 10, Sched_wakeup (demo_stask 7 0))]"
        and k = "mk_proc_id 7 0"] by auto
qed

subsection \<open>The system's maximum\<close>

definition max_ok :: "sched_st \<Rightarrow> bool" where
  "max_ok s \<longleftrightarrow> (\<exists>t. sys_schedule s = [t] \<and> (\<forall>k ev. hm_lookup (proc_schedule s) k = Some ev \<longrightarrow>
     sv_max_delay ev \<le> ss_max_delay t))"

lemma max_ok_enqueue: "max_ok s \<Longrightarrow> max_ok (sched_enqueue kn p t s)"
  by (auto simp: max_ok_def sched_enqueue_def zero_event_def Let_def map_rules split: option.splits if_splits)

lemma dequeue_sys:
  assumes "sys_schedule s = [t]"
  shows "sys_schedule (sched_dequeue kn c nxt s) =
    (case hm_lookup (proc_schedule s) (skey kn nxt) of None \<Rightarrow> [t]
     | Some ev \<Rightarrow> (case hm_lookup (enable_add s) (skey kn nxt) of None \<Rightarrow> [t]
         | Some b \<Rightarrow> [sum_add (kn_ktime kn 0 - sv_enter_time ev) t]))"
  using assms by (auto simp: sched_dequeue_def skey_def Let_def arr_lookup_def split: option.splits)

lemma max_ok_dequeue:
  assumes "max_ok s"
  shows "max_ok (sched_dequeue kn c nxt s)"
proof -
  obtain t where t: "sys_schedule s = [t]"
    and le: "\<And>k ev. hm_lookup (proc_schedule s) k = Some ev \<Longrightarrow> sv_max_delay ev \<le> ss_max_delay t"
    using assms by (auto simp: max_ok_def)
  have grows: "ss_max_delay t \<le> ss_max_delay (sum_add d t)" for d
    by (auto simp: sum_add_def)
  have event: "sv_max_delay (event_add prio d ev) \<le> ss_max_delay (sum_add d t)"
      "sv_max_delay (event_add prio d (ev\<lparr>sv_count := n\<rparr>)) \<le> ss_max_delay (sum_add d t)"
    if "sv_max_delay ev \<le> ss_max_delay t" for prio d n ev
    using that by (auto simp: event_add_def sum_add_def)
  show ?thesis
    using dequeue_sys [OF t, of kn c nxt] le order_trans [OF le grows] event
    by (auto simp: max_ok_def map_rules split: option.splits)
qed

lemma max_ok_step:
  assumes "max_ok s"
  shows "max_ok (sched_step e s)"
proof (cases "sched_ctrl_on s")
  case None
  then have "sched_step e s = s" by (intro sched.step_off) simp
  then show ?thesis using assms by simp
next
  case (Some c)
  show ?thesis
  proof (cases "(e, s)" rule: sched_step.cases)
    case (4 kn p s')
    have "sys_schedule (sched_process_exit kn p s) = sys_schedule s"
      by (simp add: sched_process_exit_def Let_def split: option.splits)
    with 4 Some assms show ?thesis by (auto simp: max_ok_def split: if_splits)
  qed (use Some assms max_ok_enqueue max_ok_dequeue in
      \<open>simp_all add: sched_wakeup_def sched_wakeup_new_def sched_switch_def Let_def\<close>)
qed

interpretation sched_max: tool sched_step max_ok "\<lambda>e. True"
  by unfold_locales (rule max_ok_step)

text \<open>
  Invariant: whatever happens, the system's longest delay is at least the longest delay of
  every task that has an entry.
\<close>

theorem sched_max_dominates:
  assumes "proc_schedule s = hm_new 10240" and "sys_schedule s = [zero_sum]"
    and "hm_lookup (proc_schedule (run sched_step es s)) k = Some ev"
  shows "\<exists>t. sys_schedule (run sched_step es s) = [t] \<and> sv_max_delay ev \<le> ss_max_delay t"
proof -
  have "max_ok s" using assms(1,2) by (simp add: max_ok_def)
  then have "max_ok (run sched_step es s)" by (intro sched_max.run_inv) simp_all
  then show ?thesis using assms(3) by (auto simp: max_ok_def)
qed

theorem sched_max_dominates_witness:
  "\<exists>ev t. hm_lookup (proc_schedule (run sched_step [(sk 10, Sched_wakeup (demo_stask 7 0))] sched_demo))
     (mk_proc_id 7 0) = Some ev
     \<and> sys_schedule (run sched_step [(sk 10, Sched_wakeup (demo_stask 7 0))] sched_demo) = [t]
     \<and> sv_max_delay ev \<le> ss_max_delay t"
proof -
  note sched_demo_waits
  then obtain ev where ev: "hm_lookup (proc_schedule (run sched_step
      [(sk 10, Sched_wakeup (demo_stask 7 0))] sched_demo)) (mk_proc_id 7 0) = Some ev"
    by blast
  have start: "proc_schedule sched_demo = hm_new 10240" "sys_schedule sched_demo = [zero_sum]"
    by (simp_all add: sched_demo_def sched_maps_def)
  obtain t where "sv_max_delay ev \<le> ss_max_delay t"
      "sys_schedule (run sched_step [(sk 10, Sched_wakeup (demo_stask 7 0))] sched_demo) = [t]"
    using sched_max_dominates [OF start ev] by blast
  with ev show ?thesis by blast
qed

subsection \<open>Exit\<close>

text \<open>
  The exit of a task removes its two entries and, when it belongs to the target's thread
  group, its entry there; the exit of the target itself is flagged by a count of 0 in the target's
  event, and no other task's exit touches that flag or any other task's entries.
\<close>

theorem sched_exit_clears:
  assumes "sched_ctrl_on s = Some c" and "target_schedule s = [tev]" and "s' = sched_process_exit kn p s"
  shows "hm_lookup (proc_schedule s') = (hm_lookup (proc_schedule s))(mk_proc_id (st_pid p) (kn_cpu kn) := None)
    \<and> hm_lookup (enable_add s') = (hm_lookup (enable_add s))(mk_proc_id (st_pid p) (kn_cpu kn) := None)
    \<and> target_schedule s' = [if sched_is_target c (st_pid p) (kn_cpu kn) then tev\<lparr>sv_count := 0\<rparr> else tev]
    \<and> hm_lookup (tg_schedule s') = (if st_tgid p = sd_target_tgid c
         then (hm_lookup (tg_schedule s))(st_pid p := None) else hm_lookup (tg_schedule s))
    \<and> sys_schedule s' = sys_schedule s"
proof -
  have "target_schedule s' = [if sched_is_target c (st_pid p) (kn_cpu kn) then tev\<lparr>sv_count := 0\<rparr> else tev]
    \<and> hm_lookup (tg_schedule s') = (if st_tgid p = sd_target_tgid c
         then (hm_lookup (tg_schedule s))(st_pid p := None) else hm_lookup (tg_schedule s))
    \<and> sys_schedule s' = sys_schedule s"
    using assms by (simp add: sched_process_exit_def Let_def arr_lookup_def hm_lookup_delete)
  then show ?thesis
    using exit_proj [OF assms(1), of kn p] assms(3) by (simp add: skey_def)
qed

theorem sched_exit_clears_witness:
  "hm_lookup (proc_schedule (sched_process_exit (sk 10) (demo_stask 7 0) sched_demo)) (mk_proc_id 7 0) = None"
proof -
  have on: "sched_ctrl_on sched_demo = Some \<lparr>sched_func = True, sd_target_pid = -1, sd_target_cpu_id = -1,
      sd_target_tgid = -1\<rparr>" "target_schedule sched_demo = [zero_event]"
    by (simp_all add: sched_demo_def sched_maps_def sched_ctrl_on_def arr_lookup_def)
  show ?thesis
    using sched_exit_clears [OF on refl, of "sk 10" "demo_stask 7 0"] by (simp add: demo_stask_def)
qed

end
