(* ===== verification/KeytimeImage.thy ===== *)
theory KeytimeImage imports ResourceImage begin

text \<open>
  The key-time tool, \<open>bpf/keytime_image.bpf.c\<close> with the helpers of \<open>include/keytime_image.h\<close>:
  it reports a thread's \<open>execve\<close> (with the arguments), exits, the children it makes with fork,
  vfork and \<open>pthread_create\<close>, and its getting and leaving a CPU.

  Inputs are what the probes read: the arguments and results of the system calls, the parent of
  the current task, the two tasks of a switch and the kernel stack.  A read of a user string is
  given by the helper's result and the bytes it stored.  The commented-out probes at the end of
  the file are not part of the program.
\<close>

subsection \<open>Structures and maps\<close>

abbreviation (input) ARGSIZE :: nat where "ARGSIZE \<equiv> 128"
abbreviation (input) TOTAL_MAX_ARGS :: nat where "TOTAL_MAX_ARGS \<equiv> 60"
abbreviation (input) FULL_MAX_ARGS_ARR :: nat where "FULL_MAX_ARGS_ARR \<equiv> 440"
abbreviation (input) LAST_ARG :: u32 where "LAST_ARG \<equiv> 440 - 128"

record kt_ctrl =
  kt_func :: bool
  kt_cpu_func :: bool
  kc_enable_myproc :: bool
  kc_target_pid :: pid_t
  kc_target_tgid :: pid_t

record child_info =
  ci_type :: s32
  ci_ppid :: s32
  ci_ptgid :: s32

record keytime_event =
  ke_type :: s32
  ke_pid :: s32
  ke_tgid :: s32
  ke_enable_char_info :: bool
  ke_info_count :: s32
  ke_info :: "u64 list"
  ke_info_size :: u32
  ke_char_info :: "u8 list"

record offcpu_event =
  of_type :: s32
  of_pid :: s32
  of_tgid :: s32
  of_offcpu_time :: u64
  of_kstack_sz :: s32
  of_kstack :: "u64 list"

text \<open>The ring buffer carries both kinds of record; a reserved one can be read as either.\<close>

datatype kt_report = Kt keytime_event | Off offcpu_event

record kt_st =
  kt_ctrl_map :: "kt_ctrl list"
  child :: "(pid_t, child_info) hmap"
  pthread_create_enable :: "(pid_t, bool) hmap"
  keytime_rb :: "kt_report list"

definition kt_maps :: kt_st where
  "kt_maps = \<lparr>
     kt_ctrl_map = [\<lparr>kt_func = False, kt_cpu_func = False, kc_enable_myproc = False,
                     kc_target_pid = 0, kc_target_tgid = 0\<rparr>],
     child = hm_new 10240,
     pthread_create_enable = hm_new 10240,
     keytime_rb = []\<rparr>"

type_synonym kt_kern = "(keytime_event \<times> offcpu_event) kern"

subsection \<open>Common parts\<close>

definition kt_ctrl_on :: "kt_st \<Rightarrow> kt_ctrl option" where
  "kt_ctrl_on s = (case arr_lookup (kt_ctrl_map s) 0 of
       None \<Rightarrow> None
     | Some c \<Rightarrow> if kt_func c then Some c else None)"

definition kt_cpu_ctrl_on :: "kt_st \<Rightarrow> kt_ctrl option" where
  "kt_cpu_ctrl_on s = (case arr_lookup (kt_ctrl_map s) 0 of
       None \<Rightarrow> None
     | Some c \<Rightarrow> if kt_cpu_func c then Some c else None)"

definition kt_filter :: "s32 \<Rightarrow> kt_ctrl \<Rightarrow> pid_t \<Rightarrow> s32 \<Rightarrow> bool" where
  "kt_filter ignore_tgid c pid tgid \<longleftrightarrow>
     (kc_enable_myproc c \<or> tgid \<noteq> ignore_tgid) \<and>
     ((kc_target_tgid c = -1 \<and> kc_target_pid c = -1) \<or>
      (kc_target_tgid c \<noteq> -1 \<and> tgid = kc_target_tgid c) \<or>
      (kc_target_pid c \<noteq> -1 \<and> pid = kc_target_pid c))"

definition kt_tgid :: "kt_ctrl \<Rightarrow> s32 \<Rightarrow> s32" where
  "kt_tgid c tgid = (if kc_target_tgid c \<noteq> -1 then tgid else -1)"

text \<open>A report with one number: \<open>type\<close>, \<open>pid\<close>, \<open>tgid\<close>, \<open>enable_char_info = false\<close>,
  \<open>info_count = 1\<close> and \<open>info[0]\<close> are written.\<close>

definition kt_number :: "s32 \<Rightarrow> s32 \<Rightarrow> s32 \<Rightarrow> u64 \<Rightarrow> keytime_event \<Rightarrow> keytime_event" where
  "kt_number type pid tgid x e =
     e\<lparr>ke_type := type, ke_pid := pid, ke_tgid := tgid, ke_enable_char_info := False,
       ke_info_count := 1, ke_info := (ke_info e)[0 := x]\<rparr>"

text \<open>\<open>child_create\<close>, with its map update at call site 0 and its reservation at site 0.\<close>

definition child_create :: "s32 \<Rightarrow> pid_t \<Rightarrow> pid_t \<Rightarrow> kt_kern \<Rightarrow> s32 \<Rightarrow> s32 \<Rightarrow> kt_st \<Rightarrow> kt_st" where
  "child_create type child_pid pid kn tgid target_tgid s =
     (let (err, m) = hm_update (kn_upd kn 0) (child s) child_pid
            \<lparr>ci_type = type, ci_ppid = pid, ci_ptgid = (if target_tgid \<noteq> -1 then tgid else -1)\<rparr>
      in if err \<noteq> 0 then s
         else (let s = s\<lparr>child := m\<rparr> in
               case kn_rsv kn 0 of None \<Rightarrow> s
               | Some (e, _) \<Rightarrow> s\<lparr>keytime_rb := keytime_rb s @
                   [Kt (kt_number type pid (if target_tgid \<noteq> -1 then tgid else -1) (scast child_pid) e)]\<rparr>))"

text \<open>\<open>child_exit\<close>, with its reservation at site 1.\<close>

definition child_exit :: "kt_kern \<Rightarrow> kt_st \<Rightarrow> kt_st" where
  "child_exit kn s =
     (let child_pid = cur_pid kn in
      case hm_lookup (child s) child_pid of None \<Rightarrow> s
      | Some ci \<Rightarrow>
          (case kn_rsv kn 1 of None \<Rightarrow> s
           | Some (e, _) \<Rightarrow>
               s\<lparr>keytime_rb := keytime_rb s @
                   [Kt (kt_number (ci_type ci + 1) (ci_ppid ci) (ci_ptgid ci) (scast child_pid) e)],
                 child := hm_delete (child s) child_pid\<rparr>))"

subsection \<open>execve\<close>

record user_read =
  ur_ret :: s32
  ur_bytes :: "u8 list"

text \<open>
  What the probe finds in user memory: the file name, for each argument index the result of
  reading the pointer \<open>args[i]\<close>, and the read of the string behind it.
\<close>

record exec_args =
  xa_file :: user_read
  xa_ptr :: "nat \<Rightarrow> s32"
  xa_str :: "nat \<Rightarrow> user_read"

definition put_bytes :: "nat \<Rightarrow> u8 list \<Rightarrow> u8 list \<Rightarrow> u8 list" where
  "put_bytes off bs xs = take off xs @ bs @ drop (off + length bs) xs"

text \<open>
  The loop over the arguments from index \<open>i\<close>; the flag says whether it ran to its end (False:
  the record was submitted inside the loop).
\<close>

function exec_loop :: "s32 \<Rightarrow> exec_args \<Rightarrow> nat \<Rightarrow> keytime_event \<Rightarrow> bool \<times> keytime_event" where
  "exec_loop max_args xa i ev =
     (if i < TOTAL_MAX_ARGS \<and> int i < sint max_args then
        (if xa_ptr xa i <s 0 then (False, ev)
         else if ke_info_size ev > LAST_ARG then (False, ev)
         else
           (let r = xa_str xa i;
                ev = ev\<lparr>ke_char_info := put_bytes (unat (ke_info_size ev)) (ur_bytes r) (ke_char_info ev)\<rparr>
            in if ur_ret r <s 0 then (False, ev)
               else exec_loop max_args xa (Suc i)
                      (ev\<lparr>ke_info_count := ke_info_count ev + 1,
                          ke_info_size := ke_info_size ev + ur_ret r\<rparr>)))
      else (True, ev))"
  by pat_completeness auto
termination by (relation "measure (\<lambda>(_, _, i, _). TOTAL_MAX_ARGS - i)") auto

declare exec_loop.simps [simp del]

text \<open>The record that \<open>sys_enter_execve\<close> submits.\<close>

definition exec_event :: "s32 \<Rightarrow> exec_args \<Rightarrow> s32 \<Rightarrow> s32 \<Rightarrow> keytime_event \<Rightarrow> keytime_event" where
  "exec_event max_args xa pid tgid e =
     (let ev = e\<lparr>ke_type := 1, ke_pid := pid, ke_tgid := tgid, ke_info_count := 0, ke_info_size := 0,
                 ke_enable_char_info := True\<rparr>;
          r = xa_file xa;
          ev = ev\<lparr>ke_char_info := put_bytes 0 (ur_bytes r) (ke_char_info ev)\<rparr>
      in if ur_ret r <s 0 then ev
         else
           (let ev = (if ur_ret r \<le>s of_nat ARGSIZE then ev\<lparr>ke_info_size := ke_info_size ev + ur_ret r\<rparr>
                      else ev\<lparr>ke_char_info := (ke_char_info ev)[0 := 0], ke_info_size := ke_info_size ev + 1\<rparr>);
                ev = ev\<lparr>ke_info_count := ke_info_count ev + 1\<rparr>;
                (ended, ev) = exec_loop max_args xa 1 ev
            in if \<not> ended then ev
               else if xa_ptr xa (unat max_args) <s 0 then ev
               else ev\<lparr>ke_info_count := ke_info_count ev + 1\<rparr>))"

definition kt_enter_execve :: "s32 \<Rightarrow> s32 \<Rightarrow> kt_kern \<Rightarrow> exec_args \<Rightarrow> kt_st \<Rightarrow> kt_st" where
  "kt_enter_execve max_args ignore_tgid kn xa s =
     (case kt_ctrl_on s of None \<Rightarrow> s
      | Some c \<Rightarrow>
          if kt_filter ignore_tgid c (cur_pid kn) (cur_tgid kn) then
            (case kn_rsv kn 0 of None \<Rightarrow> s
             | Some (e, _) \<Rightarrow> s\<lparr>keytime_rb := keytime_rb s @
                 [Kt (exec_event max_args xa (cur_pid kn) (kt_tgid c (cur_tgid kn)) e)]\<rparr>)
          else s)"

definition kt_exit_execve :: "s32 \<Rightarrow> kt_kern \<Rightarrow> u64 \<Rightarrow> kt_st \<Rightarrow> kt_st" where
  "kt_exit_execve ignore_tgid kn ret s =
     (case kt_ctrl_on s of None \<Rightarrow> s
      | Some c \<Rightarrow>
          if kt_filter ignore_tgid c (cur_pid kn) (cur_tgid kn) then
            (case kn_rsv kn 0 of None \<Rightarrow> s
             | Some (e, _) \<Rightarrow> s\<lparr>keytime_rb := keytime_rb s @
                 [Kt (kt_number 2 (cur_pid kn) (kt_tgid c (cur_tgid kn)) ret e)]\<rparr>)
          else s)"

subsection \<open>Children\<close>

definition fork_exit :: "s32 \<Rightarrow> kt_kern \<Rightarrow> s32 \<Rightarrow> kt_st \<Rightarrow> kt_st" where
  "fork_exit ignore_tgid kn ret s =
     (case kt_ctrl_on s of None \<Rightarrow> s
      | Some c \<Rightarrow>
          if (kc_enable_myproc c \<or> cur_tgid kn \<noteq> ignore_tgid) \<and> ret \<noteq> 0 \<and>
             ((kc_target_pid c = -1 \<and> kc_target_tgid c = -1) \<or>
              (kc_target_tgid c \<noteq> -1 \<and> cur_tgid kn = kc_target_tgid c) \<or>
              (kc_target_pid c \<noteq> -1 \<and> cur_pid kn = kc_target_pid c))
          then child_create 4 ret (cur_pid kn) kn (cur_tgid kn) (kc_target_tgid c) s
          else s)"

text \<open>
  The condition of \<open>vfork_exit\<close> is parenthesised as in the source: its last disjunct is outside
  the conjunction with \<open>enable_myproc || tgid != ignore_tgid\<close>.
\<close>

definition vfork_exit :: "s32 \<Rightarrow> kt_kern \<Rightarrow> pid_t \<Rightarrow> s32 \<Rightarrow> kt_st \<Rightarrow> kt_st" where
  "vfork_exit ignore_tgid kn ppid ptgid s =
     (case kt_ctrl_on s of None \<Rightarrow> s
      | Some c \<Rightarrow>
          if ((kc_enable_myproc c \<or> cur_tgid kn \<noteq> ignore_tgid) \<and>
              ((kc_target_pid c = -1 \<and> kc_target_tgid c = -1) \<or>
               (kc_target_pid c \<noteq> -1 \<and> ppid = kc_target_pid c))) \<or>
             (kc_target_tgid c \<noteq> -1 \<and> ptgid = kc_target_tgid c)
          then child_create 6 (cur_pid kn) ppid kn ptgid (kc_target_tgid c) s
          else s)"

definition pthread_create_enter :: "s32 \<Rightarrow> kt_kern \<Rightarrow> kt_st \<Rightarrow> kt_st" where
  "pthread_create_enter ignore_tgid kn s =
     (case kt_ctrl_on s of None \<Rightarrow> s
      | Some c \<Rightarrow>
          if kt_filter ignore_tgid c (cur_pid kn) (cur_tgid kn)
          then s\<lparr>pthread_create_enable :=
                   snd (hm_update (kn_upd kn 0) (pthread_create_enable s) (cur_pid kn) True)\<rparr>
          else s)"

definition pthread_create_exit :: "s32 \<Rightarrow> kt_kern \<Rightarrow> kt_st \<Rightarrow> kt_st" where
  "pthread_create_exit ignore_tgid kn s =
     (case kt_ctrl_on s of None \<Rightarrow> s
      | Some c \<Rightarrow>
          if kt_filter ignore_tgid c (cur_pid kn) (cur_tgid kn)
          then s\<lparr>pthread_create_enable := hm_delete (pthread_create_enable s) (cur_pid kn)\<rparr>
          else s)"

definition kt_exit_clone3 :: "s32 \<Rightarrow> kt_kern \<Rightarrow> u64 \<Rightarrow> kt_st \<Rightarrow> kt_st" where
  "kt_exit_clone3 ignore_tgid kn ret s =
     (case kt_ctrl_on s of None \<Rightarrow> s
      | Some c \<Rightarrow>
          if kt_filter ignore_tgid c (cur_pid kn) (cur_tgid kn) then
            (case hm_lookup (pthread_create_enable s) (cur_pid kn) of
               Some True \<Rightarrow>
                 (let new_thread = (ucast ret :: pid_t) in
                  if new_thread \<le>s 0 then s
                  else child_create 8 new_thread (cur_pid kn) kn (cur_tgid kn) (kc_target_tgid c) s)
             | _ \<Rightarrow> s)
          else s)"

subsection \<open>Exits and switches\<close>

text \<open>
  \<open>sys_enter_exit_group\<close> and \<open>sys_enter_exit\<close> have the same body: a failed reservation returns
  before \<open>child_exit\<close>.
\<close>

definition kt_enter_exit :: "s32 \<Rightarrow> kt_kern \<Rightarrow> u64 \<Rightarrow> kt_st \<Rightarrow> kt_st" where
  "kt_enter_exit ignore_tgid kn status s =
     (case kt_ctrl_on s of None \<Rightarrow> s
      | Some c \<Rightarrow>
          if kt_filter ignore_tgid c (cur_pid kn) (cur_tgid kn) then
            (case kn_rsv kn 0 of None \<Rightarrow> s
             | Some (e, _) \<Rightarrow> child_exit kn (s\<lparr>keytime_rb := keytime_rb s @
                 [Kt (kt_number 3 (cur_pid kn) (kt_tgid c (cur_tgid kn)) status e)]\<rparr>))
          else child_exit kn s)"

definition kt_enter_exit_group :: "s32 \<Rightarrow> kt_kern \<Rightarrow> u64 \<Rightarrow> kt_st \<Rightarrow> kt_st" where
  "kt_enter_exit_group ignore_tgid kn status s =
     (case kt_ctrl_on s of None \<Rightarrow> s
      | Some c \<Rightarrow>
          if kt_filter ignore_tgid c (cur_pid kn) (cur_tgid kn) then
            (case kn_rsv kn 0 of None \<Rightarrow> s
             | Some (e, _) \<Rightarrow> child_exit kn (s\<lparr>keytime_rb := keytime_rb s @
                 [Kt (kt_number 3 (cur_pid kn) (kt_tgid c (cur_tgid kn)) status e)]\<rparr>))
          else child_exit kn s)"

record kstack =
  kst_sz :: s32
  kst_stack :: "u64 list"

definition kt_sched_switch :: "s32 \<Rightarrow> kt_kern \<Rightarrow> task \<Rightarrow> task \<Rightarrow> kstack \<Rightarrow> kt_st \<Rightarrow> kt_st" where
  "kt_sched_switch ignore_tgid kn prev nxt st s =
     (case kt_cpu_ctrl_on s of None \<Rightarrow> s
      | Some c \<Rightarrow>
          (let (go_on, s) =
             (if t_pid prev \<noteq> 0 \<and> kt_filter ignore_tgid c (t_pid prev) (t_tgid prev) then
                (case kn_rsv kn 0 of None \<Rightarrow> (False, s)
                 | Some (_, oe) \<Rightarrow> (True, s\<lparr>keytime_rb := keytime_rb s @
                     [Off (oe\<lparr>of_type := 11, of_pid := t_pid prev, of_tgid := kt_tgid c (t_tgid prev),
                             of_offcpu_time := kn_ktime kn 0, of_kstack_sz := kst_sz st,
                             of_kstack := kst_stack st\<rparr>)]\<rparr>))
              else (True, s))
           in if \<not> go_on then s
              else if t_pid nxt \<noteq> 0 \<and> kt_filter ignore_tgid c (t_pid nxt) (t_tgid nxt) then
                (case kn_rsv kn 1 of None \<Rightarrow> s
                 | Some (e, _) \<Rightarrow> s\<lparr>keytime_rb := keytime_rb s @
                     [Kt (kt_number 10 (t_pid nxt) (kt_tgid c (t_tgid nxt)) (kn_ktime kn 1) e)]\<rparr>)
              else s))"

subsection \<open>The tool\<close>

datatype kt_probe =
    Kt_enter_execve exec_args
  | Kt_exit_execve u64
  | Kt_fork_exit s32
  | Kt_vfork_exit pid_t s32
  | Kt_pthread_enter
  | Kt_pthread_exit
  | Kt_exit_clone3 u64
  | Kt_enter_exit_group u64
  | Kt_enter_exit u64
  | Kt_sched_switch task task kstack

fun kt_step :: "s32 \<Rightarrow> s32 \<Rightarrow> kt_kern \<times> kt_probe \<Rightarrow> kt_st \<Rightarrow> kt_st" where
  "kt_step ma g (kn, Kt_enter_execve xa) s = kt_enter_execve ma g kn xa s"
| "kt_step ma g (kn, Kt_exit_execve r) s = kt_exit_execve g kn r s"
| "kt_step ma g (kn, Kt_fork_exit r) s = fork_exit g kn r s"
| "kt_step ma g (kn, Kt_vfork_exit pp pt) s = vfork_exit g kn pp pt s"
| "kt_step ma g (kn, Kt_pthread_enter) s = pthread_create_enter g kn s"
| "kt_step ma g (kn, Kt_pthread_exit) s = pthread_create_exit g kn s"
| "kt_step ma g (kn, Kt_exit_clone3 r) s = kt_exit_clone3 g kn r s"
| "kt_step ma g (kn, Kt_enter_exit_group x) s = kt_enter_exit_group g kn x s"
| "kt_step ma g (kn, Kt_enter_exit x) s = kt_enter_exit g kn x s"
| "kt_step ma g (kn, Kt_sched_switch p n st) s = kt_sched_switch g kn p n st s"

lemmas kt_handlers = kt_enter_execve_def kt_exit_execve_def fork_exit_def vfork_exit_def
  pthread_create_enter_def pthread_create_exit_def kt_exit_clone3_def kt_enter_exit_group_def
  kt_enter_exit_def kt_sched_switch_def

lemma kt_ctrl_on_None: "kt_ctrl_on s = None \<Longrightarrow> kt_cpu_ctrl_on s = None \<Longrightarrow> kt_step ma g e s = s"
  by (cases "(ma, g, e, s)" rule: kt_step.cases) (simp_all add: kt_handlers)

interpretation kt: gated_tool "kt_step ma g" "\<lambda>s. kt_ctrl_on s \<noteq> None \<or> kt_cpu_ctrl_on s \<noteq> None"
  by unfold_locales (simp add: kt_ctrl_on_None)

lemma child_create_ctrl [simp]: "kt_ctrl_map (child_create ty p q kn t tt s) = kt_ctrl_map s"
  by (simp add: child_create_def Let_def case_prod_beta split: option.splits)

lemma child_exit_ctrl [simp]: "kt_ctrl_map (child_exit kn s) = kt_ctrl_map s"
  by (simp add: child_exit_def Let_def case_prod_beta split: option.splits)

lemma kt_ctrl_step [simp]: "kt_ctrl_map (kt_step ma g e s) = kt_ctrl_map s"
  by (cases "(ma, g, e, s)" rule: kt_step.cases)
    (auto simp: kt_handlers Let_def case_prod_beta split: option.splits bool.splits)

end
