(* ===== verification/KeytimeProps.thy ===== *)
theory KeytimeProps imports KeytimeImage begin

text \<open>
  The properties of the key-time tool: the argument buffer of an \<open>execve\<close> report is never
  overrun (\<open>exec_bounds\<close>) and holds the arguments (\<open>exec_report\<close>), one argument list is
  reported as longer than it is (\<open>exec_exactly_max\<close>), the end of a child is reported to its
  parent (\<open>child_pairing\<close>), every report has one of the documented types (\<open>kt_types\<close>), and with
  a target process only that process is reported (\<open>kt_isolation\<close>).
\<close>

subsection \<open>The argument buffer\<close>

text \<open>
  What the documentation of \<open>bpf_probe_read_user_str\<close> promises for a destination of 128 bytes: it
  stores at most 128 bytes, and a result that is not negative is their number.
\<close>

definition read_ok :: "user_read \<Rightarrow> bool" where
  "read_ok r \<longleftrightarrow> length (ur_bytes r) \<le> 128 \<and>
     (\<not> ur_ret r <s 0 \<longrightarrow> unat (ur_ret r) = length (ur_bytes r))"

definition exec_reads_ok :: "exec_args \<Rightarrow> bool" where
  "exec_reads_ok xa \<longleftrightarrow> read_ok (xa_file xa) \<and> (\<forall>i. read_ok (xa_str xa i))"

definition buffer_ok :: "keytime_event \<Rightarrow> bool" where
  "buffer_ok ev \<longleftrightarrow> unat (ke_info_size ev) \<le> 440 \<and> length (ke_char_info ev) = 440"

lemma length_put_bytes: "off + length bs \<le> length xs \<Longrightarrow> length (put_bytes off bs xs) = length xs"
  by (simp add: put_bytes_def)

lemma take_put_bytes: "off \<le> length xs \<Longrightarrow> take off (put_bytes off bs xs) = take off xs"
  by (simp add: put_bytes_def)

lemma take_put_bytes_all:
  "off + length bs \<le> length xs \<Longrightarrow> take (off + length bs) (put_bytes off bs xs) = take off xs @ bs"
  by (simp add: put_bytes_def)

lemma size_add:
  assumes "unat (ke_info_size ev) \<le> 312" and "read_ok r" and "\<not> ur_ret r <s 0"
  shows "unat (ke_info_size ev + ur_ret r) = unat (ke_info_size ev) + length (ur_bytes r)"
proof -
  have "unat (ur_ret r) = length (ur_bytes r)" "length (ur_bytes r) \<le> 128"
    using assms(2,3) by (simp_all add: read_ok_def)
  then show ?thesis
    using assms(1) unat_plus_no_wrap [of "ke_info_size ev" "ur_ret r"] by simp
qed

lemma exec_loop_buffer:
  assumes "\<forall>j. read_ok (xa_str xa j)" and "buffer_ok ev"
  shows "buffer_ok (snd (exec_loop ma xa i ev))"
  using assms
proof (induction ma xa i ev rule: exec_loop.induct)
  case (1 ma xa i ev)
  have len: "length (ur_bytes (xa_str xa i)) \<le> 128"
    using "1.prems"(1) by (auto simp: read_ok_def)
  show ?case
  proof (cases "i < 60 \<and> int i < sint ma \<and> \<not> xa_ptr xa i <s 0 \<and> \<not> ke_info_size ev > 440 - 128")
    case True
    then have size: "unat (ke_info_size ev) \<le> 312"
      by (simp add: word_le_nat_alt not_less)
    define ev1 where
      "ev1 = ev\<lparr>ke_char_info := put_bytes (unat (ke_info_size ev)) (ur_bytes (xa_str xa i)) (ke_char_info ev)\<rparr>"
    have ok1: "buffer_ok ev1"
      using "1.prems"(2) size len by (simp add: buffer_ok_def ev1_def length_put_bytes)
    show ?thesis
    proof (cases "ur_ret (xa_str xa i) <s 0")
      case True
      with \<open>i < 60 \<and> _\<close> ok1 show ?thesis
        by (subst exec_loop.simps) (simp add: ev1_def Let_def)
    next
      case False
      have "buffer_ok (ev1\<lparr>ke_info_count := ke_info_count ev1 + 1,
          ke_info_size := ke_info_size ev1 + ur_ret (xa_str xa i)\<rparr>)"
        using ok1 size_add [OF size _ False] "1.prems"(1) size len by (simp add: buffer_ok_def ev1_def)
      with False True "1.IH" [of "xa_str xa i" ev1] "1.prems"(1) show ?thesis
        by (subst exec_loop.simps) (simp add: ev1_def Let_def)
    qed
  next
    case False
    with "1.prems"(2) show ?thesis by (subst exec_loop.simps) auto
  qed
qed

lemma exec_event_buffer:
  assumes "exec_reads_ok xa" and "length (ke_char_info e) = 440"
  shows "buffer_ok (exec_event ma xa pid tgid e)"
proof -
  let ?r = "xa_file xa"
  have r: "length (ur_bytes ?r) \<le> 128" "\<not> ur_ret ?r <s 0 \<Longrightarrow> unat (ur_ret ?r) = length (ur_bytes ?r)"
    using assms(1) by (simp_all add: exec_reads_ok_def read_ok_def)
  have loop: "buffer_ok (snd (exec_loop ma xa i ev))" if "buffer_ok ev" for i ev
    using exec_loop_buffer [of xa ev ma i] assms(1) that by (simp add: exec_reads_ok_def)
  have count: "buffer_ok (ev\<lparr>ke_info_count := n\<rparr>) = buffer_ok ev" for ev n
    by (simp add: buffer_ok_def)
  show ?thesis
    using r assms(2) unfolding exec_event_def Let_def case_prod_beta
    by (auto simp: count intro!: loop) (auto simp: buffer_ok_def length_put_bytes)
qed

text \<open>
  C18. Memory safety: whatever the arguments are, the report of an \<open>execve\<close> never says more than
  its 440 bytes are used, and no write went past them (the buffer still has its length).
\<close>

theorem exec_bounds:
  assumes "exec_reads_ok xa" and "length (ke_char_info e) = 440"
  shows "unat (ke_info_size (exec_event max_args xa pid tgid e)) \<le> 440
       \<and> length (ke_char_info (exec_event max_args xa pid tgid e)) = 440"
  using exec_event_buffer [OF assms, of max_args pid tgid] by (simp add: buffer_ok_def)

definition kt_slot :: keytime_event where
  "kt_slot = \<lparr>ke_type = 0, ke_pid = 0, ke_tgid = 0, ke_enable_char_info = False, ke_info_count = 0,
     ke_info = replicate 6 0, ke_info_size = 0, ke_char_info = replicate 440 0\<rparr>"

definition user_str :: "u8 list \<Rightarrow> user_read" where
  "user_str bs = \<lparr>ur_ret = of_nat (length bs), ur_bytes = bs\<rparr>"

text \<open>The argument list \<open>ls -l\<close>, whose third pointer is null.\<close>

definition demo_args :: exec_args where
  "demo_args = \<lparr>xa_file = user_str [108, 115, 0], xa_ptr = (\<lambda>i. 0),
     xa_str = (\<lambda>i. if i = 1 then user_str [45, 108, 0] else \<lparr>ur_ret = -14, ur_bytes = []\<rparr>)\<rparr>"

lemma demo_args_ok: "exec_reads_ok demo_args"
  by (auto simp: exec_reads_ok_def demo_args_def user_str_def read_ok_def word_sless_alt)

theorem exec_bounds_witness:
  "length (ke_char_info (exec_event 20 demo_args 7 7 kt_slot)) = 440"
  using exec_bounds [OF demo_args_ok, of kt_slot 20 7 7] by (simp add: kt_slot_def)

subsection \<open>What the buffer holds\<close>

definition exec_holds :: "u8 list \<Rightarrow> keytime_event \<Rightarrow> bool" where
  "exec_holds pre ev \<longleftrightarrow> unat (ke_info_size ev) = length pre \<and> length (ke_char_info ev) = 440 \<and>
     take (length pre) (ke_char_info ev) = pre"

text \<open>The arguments from index \<open>i\<close> on can be read and are \<open>bs\<close>.\<close>

fun args_are :: "exec_args \<Rightarrow> nat \<Rightarrow> u8 list list \<Rightarrow> bool" where
  "args_are xa i [] = True"
| "args_are xa i (b # bs) =
     (\<not> xa_ptr xa i <s 0 \<and> xa_str xa i = user_str b \<and> length b \<le> 128 \<and> args_are xa (Suc i) bs)"

lemma user_str_ok: "length b \<le> 128 \<Longrightarrow> \<not> ur_ret (user_str b) <s 0 \<and> unat (ur_ret (user_str b)) = length b"
proof -
  assume len: "length b \<le> 128"
  then have u: "unat (of_nat (length b) :: 32 word) = length b"
    by (simp add: unat_of_nat)
  then have "sint (of_nat (length b) :: 32 word) = int (length b)"
    using len sint_small [of "of_nat (length b)"] by simp
  with u show ?thesis by (simp add: user_str_def word_sless_alt)
qed

lemma exec_loop_args:
  assumes "args_are xa i bs" and "exec_holds pre ev" and "length pre + length (concat bs) \<le> 312"
    and "i + length bs \<le> 60" and "int (i + length bs) \<le> sint ma"
  shows "\<exists>ev'. exec_loop ma xa i ev = exec_loop ma xa (i + length bs) ev' \<and> exec_holds (pre @ concat bs) ev'
     \<and> ke_info_count ev' = ke_info_count ev + of_nat (length bs)"
  using assms
proof (induction bs arbitrary: i pre ev)
  case Nil
  then show ?case by auto
next
  case (Cons b bs)
  have b: "\<not> xa_ptr xa i <s 0" "xa_str xa i = user_str b" "length b \<le> 128"
    using Cons.prems(1) by auto
  have size: "unat (ke_info_size ev) = length pre" "length (ke_char_info ev) = 440"
      "take (length pre) (ke_char_info ev) = pre"
    using Cons.prems(2) by (auto simp: exec_holds_def)
  define ev1 where "ev1 = ev\<lparr>ke_char_info := put_bytes (length pre) b (ke_char_info ev),
      ke_info_count := ke_info_count ev + 1, ke_info_size := ke_info_size ev + ur_ret (user_str b)\<rparr>"
  have "\<not> ke_info_size ev > 440 - 128"
    using size(1) Cons.prems(3) by (simp add: word_le_nat_alt not_less)
  then have "exec_loop ma xa i ev = exec_loop ma xa (Suc i) ev1"
    using b Cons.prems(4,5) user_str_ok [OF b(3)] size(1)
    by (subst exec_loop.simps) (simp add: Let_def ev1_def, simp add: user_str_def)
  moreover have "unat (ke_info_size ev + ur_ret (user_str b)) = length pre + length b"
    using user_str_ok [OF b(3)] size(1) Cons.prems(3) b(3)
      unat_plus_no_wrap [of "ke_info_size ev" "ur_ret (user_str b)"] by simp
  then have "exec_holds (pre @ b) ev1"
    using size b(3) Cons.prems(3) take_put_bytes_all [of "length pre" b "ke_char_info ev"]
    by (simp add: exec_holds_def ev1_def length_put_bytes)
  ultimately show ?case
    using Cons.IH [of "Suc i" "pre @ b" ev1] Cons.prems by (auto simp: ev1_def add.assoc)
qed

lemma exec_event_args:
  assumes "xa_file xa = user_str f" and "length f \<le> 128" and "args_are xa 1 bs"
    and "length f + length (concat bs) \<le> 312" and "1 + length bs \<le> 60" and "int (1 + length bs) \<le> sint ma"
    and "length (ke_char_info e) = 440"
  shows "\<exists>ev. exec_holds (f @ concat bs) ev \<and> ke_info_count ev = 1 + of_nat (length bs) \<and>
     exec_event ma xa pid tgid e =
       (let (ended, ev) = exec_loop ma xa (1 + length bs) ev in
        if \<not> ended then ev else if xa_ptr xa (unat ma) <s 0 then ev
        else ev\<lparr>ke_info_count := ke_info_count ev + 1\<rparr>)"
proof -
  define ev0 where "ev0 = e\<lparr>ke_type := 1, ke_pid := pid, ke_tgid := tgid, ke_enable_char_info := True,
      ke_char_info := put_bytes 0 f (ke_char_info e), ke_info_size := ur_ret (user_str f),
      ke_info_count := 1\<rparr>"
  have f: "\<not> ur_ret (user_str f) <s 0" "unat (ur_ret (user_str f)) = length f"
    using user_str_ok [OF assms(2)] by simp_all
  have "ur_ret (user_str f) \<le>s 128"
    using f(2) assms(2) sint_small [of "ur_ret (user_str f)"] by (simp add: word_sle_eq)
  then have ev: "exec_event ma xa pid tgid e =
       (let (ended, ev) = exec_loop ma xa 1 ev0 in
        if \<not> ended then ev else if xa_ptr xa (unat ma) <s 0 then ev
        else ev\<lparr>ke_info_count := ke_info_count ev + 1\<rparr>)"
    using f(1) assms(1) by (simp add: exec_event_def Let_def ev0_def) (simp add: user_str_def)
  have "exec_holds f ev0"
    using f(2) assms(2,7) take_put_bytes_all [of 0 f "ke_char_info e"]
    by (simp add: exec_holds_def ev0_def length_put_bytes)
  from exec_loop_args [OF assms(3) this assms(4-6)] ev show ?thesis
    by (auto simp: ev0_def)
qed

lemma exec_report:
  assumes "xa_file xa = user_str f" and "length f \<le> 128" and "args_are xa 1 bs"
    and "length f + length (concat bs) \<le> 312" and "1 + length bs < 60" and "int (1 + length bs) < sint max_args"
    and "length (ke_char_info e) = 440"
    and "ur_ret (xa_str xa (1 + length bs)) <s 0" and "length (ur_bytes (xa_str xa (1 + length bs))) \<le> 128"
  shows "take (unat (ke_info_size (exec_event max_args xa pid tgid e)))
           (ke_char_info (exec_event max_args xa pid tgid e)) = f @ concat bs
       \<and> ke_info_count (exec_event max_args xa pid tgid e) = 1 + of_nat (length bs)"
proof -
  obtain ev where ev: "exec_holds (f @ concat bs) ev" "ke_info_count ev = 1 + of_nat (length bs)"
    "exec_event max_args xa pid tgid e =
       (let (ended, ev) = exec_loop max_args xa (1 + length bs) ev in
        if \<not> ended then ev else if xa_ptr xa (unat max_args) <s 0 then ev
        else ev\<lparr>ke_info_count := ke_info_count ev + 1\<rparr>)"
    using exec_event_args [OF assms(1-4) _ _ assms(7), of max_args pid tgid] assms(5,6) by auto
  have size: "unat (ke_info_size ev) = length (f @ concat bs)"
    and keep: "take (length (f @ concat bs)) (ke_char_info ev) = f @ concat bs"
    and len: "length (ke_char_info ev) = 440"
    using ev(1) by (simp_all add: exec_holds_def)
  have kept: "take (length (f @ concat bs)) (put_bytes (length (f @ concat bs)) x (ke_char_info ev)) =
      f @ concat bs" for x
    using keep len assms(4) take_put_bytes [of "length (f @ concat bs)" "ke_char_info ev" x] by simp
  have "exec_event max_args xa pid tgid e \<in> {ev, ev\<lparr>ke_char_info :=
      put_bytes (unat (ke_info_size ev)) (ur_bytes (xa_str xa (1 + length bs))) (ke_char_info ev)\<rparr>}"
    using assms(5,6,8) unfolding ev(3) by (subst exec_loop.simps) (simp add: Let_def)
  then show ?thesis using size keep kept ev(2) by auto
qed

text \<open>
  An argument list of exactly \<open>max_args\<close> strings is reported with the count \<open>max_args + 1\<close>
  that stands for more: the probe tests whether the pointer \<open>args[max_args]\<close> can be read, which
  the terminating null pointer can, and not whether it is null.
\<close>

theorem exec_exactly_max:
  assumes "xa_file xa = user_str f" and "length f \<le> 128" and "args_are xa 1 bs"
    and "length f + length (concat bs) \<le> 312" and "length bs < 60"
    and "sint max_args = int (1 + length bs)" and "length (ke_char_info e) = 440"
    and "xa_ptr xa (unat max_args) = 0"
  shows "ke_info_count (exec_event max_args xa pid tgid e) = max_args + 1"
proof -
  obtain ev where ev: "ke_info_count ev = 1 + of_nat (length bs)"
    "exec_event max_args xa pid tgid e =
       (let (ended, ev) = exec_loop max_args xa (1 + length bs) ev in
        if \<not> ended then ev else if xa_ptr xa (unat max_args) <s 0 then ev
        else ev\<lparr>ke_info_count := ke_info_count ev + 1\<rparr>)"
    using exec_event_args [OF assms(1-4) _ _ assms(7), of max_args pid tgid] assms(5,6) by auto
  have "max_args = word_of_int (sint max_args)" by simp
  then have "max_args = 1 + of_nat (length bs)" using assms(6) by simp
  moreover have "exec_loop max_args xa (1 + length bs) ev = (True, ev)"
    using assms(6) by (subst exec_loop.simps) simp
  ultimately show ?thesis using ev assms(8) by simp
qed

theorem exec_exactly_max_witness:
  "ke_info_count (exec_event 2 demo_args 7 7 kt_slot) = 3"
  using exec_exactly_max [where xa = demo_args and f = "[108, 115, 0]" and bs = "[[45, 108, 0]]" and max_args = 2
      and e = kt_slot and pid = 7 and tgid = 7]
  by (simp add: demo_args_def kt_slot_def)


subsection \<open>Children\<close>

text \<open>The events that can change what is pending for the child \<open>p\<close>.\<close>

fun kt_touches :: "kt_kern \<times> kt_probe \<Rightarrow> pid_t \<Rightarrow> bool" where
  "kt_touches (kn, Kt_fork_exit r) p = (r = p)"
| "kt_touches (kn, Kt_vfork_exit pp pt) p = (cur_pid kn = p)"
| "kt_touches (kn, Kt_exit_clone3 r) p = (ucast r = p)"
| "kt_touches (kn, Kt_enter_exit_group x) p = (cur_pid kn = p)"
| "kt_touches (kn, Kt_enter_exit x) p = (cur_pid kn = p)"
| "kt_touches (kn, _) p = False"

definition kt_pending :: "pid_t \<Rightarrow> kt_st \<Rightarrow> child_info option" where
  "kt_pending p s = hm_lookup (child s) p"

lemma child_create_pending: "q \<noteq> p \<Longrightarrow> kt_pending p (child_create ty q pp kn t tt s) = kt_pending p s"
  by (auto simp: kt_pending_def child_create_def Let_def case_prod_beta map_rules split: option.splits)

lemma child_exit_pending: "cur_pid kn \<noteq> p \<Longrightarrow> kt_pending p (child_exit kn s) = kt_pending p s"
  by (auto simp: kt_pending_def child_exit_def Let_def map_rules split: option.splits)

lemma kt_pending_cong: "child s' = child s \<Longrightarrow> kt_pending p s' = kt_pending p s"
  by (simp add: kt_pending_def)

lemma kt_touches_frame:
  assumes "\<not> kt_touches e p"
  shows "kt_pending p (kt_step ma g e s) = kt_pending p s"
  using assms
  by (cases "(ma, g, e, s)" rule: kt_step.cases)
    (auto simp: kt_handlers Let_def case_prod_beta child_create_pending child_exit_pending
      intro!: kt_pending_cong split: option.splits bool.splits)

interpretation kt_children: keyed_tool "kt_step ma g" kt_touches kt_pending
  by unfold_locales (rule kt_touches_frame)

lemma child_create_done:
  assumes "kn_upd kn 0 = 0" and "hm_room (child s) q"
  shows "kt_pending q (child_create ty q pp kn t tt s) =
           Some \<lparr>ci_type = ty, ci_ppid = pp, ci_ptgid = (if tt \<noteq> -1 then t else -1)\<rparr>"
  using assms
  by (auto simp: kt_pending_def child_create_def Let_def case_prod_beta map_rules hash.update_accepted
      split: option.splits)

text \<open>
  C20. Pairing: a thread that passes the filter forks a child; after any events that do not concern
  the child, the child calls \<open>exit_group\<close>.  Then the parent's end-of-fork event (type 5) with the
  child's pid is reported last, after the child's own exit event if the child passes the filter,
  and nothing is pending for the child.  The map of the children has room, and the kernel grants the
  insertion and the two reservations.
\<close>

theorem child_pairing:
  assumes "kt_ctrl_on s = Some c" and "kt_filter g c (cur_pid kp) (cur_tgid kp)" and "cpid \<noteq> 0"
    and "kn_upd kp 0 = 0" and "hm_room (child s) cpid"
    and "\<forall>e \<in> set es. \<not> kt_touches e cpid"
    and "cur_pid kx = cpid" and "kn_rsv kx 0 = Some xa" and "kn_rsv kx 1 = Some xb"
    and "mid = run (kt_step ma g) es (fork_exit g kp cpid s)"
  shows "keytime_rb (kt_enter_exit_group g kx status mid) = keytime_rb mid @
           (if kt_filter g c cpid (cur_tgid kx)
            then [Kt (kt_number 3 cpid (kt_tgid c (cur_tgid kx)) status (fst xa))] else []) @
           [Kt (kt_number 5 (cur_pid kp) (kt_tgid c (cur_tgid kp)) (scast cpid) (fst xb))]
       \<and> hm_lookup (child (kt_enter_exit_group g kx status mid)) cpid = None"
proof -
  have fork: "fork_exit g kp cpid s = child_create 4 cpid (cur_pid kp) kp (cur_tgid kp) (kc_target_tgid c) s"
    using assms(1-3) by (auto simp: fork_exit_def kt_filter_def)
  have ctrl: "kt_ctrl_map (run (kt_step ma g) fs t) = kt_ctrl_map t" for fs t
    by (induction fs arbitrary: t) simp_all
  have on: "kt_ctrl_on mid = Some c"
    using assms(1) by (simp add: kt_ctrl_on_def assms(10) ctrl fork)
  have "kt_pending cpid mid = kt_pending cpid (fork_exit g kp cpid s)"
    unfolding assms(10) by (rule kt_children.run_frame) (use assms(6) in blast)
  then have "hm_lookup (child mid) cpid =
      Some \<lparr>ci_type = 4, ci_ppid = cur_pid kp, ci_ptgid = kt_tgid c (cur_tgid kp)\<rparr>"
    using child_create_done [OF assms(4,5)] by (simp add: fork kt_pending_def kt_tgid_def)
  then show ?thesis
    using on assms(7-9)
    by (auto simp: kt_enter_exit_group_def child_exit_def Let_def map_rules split: prod.splits)
qed

definition kt_demo_ctrl :: kt_ctrl where
  "kt_demo_ctrl = \<lparr>kt_func = True, kt_cpu_func = True, kc_enable_myproc = False, kc_target_pid = 7,
     kc_target_tgid = -1\<rparr>"

definition kt_demo :: kt_st where
  "kt_demo = kt_maps\<lparr>kt_ctrl_map := [kt_demo_ctrl]\<rparr>"

definition off_slot :: offcpu_event where
  "off_slot = \<lparr>of_type = 0, of_pid = 0, of_tgid = 0, of_offcpu_time = 0, of_kstack_sz = 0, of_kstack = []\<rparr>"

abbreviation kt_calm :: "pid_t \<Rightarrow> kt_kern" where
  "kt_calm p \<equiv> calm p p 5 (kt_slot, off_slot)"

lemma kt_demo_on: "kt_ctrl_on kt_demo = Some kt_demo_ctrl"
  by (simp add: kt_demo_def kt_ctrl_on_def arr_lookup_def kt_demo_ctrl_def)

theorem child_pairing_witness:
  "hm_lookup (child (kt_enter_exit_group 1 (kt_calm 9) 0 (run (kt_step 20 1)
     [(kt_calm 8, Kt_exit_execve 0), (kt_calm 7, Kt_fork_exit 10)] (fork_exit 1 (kt_calm 7) 9 kt_demo)))) 9 = None"
proof -
  have room: "hm_room (child kt_demo) 9"
    by (simp add: kt_demo_def kt_maps_def hm_room_def) (simp add: hm_new_def)
  have other: "\<forall>e \<in> set [(kt_calm 8, Kt_exit_execve 0), (kt_calm 7, Kt_fork_exit 10)]. \<not> kt_touches e 9"
    by simp
  show ?thesis
    using child_pairing [OF kt_demo_on _ _ _ room other _ _ _ refl, where g = 1 and kp = "kt_calm 7"
        and kx = "kt_calm 9" and ma = 20 and status = 0 and xa = "(kt_slot, off_slot)"
        and xb = "(kt_slot, off_slot)"]
    by (simp add: kt_filter_def kt_demo_ctrl_def)
qed

subsection \<open>Kinds of reports\<close>

text \<open>The types that the comment in \<open>proc_image.h\<close> lists, and which of them carry text.\<close>

fun report_ok :: "kt_report \<Rightarrow> bool" where
  "report_ok (Kt e) = (ke_type e \<in> {1, 2, 3, 4, 5, 6, 7, 8, 9, 10} \<and> (ke_enable_char_info e \<longleftrightarrow> ke_type e = 1))"
| "report_ok (Off e) = (of_type e = 11)"

definition kt_ok :: "kt_st \<Rightarrow> bool" where
  "kt_ok s \<longleftrightarrow> (\<forall>r \<in> set (keytime_rb s). report_ok r) \<and>
     (\<forall>p ci. hm_lookup (child s) p = Some ci \<longrightarrow> ci_type ci \<in> {4, 6, 8})"

lemma exec_loop_keeps:
  "ke_type (snd (exec_loop ma xa i ev)) = ke_type ev \<and> ke_pid (snd (exec_loop ma xa i ev)) = ke_pid ev \<and>
   ke_enable_char_info (snd (exec_loop ma xa i ev)) = ke_enable_char_info ev"
proof (induction ma xa i ev rule: exec_loop.induct)
  case (1 ma xa i ev)
  show ?case
    using "1.IH" by (subst (1 2 3) exec_loop.simps) (simp add: Let_def)
qed

lemma exec_event_keeps:
  "ke_type (exec_event ma xa pid tgid e) = 1" "ke_pid (exec_event ma xa pid tgid e) = pid"
  "ke_enable_char_info (exec_event ma xa pid tgid e)"
  by (simp_all add: exec_event_def Let_def case_prod_beta exec_loop_keeps)

lemma kt_number_keeps [simp]:
  "ke_type (kt_number ty pid tgid x e) = ty" "ke_pid (kt_number ty pid tgid x e) = pid"
  "ke_enable_char_info (kt_number ty pid tgid x e) = False"
  by (simp_all add: kt_number_def)

lemma kt_ok_create: "kt_ok s \<Longrightarrow> ty \<in> {4, 6, 8} \<Longrightarrow> kt_ok (child_create ty q pp kn t tt s)"
  by (auto simp: kt_ok_def child_create_def Let_def case_prod_beta map_rules split: option.splits if_splits)

lemma kt_ok_child_exit: "kt_ok s \<Longrightarrow> kt_ok (child_exit kn s)"
  by (fastforce simp: kt_ok_def child_exit_def Let_def map_rules split: option.splits if_splits)

lemma kt_ok_report: "kt_ok s \<Longrightarrow> report_ok r \<Longrightarrow> kt_ok (s\<lparr>keytime_rb := keytime_rb s @ [r]\<rparr>)"
  by (auto simp: kt_ok_def)

lemma kt_ok_report2:
  "kt_ok s \<Longrightarrow> report_ok r \<Longrightarrow> report_ok r' \<Longrightarrow> kt_ok (s\<lparr>keytime_rb := keytime_rb s @ [r, r']\<rparr>)"
  by (auto simp: kt_ok_def)

lemma kt_ok_pthread: "kt_ok (s\<lparr>pthread_create_enable := m\<rparr>) = kt_ok s"
  by (simp add: kt_ok_def)

lemma kt_ok_step: "kt_ok s \<Longrightarrow> kt_ok (kt_step ma g e s)"
  by (cases "(ma, g, e, s)" rule: kt_step.cases)
    (auto simp: kt_handlers Let_def case_prod_beta kt_ok_pthread exec_event_keeps
      intro!: kt_ok_create kt_ok_child_exit kt_ok_report kt_ok_report2 split: option.splits bool.splits)

interpretation kt_tool: tool "kt_step ma g" kt_ok "\<lambda>e. True"
  by unfold_locales (rule kt_ok_step)

text \<open>
  Every report has one of the eleven documented types, and its text is enabled exactly for an
  \<open>execve\<close>: the user side, which chooses what to print by the type, knows every report.
\<close>

theorem kt_types:
  assumes "child s = hm_new 10240" and "keytime_rb s = []"
    and "r \<in> set (keytime_rb (run (kt_step max_args g) es s))"
  shows "(\<exists>e. r = Kt e \<and> ke_type e \<in> {1, 2, 3, 4, 5, 6, 7, 8, 9, 10} \<and>
            (ke_enable_char_info e \<longleftrightarrow> ke_type e = 1)) \<or>
         (\<exists>e. r = Off e \<and> of_type e = 11)"
proof -
  have "kt_ok s" using assms(1,2) by (simp add: kt_ok_def)
  then have "kt_ok (run (kt_step max_args g) es s)" by (intro kt_tool.run_inv) simp_all
  then have "report_ok r" using assms(3) by (simp add: kt_ok_def)
  then show ?thesis by (cases r) auto
qed

lemma kt_demo_report:
  "hd (keytime_rb (run (kt_step 20 1) [(kt_calm 7, Kt_fork_exit 9)] kt_demo)) \<in>
     set (keytime_rb (run (kt_step 20 1) [(kt_calm 7, Kt_fork_exit 9)] kt_demo))"
proof (rule hd_in_set)
  show "keytime_rb (run (kt_step 20 1) [(kt_calm 7, Kt_fork_exit 9)] kt_demo) \<noteq> []"
    by (simp add: fork_exit_def child_create_def kt_demo_on)
      (simp add: kt_demo_ctrl_def kt_demo_def kt_maps_def hm_new_def hm_update_def hm_lookup_def calm_def Let_def)
qed

theorem kt_types_witness:
  "report_ok (hd (keytime_rb (run (kt_step 20 1) [(kt_calm 7, Kt_fork_exit 9)] kt_demo)))"
proof -
  note kt_demo_report
  moreover have "child kt_demo = hm_new 10240" "keytime_rb kt_demo = []"
    by (simp_all add: kt_demo_def kt_maps_def)
  ultimately show ?thesis
    using kt_types [of kt_demo] by fastforce
qed

subsection \<open>Isolation\<close>

fun reports_pid :: "pid_t \<Rightarrow> kt_report \<Rightarrow> bool" where
  "reports_pid p (Kt e) = (ke_pid e = p)"
| "reports_pid p (Off e) = (of_pid e = p)"

definition kt_only :: "pid_t \<Rightarrow> kt_st \<Rightarrow> bool" where
  "kt_only p s \<longleftrightarrow> (\<forall>r \<in> set (keytime_rb s). reports_pid p r) \<and>
     (\<forall>q ci. hm_lookup (child s) q = Some ci \<longrightarrow> ci_ppid ci = p) \<and>
     (\<forall>c \<in> set (kt_ctrl_map s). kc_target_pid c = p \<and> kc_target_tgid c = -1) \<and> p \<noteq> -1"

lemma kt_only_create: "kt_only p s \<Longrightarrow> pp = p \<Longrightarrow> kt_only p (child_create ty q pp kn t tt s)"
  by (auto simp: kt_only_def child_create_def Let_def case_prod_beta map_rules split: option.splits if_splits)

lemma kt_only_child_exit: "kt_only p s \<Longrightarrow> kt_only p (child_exit kn s)"
  by (fastforce simp: kt_only_def child_exit_def Let_def map_rules split: option.splits if_splits)

lemma kt_only_report: "kt_only p s \<Longrightarrow> reports_pid p r \<Longrightarrow> kt_only p (s\<lparr>keytime_rb := keytime_rb s @ [r]\<rparr>)"
  by (auto simp: kt_only_def)

lemma kt_only_report2:
  "kt_only p s \<Longrightarrow> reports_pid p r \<Longrightarrow> reports_pid p r' \<Longrightarrow>
   kt_only p (s\<lparr>keytime_rb := keytime_rb s @ [r, r']\<rparr>)"
  by (auto simp: kt_only_def)

lemma kt_only_pthread: "kt_only p (s\<lparr>pthread_create_enable := m\<rparr>) = kt_only p s"
  by (simp add: kt_only_def)

lemma kt_only_ctrl:
  assumes "kt_only p s" and "kt_ctrl_on s = Some c \<or> kt_cpu_ctrl_on s = Some c"
  shows "kc_target_pid c = p" and "kc_target_tgid c = -1" and "p \<noteq> -1"
  using assms
  by (auto simp: kt_only_def kt_ctrl_on_def kt_cpu_ctrl_on_def arr_lookup_def split: if_splits)

lemma kt_only_filter:
  assumes "kt_only p s" and "kt_ctrl_on s = Some c \<or> kt_cpu_ctrl_on s = Some c"
  shows "kt_filter g c q t \<Longrightarrow> q = p"
  using kt_only_ctrl [OF assms] by (auto simp: kt_filter_def)

lemma kt_only_step:
  assumes "kt_only p s"
  shows "kt_only p (kt_step ma g e s)"
proof -
  have pid1: "q = p" if "kt_filter h c q t" and "kt_ctrl_on s = Some c" for h c q t
    using kt_only_filter [OF assms disjI1] that by blast
  have pid2: "q = p" if "kt_filter h c q t" and "kt_cpu_ctrl_on s = Some c" for h c q t
    using kt_only_filter [OF assms disjI2] that by blast
  note ctrl = kt_only_ctrl [OF assms]
  show ?thesis
    using assms
  proof (cases "(ma, g, e, s)" rule: kt_step.cases)
    case (3 ma g kn r s)
    with assms ctrl show ?thesis
      by (auto simp: fork_exit_def intro: kt_only_create split: option.splits)
  next
    case (4 ma g kn pp pt s)
    with assms ctrl show ?thesis
      by (auto simp: vfork_exit_def intro: kt_only_create split: option.splits)
  next
    case (7 ma' g' kn r s')
    with assms pid1 show ?thesis
      by (auto simp: kt_exit_clone3_def Let_def intro!: kt_only_create split: option.splits bool.splits)
  next
    case (10 ma' g' kn pr nx st s')
    have "kt_only p (kt_sched_switch g kn pr nx st s)"
    proof (cases "kt_cpu_ctrl_on s")
      case None
      then show ?thesis using assms by (simp add: kt_sched_switch_def)
    next
      case (Some c)
      have "t_pid pr = p \<or> \<not> kt_filter g c (t_pid pr) (t_tgid pr)"
        "t_pid nx = p \<or> \<not> kt_filter g c (t_pid nx) (t_tgid nx)"
        using pid2 [OF _ Some] by blast+
      with Some assms show ?thesis
        by (elim disjE) (auto simp: kt_sched_switch_def Let_def kt_only_report kt_only_report2
            split: option.splits prod.splits)
    qed
    with 10 show ?thesis by simp
  qed (use pid1 in \<open>auto simp: kt_handlers Let_def case_prod_beta kt_only_pthread exec_event_keeps
      intro!: kt_only_child_exit kt_only_report kt_only_report2 split: option.splits\<close>)
qed

interpretation kt_only: tool "kt_step ma g" "kt_only p" "\<lambda>e. True"
  by unfold_locales (rule kt_only_step)

text \<open>
  Isolation: with a target process, every report, also of the end of a child, carries the pid
  of the target.
\<close>

theorem kt_isolation:
  assumes "kt_ctrl_map s = [c]" and "kc_target_pid c = p" and "p \<noteq> -1" and "kc_target_tgid c = -1"
    and "child s = hm_new 10240" and "keytime_rb s = []"
    and "r \<in> set (keytime_rb (run (kt_step max_args g) es s))"
  shows "(case r of Kt e \<Rightarrow> ke_pid e | Off e \<Rightarrow> of_pid e) = p"
proof -
  have "kt_only p s" using assms(1-6) by (simp add: kt_only_def)
  then have "kt_only p (run (kt_step max_args g) es s)" by (intro kt_only.run_inv) simp_all
  then have "reports_pid p r" using assms(7) by (simp add: kt_only_def)
  then show ?thesis by (cases r) simp_all
qed

theorem kt_isolation_witness:
  "(case hd (keytime_rb (run (kt_step 20 1) [(kt_calm 7, Kt_fork_exit 9)] kt_demo)) of
      Kt e \<Rightarrow> ke_pid e | Off e \<Rightarrow> of_pid e) = 7"
proof -
  note kt_demo_report
  moreover have "child kt_demo = hm_new 10240" "keytime_rb kt_demo = []" "kt_ctrl_map kt_demo = [kt_demo_ctrl]"
    by (simp_all add: kt_demo_def kt_maps_def)
  ultimately show ?thesis
    by (intro kt_isolation [where s = kt_demo and c = kt_demo_ctrl and max_args = 20 and g = 1
        and es = "[(kt_calm 7, Kt_fork_exit 9)]"]) (simp_all add: kt_demo_ctrl_def)
qed

end
