(* ===== verification/CString.thy ===== *)
theory CString imports Prelude begin

text \<open>
  The pieces of the C library that the programs use on text: \<open>strtol(s, NULL, 10)\<close> on a 64-bit
  platform, with the \<open>ERANGE\<close> it leaves in \<open>errno\<close>, and \<open>sprintf("%d")\<close>.  C strings are lists of
  characters without the terminating NUL.  \<open>argp\<close> is what becomes of an option: the environment with it, an
  option that is not known, or the end of the program after a usage message.
\<close>

datatype 'e argp = Arg_ok 'e | Arg_unknown | Arg_exit

definition is_space :: "char \<Rightarrow> bool" where
  "is_space c \<longleftrightarrow> (of_char c :: nat) \<in> {32, 9, 10, 11, 12, 13}"

definition is_digit :: "char \<Rightarrow> bool" where
  "is_digit c \<longleftrightarrow> 48 \<le> (of_char c :: nat) \<and> (of_char c :: nat) \<le> 57"

definition digit_val :: "char \<Rightarrow> nat" where
  "digit_val c = of_char c - 48"

fun digits_val :: "nat \<Rightarrow> string \<Rightarrow> nat" where
  "digits_val acc [] = acc"
| "digits_val acc (c # cs) = (if is_digit c then digits_val (10 * acc + digit_val c) cs else acc)"

abbreviation (input) LONG_MAX :: int where "LONG_MAX \<equiv> 9223372036854775807"
abbreviation (input) LONG_MIN :: int where "LONG_MIN \<equiv> -9223372036854775808"

fun signed_val :: "string \<Rightarrow> int" where
  "signed_val [] = 0"
| "signed_val (c # cs) =
     (if (of_char c :: nat) = 45 then - int (digits_val 0 cs)
      else if (of_char c :: nat) = 43 then int (digits_val 0 cs)
      else int (digits_val 0 (c # cs)))"

text \<open>The value and whether \<open>errno\<close> was set.\<close>

definition strtol :: "string \<Rightarrow> int \<times> bool" where
  "strtol s =
     (let v = signed_val (dropWhile is_space s) in
      if v > LONG_MAX then (LONG_MAX, True)
      else if v < LONG_MIN then (LONG_MIN, True)
      else (v, False))"

subsection \<open>Printing\<close>

fun dec_of_nat :: "nat \<Rightarrow> string" where
  "dec_of_nat n = (if n < 10 then [char_of (48 + n)] else dec_of_nat (n div 10) @ [char_of (48 + n mod 10)])"

declare dec_of_nat.simps [simp del]

definition sprintf_d :: "s32 \<Rightarrow> string" where
  "sprintf_d x = (if sint x < 0 then char_of (45 :: nat) # dec_of_nat (nat (- sint x)) else dec_of_nat (nat (sint x)))"

lemma of_char_digit: "d < 10 \<Longrightarrow> (of_char (char_of (48 + d :: nat)) :: nat) = 48 + d"
  by (simp add: of_char_of)

lemma digits_val_append:
  "\<forall>c \<in> set cs. is_digit c \<Longrightarrow> digits_val acc (cs @ ds) = digits_val (digits_val acc cs) ds"
  by (induction cs arbitrary: acc) simp_all

lemma digit_char: "d < 10 \<Longrightarrow> is_digit (char_of (48 + d :: nat)) \<and> digit_val (char_of (48 + d :: nat)) = d"
  by (simp add: is_digit_def digit_val_def of_char_of)

lemma dec_of_nat_digits: "\<forall>c \<in> set (dec_of_nat n). is_digit c"
proof (induction n rule: dec_of_nat.induct)
  case (1 n)
  then show ?case
    using digit_char [of n] digit_char [of "n mod 10"] by (subst dec_of_nat.simps) auto
qed

lemma digits_val_dec: "digits_val 0 (dec_of_nat n) = n"
proof (induction n rule: dec_of_nat.induct)
  case (1 n)
  show ?case
  proof (cases "n < 10")
    case True
    then show ?thesis using digit_char [of n] by (subst dec_of_nat.simps) simp
  next
    case False
    then show ?thesis
      using 1 dec_of_nat_digits [of "n div 10"] digit_char [of "n mod 10"]
      by (subst dec_of_nat.simps) (simp add: digits_val_append)
  qed
qed

lemma dec_of_nat_nonempty: "dec_of_nat n \<noteq> []"
  by (subst dec_of_nat.simps) simp

lemma digit_not_special: "is_digit c \<Longrightarrow> \<not> is_space c \<and> (of_char c :: nat) \<noteq> 45 \<and> (of_char c :: nat) \<noteq> 43"
  by (auto simp: is_digit_def is_space_def)

lemma signed_val_dec: "signed_val (dropWhile is_space (dec_of_nat n)) = int n"
proof -
  obtain c cs where c: "dec_of_nat n = c # cs"
    using dec_of_nat_nonempty [of n] by (cases "dec_of_nat n") auto
  then have "is_digit c" using dec_of_nat_digits [of n] by simp
  then have "dropWhile is_space (dec_of_nat n) = dec_of_nat n" "signed_val (dec_of_nat n) = int (digits_val 0 (dec_of_nat n))"
    using digit_not_special [of c] c by simp_all
  then show ?thesis by (simp add: digits_val_dec)
qed

lemma signed_val_sprintf: "signed_val (dropWhile is_space (sprintf_d x)) = sint x"
proof (cases "sint x < 0")
  case True
  have "\<not> is_space (char_of (45 :: nat))" by (simp add: is_space_def of_char_of)
  with True show ?thesis by (simp add: sprintf_d_def of_char_of digits_val_dec)
next
  case False
  then show ?thesis by (simp add: sprintf_d_def signed_val_dec)
qed

lemma sint_range: "- 2147483648 \<le> sint (x :: s32) \<and> sint x < 2147483648"
  using sint_range_size [of x] by (simp add: word_size)

lemma strtol_sprintf: "strtol (sprintf_d x) = (sint x, False)"
  using sint_range [of x] by (simp add: strtol_def signed_val_sprintf Let_def)

lemma sprintf_d_inj:
  assumes "sprintf_d x = sprintf_d y"
  shows "x = y"
proof -
  have "sint x = sint y"
    using signed_val_sprintf [of x] signed_val_sprintf [of y] assms by simp
  then have "(word_of_int (sint x) :: s32) = word_of_int (sint y)" by simp
  then show ?thesis by simp
qed

end
