(* ===== verification/Controller.thy ===== *)
theory Controller imports CString LockImage ResourceImage SyscallImage ScheduleImage KeytimeImage begin

text \<open>
  The control program, \<open>eBPF_proc_image/controller.c\<close>, with the map updates of
  \<open>include/helpers.h\<close>: it parses its options, and switches the five tools on or off by writing
  the control maps that \<open>proc_image\<close> has pinned in the BPF file system.

  The kernel's answers are inputs: for each map the file descriptor \<open>bpf_obj_get\<close> returns
  (negative if nothing is pinned) and the error of \<open>bpf_map_update_elem\<close>.  Messages are not
  modelled; \<open>argp_usage\<close> and the help end the program (\<open>Arg_exit\<close>).
\<close>

subsection \<open>Options\<close>

record cenv =
  ce_usemode :: s32
  ce_pid :: s32
  ce_tgid :: s32
  ce_cpu_id :: s32
  ce_time :: s32
  ce_syscalls :: s32
  ce_enable_myproc :: bool
  ce_enable_resource :: bool
  ce_enable_cpu :: bool
  ce_enable_keytime :: bool
  ce_enable_lock :: bool
  ce_enable_syscall :: bool
  ce_enable_schedule :: bool
  ce_is_container :: bool

definition cenv0 :: cenv where
  "cenv0 = \<lparr>ce_usemode = 0, ce_pid = -1, ce_tgid = -1, ce_cpu_id = -1, ce_time = 0, ce_syscalls = 0,
     ce_enable_myproc = False, ce_enable_resource = False, ce_enable_cpu = False,
     ce_enable_keytime = False, ce_enable_lock = False, ce_enable_syscall = False,
     ce_enable_schedule = False, ce_is_container = False\<rparr>"

text \<open>
  The switch of \<open>parse_arg\<close>.  The case \<open>'s'\<close> has no \<open>break\<close> and goes on with the body of
  \<open>'S'\<close>; the \<open>long\<close> values are stored in fields of type \<open>int\<close>.
\<close>

definition controller_parse_arg :: "char \<Rightarrow> string \<Rightarrow> cenv \<Rightarrow> cenv argp" where
  "controller_parse_arg key arg env =
     (if key = CHR ''a'' then Arg_ok (env\<lparr>ce_usemode := 1\<rparr>)
      else if key = CHR ''d'' then Arg_ok (env\<lparr>ce_usemode := 2\<rparr>)
      else if key = CHR ''f'' then Arg_ok (env\<lparr>ce_usemode := 3\<rparr>)
      else if key = CHR ''p'' then
        (let (pid, errno) = strtol arg in
         if errno \<or> pid < 0 then Arg_exit else Arg_ok (env\<lparr>ce_pid := word_of_int pid\<rparr>))
      else if key = CHR ''P'' then
        (let (tgid, errno) = strtol arg in
         if errno \<or> tgid < 0 then Arg_exit else Arg_ok (env\<lparr>ce_tgid := word_of_int tgid\<rparr>))
      else if key = CHR ''c'' then
        (let (cpu_id, _) = strtol arg in
         if cpu_id < 0 then Arg_exit else Arg_ok (env\<lparr>ce_cpu_id := word_of_int cpu_id\<rparr>))
      else if key = CHR ''t'' then Arg_ok (env\<lparr>ce_time := word_of_int (fst (strtol arg))\<rparr>)
      else if key = CHR ''m'' then Arg_ok (env\<lparr>ce_enable_myproc := True\<rparr>)
      else if key = CHR ''o'' then Arg_ok (env\<lparr>ce_is_container := True\<rparr>)
      else if key = CHR ''r'' then Arg_ok (env\<lparr>ce_enable_resource := True\<rparr>)
      else if key = CHR ''k'' then
        (let (enable_cpu, _) = strtol arg in
         if enable_cpu < 0 \<or> enable_cpu > 1 then Arg_exit
         else Arg_ok (env\<lparr>ce_enable_cpu := (enable_cpu \<noteq> 0), ce_enable_keytime := True\<rparr>))
      else if key = CHR ''l'' then Arg_ok (env\<lparr>ce_enable_lock := True\<rparr>)
      else if key = CHR ''s'' then
        (let (syscalls, _) = strtol arg in
         if syscalls \<le> 0 \<or> syscalls > 50 then Arg_exit
         else Arg_ok (env\<lparr>ce_syscalls := word_of_int syscalls, ce_enable_syscall := True,
                         ce_enable_schedule := True\<rparr>))
      else if key = CHR ''S'' then Arg_ok (env\<lparr>ce_enable_schedule := True\<rparr>)
      else if key = CHR ''h'' then Arg_exit
      else Arg_unknown)"

text \<open>\<open>argp_parse\<close> hands the options over in order and stops at the first that is not accepted.\<close>

fun controller_parse :: "(char \<times> string) list \<Rightarrow> cenv \<Rightarrow> cenv argp" where
  "controller_parse [] env = Arg_ok env"
| "controller_parse ((key, arg) # opts) env =
     (case controller_parse_arg key arg env of
        Arg_ok env \<Rightarrow> controller_parse opts env
      | Arg_unknown \<Rightarrow> Arg_unknown
      | Arg_exit \<Rightarrow> Arg_exit)"

subsection \<open>The control maps\<close>

text \<open>The state of the five tools, whose control maps are the pinned ones.\<close>

record image_st =
  im_rsc :: rsc_st
  im_kt :: kt_st
  im_lock :: lock_st
  im_sc :: sc_st
  im_sched :: sched_st

record pins =
  pn_fd :: "nat \<Rightarrow> s32"
  pn_upd :: "nat \<Rightarrow> s32"

abbreviation (input) RESOURCE_IMAGE :: nat where "RESOURCE_IMAGE \<equiv> 1"
abbreviation (input) SYSCALL_IMAGE :: nat where "SYSCALL_IMAGE \<equiv> 2"
abbreviation (input) LOCK_IMAGE :: nat where "LOCK_IMAGE \<equiv> 3"
abbreviation (input) KEYTIME_IMAGE :: nat where "KEYTIME_IMAGE \<equiv> 4"
abbreviation (input) SCHEDULE_IMAGE :: nat where "SCHEDULE_IMAGE \<equiv> 5"

definition update_rsc_ctrl_map :: "pins \<Rightarrow> rsc_ctrl \<Rightarrow> image_st \<Rightarrow> s32 \<times> image_st" where
  "update_rsc_ctrl_map pn rsc_ctrl s =
     (let srcmap_fd = pn_fd pn RESOURCE_IMAGE in
      if srcmap_fd <s 0 then (srcmap_fd, s)
      else
        (let (err, m) = arr_update (pn_upd pn RESOURCE_IMAGE) (rsc_ctrl_map (im_rsc s)) 0 rsc_ctrl;
             s = s\<lparr>im_rsc := (im_rsc s)\<lparr>rsc_ctrl_map := m\<rparr>\<rparr>
         in if err <s 0 then (err, s) else (0, s)))"

definition update_kt_ctrl_map :: "pins \<Rightarrow> kt_ctrl \<Rightarrow> image_st \<Rightarrow> s32 \<times> image_st" where
  "update_kt_ctrl_map pn kt_ctrl s =
     (let ktmap_fd = pn_fd pn KEYTIME_IMAGE in
      if ktmap_fd <s 0 then (ktmap_fd, s)
      else
        (let (err, m) = arr_update (pn_upd pn KEYTIME_IMAGE) (kt_ctrl_map (im_kt s)) 0 kt_ctrl;
             s = s\<lparr>im_kt := (im_kt s)\<lparr>kt_ctrl_map := m\<rparr>\<rparr>
         in if err <s 0 then (err, s) else (0, s)))"

definition update_lock_ctrl_map :: "pins \<Rightarrow> lock_ctrl \<Rightarrow> image_st \<Rightarrow> s32 \<times> image_st" where
  "update_lock_ctrl_map pn lock_ctrl s =
     (let lockmap_fd = pn_fd pn LOCK_IMAGE in
      if lockmap_fd <s 0 then (lockmap_fd, s)
      else
        (let (err, m) = arr_update (pn_upd pn LOCK_IMAGE) (lock_ctrl_map (im_lock s)) 0 lock_ctrl;
             s = s\<lparr>im_lock := (im_lock s)\<lparr>lock_ctrl_map := m\<rparr>\<rparr>
         in if err <s 0 then (err, s) else (0, s)))"

definition update_sc_ctrl_map :: "pins \<Rightarrow> sc_ctrl \<Rightarrow> image_st \<Rightarrow> s32 \<times> image_st" where
  "update_sc_ctrl_map pn sc_ctrl s =
     (let scmap_fd = pn_fd pn SYSCALL_IMAGE in
      if scmap_fd <s 0 then (scmap_fd, s)
      else
        (let (err, m) = arr_update (pn_upd pn SYSCALL_IMAGE) (sc_ctrl_map (im_sc s)) 0 sc_ctrl;
             s = s\<lparr>im_sc := (im_sc s)\<lparr>sc_ctrl_map := m\<rparr>\<rparr>
         in if err <s 0 then (err, s) else (0, s)))"

definition update_sched_ctrl_map :: "pins \<Rightarrow> sched_ctrl \<Rightarrow> image_st \<Rightarrow> s32 \<times> image_st" where
  "update_sched_ctrl_map pn sched_ctrl s =
     (let schedmap_fd = pn_fd pn SCHEDULE_IMAGE in
      if schedmap_fd <s 0 then (schedmap_fd, s)
      else
        (let (err, m) = arr_update (pn_upd pn SCHEDULE_IMAGE) (sched_ctrl_map (im_sched s)) 0 sched_ctrl;
             s = s\<lparr>im_sched := (im_sched s)\<lparr>sched_ctrl_map := m\<rparr>\<rparr>
         in if err <s 0 then (err, s) else (0, s)))"

text \<open>\<open>if (enable) { err = update(..); if (err < 0) return err; }\<close> and what follows it.\<close>

definition guarded :: "bool \<Rightarrow> ('s \<Rightarrow> s32 \<times> 's) \<Rightarrow> ('s \<Rightarrow> s32 \<times> 's) \<Rightarrow> 's \<Rightarrow> s32 \<times> 's" where
  "guarded enable update rest s =
     (if enable then (let (err, s) = update s in if err <s 0 then (err, s) else rest s) else rest s)"

definition deactivate_mode :: "pins \<Rightarrow> cenv \<Rightarrow> image_st \<Rightarrow> s32 \<times> image_st" where
  "deactivate_mode pn env =
     guarded (ce_enable_resource env) (update_rsc_ctrl_map pn
       \<lparr>rsc_func = False, rc_target_pid = -1, rc_target_cpu_id = -1, rc_enable_myproc = False,
        rc_target_tgid = -1\<rparr>)
    (guarded (ce_enable_keytime env) (update_kt_ctrl_map pn
       \<lparr>kt_func = False, kt_cpu_func = False, kc_enable_myproc = False, kc_target_pid = -1,
        kc_target_tgid = -1\<rparr>)
    (guarded (ce_enable_lock env) (update_lock_ctrl_map pn
       \<lparr>lock_func = False, lc_enable_myproc = False, lc_target_pid = -1, lc_target_tgid = -1\<rparr>)
    (guarded (ce_enable_syscall env) (update_sc_ctrl_map pn
       \<lparr>sc_func = False, sc_enable_myproc = False, sc_is_container = False, sc_target_pid = -1,
        sc_target_tgid = -1, sc_syscalls = 0\<rparr>)
    (guarded (ce_enable_schedule env) (update_sched_ctrl_map pn
       \<lparr>sched_func = False, sd_target_pid = -1, sd_target_cpu_id = -1, sd_target_tgid = -1\<rparr>)
    (\<lambda>s. (0, s))))))"

text \<open>The activation branch of \<open>main\<close>, up to the call of \<open>pause\<close>.\<close>

definition activate_mode :: "pins \<Rightarrow> cenv \<Rightarrow> (image_st \<Rightarrow> s32 \<times> image_st) \<Rightarrow> image_st \<Rightarrow> s32 \<times> image_st" where
  "activate_mode pn env rest =
     guarded (ce_enable_resource env) (update_rsc_ctrl_map pn
       \<lparr>rsc_func = True, rc_target_pid = ce_pid env, rc_target_cpu_id = ce_cpu_id env,
        rc_enable_myproc = ce_enable_myproc env, rc_target_tgid = ce_tgid env\<rparr>)
    (guarded (ce_enable_keytime env) (update_kt_ctrl_map pn
       \<lparr>kt_func = True, kt_cpu_func = ce_enable_cpu env, kc_enable_myproc = ce_enable_myproc env,
        kc_target_pid = ce_pid env, kc_target_tgid = ce_tgid env\<rparr>)
    (guarded (ce_enable_lock env) (update_lock_ctrl_map pn
       \<lparr>lock_func = True, lc_enable_myproc = ce_enable_myproc env, lc_target_pid = ce_pid env,
        lc_target_tgid = ce_tgid env\<rparr>)
    (guarded (ce_enable_syscall env) (update_sc_ctrl_map pn
       \<lparr>sc_func = True, sc_enable_myproc = ce_enable_myproc env, sc_is_container = ce_is_container env,
        sc_target_pid = ce_pid env, sc_target_tgid = ce_tgid env, sc_syscalls = ce_syscalls env\<rparr>)
    (guarded (ce_enable_schedule env) (update_sched_ctrl_map pn
       \<lparr>sched_func = True, sd_target_pid = ce_pid env, sd_target_cpu_id = ce_cpu_id env,
        sd_target_tgid = ce_tgid env\<rparr>)
    rest))))"

text \<open>
  \<open>main\<close>: the result of the process, and whether it ran the command \<open>pkill proc_image\<close>.  With a
  running time, \<open>pause\<close> returns after the signal (SIGALRM, SIGINT or SIGTERM), whose handler has
  run \<open>deactivate_mode\<close> and dropped its result; \<open>pn2\<close> are the kernel's answers then.  An error
  of \<open>argp_parse\<close> is returned (\<open>EINVAL\<close> for an unknown option); its exits are not \<open>main\<close>'s.
\<close>

datatype main_end = Main_returns s32 bool image_st | Main_exits

definition controller_main :: "pins \<Rightarrow> pins \<Rightarrow> (char \<times> string) list \<Rightarrow> image_st \<Rightarrow> main_end" where
  "controller_main pn pn2 opts s =
     (case controller_parse opts cenv0 of
        Arg_exit \<Rightarrow> Main_exits
      | Arg_unknown \<Rightarrow> Main_returns EINVAL False s
      | Arg_ok env \<Rightarrow>
          if ce_usemode env = 1 then
            (let (err, s) = activate_mode pn env
                   (\<lambda>s. (0, if ce_time env \<noteq> 0 then snd (deactivate_mode pn2 env s) else s)) s
             in Main_returns err False s)
          else if ce_usemode env = 2 then
            (let (err, s) = deactivate_mode pn env s in
             if err <s 0 then Main_returns err False s else Main_returns 0 False s)
          else if ce_usemode env = 3 then Main_returns 0 True s
          else Main_returns 0 False s)"

end
