(* ===== verification/ControllerProps.thy ===== *)
theory ControllerProps imports Controller begin

text \<open>
  The properties of the control program, across the five tools: deactivation silences every probe
  (\<open>deactivate_silences\<close>), activation selects the tools and the target that were asked for
  (\<open>activate_selects\<close>), a running time ends in deactivation (\<open>timed_run_ends_off\<close>), a pid is
  read back as it was written (\<open>pid_option_roundtrip\<close>), except where \<open>long\<close> is cut to \<open>int\<close>
  (\<open>pid_option_wraps\<close>), and the syscall option also switches the schedule tool on
  (\<open>syscall_option_falls_through\<close>).
\<close>

subsection \<open>The five tools as one system\<close>

datatype image_event =
    E_rsc rsc_kern
  | E_kt "kt_kern \<times> kt_probe"
  | E_lock "lock_event kern \<times> lock_probe"
  | E_sc "sc_kern \<times> sc_probe"
  | E_sched "unit kern \<times> sched_probe"

text \<open>
  What the loader fixes before the probes run: the tool's own thread group for each tool, the
  argument limit and the host's name.
\<close>

record rodata =
  ro_ignore :: s32
  ro_max_args :: s32
  ro_hostname :: "u8 list"

fun image_step :: "rodata \<Rightarrow> image_event \<Rightarrow> image_st \<Rightarrow> image_st" where
  "image_step ro (E_rsc kn) s = s\<lparr>im_rsc := rsc_finish_task_switch (ro_ignore ro) kn (im_rsc s)\<rparr>"
| "image_step ro (E_kt e) s = s\<lparr>im_kt := kt_step (ro_max_args ro) (ro_ignore ro) e (im_kt s)\<rparr>"
| "image_step ro (E_lock e) s = s\<lparr>im_lock := lock_step (ro_ignore ro) e (im_lock s)\<rparr>"
| "image_step ro (E_sc e) s = s\<lparr>im_sc := sc_step (ro_ignore ro) (ro_hostname ro) e (im_sc s)\<rparr>"
| "image_step ro (E_sched e) s = s\<lparr>im_sched := sched_step e (im_sched s)\<rparr>"

definition image_enabled :: "image_st \<Rightarrow> bool" where
  "image_enabled s \<longleftrightarrow> rsc_ctrl_on (im_rsc s) \<noteq> None \<or>
     kt_ctrl_on (im_kt s) \<noteq> None \<or> kt_cpu_ctrl_on (im_kt s) \<noteq> None \<or> lock_ctrl_on (im_lock s) \<noteq> None \<or>
     sc_ctrl_on (im_sc s) \<noteq> None \<or> sched_ctrl_on (im_sched s) \<noteq> None"

interpretation image: gated_tool "image_step ro" image_enabled
proof unfold_locales
  fix s e assume "\<not> image_enabled s"
  then show "image_step ro e s = s"
    by (cases e) (simp_all add: image_enabled_def rsc.step_off kt.step_off lock.step_off sc.step_off
        sched.step_off)
qed

subsection \<open>Updates that succeed\<close>

definition pins_ok :: "pins \<Rightarrow> bool" where
  "pins_ok pn \<longleftrightarrow> (\<forall>i. \<not> pn_fd pn i <s 0 \<and> pn_upd pn i = 0)"

definition maps_loaded :: "image_st \<Rightarrow> bool" where
  "maps_loaded s \<longleftrightarrow> length (rsc_ctrl_map (im_rsc s)) = 1 \<and> length (kt_ctrl_map (im_kt s)) = 1 \<and>
     length (lock_ctrl_map (im_lock s)) = 1 \<and> length (sc_ctrl_map (im_sc s)) = 1 \<and>
     length (sched_ctrl_map (im_sched s)) = 1"

lemma list_set_one: "length xs = 1 \<Longrightarrow> xs[0 := x] = [x]"
  by (cases xs) simp_all

definition put_rsc :: "bool \<Rightarrow> rsc_ctrl \<Rightarrow> image_st \<Rightarrow> image_st" where
  "put_rsc b c s = (if b then s\<lparr>im_rsc := (im_rsc s)\<lparr>rsc_ctrl_map := [c]\<rparr>\<rparr> else s)"
definition put_kt :: "bool \<Rightarrow> kt_ctrl \<Rightarrow> image_st \<Rightarrow> image_st" where
  "put_kt b c s = (if b then s\<lparr>im_kt := (im_kt s)\<lparr>kt_ctrl_map := [c]\<rparr>\<rparr> else s)"
definition put_lock :: "bool \<Rightarrow> lock_ctrl \<Rightarrow> image_st \<Rightarrow> image_st" where
  "put_lock b c s = (if b then s\<lparr>im_lock := (im_lock s)\<lparr>lock_ctrl_map := [c]\<rparr>\<rparr> else s)"
definition put_sc :: "bool \<Rightarrow> sc_ctrl \<Rightarrow> image_st \<Rightarrow> image_st" where
  "put_sc b c s = (if b then s\<lparr>im_sc := (im_sc s)\<lparr>sc_ctrl_map := [c]\<rparr>\<rparr> else s)"
definition put_sched :: "bool \<Rightarrow> sched_ctrl \<Rightarrow> image_st \<Rightarrow> image_st" where
  "put_sched b c s = (if b then s\<lparr>im_sched := (im_sched s)\<lparr>sched_ctrl_map := [c]\<rparr>\<rparr> else s)"

lemma guarded_put:
  assumes "pins_ok pn" and "maps_loaded s"
  shows "guarded b (update_rsc_ctrl_map pn c1) rest s = rest (put_rsc b c1 s)"
    and "guarded b (update_kt_ctrl_map pn c2) rest s = rest (put_kt b c2 s)"
    and "guarded b (update_lock_ctrl_map pn c3) rest s = rest (put_lock b c3 s)"
    and "guarded b (update_sc_ctrl_map pn c4) rest s = rest (put_sc b c4 s)"
    and "guarded b (update_sched_ctrl_map pn c5) rest s = rest (put_sched b c5 s)"
  using assms
  by (simp_all add: guarded_def pins_ok_def maps_loaded_def list_set_one arr_update_def Let_def
      update_rsc_ctrl_map_def update_kt_ctrl_map_def update_lock_ctrl_map_def update_sc_ctrl_map_def
      update_sched_ctrl_map_def put_rsc_def put_kt_def put_lock_def put_sc_def put_sched_def)

lemma maps_loaded_put:
  "maps_loaded s \<Longrightarrow> maps_loaded (put_rsc b c1 s)" "maps_loaded s \<Longrightarrow> maps_loaded (put_kt b c2 s)"
  "maps_loaded s \<Longrightarrow> maps_loaded (put_lock b c3 s)" "maps_loaded s \<Longrightarrow> maps_loaded (put_sc b c4 s)"
  "maps_loaded s \<Longrightarrow> maps_loaded (put_sched b c5 s)"
  by (simp_all add: maps_loaded_def put_rsc_def put_kt_def put_lock_def put_sc_def put_sched_def)

lemma im_put [simp]:
  "im_rsc (put_rsc b c1 s) = (if b then (im_rsc s)\<lparr>rsc_ctrl_map := [c1]\<rparr> else im_rsc s)"
  "im_rsc (put_kt b c2 s) = im_rsc s" "im_rsc (put_lock b c3 s) = im_rsc s"
  "im_rsc (put_sc b c4 s) = im_rsc s" "im_rsc (put_sched b c5 s) = im_rsc s"
  "im_kt (put_kt b c2 s) = (if b then (im_kt s)\<lparr>kt_ctrl_map := [c2]\<rparr> else im_kt s)"
  "im_kt (put_rsc b c1 s) = im_kt s" "im_kt (put_lock b c3 s) = im_kt s"
  "im_kt (put_sc b c4 s) = im_kt s" "im_kt (put_sched b c5 s) = im_kt s"
  "im_lock (put_lock b c3 s) = (if b then (im_lock s)\<lparr>lock_ctrl_map := [c3]\<rparr> else im_lock s)"
  "im_lock (put_rsc b c1 s) = im_lock s" "im_lock (put_kt b c2 s) = im_lock s"
  "im_lock (put_sc b c4 s) = im_lock s" "im_lock (put_sched b c5 s) = im_lock s"
  "im_sc (put_sc b c4 s) = (if b then (im_sc s)\<lparr>sc_ctrl_map := [c4]\<rparr> else im_sc s)"
  "im_sc (put_rsc b c1 s) = im_sc s" "im_sc (put_kt b c2 s) = im_sc s"
  "im_sc (put_lock b c3 s) = im_sc s" "im_sc (put_sched b c5 s) = im_sc s"
  "im_sched (put_sched b c5 s) = (if b then (im_sched s)\<lparr>sched_ctrl_map := [c5]\<rparr> else im_sched s)"
  "im_sched (put_rsc b c1 s) = im_sched s" "im_sched (put_kt b c2 s) = im_sched s"
  "im_sched (put_lock b c3 s) = im_sched s" "im_sched (put_sc b c4 s) = im_sched s"
  by (simp_all add: put_rsc_def put_kt_def put_lock_def put_sc_def put_sched_def)

lemmas ctrl_on_defs = rsc_ctrl_on_def kt_ctrl_on_def kt_cpu_ctrl_on_def lock_ctrl_on_def sc_ctrl_on_def
  sched_ctrl_on_def arr_lookup_def

text \<open>Which tools a set of options selects.\<close>

definition selects_all :: "cenv \<Rightarrow> bool" where
  "selects_all env \<longleftrightarrow> ce_enable_resource env \<and> ce_enable_keytime env \<and> ce_enable_lock env \<and>
     ce_enable_syscall env \<and> ce_enable_schedule env"

lemma deactivate_off:
  assumes "pins_ok pn" and "maps_loaded s"
  shows "fst (deactivate_mode pn env s) = 0"
    and "ce_enable_resource env \<Longrightarrow> rsc_ctrl_on (im_rsc (snd (deactivate_mode pn env s))) = None"
    and "ce_enable_keytime env \<Longrightarrow> kt_ctrl_on (im_kt (snd (deactivate_mode pn env s))) = None"
    and "ce_enable_keytime env \<Longrightarrow> kt_cpu_ctrl_on (im_kt (snd (deactivate_mode pn env s))) = None"
    and "ce_enable_lock env \<Longrightarrow> lock_ctrl_on (im_lock (snd (deactivate_mode pn env s))) = None"
    and "ce_enable_syscall env \<Longrightarrow> sc_ctrl_on (im_sc (snd (deactivate_mode pn env s))) = None"
    and "ce_enable_schedule env \<Longrightarrow> sched_ctrl_on (im_sched (snd (deactivate_mode pn env s))) = None"
  using assms
  by (simp_all add: deactivate_mode_def guarded_put maps_loaded_put ctrl_on_defs)

text \<open>
  C9. Cross-component safety: when the control maps are pinned and the kernel accepts the
  updates, deactivating the five tools returns 0, and from then on no event whatsoever changes the
  state of any of them.
\<close>

theorem deactivate_silences:
  assumes "pins_ok pn" and "maps_loaded s" and "selects_all env"
  shows "fst (deactivate_mode pn env s) = 0 \<and>
     run (image_step ro) es (snd (deactivate_mode pn env s)) = snd (deactivate_mode pn env s)"
proof -
  have "\<not> image_enabled (snd (deactivate_mode pn env s))"
    using deactivate_off [OF assms(1,2), of env] assms(3) by (simp add: image_enabled_def selects_all_def)
  then show ?thesis
    using deactivate_off(1) [OF assms(1,2), of env] image.run_off by simp
qed

definition pins_demo :: pins where
  "pins_demo = \<lparr>pn_fd = (\<lambda>_. 3), pn_upd = (\<lambda>_. 0)\<rparr>"

definition image_demo :: image_st where
  "image_demo = \<lparr>im_rsc = rsc_maps, im_kt = kt_maps, im_lock = lock_maps, im_sc = sc_maps, im_sched = sched_maps\<rparr>"

lemma pins_demo_ok: "pins_ok pins_demo" "maps_loaded image_demo"
  by (simp_all add: pins_ok_def pins_demo_def word_sless_alt maps_loaded_def image_demo_def rsc_maps_def
      kt_maps_def lock_maps_def sc_maps_def sched_maps_def)

theorem deactivate_silences_witness:
  "fst (deactivate_mode pins_demo (cenv0\<lparr>ce_enable_resource := True, ce_enable_keytime := True,
     ce_enable_lock := True, ce_enable_syscall := True, ce_enable_schedule := True\<rparr>) image_demo) = 0"
  using deactivate_silences [OF pins_demo_ok, of "cenv0\<lparr>ce_enable_resource := True, ce_enable_keytime := True,
     ce_enable_lock := True, ce_enable_syscall := True, ce_enable_schedule := True\<rparr>"]
  by (simp add: selects_all_def)

text \<open>
  C30. Functional behaviour: activation without a running time switches on exactly the selected
  tools, each with the target of the options, and leaves the other tools' control alone, when the
  control maps are loaded, pinned and writable.
\<close>

theorem activate_selects:
  assumes "pins_ok pn" and "maps_loaded s"
    and "s' = snd (activate_mode pn env (\<lambda>s. (0, s)) s)"
  shows "rsc_ctrl_on (im_rsc s') = (if ce_enable_resource env
           then Some \<lparr>rsc_func = True, rc_target_pid = ce_pid env, rc_target_cpu_id = ce_cpu_id env,
             rc_enable_myproc = ce_enable_myproc env, rc_target_tgid = ce_tgid env\<rparr>
           else rsc_ctrl_on (im_rsc s))
       \<and> kt_ctrl_on (im_kt s') = (if ce_enable_keytime env
           then Some \<lparr>kt_func = True, kt_cpu_func = ce_enable_cpu env, kc_enable_myproc = ce_enable_myproc env,
             kc_target_pid = ce_pid env, kc_target_tgid = ce_tgid env\<rparr>
           else kt_ctrl_on (im_kt s))
       \<and> (kt_cpu_ctrl_on (im_kt s') \<noteq> None) = (if ce_enable_keytime env then ce_enable_cpu env
           else kt_cpu_ctrl_on (im_kt s) \<noteq> None)
       \<and> lock_ctrl_on (im_lock s') = (if ce_enable_lock env
           then Some \<lparr>lock_func = True, lc_enable_myproc = ce_enable_myproc env, lc_target_pid = ce_pid env,
             lc_target_tgid = ce_tgid env\<rparr>
           else lock_ctrl_on (im_lock s))
       \<and> sc_ctrl_on (im_sc s') = (if ce_enable_syscall env
           then Some \<lparr>sc_func = True, sc_enable_myproc = ce_enable_myproc env,
             sc_is_container = ce_is_container env, sc_target_pid = ce_pid env,
             sc_target_tgid = ce_tgid env, sc_syscalls = ce_syscalls env\<rparr>
           else sc_ctrl_on (im_sc s))
       \<and> sched_ctrl_on (im_sched s') = (if ce_enable_schedule env
           then Some \<lparr>sched_func = True, sd_target_pid = ce_pid env, sd_target_cpu_id = ce_cpu_id env,
             sd_target_tgid = ce_tgid env\<rparr>
           else sched_ctrl_on (im_sched s))"
  using assms
  by (simp add: activate_mode_def guarded_put maps_loaded_put ctrl_on_defs)

theorem activate_selects_witness:
  "lock_ctrl_on (im_lock (snd (activate_mode pins_demo (cenv0\<lparr>ce_enable_lock := True, ce_pid := 7\<rparr>)
     (\<lambda>s. (0, s)) image_demo))) = Some \<lparr>lock_func = True, lc_enable_myproc = False, lc_target_pid = 7,
       lc_target_tgid = -1\<rparr>"
  using activate_selects [OF pins_demo_ok refl, of "cenv0\<lparr>ce_enable_lock := True, ce_pid := 7\<rparr>"]
  by (simp add: cenv0_def)

lemma activate_rest:
  assumes "pins_ok pn" and "maps_loaded s"
  shows "activate_mode pn env rest s = rest (snd (activate_mode pn env (\<lambda>s. (0, s)) s))"
    and "maps_loaded (snd (activate_mode pn env (\<lambda>s. (0, s)) s))"
  using assms by (simp_all add: activate_mode_def guarded_put maps_loaded_put)

text \<open>
  A run of the control program with a running time, on any options that activate, leaves every
  tool it selected switched off when it returns, with result 0.
\<close>

theorem timed_run_ends_off:
  assumes "pins_ok pn" and "pins_ok pn2" and "maps_loaded s"
    and "controller_parse opts cenv0 = Arg_ok env" and "ce_usemode env = 1" and "ce_time env \<noteq> 0"
  shows "\<exists>s'. controller_main pn pn2 opts s = Main_returns 0 False s' \<and>
     (ce_enable_resource env \<longrightarrow> rsc_ctrl_on (im_rsc s') = None) \<and>
     (ce_enable_keytime env \<longrightarrow> kt_ctrl_on (im_kt s') = None \<and> kt_cpu_ctrl_on (im_kt s') = None) \<and>
     (ce_enable_lock env \<longrightarrow> lock_ctrl_on (im_lock s') = None) \<and>
     (ce_enable_syscall env \<longrightarrow> sc_ctrl_on (im_sc s') = None) \<and>
     (ce_enable_schedule env \<longrightarrow> sched_ctrl_on (im_sched s') = None)"
proof -
  let ?s1 = "snd (activate_mode pn env (\<lambda>s. (0, s)) s)"
  have "controller_main pn pn2 opts s = Main_returns 0 False (snd (deactivate_mode pn2 env ?s1))"
    using assms(4-6)
    by (simp add: controller_main_def
        activate_rest(1) [OF assms(1,3), of env "\<lambda>s. (0, snd (deactivate_mode pn2 env s))"])
  then show ?thesis
    using deactivate_off [OF assms(2) activate_rest(2) [OF assms(1,3)], of env env] by simp
qed

theorem timed_run_ends_off_witness:
  "\<exists>s'. controller_main pins_demo pins_demo [(CHR ''a'', ''''), (CHR ''t'', ''5''), (CHR ''l'', '''')] image_demo =
     Main_returns 0 False s' \<and> lock_ctrl_on (im_lock s') = None"
proof -
  let ?opts = "[(CHR ''a'', ''''), (CHR ''t'', ''5''), (CHR ''l'', '''')]"
  have "strtol ''5'' = (5, False)"
    by code_simp
  then have "controller_parse ?opts cenv0 = Arg_ok (cenv0\<lparr>ce_usemode := 1, ce_time := 5, ce_enable_lock := True\<rparr>)"
    by (simp add: controller_parse_arg_def)
  from timed_run_ends_off [OF pins_demo_ok(1) pins_demo_ok(1) pins_demo_ok(2) this]
  show ?thesis by auto
qed

subsection \<open>Options\<close>

text \<open>
  C39. Round trip: the decimal text of any non-negative \<open>int\<close>, given as \<open>-p\<close> or \<open>-P\<close>, sets
  exactly that number as the target; the text of a negative one is refused.
\<close>

theorem pid_option_roundtrip:
  shows "controller_parse_arg (CHR ''p'') (sprintf_d x) env =
           (if sint x < 0 then Arg_exit else Arg_ok (env\<lparr>ce_pid := x\<rparr>))
       \<and> controller_parse_arg (CHR ''P'') (sprintf_d x) env =
           (if sint x < 0 then Arg_exit else Arg_ok (env\<lparr>ce_tgid := x\<rparr>))"
  by (simp add: controller_parse_arg_def strtol_sprintf)

text \<open>
  A pid above the range of \<open>int\<close> passes the check, which is made on the \<open>long\<close>, and is then
  cut to 32 bits: \<open>-p 4294967295\<close> sets the target to -1, which selects every process.
\<close>

theorem pid_option_wraps:
  "controller_parse_arg (CHR ''p'') ''4294967295'' cenv0 = Arg_ok (cenv0\<lparr>ce_pid := -1\<rparr>)"
proof -
  have "strtol ''4294967295'' = (4294967295, False)"
    by (simp add: strtol_def is_space_def is_digit_def digit_val_def)
  then show ?thesis by (simp add: controller_parse_arg_def)
qed

text \<open>
  The case of the syscall option falls through: every accepted \<open>-s\<close> also selects the schedule
  tool, and its number is between 1 and 50.
\<close>

theorem syscall_option_falls_through:
  assumes "controller_parse_arg (CHR ''s'') arg env = Arg_ok env'"
  shows "ce_enable_schedule env' \<and> ce_enable_syscall env' \<and> 1 \<le> sint (ce_syscalls env') \<and>
     sint (ce_syscalls env') \<le> 50"
proof -
  obtain v e where v: "strtol arg = (v, e)" by force
  with assms have range: "0 < v" "v \<le> 50" and env': "env' = env\<lparr>ce_syscalls := word_of_int v,
      ce_enable_syscall := True, ce_enable_schedule := True\<rparr>"
    by (auto simp: controller_parse_arg_def split: if_splits)
  have "sint (word_of_int v :: s32) = v"
    using range by (intro sint_word_of_int_small) simp_all
  with range env' show ?thesis by simp
qed

theorem syscall_option_falls_through_witness:
  "ce_enable_schedule (cenv0\<lparr>ce_syscalls := 10, ce_enable_syscall := True, ce_enable_schedule := True\<rparr>)"
proof -
  have "strtol ''10'' = (10, False)"
    by code_simp
  then have "controller_parse_arg (CHR ''s'') ''10'' cenv0 =
      Arg_ok (cenv0\<lparr>ce_syscalls := 10, ce_enable_syscall := True, ce_enable_schedule := True\<rparr>)"
    by (simp add: controller_parse_arg_def)
  from syscall_option_falls_through [OF this] show ?thesis by simp
qed

end
