(* ===== verification/CwDelay.thy ===== *)
theory CwDelay imports Bpf begin

text \<open>
  Three kernel-side programs of \<open>cpu_watcher\<close> that measure one interval each:
  \<open>bpf/cs_delay.bpf.c\<close> (the time inside \<open>schedule()\<close>), \<open>bpf/preempt.bpf.c\<close> (from a preempting
  switch to the end of the switch) and \<open>bpf/sc_delay.bpf.c\<close> (the time of a system call).  The
  structures are those of \<open>include/cpu_watcher.h\<close>.

  Every probe calls the function that looks its control block up, and none of them tests the
  result: a control block that is switched off does not stop them.  The model says so by not
  reading the control map in the probes.
\<close>

type_synonym comm = "u8 list"

subsection \<open>cs_delay\<close>

record cs_ctrl =
  cs_func :: bool
  cs_prev_watcher :: s32

record cs_event =
  cse_t1 :: u64
  cse_t2 :: u64
  cse_delay :: u64

record cs_st =
  cs_start :: "u64 list"
  cs_ctrl_map :: "cs_ctrl list"
  cs_rb :: "cs_event list"

definition cs_maps :: cs_st where
  "cs_maps = \<lparr>cs_start = [0], cs_ctrl_map = [\<lparr>cs_func = False, cs_prev_watcher = 0\<rparr>], cs_rb = []\<rparr>"

definition get_cs_ctrl :: "cs_st \<Rightarrow> cs_ctrl option" where
  "get_cs_ctrl s = (case arr_lookup (cs_ctrl_map s) 0 of None \<Rightarrow> None
     | Some c \<Rightarrow> if cs_func c then Some c else None)"

definition cs_schedule :: "cs_event kern \<Rightarrow> cs_st \<Rightarrow> cs_st" where
  "cs_schedule kn s =
     (let t1 = kn_ktime kn 0 div 1000 in
      s\<lparr>cs_start := snd (arr_update (kn_upd kn 0) (cs_start s) 0 t1)\<rparr>)"

text \<open>The deletion is one of an array element, which the kernel refuses.\<close>

definition cs_schedule_exit :: "cs_event kern \<Rightarrow> cs_st \<Rightarrow> cs_st" where
  "cs_schedule_exit kn s =
     (let t2 = kn_ktime kn 0 div 1000 in
      case arr_lookup (cs_start s) 0 of None \<Rightarrow> s
      | Some t1 \<Rightarrow>
          (let delay = t2 - t1;
               s = s\<lparr>cs_start := snd (arr_delete (cs_start s) 0)\<rparr>
           in case kn_rsv kn 0 of None \<Rightarrow> s
              | Some e \<Rightarrow> s\<lparr>cs_rb := cs_rb s @ [e\<lparr>cse_t1 := t1, cse_t2 := t2, cse_delay := delay\<rparr>]\<rparr>))"

datatype cs_probe = Cs_schedule | Cs_schedule_exit

fun cs_step :: "cs_event kern \<times> cs_probe \<Rightarrow> cs_st \<Rightarrow> cs_st" where
  "cs_step (kn, Cs_schedule) s = cs_schedule kn s"
| "cs_step (kn, Cs_schedule_exit) s = cs_schedule_exit kn s"

subsection \<open>preempt\<close>

record preempt_ctrl =
  preempt_func :: bool
  pe_prev_watcher :: s32

record preempt_event =
  pev_prev_pid :: pid_t
  pev_next_pid :: pid_t
  pev_duration :: u64
  pev_comm :: comm

record preempt_st =
  preemptTime :: "(pid_t, u64) hmap"
  preempt_ctrl_map :: "preempt_ctrl list"
  preempt_rb :: "preempt_event list"

definition preempt_maps :: preempt_st where
  "preempt_maps = \<lparr>preemptTime = hm_new 4096,
     preempt_ctrl_map = [\<lparr>preempt_func = False, pe_prev_watcher = 0\<rparr>], preempt_rb = []\<rparr>"

definition get_preempt_ctrl :: "preempt_st \<Rightarrow> preempt_ctrl option" where
  "get_preempt_ctrl s = (case arr_lookup (preempt_ctrl_map s) 0 of None \<Rightarrow> None
     | Some c \<Rightarrow> if preempt_func c then Some c else None)"

definition pe_sched_switch :: "preempt_event kern \<Rightarrow> bool \<Rightarrow> pid_t \<Rightarrow> preempt_st \<Rightarrow> preempt_st" where
  "pe_sched_switch kn preempt prev_pid s =
     (let start_time = kn_ktime kn 0 in
      if preempt then s\<lparr>preemptTime := snd (hm_update (kn_upd kn 0) (preemptTime s) prev_pid start_time)\<rparr>
      else s)"

text \<open>\<open>next_pid\<close> is filled with \<open>bpf_get_current_pid_tgid() >> 32\<close>, the thread group.\<close>

definition pe_finish_task_switch :: "preempt_event kern \<Rightarrow> comm \<Rightarrow> pid_t \<Rightarrow> preempt_st \<Rightarrow> preempt_st" where
  "pe_finish_task_switch kn comm pid s =
     (let end_time = kn_ktime kn 0 in
      case hm_lookup (preemptTime s) pid of None \<Rightarrow> s
      | Some val \<Rightarrow>
          (let delta = end_time - val in
           case kn_rsv kn 0 of None \<Rightarrow> s
           | Some e \<Rightarrow>
               s\<lparr>preempt_rb := preempt_rb s @ [e\<lparr>pev_prev_pid := pid, pev_next_pid := cur_tgid kn,
                    pev_duration := delta, pev_comm := comm\<rparr>],
                 preemptTime := hm_delete (preemptTime s) pid\<rparr>))"

datatype pe_probe = Pe_switch bool pid_t | Pe_finish comm pid_t

fun pe_step :: "preempt_event kern \<times> pe_probe \<Rightarrow> preempt_st \<Rightarrow> preempt_st" where
  "pe_step (kn, Pe_switch preempt prev) s = pe_sched_switch kn preempt prev s"
| "pe_step (kn, Pe_finish comm prev) s = pe_finish_task_switch kn comm prev s"

subsection \<open>sc_delay\<close>

record wsc_ctrl =
  wsc_func :: bool
  wsc_prev_watcher :: s32

record syscall_events =
  se_pid :: s32
  se_count :: s32
  se_comm :: comm
  se_delay :: u64
  se_syscall_id :: u64

record wsc_st =
  SyscallEnterTime :: "(pid_t, u64) pcmap"
  Events :: "(pid_t, u64) pcmap"
  wsc_ctrl_map :: "wsc_ctrl list"
  wsc_rb :: "syscall_events list"

definition wsc_maps :: wsc_st where
  "wsc_maps = \<lparr>SyscallEnterTime = hm_new 512, Events = hm_new 10,
     wsc_ctrl_map = [\<lparr>wsc_func = False, wsc_prev_watcher = 0\<rparr>], wsc_rb = []\<rparr>"

definition get_sc_ctrl :: "wsc_st \<Rightarrow> wsc_ctrl option" where
  "get_sc_ctrl s = (case arr_lookup (wsc_ctrl_map s) 0 of None \<Rightarrow> None
     | Some c \<Rightarrow> if wsc_func c then Some c else None)"

definition wsc_sys_enter :: "syscall_events kern \<Rightarrow> u64 \<Rightarrow> wsc_st \<Rightarrow> wsc_st" where
  "wsc_sys_enter kn nr s =
     (let start_time = kn_ktime kn 0 div 1000; pid = cur_pid kn; syscall_id = nr;
          s = s\<lparr>Events := snd (pc_update (kn_upd kn 0) (kn_cpu kn) 0 (Events s) pid syscall_id)\<rparr>
      in s\<lparr>SyscallEnterTime := snd (pc_update (kn_upd kn 1) (kn_cpu kn) 0 (SyscallEnterTime s) pid start_time)\<rparr>)"

text \<open>Both deletions are of \<open>SyscallEnterTime\<close>; nothing ever leaves \<open>Events\<close>.\<close>

definition wsc_sys_exit :: "syscall_events kern \<Rightarrow> comm \<Rightarrow> wsc_st \<Rightarrow> wsc_st" where
  "wsc_sys_exit kn comm s =
     (let exit_time = kn_ktime kn 0 div 1000; pid = cur_pid kn in
      case pc_lookup (kn_cpu kn) (SyscallEnterTime s) pid of None \<Rightarrow> s
      | Some start_time \<Rightarrow>
          (let delay = exit_time - start_time;
               s = s\<lparr>SyscallEnterTime := hm_delete (SyscallEnterTime s) pid\<rparr>
           in case pc_lookup (kn_cpu kn) (Events s) pid of None \<Rightarrow> s
              | Some syscall_id \<Rightarrow>
                  (let s = s\<lparr>SyscallEnterTime := hm_delete (SyscallEnterTime s) pid\<rparr> in
                   case kn_rsv kn 0 of None \<Rightarrow> s
                   | Some e \<Rightarrow> s\<lparr>wsc_rb := wsc_rb s @ [e\<lparr>se_pid := pid, se_delay := delay,
                        se_comm := comm, se_syscall_id := syscall_id\<rparr>]\<rparr>)))"

datatype wsc_probe = Wsc_enter u64 | Wsc_exit comm

fun wsc_step :: "syscall_events kern \<times> wsc_probe \<Rightarrow> wsc_st \<Rightarrow> wsc_st" where
  "wsc_step (kn, Wsc_enter nr) s = wsc_sys_enter kn nr s"
| "wsc_step (kn, Wsc_exit comm) s = wsc_sys_exit kn comm s"

end
