(* ===== verification/CwDelayProps.thy ===== *)
theory CwDelayProps imports CwDelay begin

text \<open>
  What the interval programs of \<open>cpu_watcher\<close> report.  \<open>cs_interval\<close>: the one start slot of
  \<open>cs_delay\<close> holds the last accepted entry of any thread on any CPU.  \<open>preempt_pairing\<close>: a
  preempted task's interval.  \<open>wsc_exit_cpu\<close> and \<open>wsc_events_full\<close>: system-call times, and the two
  ways they go wrong (a migration, more than ten pids).
\<close>

subsection \<open>cs_delay\<close>

text \<open>The start time in force: the last one the kernel accepted, \<open>0\<close> before the first.\<close>

definition cs_last :: "(cs_event kern \<times> cs_probe) list \<Rightarrow> u64" where
  "cs_last es = fold (\<lambda>(kn, p) t. case p of
     Cs_schedule \<Rightarrow> if kn_upd kn 0 = 0 then kn_ktime kn 0 div 1000 else t
   | Cs_schedule_exit \<Rightarrow> t) es 0"

lemma cs_step_start:
  assumes "cs_start s = [t]"
  shows "cs_start (cs_step (kn, p) s) = [case p of
     Cs_schedule \<Rightarrow> if kn_upd kn 0 = 0 then kn_ktime kn 0 div 1000 else t
   | Cs_schedule_exit \<Rightarrow> t]"
  using assms
  by (cases p) (auto simp: cs_schedule_def cs_schedule_exit_def Let_def arr_update_def arr_delete_def
      split: option.splits)

lemma cs_run_start:
  "cs_start s = [t] \<Longrightarrow> cs_start (run cs_step es s) = [fold (\<lambda>(kn, p) t. case p of
     Cs_schedule \<Rightarrow> if kn_upd kn 0 = 0 then kn_ktime kn 0 div 1000 else t
   | Cs_schedule_exit \<Rightarrow> t) es t]"
proof (induction es arbitrary: s t)
  case Nil
  then show ?case by simp
next
  case (Cons e es)
  obtain kn p where e: "e = (kn, p)" by (cases e)
  show ?case
    using Cons.IH [OF cs_step_start [OF Cons.prems, of kn p]] by (simp add: e)
qed

text \<open>
  After any history of entries to and returns from \<open>schedule()\<close>, by any threads on any CPUs, a
  return reports the time since the last accepted entry of the whole system: the two ends are its
  own only when nothing entered in between, and a return that follows another return reports the
  same entry again (the array element is never cleared).
\<close>

theorem cs_interval:
  assumes "kn_rsv kn 0 = Some slot"
  shows "cs_rb (cs_schedule_exit kn (run cs_step es cs_maps)) = cs_rb (run cs_step es cs_maps) @
     [slot\<lparr>cse_t1 := cs_last es, cse_t2 := kn_ktime kn 0 div 1000,
           cse_delay := kn_ktime kn 0 div 1000 - cs_last es\<rparr>]"
proof -
  have "cs_start (run cs_step es cs_maps) = [cs_last es]"
    by (simp add: cs_last_def cs_run_start cs_maps_def)
  then show ?thesis
    by (simp add: cs_schedule_exit_def Let_def arr_lookup_def assms)
qed

definition cs_slot :: cs_event where
  "cs_slot = \<lparr>cse_t1 = 0, cse_t2 = 0, cse_delay = 0\<rparr>"

text \<open>Two threads enter at 1 ms and 4 ms; the first to return, at 5 ms, is charged 1 ms, not 4.\<close>

theorem cs_interval_witness:
  "map cse_delay (cs_rb (cs_schedule_exit (calm 7 7 5000000 cs_slot)
     (run cs_step [(calm 7 7 1000000 cs_slot, Cs_schedule), (calm 8 8 4000000 cs_slot, Cs_schedule)]
       cs_maps))) = [1000]"
  unfolding cs_interval [where kn = "calm 7 7 5000000 cs_slot" and slot = cs_slot, OF calm_simps(6) [THEN fun_cong]]
  by (simp add: cs_last_def cs_maps_def cs_schedule_def cs_slot_def)

subsection \<open>preempt\<close>

definition pe_touches :: "preempt_event kern \<times> pe_probe \<Rightarrow> pid_t \<Rightarrow> bool" where
  "pe_touches e p \<longleftrightarrow> (case snd e of Pe_switch preempt q \<Rightarrow> preempt \<and> q = p | Pe_finish _ q \<Rightarrow> q = p)"

definition pe_pending :: "pid_t \<Rightarrow> preempt_st \<Rightarrow> u64 option" where
  "pe_pending p s = hm_lookup (preemptTime s) p"

interpretation preempted: keyed_tool pe_step pe_touches pe_pending
proof unfold_locales
  show "pe_pending p (pe_step e s) = pe_pending p s" if "\<not> pe_touches e p" for e p s
    using that
    by (cases e; cases "snd e")
      (auto simp: pe_touches_def pe_pending_def pe_sched_switch_def pe_finish_task_switch_def Let_def
        map_rules split: option.splits)
qed

text \<open>
  A task is switched out by preemption; whatever other switches and switch completions run in
  between, the completion of its switch reports one interval, with the task's pid, the thread
  group that runs now and the time between the two, and the start time is gone.
\<close>

theorem preempt_pairing:
  assumes "kn_upd ks 0 = 0" and "hm_room (preemptTime s) p"
    and "\<forall>e \<in> set es. \<not> pe_touches e p"
    and "kn_rsv kf 0 = Some slot"
  shows "preempt_rb (pe_finish_task_switch kf comm p (run pe_step es (pe_sched_switch ks True p s))) =
      preempt_rb (run pe_step es (pe_sched_switch ks True p s)) @
        [slot\<lparr>pev_prev_pid := p, pev_next_pid := cur_tgid kf,
           pev_duration := kn_ktime kf 0 - kn_ktime ks 0, pev_comm := comm\<rparr>]
    \<and> hm_lookup (preemptTime (pe_finish_task_switch kf comm p
         (run pe_step es (pe_sched_switch ks True p s)))) p = None"
proof -
  have "pe_pending p (run pe_step es (pe_sched_switch ks True p s)) =
        pe_pending p (pe_sched_switch ks True p s)"
    using assms(3) by (intro preempted.run_frame) blast
  then have "hm_lookup (preemptTime (run pe_step es (pe_sched_switch ks True p s))) p =
      Some (kn_ktime ks 0)"
    by (simp add: pe_pending_def pe_sched_switch_def map_rules assms(1,2))
  then show ?thesis
    by (simp add: pe_finish_task_switch_def Let_def assms(4) map_rules)
qed

definition pe_slot :: preempt_event where
  "pe_slot = \<lparr>pev_prev_pid = 0, pev_next_pid = 0, pev_duration = 0, pev_comm = []\<rparr>"

theorem preempt_pairing_witness:
  "preempt_rb (pe_finish_task_switch (calm 6 6 40 pe_slot) [97] 5
     (run pe_step [(calm 9 9 20 pe_slot, Pe_switch True 8)]
       (pe_sched_switch (calm 5 5 10 pe_slot) True 5 preempt_maps))) \<noteq> []"
  using preempt_pairing [where s = preempt_maps and p = 5 and slot = pe_slot and comm = "[97]"
      and es = "[(calm 9 9 20 pe_slot, Pe_switch True 8)]"
      and ks = "calm 5 5 10 pe_slot" and kf = "calm 6 6 40 pe_slot"]
  by (simp add: pe_touches_def preempt_maps_def hm_room_def hm_new_def)

subsection \<open>sc_delay\<close>

definition wsc_pid :: "syscall_events kern \<times> wsc_probe \<Rightarrow> pid_t \<Rightarrow> bool" where
  "wsc_pid e p \<longleftrightarrow> cur_pid (fst e) = p"

definition wsc_view :: "pid_t \<Rightarrow> wsc_st \<Rightarrow> (s32 \<Rightarrow> u64) option \<times> (s32 \<Rightarrow> u64) option" where
  "wsc_view p s = (hm_lookup (SyscallEnterTime s) p, hm_lookup (Events s) p)"

interpretation wsc_owner: keyed_tool wsc_step wsc_pid wsc_view
proof unfold_locales
  show "wsc_view p (wsc_step e s) = wsc_view p s" if "\<not> wsc_pid e p" for e p s
    using that
    by (cases e; cases "snd e")
      (auto simp: wsc_pid_def wsc_view_def wsc_sys_enter_def wsc_sys_exit_def Let_def pc_update_def
        map_rules split: option.splits)
qed

text \<open>What a per-CPU map holds for a key on a CPU, \<open>0\<close> where there is no entry.\<close>

definition pc_old :: "s32 \<Rightarrow> ('k, u64) pcmap \<Rightarrow> 'k \<Rightarrow> u64" where
  "pc_old cpu m k = (case hm_lookup m k of None \<Rightarrow> 0 | Some f \<Rightarrow> f cpu)"

lemma pc_update_done:
  assumes "f = 0" and "hm_room m k"
  shows "hm_lookup (snd (pc_update f cpu 0 m k v)) k =
           Some ((\<lambda>c. pc_old c m k)(cpu := v))"
  using assms by (auto simp: pc_update_def map_rules pc_old_def fun_eq_iff split: option.splits)

text \<open>
  A thread enters a system call on one CPU and returns from it on some CPU, other threads'
  probes firing in between: the return reports one event.  On the same CPU the delay is the time
  between the two and the number is the call's; on another CPU both come from what that CPU's
  slots held before, \<open>0\<close> for a fresh entry, so that the delay of a migrated call is the uptime or
  reaches back to an older call.
\<close>

theorem wsc_exit_cpu:
  assumes "kn_upd ke 0 = 0" and "kn_upd ke 1 = 0"
    and "hm_room (Events s) (cur_pid ke)" and "hm_room (SyscallEnterTime s) (cur_pid ke)"
    and "\<forall>e \<in> set es. cur_pid (fst e) \<noteq> cur_pid ke"
    and "cur_pid kx = cur_pid ke" and "kn_rsv kx 0 = Some slot"
  shows "wsc_rb (wsc_sys_exit kx comm (run wsc_step es (wsc_sys_enter ke nr s))) =
      wsc_rb (run wsc_step es (wsc_sys_enter ke nr s)) @
        [slot\<lparr>se_pid := cur_pid ke,
           se_delay := kn_ktime kx 0 div 1000 -
             (if kn_cpu kx = kn_cpu ke then kn_ktime ke 0 div 1000
              else pc_old (kn_cpu kx) (SyscallEnterTime s) (cur_pid ke)),
           se_comm := comm,
           se_syscall_id := (if kn_cpu kx = kn_cpu ke then nr
              else pc_old (kn_cpu kx) (Events s) (cur_pid ke))\<rparr>]
    \<and> hm_lookup (SyscallEnterTime (wsc_sys_exit kx comm (run wsc_step es (wsc_sys_enter ke nr s)))) (cur_pid ke) = None"
proof -
  let ?s1 = "run wsc_step es (wsc_sys_enter ke nr s)"
  have "wsc_view (cur_pid ke) ?s1 = wsc_view (cur_pid ke) (wsc_sys_enter ke nr s)"
    using assms(5) by (intro wsc_owner.run_frame) (auto simp: wsc_pid_def)
  then have l: "hm_lookup (SyscallEnterTime ?s1) (cur_pid kx) =
      Some ((\<lambda>c. pc_old c (SyscallEnterTime s) (cur_pid ke))(kn_cpu ke := kn_ktime ke 0 div 1000))"
    "hm_lookup (Events ?s1) (cur_pid kx) =
      Some ((\<lambda>c. pc_old c (Events s) (cur_pid ke))(kn_cpu ke := nr))"
    by (simp_all add: wsc_view_def wsc_sys_enter_def Let_def pc_update_done assms(1-4,6)
        del: One_nat_def)
  then show ?thesis
    by (simp add: wsc_sys_exit_def Let_def pc_lookup_def assms(6,7) map_rules)
qed

definition wsc_slot :: syscall_events where
  "wsc_slot = \<lparr>se_pid = 0, se_count = 0, se_comm = [], se_delay = 0, se_syscall_id = 0\<rparr>"

text \<open>The call 59 takes 1 ms and its thread moves from CPU 0 to CPU 1: the report says 0 and 5 ms.\<close>

theorem wsc_exit_cpu_witness:
  "map (\<lambda>e. (se_delay e, se_syscall_id e)) (wsc_rb (wsc_sys_exit ((calm 7 7 5000000 wsc_slot)\<lparr>kn_cpu := 1\<rparr>) []
     (run wsc_step [] (wsc_sys_enter (calm 7 7 4000000 wsc_slot) 59 wsc_maps)))) = [(5000, 0)]"
  using wsc_exit_cpu [where ke = "calm 7 7 4000000 wsc_slot" and kx = "(calm 7 7 5000000 wsc_slot)\<lparr>kn_cpu := 1\<rparr>"
      and s = wsc_maps and es = "[]" and slot = wsc_slot and nr = 59 and comm = "[]"]
  by (simp add: wsc_maps_def hm_room_def hm_new_def wsc_slot_def pc_old_def hm_lookup_def
      wsc_sys_enter_def Let_def cur_pid_def calm_def)

subsection \<open>The eleventh pid\<close>

definition wsc_shut :: "pid_t \<Rightarrow> wsc_st \<Rightarrow> bool" where
  "wsc_shut p s \<longleftrightarrow> hm_max (Events s) = 10 \<and> length (hm_ents (Events s)) = 10 \<and> hm_lookup (Events s) p = None"

definition wsc_reports :: "pid_t \<Rightarrow> wsc_st \<Rightarrow> syscall_events list" where
  "wsc_reports p s = filter (\<lambda>e. se_pid e = p) (wsc_rb s)"

lemma length_hm_update_full:
  assumes "hm_max m \<le> length (hm_ents m)"
  shows "length (hm_ents (snd (hm_update f m k v))) = length (hm_ents m)"
  using assms by (auto simp: hm_update_def length_AList_update hm_lookup_None)

lemma wsc_shut_step:
  assumes "wsc_shut p s"
  shows "wsc_shut p (wsc_step e s) \<and> wsc_reports p (wsc_step e s) = wsc_reports p s"
proof -
  obtain kn pr where e: "e = (kn, pr)" by (cases e)
  have upd: "hm_lookup (snd (pc_update f c 0 (Events s) k v)) p = None"
    "length (hm_ents (snd (pc_update f c 0 (Events s) k v))) = 10" for f c k and v :: u64
    using assms
    by (auto simp: wsc_shut_def pc_update_def map_rules hm_room_def length_hm_update_full)
  show ?thesis
  proof (cases pr)
    case (Wsc_enter nr)
    then show ?thesis
      using assms upd by (simp add: e wsc_sys_enter_def Let_def wsc_shut_def wsc_reports_def pc_update_def)
  next
    case (Wsc_exit comm)
    then show ?thesis
      using assms by (auto simp: e wsc_sys_exit_def Let_def wsc_shut_def wsc_reports_def pc_lookup_def
          split: option.splits)
  qed
qed

lemma wsc_shut_run:
  "wsc_shut p s \<Longrightarrow> wsc_shut p (run wsc_step es s) \<and> wsc_reports p (run wsc_step es s) = wsc_reports p s"
proof (induction es arbitrary: s)
  case Nil
  then show ?case by simp
next
  case (Cons e es)
  then show ?case using wsc_shut_step [OF Cons.prems, of e] by simp
qed

text \<open>
  Nothing is ever deleted from \<open>Events\<close>, which holds ten pids: once ten are there, whatever
  happens afterwards no system call of any other pid is reported.
\<close>

theorem wsc_events_full:
  assumes "hm_max (Events s) = 10" and "length (hm_ents (Events s)) = 10"
    and "hm_lookup (Events s) p = None"
  shows "filter (\<lambda>e. se_pid e = p) (wsc_rb (run wsc_step es s)) = filter (\<lambda>e. se_pid e = p) (wsc_rb s)"
  using wsc_shut_run [of p s es] assms by (simp add: wsc_shut_def wsc_reports_def)

definition wsc_ten :: wsc_st where
  "wsc_ten = run wsc_step (map (\<lambda>p. (calm p p 1000 wsc_slot, Wsc_enter 1)) [1,2,3,4,5,6,7,8,9,10]) wsc_maps"

theorem wsc_events_full_witness:
  "filter (\<lambda>e. se_pid e = 11) (wsc_rb (run wsc_step
     [(calm 11 11 2000 wsc_slot, Wsc_enter 2), (calm 11 11 9000 wsc_slot, Wsc_exit [])] wsc_ten)) = []"
proof -
  have "hm_max (Events wsc_ten) = 10 \<and> length (hm_ents (Events wsc_ten)) = 10 \<and>
      hm_lookup (Events wsc_ten) 11 = None \<and> wsc_rb wsc_ten = []"
    by (simp add: wsc_ten_def wsc_sys_enter_def wsc_maps_def hm_new_def hm_update_def hm_lookup_def pc_update_def Let_def)
  then show ?thesis
    using wsc_events_full [of wsc_ten 11
        "[(calm 11 11 2000 wsc_slot, Wsc_enter 2), (calm 11 11 9000 wsc_slot, Wsc_exit [])]"] by simp
qed

end
