(* ===== verification/CwMq.thy ===== *)
theory CwMq imports Bpf begin

text \<open>
  The message-queue watcher of \<open>cpu_watcher\<close>, \<open>bpf/mq_delay.bpf.c\<close>.  The sender's times are
  kept under its pid in \<open>send_msg1\<close> until the kernel has allocated the message, whose address then
  is the key of \<open>send_msg2\<close>; the receiver, whose data wait under its pid in \<open>rcv_msg1\<close>, finds the
  sender's through that address and reports both.  The probes look the control block up and do
  not test it.
\<close>

record mq_ctrl =
  mq_func :: bool
  mq_prev_watcher :: s32

record mq_events =
  me_send_pid :: s32
  me_rcv_pid :: s32
  me_mqdes :: s32
  me_msg_len :: u64
  me_msg_prio :: u32
  me_send_enter_time :: u64
  me_send_exit_time :: u64
  me_rcv_enter_time :: u64
  me_rcv_exit_time :: u64

record send_events =
  sn_send_pid :: s32
  sn_Key_msg_ptr :: u64
  sn_mqdes :: s32
  sn_msg_len :: u64
  sn_msg_prio :: u32
  sn_u_msg_ptr :: u64
  sn_src :: u64
  sn_send_enter_time :: u64
  sn_send_exit_time :: u64

record rcv_events =
  rv_rcv_pid :: s32
  rv_Key_msg_ptr :: u64
  rv_mqdes :: s32
  rv_msg_len :: u64
  rv_msg_prio :: u32
  rv_u_msg_ptr :: u64
  rv_dest :: u64
  rv_rcv_enter_time :: u64
  rv_rcv_exit_time :: u64

record mq_st =
  send_msg1 :: "(pid_t, send_events) hmap"
  send_msg2 :: "(u64, send_events) hmap"
  rcv_msg1 :: "(pid_t, rcv_events) hmap"
  mq_ctrl_map :: "mq_ctrl list"
  mq_rb :: "mq_events list"

definition mq_maps :: mq_st where
  "mq_maps = \<lparr>send_msg1 = hm_new 1024, send_msg2 = hm_new 1024, rcv_msg1 = hm_new 1024,
     mq_ctrl_map = [\<lparr>mq_func = False, mq_prev_watcher = 0\<rparr>], mq_rb = []\<rparr>"

definition get_mq_ctrl :: "mq_st \<Rightarrow> mq_ctrl option" where
  "get_mq_ctrl s = (case arr_lookup (mq_ctrl_map s) 0 of None \<Rightarrow> None
     | Some c \<Rightarrow> if mq_func c then Some c else None)"

definition zero_send :: send_events where
  "zero_send = \<lparr>sn_send_pid = 0, sn_Key_msg_ptr = 0, sn_mqdes = 0, sn_msg_len = 0, sn_msg_prio = 0,
     sn_u_msg_ptr = 0, sn_src = 0, sn_send_enter_time = 0, sn_send_exit_time = 0\<rparr>"

definition zero_rcv :: rcv_events where
  "zero_rcv = \<lparr>rv_rcv_pid = 0, rv_Key_msg_ptr = 0, rv_mqdes = 0, rv_msg_len = 0, rv_msg_prio = 0,
     rv_u_msg_ptr = 0, rv_dest = 0, rv_rcv_enter_time = 0, rv_rcv_exit_time = 0\<rparr>"

subsection \<open>Sending\<close>

definition mq_timedsend :: "mq_events kern \<Rightarrow> s32 \<Rightarrow> u64 \<Rightarrow> u64 \<Rightarrow> u32 \<Rightarrow> mq_st \<Rightarrow> mq_st" where
  "mq_timedsend kn mqdes u_msg_ptr msg_len msg_prio s =
     (let pid = cur_pid kn;
          info = zero_send\<lparr>sn_send_pid := pid, sn_send_enter_time := kn_ktime kn 0, sn_mqdes := mqdes,
            sn_msg_len := msg_len, sn_msg_prio := msg_prio, sn_u_msg_ptr := u_msg_ptr\<rparr>
      in s\<lparr>send_msg1 := snd (hm_update (kn_upd kn 0) (send_msg1 s) pid info)\<rparr>)"

definition load_msg_enter :: "mq_events kern \<Rightarrow> u64 \<Rightarrow> mq_st \<Rightarrow> mq_st" where
  "load_msg_enter kn src s =
     (case hm_lookup (send_msg1 s) (cur_pid kn) of None \<Rightarrow> s
      | Some info \<Rightarrow> s\<lparr>send_msg1 := hm_poke (send_msg1 s) (cur_pid kn) (info\<lparr>sn_src := src\<rparr>)\<rparr>)"

definition load_msg_exit :: "mq_events kern \<Rightarrow> u64 \<Rightarrow> mq_st \<Rightarrow> mq_st" where
  "load_msg_exit kn ret s =
     (let pid = cur_pid kn in
      case hm_lookup (send_msg1 s) pid of None \<Rightarrow> s
      | Some info \<Rightarrow>
          if sn_u_msg_ptr info = sn_src info \<and> pid = sn_send_pid info then
            (let info = info\<lparr>sn_Key_msg_ptr := ret\<rparr>;
                 s = s\<lparr>send_msg1 := hm_poke (send_msg1 s) pid info\<rparr>
             in s\<lparr>send_msg2 := snd (hm_update (kn_upd kn 0) (send_msg2 s) ret info)\<rparr>)
          else s)"

definition do_mq_timedsend_exit :: "mq_events kern \<Rightarrow> mq_st \<Rightarrow> mq_st" where
  "do_mq_timedsend_exit kn s =
     (let pid = cur_pid kn in
      case hm_lookup (send_msg1 s) pid of None \<Rightarrow> s
      | Some info1 \<Rightarrow>
          (let Key = sn_Key_msg_ptr info1 in
           case hm_lookup (send_msg2 s) Key of None \<Rightarrow> s
           | Some info2 \<Rightarrow>
               s\<lparr>send_msg2 := hm_poke (send_msg2 s) Key (info2\<lparr>sn_send_exit_time := kn_ktime kn 0\<rparr>),
                 send_msg1 := hm_delete (send_msg1 s) pid\<rparr>))"

subsection \<open>Receiving\<close>

definition mq_timedreceive_entry :: "mq_events kern \<Rightarrow> s32 \<Rightarrow> u64 \<Rightarrow> mq_st \<Rightarrow> mq_st" where
  "mq_timedreceive_entry kn mqdes u_msg_ptr s =
     (let pid = cur_pid kn;
          info = zero_rcv\<lparr>rv_rcv_pid := pid, rv_rcv_enter_time := kn_ktime kn 0, rv_mqdes := mqdes,
            rv_u_msg_ptr := u_msg_ptr\<rparr>
      in s\<lparr>rcv_msg1 := snd (hm_update (kn_upd kn 0) (rcv_msg1 s) pid info)\<rparr>)"

text \<open>\<open>m_type\<close> and \<open>m_ts\<close> are the fields of the message the probe reads.\<close>

definition mq_store_msg :: "mq_events kern \<Rightarrow> u64 \<Rightarrow> u64 \<Rightarrow> u64 \<Rightarrow> u64 \<Rightarrow> mq_st \<Rightarrow> mq_st" where
  "mq_store_msg kn dest msg m_type m_ts s =
     (let pid = cur_pid kn; Key = msg in
      case hm_lookup (send_msg2 s) Key of None \<Rightarrow> s
      | Some _ \<Rightarrow>
          (case hm_lookup (rcv_msg1 s) pid of None \<Rightarrow> s
           | Some info \<Rightarrow>
               if dest = rv_u_msg_ptr info \<and> pid = rv_rcv_pid info then
                 s\<lparr>rcv_msg1 := hm_poke (rcv_msg1 s) pid (info\<lparr>rv_Key_msg_ptr := Key, rv_dest := dest,
                     rv_msg_prio := ucast m_type, rv_msg_len := m_ts\<rparr>)\<rparr>
               else s))"

definition do_mq_timedreceive_exit :: "mq_events kern \<Rightarrow> mq_st \<Rightarrow> mq_st" where
  "do_mq_timedreceive_exit kn s =
     (let pid = cur_pid kn in
      case hm_lookup (rcv_msg1 s) pid of None \<Rightarrow> s
      | Some r \<Rightarrow>
          (let Key = rv_Key_msg_ptr r in
           case hm_lookup (send_msg2 s) Key of None \<Rightarrow> s
           | Some sn \<Rightarrow>
               (case kn_rsv kn 0 of None \<Rightarrow> s
                | Some e \<Rightarrow>
                    s\<lparr>mq_rb := mq_rb s @ [e\<lparr>me_send_pid := sn_send_pid sn, me_rcv_pid := pid,
                        me_mqdes := sn_mqdes sn, me_msg_len := sn_msg_len sn, me_msg_prio := sn_msg_prio sn,
                        me_send_enter_time := sn_send_enter_time sn, me_send_exit_time := sn_send_exit_time sn,
                        me_rcv_enter_time := rv_rcv_enter_time r, me_rcv_exit_time := kn_ktime kn 0\<rparr>],
                      send_msg2 := hm_delete (send_msg2 s) Key,
                      rcv_msg1 := hm_delete (rcv_msg1 s) pid\<rparr>)))"

subsection \<open>The watcher\<close>

datatype mq_probe =
    Mq_send s32 u64 u64 u32
  | Mq_load_enter u64
  | Mq_load_exit u64
  | Mq_send_exit
  | Mq_receive s32 u64
  | Mq_store u64 u64 u64 u64
  | Mq_receive_exit

fun mq_step :: "mq_events kern \<times> mq_probe \<Rightarrow> mq_st \<Rightarrow> mq_st" where
  "mq_step (kn, Mq_send d p l pr) s = mq_timedsend kn d p l pr s"
| "mq_step (kn, Mq_load_enter src) s = load_msg_enter kn src s"
| "mq_step (kn, Mq_load_exit ret) s = load_msg_exit kn ret s"
| "mq_step (kn, Mq_send_exit) s = do_mq_timedsend_exit kn s"
| "mq_step (kn, Mq_receive d p) s = mq_timedreceive_entry kn d p s"
| "mq_step (kn, Mq_store dest msg ty ts) s = mq_store_msg kn dest msg ty ts s"
| "mq_step (kn, Mq_receive_exit) s = do_mq_timedreceive_exit kn s"

end
