(* ===== verification/CwMqProps.thy ===== *)
theory CwMqProps imports CwMq begin

text \<open>
  The journey of a message through the message-queue watcher.  A message at address \<open>m\<close> goes from
  the thread \<open>p\<close> to the thread \<open>r\<close>; the watcher's state about it is the sender's entry, the
  message's and the receiver's.  \<open>mq_journey\<close> shows that these three follow a machine of their own
  (\<open>mq_own\<close>) whatever the other threads do; \<open>mq_message\<close> and \<open>mq_handoff_left\<close> run it.
\<close>

subsection \<open>One message's view\<close>

type_synonym mq_trip = "send_events option \<times> send_events option \<times> rcv_events option"

definition mq_view :: "pid_t \<Rightarrow> pid_t \<Rightarrow> u64 \<Rightarrow> mq_st \<Rightarrow> mq_trip" where
  "mq_view p r m s = (hm_lookup (send_msg1 s) p, hm_lookup (send_msg2 s) m, hm_lookup (rcv_msg1 s) r)"

fun mq_own :: "u64 \<Rightarrow> mq_events kern \<times> mq_probe \<Rightarrow> mq_trip \<Rightarrow> mq_trip" where
  "mq_own m (kn, Mq_send d u l pr) (a, b, c) =
     (Some (zero_send\<lparr>sn_send_pid := cur_pid kn, sn_send_enter_time := kn_ktime kn 0, sn_mqdes := d,
        sn_msg_len := l, sn_msg_prio := pr, sn_u_msg_ptr := u\<rparr>), b, c)"
| "mq_own m (kn, Mq_load_enter src) (a, b, c) = (map_option (\<lambda>i. i\<lparr>sn_src := src\<rparr>) a, b, c)"
| "mq_own m (kn, Mq_load_exit ret) (a, b, c) =
     (case a of None \<Rightarrow> (a, b, c)
      | Some i \<Rightarrow> if sn_u_msg_ptr i = sn_src i \<and> cur_pid kn = sn_send_pid i
                  then (Some (i\<lparr>sn_Key_msg_ptr := ret\<rparr>), Some (i\<lparr>sn_Key_msg_ptr := ret\<rparr>), c) else (a, b, c))"
| "mq_own m (kn, Mq_send_exit) (a, b, c) =
     (case (a, b) of
        (Some i, Some j) \<Rightarrow> if sn_Key_msg_ptr i = m
          then (None, Some (j\<lparr>sn_send_exit_time := kn_ktime kn 0\<rparr>), c) else (a, b, c)
      | _ \<Rightarrow> (a, b, c))"
| "mq_own m (kn, Mq_receive d u) (a, b, c) =
     (a, b, Some (zero_rcv\<lparr>rv_rcv_pid := cur_pid kn, rv_rcv_enter_time := kn_ktime kn 0, rv_mqdes := d,
        rv_u_msg_ptr := u\<rparr>))"
| "mq_own m (kn, Mq_store dest msg ty ts) (a, b, c) =
     (case c of None \<Rightarrow> (a, b, c)
      | Some i \<Rightarrow> if msg = m \<and> b \<noteq> None \<and> dest = rv_u_msg_ptr i \<and> cur_pid kn = rv_rcv_pid i
                  then (a, b, Some (i\<lparr>rv_Key_msg_ptr := m, rv_dest := dest, rv_msg_prio := ucast ty, rv_msg_len := ts\<rparr>))
                  else (a, b, c))"
| "mq_own m (kn, Mq_receive_exit) (a, b, c) =
     (case c of None \<Rightarrow> (a, b, c)
      | Some i \<Rightarrow> if rv_Key_msg_ptr i = m \<and> b \<noteq> None \<and> kn_rsv kn 0 \<noteq> None then (a, None, None) else (a, b, c))"

text \<open>
  The events that can occur: \<open>P\<close> holds the pids and \<open>M\<close> the message addresses.  The sender only sends,
  its message is the one at \<open>m\<close>; the receiver only receives, and the message at \<open>m\<close>; no other
  thread handles a message at \<open>m\<close> meanwhile.
\<close>

definition mq_valid :: "pid_t set \<Rightarrow> u64 set \<Rightarrow> pid_t \<Rightarrow> pid_t \<Rightarrow> u64 \<Rightarrow> mq_events kern \<times> mq_probe \<Rightarrow> bool" where
  "mq_valid P M p r m e \<longleftrightarrow> (case e of (kn, pr) \<Rightarrow>
     cur_pid kn \<in> P \<and> (\<forall>i. kn_upd kn i = 0) \<and>
     (case pr of
        Mq_load_exit ret \<Rightarrow> ret \<in> M \<and> cur_pid kn \<noteq> r \<and> (ret = m \<longleftrightarrow> cur_pid kn = p)
      | Mq_store dest msg ty ts \<Rightarrow> cur_pid kn \<noteq> p \<and> (msg = m \<longleftrightarrow> cur_pid kn = r)
      | Mq_send d u l k \<Rightarrow> cur_pid kn \<noteq> r
      | Mq_load_enter src \<Rightarrow> cur_pid kn \<noteq> r
      | Mq_send_exit \<Rightarrow> cur_pid kn \<noteq> r
      | Mq_receive d u \<Rightarrow> cur_pid kn \<noteq> p
      | Mq_receive_exit \<Rightarrow> cur_pid kn \<noteq> p))"

definition mq_keys :: "pid_t \<Rightarrow> pid_t \<Rightarrow> u64 \<Rightarrow> mq_st \<Rightarrow> bool" where
  "mq_keys p r m s \<longleftrightarrow>
     (\<forall>q i. hm_lookup (send_msg1 s) q = Some i \<longrightarrow>
        (if q = p then sn_Key_msg_ptr i = 0 \<or> sn_Key_msg_ptr i = m else sn_Key_msg_ptr i \<noteq> m)) \<and>
     (\<forall>q i. hm_lookup (rcv_msg1 s) q = Some i \<longrightarrow>
        (if q = r then rv_Key_msg_ptr i = 0 \<or> rv_Key_msg_ptr i = m else rv_Key_msg_ptr i \<noteq> m))"

definition mq_inv :: "pid_t set \<Rightarrow> u64 set \<Rightarrow> pid_t \<Rightarrow> pid_t \<Rightarrow> u64 \<Rightarrow> mq_st \<Rightarrow> bool" where
  "mq_inv P M p r m s \<longleftrightarrow>
     finite P \<and> card P \<le> 1024 \<and> finite M \<and> card M \<le> 1024 \<and> p \<noteq> r \<and> m \<in> M \<and> 0 \<notin> M \<and>
     hm_within P (send_msg1 s) \<and> hm_within M (send_msg2 s) \<and> hm_within P (rcv_msg1 s) \<and>
     hm_max (send_msg1 s) = 1024 \<and> hm_max (send_msg2 s) = 1024 \<and> hm_max (rcv_msg1 s) = 1024 \<and>
     mq_keys p r m s"

lemma mq_inv_room:
  assumes "mq_inv P M p r m s"
  shows "q \<in> P \<Longrightarrow> hm_room (send_msg1 s) q" and "q \<in> P \<Longrightarrow> hm_room (rcv_msg1 s) q"
    and "x \<in> M \<Longrightarrow> hm_room (send_msg2 s) x"
    and "hm_lookup (send_msg2 s) 0 = None" and "m \<noteq> 0" and "p \<noteq> r"
  using assms unfolding mq_inv_def
  by (auto intro!: hm_within_room simp: hm_within_def)

lemma mq_step_keys:
  assumes "mq_inv P M p r m s" and "mq_valid P M p r m e"
  shows "mq_keys p r m (mq_step e s)"
proof -
  obtain kn pr where e: "e = (kn, pr)" by (cases e)
  note room = mq_inv_room [OF assms(1)]
  have k: "mq_keys p r m s" using assms(1) by (simp add: mq_inv_def)
  show ?thesis
    using k assms(2) room(5,6) unfolding e mq_keys_def mq_valid_def
    by (cases pr)
      (auto simp: mq_timedsend_def load_msg_enter_def load_msg_exit_def do_mq_timedsend_exit_def
        mq_timedreceive_entry_def mq_store_msg_def do_mq_timedreceive_exit_def Let_def map_rules zero_send_def
        zero_rcv_def split: option.splits if_splits)
qed

lemma mq_step_within:
  assumes "mq_inv P M p r m s" and "mq_valid P M p r m e"
  shows "hm_within P (send_msg1 (mq_step e s))" and "hm_within M (send_msg2 (mq_step e s))"
    and "hm_within P (rcv_msg1 (mq_step e s))"
    and "hm_max (send_msg1 (mq_step e s)) = 1024" and "hm_max (send_msg2 (mq_step e s)) = 1024"
    and "hm_max (rcv_msg1 (mq_step e s)) = 1024"
proof -
  obtain kn pr where e: "e = (kn, pr)" by (cases e)
  show "hm_within P (send_msg1 (mq_step e s))" and "hm_within M (send_msg2 (mq_step e s))"
    and "hm_within P (rcv_msg1 (mq_step e s))"
    and "hm_max (send_msg1 (mq_step e s)) = 1024" and "hm_max (send_msg2 (mq_step e s)) = 1024"
    and "hm_max (rcv_msg1 (mq_step e s)) = 1024"
    using assms unfolding e mq_inv_def mq_valid_def
    by (cases pr; auto simp: mq_timedsend_def load_msg_enter_def load_msg_exit_def do_mq_timedsend_exit_def
        mq_timedreceive_entry_def mq_store_msg_def do_mq_timedreceive_exit_def Let_def
        intro!: inv_rules split: option.splits)+
qed

lemma mq_step_inv: "mq_valid P M p r m e \<Longrightarrow> mq_inv P M p r m s \<Longrightarrow> mq_inv P M p r m (mq_step e s)"
  using mq_step_keys [of P M p r m s e] mq_step_within [of P M p r m s e]
  by (simp add: mq_inv_def)

definition mq_touches :: "pid_t \<Rightarrow> pid_t \<Rightarrow> mq_events kern \<times> mq_probe \<Rightarrow> bool" where
  "mq_touches p r e \<longleftrightarrow> cur_pid (fst e) = p \<or> cur_pid (fst e) = r"

lemma mq_other_step:
  assumes "mq_inv P M p r m s" and "mq_valid P M p r m e" and "\<not> mq_touches p r e"
  shows "mq_view p r m (mq_step e s) = mq_view p r m s"
proof -
  obtain kn pr where e: "e = (kn, pr)" by (cases e)
  have k: "mq_keys p r m s" using assms(1) by (simp add: mq_inv_def)
  show ?thesis
    using k assms(2,3) unfolding e mq_keys_def mq_valid_def mq_touches_def
    by (cases pr)
      (auto simp: mq_timedsend_def load_msg_enter_def load_msg_exit_def do_mq_timedsend_exit_def mq_view_def
        mq_timedreceive_entry_def mq_store_msg_def do_mq_timedreceive_exit_def Let_def map_rules
        split: option.splits if_splits)
qed

lemma mq_own_keys:
  assumes "mq_inv P M p r m s"
  shows "hm_lookup (send_msg1 s) p = Some i \<Longrightarrow>
           hm_lookup (send_msg2 s) (sn_Key_msg_ptr i) = (if sn_Key_msg_ptr i = m then hm_lookup (send_msg2 s) m else None)"
    and "hm_lookup (rcv_msg1 s) r = Some j \<Longrightarrow>
           hm_lookup (send_msg2 s) (rv_Key_msg_ptr j) = (if rv_Key_msg_ptr j = m then hm_lookup (send_msg2 s) m else None)"
proof -
  have "mq_keys p r m s" using assms by (simp add: mq_inv_def)
  then show "hm_lookup (send_msg1 s) p = Some i \<Longrightarrow>
           hm_lookup (send_msg2 s) (sn_Key_msg_ptr i) = (if sn_Key_msg_ptr i = m then hm_lookup (send_msg2 s) m else None)"
    and "hm_lookup (rcv_msg1 s) r = Some j \<Longrightarrow>
           hm_lookup (send_msg2 s) (rv_Key_msg_ptr j) = (if rv_Key_msg_ptr j = m then hm_lookup (send_msg2 s) m else None)"
    using mq_inv_room(4) [OF assms] unfolding mq_keys_def by metis+
qed

lemma mq_own_step:
  assumes "mq_inv P M p r m s" and "mq_valid P M p r m e" and "mq_touches p r e"
  shows "mq_view p r m (mq_step e s) = mq_own m e (mq_view p r m s)"
proof -
  obtain kn pr where e: "e = (kn, pr)" by (cases e)
  note room = mq_inv_room [OF assms(1)] and keys = mq_own_keys [OF assms(1)]
  show ?thesis
    using assms(2,3) room unfolding e mq_valid_def mq_touches_def
    by (cases pr)
      (auto simp: mq_timedsend_def load_msg_enter_def load_msg_exit_def do_mq_timedsend_exit_def mq_view_def
        mq_timedreceive_entry_def mq_store_msg_def do_mq_timedreceive_exit_def Let_def map_rules keys
        split: option.splits if_splits)
qed

interpretation mq_journey: sliced_tool mq_step "mq_inv P M p r m" "mq_valid P M p r m"
  "\<lambda>e (_::unit). mq_touches p r e" "\<lambda>_. mq_view p r m" "\<lambda>_. mq_own m"
  for P M p r m
  by unfold_locales (simp_all add: mq_step_inv mq_own_step mq_other_step)


subsection \<open>The message\<close>

text \<open>
  The probes of one send of the message at \<open>m\<close> from the user buffer \<open>u\<close>, and those of one receive
  into the buffer \<open>v\<close> up to the copy, fired by the kernels \<open>ks\<close> and \<open>kr\<close>.
\<close>

definition mq_sends :: "(nat \<Rightarrow> mq_events kern) \<Rightarrow> s32 \<Rightarrow> u64 \<Rightarrow> u64 \<Rightarrow> u32 \<Rightarrow> u64 \<Rightarrow> (mq_events kern \<times> mq_probe) list" where
  "mq_sends ks d u l k m = [(ks 0, Mq_send d u l k), (ks 1, Mq_load_enter u), (ks 2, Mq_load_exit m), (ks 3, Mq_send_exit)]"

definition mq_sent :: "(nat \<Rightarrow> mq_events kern) \<Rightarrow> pid_t \<Rightarrow> s32 \<Rightarrow> u64 \<Rightarrow> u64 \<Rightarrow> u32 \<Rightarrow> u64 \<Rightarrow> send_events" where
  "mq_sent ks p d u l k m = \<lparr>sn_send_pid = p, sn_Key_msg_ptr = m, sn_mqdes = d, sn_msg_len = l, sn_msg_prio = k,
     sn_u_msg_ptr = u, sn_src = u, sn_send_enter_time = kn_ktime (ks 0) 0, sn_send_exit_time = 0\<rparr>"

definition mq_rcvd :: "mq_events kern \<Rightarrow> pid_t \<Rightarrow> s32 \<Rightarrow> u64 \<Rightarrow> u64 \<Rightarrow> u64 \<Rightarrow> u64 \<Rightarrow> rcv_events" where
  "mq_rcvd k1 r d v ty ts m = \<lparr>rv_rcv_pid = r, rv_Key_msg_ptr = m, rv_mqdes = d, rv_msg_len = ts,
     rv_msg_prio = ucast ty, rv_u_msg_ptr = v, rv_dest = v, rv_rcv_enter_time = kn_ktime k1 0,
     rv_rcv_exit_time = 0\<rparr>"

lemma mq_own_send_receive:
  assumes "\<forall>n. cur_pid (ks n) = p" and "cur_pid k1 = r" and "cur_pid k2 = r"
    and "i \<le> j" and "j = 3 \<or> j = 4"
  shows "run (mq_own m) (take i (mq_sends ks d u l k m) @ [(k1, Mq_receive d' v)] @
             drop i (take j (mq_sends ks d u l k m)) @ [(k2, Mq_store v m ty ts)]) w =
           (if j = 4 then None else Some (mq_sent ks p d u l k m),
            Some ((mq_sent ks p d u l k m)\<lparr>sn_send_exit_time := (if j = 4 then kn_ktime (ks 3) 0 else 0)\<rparr>),
            Some (mq_rcvd k1 r d' v ty ts m))"
proof -
  obtain a b c where w: "w = (a, b, c)" by (cases w)
  have "i = 0 \<or> i = 1 \<or> i = 2 \<or> i = 3 \<or> i = 4 \<and> j = 4" using assms(4,5) by arith
  then show ?thesis
    using assms(1-3,5)
    by (elim disjE)
      (auto simp: w mq_sends_def mq_sent_def mq_rcvd_def zero_send_def zero_rcv_def numeral_eq_Suc)
qed

lemma mq_own_split:
  "run (mq_own m) (xs @ [e] @ ys @ [f] @ zs) w = run (mq_own m) zs (run (mq_own m) (xs @ [e] @ ys @ [f]) w)"
  by simp

lemma mq_own_send_exit:
  "run (mq_own m) [(k4, Mq_send_exit)] (Some (mq_sent ks p d u l k m), Some x, c) =
     (None, Some (x\<lparr>sn_send_exit_time := kn_ktime k4 0\<rparr>), c)"
  "run (mq_own m) [(k4, Mq_send_exit)] (Some (mq_sent ks p d u l k m), None, c) =
     (Some (mq_sent ks p d u l k m), None, c)"
  by (simp_all add: mq_sent_def)

lemma mq_receive_reports:
  assumes "mq_view p r m s = (a, Some x, Some (mq_rcvd k1 r d v ty ts m))" and "cur_pid kx = r"
    and "kn_rsv kx 0 = Some slot" and "p \<noteq> r"
  shows "mq_rb (do_mq_timedreceive_exit kx s) = mq_rb s @ [slot\<lparr>me_send_pid := sn_send_pid x,
       me_rcv_pid := r, me_mqdes := sn_mqdes x, me_msg_len := sn_msg_len x, me_msg_prio := sn_msg_prio x,
       me_send_enter_time := sn_send_enter_time x, me_send_exit_time := sn_send_exit_time x,
       me_rcv_enter_time := kn_ktime k1 0, me_rcv_exit_time := kn_ktime kx 0\<rparr>]"
    and "mq_view p r m (do_mq_timedreceive_exit kx s) = (a, None, None)"
  using assms by (auto simp: mq_view_def do_mq_timedreceive_exit_def Let_def mq_rcvd_def map_rules)

lemma mq_run_view:
  assumes "mq_inv P M p r m s" and "\<forall>e \<in> set es. mq_valid P M p r m e"
    and "filter (mq_touches p r) es = xs"
  shows "mq_view p r m (run mq_step es s) = run (mq_own m) xs (mq_view p r m s)"
  using mq_journey.run_slice [OF assms(1,2)] assms(3) by simp

text \<open>
  C24. A message travels from \<open>p\<close> to \<open>r\<close>: among the events of all threads, \<open>p\<close> fires the probes of
  its send, \<open>r\<close> those of its receive, which may begin before, during or after the send and copies the
  message once the kernel has allocated it, and the send returns before the receive does.  Then the
  return of the receive reports the message once, with the sender's pid, queue, length, priority and
  both times, the receiver's pid and both times; and nothing of the journey stays in the maps.  At most
  1024 threads and messages appear, no two messages share an address, and the kernel refuses
  no insertion and not the reservation.
\<close>

theorem mq_message:
  assumes "mq_inv P M p r m s" and "\<forall>e \<in> set es. mq_valid P M p r m e"
    and "filter (mq_touches p r) es = take i (mq_sends ks d u l k m) @ [(kb, Mq_receive d' v)] @
           drop i (take j (mq_sends ks d u l k m)) @ [(kc, Mq_store v m ty ts)] @ drop j (mq_sends ks d u l k m)"
    and "i \<le> j" and "j = 3 \<or> j = 4" and "\<forall>n. cur_pid (ks n) = p"
    and "cur_pid kb = r" and "cur_pid kc = r" and "cur_pid kx = r" and "kn_rsv kx 0 = Some slot"
  shows "mq_rb (do_mq_timedreceive_exit kx (run mq_step es s)) = mq_rb (run mq_step es s) @
           [slot\<lparr>me_send_pid := p, me_rcv_pid := r, me_mqdes := d, me_msg_len := l, me_msg_prio := k,
              me_send_enter_time := kn_ktime (ks 0) 0, me_send_exit_time := kn_ktime (ks 3) 0,
              me_rcv_enter_time := kn_ktime kb 0, me_rcv_exit_time := kn_ktime kx 0\<rparr>]
     \<and> hm_lookup (send_msg1 (do_mq_timedreceive_exit kx (run mq_step es s))) p = None
     \<and> hm_lookup (send_msg2 (do_mq_timedreceive_exit kx (run mq_step es s))) m = None
     \<and> hm_lookup (rcv_msg1 (do_mq_timedreceive_exit kx (run mq_step es s))) r = None"
proof -
  have "p \<noteq> r" using mq_inv_room(6) [OF assms(1)] .
  have last: "drop j (mq_sends ks d u l k m) = (if j = 4 then [] else [(ks 3, Mq_send_exit)])"
    using assms(5) by (auto simp: mq_sends_def numeral_eq_Suc)
  have "mq_view p r m (run mq_step es s) =
     (None, Some ((mq_sent ks p d u l k m)\<lparr>sn_send_exit_time := kn_ktime (ks 3) 0\<rparr>),
      Some (mq_rcvd kb r d' v ty ts m))"
    unfolding mq_run_view [OF assms(1,2,3)] mq_own_split
      mq_own_send_receive [OF assms(6,7,8,4,5)] last
    by (simp add: mq_sent_def)
  from mq_receive_reports [OF this assms(9,10) \<open>p \<noteq> r\<close>]
  show ?thesis by (simp add: mq_view_def mq_sent_def)
qed

text \<open>A run with everyone switched on: thread 7 sends the message at 64 from buffer 80 to thread 9.\<close>

definition mq_slot :: mq_events where
  "mq_slot = \<lparr>me_send_pid = 0, me_rcv_pid = 0, me_mqdes = 0, me_msg_len = 0, me_msg_prio = 0,
     me_send_enter_time = 0, me_send_exit_time = 0, me_rcv_enter_time = 0, me_rcv_exit_time = 0\<rparr>"

definition mq_demo_send :: "nat \<Rightarrow> mq_events kern" where
  "mq_demo_send n = calm 7 7 (10 + of_nat n) mq_slot"

lemma mq_inv_new: "mq_inv {7, 8, 9} {64} 7 9 64 mq_maps"
  by (simp add: mq_inv_def mq_maps_def mq_keys_def)

lemma mq_demo_sends:
  "mq_sends mq_demo_send 3 80 16 2 64 = [(calm 7 7 10 mq_slot, Mq_send 3 80 16 2),
     (calm 7 7 11 mq_slot, Mq_load_enter 80), (calm 7 7 12 mq_slot, Mq_load_exit 64),
     (calm 7 7 13 mq_slot, Mq_send_exit)]"
  by (simp add: mq_sends_def mq_demo_send_def)

theorem mq_message_witness:
  "mq_rb (do_mq_timedreceive_exit (calm 9 9 30 mq_slot) (run mq_step
     [(calm 9 9 5 mq_slot, Mq_receive 3 96), (calm 7 7 10 mq_slot, Mq_send 3 80 16 2),
      (calm 8 8 10 mq_slot, Mq_receive 4 40), (calm 7 7 11 mq_slot, Mq_load_enter 80),
      (calm 7 7 12 mq_slot, Mq_load_exit 64), (calm 7 7 13 mq_slot, Mq_send_exit),
      (calm 9 9 20 mq_slot, Mq_store 96 64 2 16)] mq_maps)) \<noteq> []"
  using mq_message [OF mq_inv_new, where es = "[(calm 9 9 5 mq_slot, Mq_receive 3 96),
      (calm 7 7 10 mq_slot, Mq_send 3 80 16 2),
      (calm 8 8 10 mq_slot, Mq_receive 4 40), (calm 7 7 11 mq_slot, Mq_load_enter 80),
      (calm 7 7 12 mq_slot, Mq_load_exit 64), (calm 7 7 13 mq_slot, Mq_send_exit),
      (calm 9 9 20 mq_slot, Mq_store 96 64 2 16)]" and i = 0 and j = 4 and ks = mq_demo_send
      and d = 3 and u = 80 and l = 16 and k = 2 and kb = "calm 9 9 5 mq_slot" and d' = 3 and v = 96
      and kc = "calm 9 9 20 mq_slot" and ty = 2 and ts = 16 and kx = "calm 9 9 30 mq_slot" and slot = mq_slot]
  by (simp add: mq_valid_def mq_touches_def mq_demo_sends) (simp add: mq_demo_send_def)

lemma mq_handoff_left:
  assumes "mq_inv P M p r m s" and "\<forall>e \<in> set es. mq_valid P M p r m e"
    and "filter (mq_touches p r) es = take i (mq_sends ks d u l k m) @ [(kb, Mq_receive d' v)] @
           drop i (take 3 (mq_sends ks d u l k m)) @ [(kc, Mq_store v m ty ts)]"
    and "i \<le> 3" and "\<forall>n. cur_pid (ks n) = p"
    and "cur_pid kb = r" and "cur_pid kc = r" and "cur_pid kx = r" and "kn_rsv kx 0 = Some slot"
    and "\<forall>n. kn_upd kx n = 0" and "r \<in> P"
    and "\<forall>e \<in> set fs. mq_valid P M p r m e" and "filter (mq_touches p r) fs = [(ks 3, Mq_send_exit)]"
  shows "mq_rb (do_mq_timedreceive_exit kx (run mq_step es s)) = mq_rb (run mq_step es s) @
           [slot\<lparr>me_send_pid := p, me_rcv_pid := r, me_mqdes := d, me_msg_len := l, me_msg_prio := k,
              me_send_enter_time := kn_ktime (ks 0) 0, me_send_exit_time := 0,
              me_rcv_enter_time := kn_ktime kb 0, me_rcv_exit_time := kn_ktime kx 0\<rparr>]
     \<and> hm_lookup (send_msg1 (run mq_step fs (do_mq_timedreceive_exit kx (run mq_step es s)))) p =
         Some (mq_sent ks p d u l k m)"
proof -
  let ?s1 = "run mq_step es s"
  have "p \<noteq> r" using mq_inv_room(6) [OF assms(1)] .
  have "mq_view p r m ?s1 = (Some (mq_sent ks p d u l k m), Some (mq_sent ks p d u l k m),
      Some (mq_rcvd kb r d' v ty ts m))"
    unfolding mq_run_view [OF assms(1,2,3)]
    using mq_own_send_receive [OF assms(5,6,7,4), of m d u l k d' v ty ts "mq_view p r m s"]
    by (simp add: mq_sent_def)
  note exit = mq_receive_reports [OF this assms(8,9) \<open>p \<noteq> r\<close>]
  have "mq_inv P M p r m ?s1"
    using assms(1,2) by (intro mq_journey.run_inv) auto
  then have "mq_inv P M p r m (mq_step (kx, Mq_receive_exit) ?s1)"
    using assms(8,10,11) \<open>p \<noteq> r\<close> by (intro mq_step_inv) (simp_all add: mq_valid_def)
  from mq_run_view [OF this assms(12,13)]
  have "mq_view p r m (run mq_step fs (mq_step (kx, Mq_receive_exit) ?s1)) =
      (Some (mq_sent ks p d u l k m), None, None)"
    by (simp add: exit(2) mq_sent_def)
  then show ?thesis
    using exit(1) by (simp add: mq_view_def mq_sent_def)
qed

end
