(* ===== verification/CwSched.thy ===== *)
theory CwSched imports Bpf begin

text \<open>
  The scheduling-delay watcher of \<open>cpu_watcher\<close>, \<open>bpf/schedule_delay.bpf.c\<close>: the delay from
  being runnable to getting a CPU, summed over the system, with the names of the tasks that
  waited longest and shortest, the last delay of all, and for every task the two tasks that ran
  before it.  Only \<open>sched_wakeup_new\<close> tests the control block.

  What the probes read of a task (pid, state, command name) is an input.  A name is what
  \<open>bpf_probe_read_kernel_str\<close> stores, its bytes before the NUL.
\<close>

type_synonym comm = "u8 list"

record schedule_ctrl =
  wsd_func :: bool
  wsd_min_us_set :: bool
  wsd_min_us :: s32
  wsd_prev_watcher :: s32

record wproc_id =
  wp_pid :: s32
  wp_cpu_id :: s32

record wschedule_event =
  we_pid :: s32
  we_count :: s32
  we_enter_time :: u64

record wsum_schedule =
  wu_sum_count :: u64
  wu_sum_delay :: u64
  wu_max_delay :: u64
  wu_min_delay :: u64
  wu_proc_name_max :: comm
  wu_proc_name_min :: comm

record wproc_schedule =
  ws_id :: wproc_id
  ws_delay :: u64
  ws_proc_name :: comm

record proc_info =
  pi_pid :: pid_t
  pi_comm :: comm

record proc_history =
  ph_last0 :: proc_info
  ph_last1 :: proc_info

record wsched_st =
  has_scheduled :: "(wproc_id, bool) hmap"
  enter_schedule :: "(wproc_id, wschedule_event) hmap"
  wsys_schedule :: "wsum_schedule list"
  threshold_schedule :: "wproc_schedule list"
  proc_histories :: "(wproc_id, proc_history) hmap"
  schedule_ctrl_map :: "schedule_ctrl list"

definition zero_wsum :: wsum_schedule where
  "zero_wsum = \<lparr>wu_sum_count = 0, wu_sum_delay = 0, wu_max_delay = 0, wu_min_delay = 0,
     wu_proc_name_max = [], wu_proc_name_min = []\<rparr>"

definition wsched_maps :: wsched_st where
  "wsched_maps = \<lparr>has_scheduled = hm_new 10240, enter_schedule = hm_new 10240,
     wsys_schedule = [zero_wsum],
     threshold_schedule = replicate 10240 \<lparr>ws_id = \<lparr>wp_pid = 0, wp_cpu_id = 0\<rparr>, ws_delay = 0, ws_proc_name = []\<rparr>,
     proc_histories = hm_new 10240,
     schedule_ctrl_map = [\<lparr>wsd_func = False, wsd_min_us_set = False, wsd_min_us = 0, wsd_prev_watcher = 0\<rparr>]\<rparr>"

record wtask =
  wt_pid :: pid_t
  wt_state :: u32
  wt_comm :: comm

definition get_schedule_ctrl :: "wsched_st \<Rightarrow> schedule_ctrl option" where
  "get_schedule_ctrl s = (case arr_lookup (schedule_ctrl_map s) 0 of None \<Rightarrow> None
     | Some c \<Rightarrow> if wsd_func c then Some c else None)"

definition mk_wproc_id :: "pid_t \<Rightarrow> s32 \<Rightarrow> wproc_id" where
  "mk_wproc_id pid cpu = \<lparr>wp_pid = pid, wp_cpu_id = (if pid = 0 then cpu else 0)\<rparr>"

text \<open>The part that \<open>sched_wakeup\<close> and the first half of \<open>sched_switch\<close> share.\<close>

definition wsched_enqueue :: "unit kern \<Rightarrow> pid_t \<Rightarrow> wsched_st \<Rightarrow> wsched_st" where
  "wsched_enqueue kn pid s =
     (let key = mk_wproc_id pid (kn_cpu kn); now = kn_ktime kn 0 in
      case hm_lookup (enter_schedule s) key of
        None \<Rightarrow>
          (let s = s\<lparr>has_scheduled := snd (hm_update (kn_upd kn 0) (has_scheduled s) key False)\<rparr>
           in s\<lparr>enter_schedule := snd (hm_update (kn_upd kn 1) (enter_schedule s) key
                \<lparr>we_pid = pid, we_count = 1, we_enter_time = now\<rparr>)\<rparr>)
      | Some ev \<Rightarrow> s\<lparr>enter_schedule := hm_poke (enter_schedule s) key (ev\<lparr>we_enter_time := now\<rparr>)\<rparr>)"

definition wsched_wakeup :: "unit kern \<Rightarrow> wtask \<Rightarrow> wsched_st \<Rightarrow> wsched_st" where
  "wsched_wakeup kn p s = wsched_enqueue kn (wt_pid p) s"

definition wsched_wakeup_new :: "unit kern \<Rightarrow> wtask \<Rightarrow> wsched_st \<Rightarrow> wsched_st" where
  "wsched_wakeup_new kn p s =
     (case get_schedule_ctrl s of None \<Rightarrow> s
      | Some c \<Rightarrow>
          (let key = mk_wproc_id (wt_pid p) (kn_cpu kn);
               s = s\<lparr>has_scheduled := snd (hm_update (kn_upd kn 0) (has_scheduled s) key False)\<rparr>
           in s\<lparr>enter_schedule := snd (hm_update (kn_upd kn 1) (enter_schedule s) key
                \<lparr>we_pid = wt_pid p, we_count = 1, we_enter_time = kn_ktime kn 0\<rparr>)\<rparr>))"

text \<open>
  A delay in an existing sum (the second branch): the minimum is only looked at when the maximum
  was not raised.
\<close>

definition wsum_add :: "u64 \<Rightarrow> wtask \<Rightarrow> wsum_schedule \<Rightarrow> wsum_schedule" where
  "wsum_add delay nxt t =
     (let t = t\<lparr>wu_sum_count := wu_sum_count t + 1, wu_sum_delay := wu_sum_delay t + delay\<rparr> in
      if delay > wu_max_delay t then t\<lparr>wu_max_delay := delay, wu_proc_name_max := wt_comm nxt\<rparr>
      else if wu_min_delay t = 0 \<or> delay < wu_min_delay t then
        (let t = t\<lparr>wu_min_delay := delay\<rparr> in
         if wt_pid nxt \<noteq> 0 then t\<lparr>wu_proc_name_min := wt_comm nxt\<rparr> else t)
      else t)"

text \<open>A delay in a cleared sum (the first branch, which also spares the idle task's name as maximum).\<close>

definition wsum_first :: "u64 \<Rightarrow> wtask \<Rightarrow> wsum_schedule" where
  "wsum_first delay nxt =
     (let t = zero_wsum\<lparr>wu_sum_count := 1, wu_sum_delay := delay\<rparr> in
      if delay > wu_max_delay t then
        (let t = t\<lparr>wu_max_delay := delay\<rparr> in
         if wt_pid nxt \<noteq> 0 then t\<lparr>wu_proc_name_max := wt_comm nxt\<rparr> else t)
      else if wu_min_delay t = 0 \<or> delay < wu_min_delay t then
        (let t = t\<lparr>wu_min_delay := delay\<rparr> in
         if wt_pid nxt \<noteq> 0 then t\<lparr>wu_proc_name_min := wt_comm nxt\<rparr> else t)
      else t)"

text \<open>The history of \<open>next\<close> after \<open>prev\<close> ran before it.\<close>

definition history_next :: "proc_history option \<Rightarrow> wtask \<Rightarrow> proc_history" where
  "history_next h prev =
     (case h of
        Some history \<Rightarrow> \<lparr>ph_last0 = ph_last1 history, ph_last1 = \<lparr>pi_pid = wt_pid prev, pi_comm = wt_comm prev\<rparr>\<rparr>
      | None \<Rightarrow> \<lparr>ph_last0 = \<lparr>pi_pid = 0, pi_comm = []\<rparr>,
                 ph_last1 = \<lparr>pi_pid = wt_pid prev, pi_comm = wt_comm prev\<rparr>\<rparr>)"

definition wsched_dequeue :: "unit kern \<Rightarrow> wtask \<Rightarrow> wtask \<Rightarrow> wsched_st \<Rightarrow> wsched_st" where
  "wsched_dequeue kn prev nxt s =
     (let key = mk_wproc_id (wt_pid nxt) (kn_cpu kn) in
      case hm_lookup (enter_schedule s) key of None \<Rightarrow> s
      | Some ev \<Rightarrow>
         (case hm_lookup (has_scheduled s) key of None \<Rightarrow> s
          | Some issched \<Rightarrow>
             (let s = (if issched
                       then s\<lparr>enter_schedule := hm_poke (enter_schedule s) key (ev\<lparr>we_count := we_count ev + 1\<rparr>)\<rparr>
                       else s\<lparr>has_scheduled := hm_poke (has_scheduled s) key True\<rparr>);
                  delay = kn_ktime kn 0 - we_enter_time ev;
                  s = s\<lparr>threshold_schedule := snd (arr_update (kn_upd kn 2) (threshold_schedule s) 0
                        \<lparr>ws_id = key, ws_delay = delay, ws_proc_name = wt_comm nxt\<rparr>)\<rparr>;
                  s = (case arr_lookup (wsys_schedule s) 0 of
                         None \<Rightarrow> s\<lparr>wsys_schedule := snd (arr_update (kn_upd kn 3) (wsys_schedule s) 0
                                   (wsum_first delay nxt))\<rparr>
                       | Some t \<Rightarrow> s\<lparr>wsys_schedule := (wsys_schedule s)[0 := wsum_add delay nxt t]\<rparr>)
              in s\<lparr>proc_histories := snd (hm_update (kn_upd kn 4) (proc_histories s) key
                     (history_next (hm_lookup (proc_histories s) key) prev))\<rparr>)))"

definition wsched_switch :: "unit kern \<Rightarrow> wtask \<Rightarrow> wtask \<Rightarrow> wsched_st \<Rightarrow> wsched_st" where
  "wsched_switch kn prev nxt s =
     (let s = (if wt_state prev = 0 then wsched_enqueue kn (wt_pid prev) s else s)
      in wsched_dequeue kn prev nxt s)"

definition wsched_process_exit :: "unit kern \<Rightarrow> pid_t \<Rightarrow> wsched_st \<Rightarrow> wsched_st" where
  "wsched_process_exit kn pid s =
     (let key = mk_wproc_id pid (kn_cpu kn);
          s = (if hm_lookup (enter_schedule s) key \<noteq> None
               then s\<lparr>enter_schedule := hm_delete (enter_schedule s) key\<rparr> else s)
      in if hm_lookup (has_scheduled s) key \<noteq> None
         then s\<lparr>has_scheduled := hm_delete (has_scheduled s) key\<rparr> else s)"

datatype wsched_probe =
    Ws_wakeup wtask
  | Ws_wakeup_new wtask
  | Ws_switch wtask wtask
  | Ws_exit pid_t

fun wsched_step :: "unit kern \<times> wsched_probe \<Rightarrow> wsched_st \<Rightarrow> wsched_st" where
  "wsched_step (kn, Ws_wakeup p) s = wsched_wakeup kn p s"
| "wsched_step (kn, Ws_wakeup_new p) s = wsched_wakeup_new kn p s"
| "wsched_step (kn, Ws_switch prev nxt) s = wsched_switch kn prev nxt s"
| "wsched_step (kn, Ws_exit pid) s = wsched_process_exit kn pid s"

end
