(* ===== verification/CwMutrace.thy ===== *)
theory CwMutrace imports Bpf begin

text \<open>
  The kernel-mutex watcher of \<open>cpu_watcher\<close>, \<open>bpf/mutrace.bpf.c\<close>: per lock address, how long the
  lock was held and how long callers waited for it, and a report for every contention.  What the
  slow path reads of the lock's owner (\<open>None\<close>: no owner) and of the contender is an input.
\<close>

type_synonym comm = "u8 list"

record mutex_info =
  mi_locked_total :: u64
  mi_locked_max :: u64
  mi_contended_total :: u64
  mi_last_owner :: pid_t
  mi_acquire_time :: u64
  mi_ptr :: u64

record mutex_contention_event =
  mc_ptr :: u64
  mc_owner_pid :: pid_t
  mc_contender_pid :: pid_t
  mc_contender_name :: comm
  mc_owner_name :: comm
  mc_owner_prio :: s32
  mc_contender_prio :: s32

record mutrace_st =
  mutex_info_map :: "(u64, mutex_info) hmap"
  mutrace_rb :: "mutex_contention_event list"

definition mutrace_maps :: mutrace_st where
  "mutrace_maps = \<lparr>mutex_info_map = hm_new 1024, mutrace_rb = []\<rparr>"

type_synonym mu_kern = "mutex_contention_event kern"

definition trace_mutex_lock :: "mu_kern \<Rightarrow> u64 \<Rightarrow> mutrace_st \<Rightarrow> mutrace_st" where
  "trace_mutex_lock kn lock_addr s =
     (let ts = kn_ktime kn 0 in
      case hm_lookup (mutex_info_map s) lock_addr of
        Some info \<Rightarrow> s\<lparr>mutex_info_map := hm_poke (mutex_info_map s) lock_addr (info\<lparr>mi_acquire_time := ts\<rparr>)\<rparr>
      | None \<Rightarrow> s\<lparr>mutex_info_map := snd (hm_update (kn_upd kn 0) (mutex_info_map s) lock_addr
           \<lparr>mi_locked_total = 0, mi_locked_max = 0, mi_contended_total = 0, mi_last_owner = 0,
            mi_acquire_time = ts, mi_ptr = lock_addr\<rparr>)\<rparr>)"

text \<open>\<open>ret\<close> is \<open>PT_REGS_RC(ctx)\<close>, read when the function is entered.\<close>

definition trace_mutex_trylock :: "mu_kern \<Rightarrow> s32 \<Rightarrow> u64 \<Rightarrow> mutrace_st \<Rightarrow> mutrace_st" where
  "trace_mutex_trylock kn ret lock_addr s =
     (if ret = 0 then
        (let ts = kn_ktime kn 0 in
         case hm_lookup (mutex_info_map s) lock_addr of
           Some info \<Rightarrow> s\<lparr>mutex_info_map := hm_poke (mutex_info_map s) lock_addr (info\<lparr>mi_acquire_time := ts\<rparr>)\<rparr>
         | None \<Rightarrow> s\<lparr>mutex_info_map := snd (hm_update (kn_upd kn 0) (mutex_info_map s) lock_addr
              \<lparr>mi_locked_total = 0, mi_locked_max = 0, mi_contended_total = 0, mi_last_owner = 0,
               mi_acquire_time = ts, mi_ptr = lock_addr\<rparr>)\<rparr>)
      else s)"

record mu_owner =
  mo_pid :: pid_t
  mo_comm :: comm
  mo_prio :: s32

record mu_contention =
  mn_owner :: "mu_owner option"
  mn_name :: comm
  mn_prio :: s32

definition trace_mutex_lock_slowpath :: "mu_kern \<Rightarrow> mu_contention \<Rightarrow> u64 \<Rightarrow> mutrace_st \<Rightarrow> mutrace_st" where
  "trace_mutex_lock_slowpath kn mn lock_addr s =
     (let ts = kn_ktime kn 0 in
      case kn_rsv kn 0 of None \<Rightarrow> s
      | Some e \<Rightarrow>
          (let e = e\<lparr>mc_contender_pid := cur_pid kn, mc_ptr := lock_addr, mc_contender_name := mn_name mn,
                     mc_contender_prio := mn_prio mn\<rparr>;
               e = (case mn_owner mn of
                      Some ow \<Rightarrow> e\<lparr>mc_owner_pid := mo_pid ow, mc_owner_name := mo_comm ow,
                                   mc_owner_prio := mo_prio ow\<rparr>
                    | None \<Rightarrow> e\<lparr>mc_owner_pid := 0, mc_owner_name := replicate 20 0\<rparr>);
               s = (case hm_lookup (mutex_info_map s) lock_addr of
                      Some info \<Rightarrow> s\<lparr>mutex_info_map := hm_poke (mutex_info_map s) lock_addr
                        (info\<lparr>mi_contended_total := mi_contended_total info + (ts - mi_acquire_time info)\<rparr>)\<rparr>
                    | None \<Rightarrow> s\<lparr>mutex_info_map := snd (hm_update (kn_upd kn 0) (mutex_info_map s) lock_addr
                        \<lparr>mi_locked_total = 0, mi_locked_max = 0, mi_contended_total = ts, mi_last_owner = 0,
                         mi_acquire_time = 0, mi_ptr = lock_addr\<rparr>)\<rparr>)
           in s\<lparr>mutrace_rb := mutrace_rb s @ [e]\<rparr>))"

definition trace_mutex_unlock :: "mu_kern \<Rightarrow> u64 \<Rightarrow> mutrace_st \<Rightarrow> mutrace_st" where
  "trace_mutex_unlock kn lock_addr s =
     (let ts = kn_ktime kn 0 in
      case hm_lookup (mutex_info_map s) lock_addr of None \<Rightarrow> s
      | Some info \<Rightarrow>
          (let held_time = ts - mi_acquire_time info in
           s\<lparr>mutex_info_map := hm_poke (mutex_info_map s) lock_addr
               (info\<lparr>mi_locked_total := mi_locked_total info + held_time,
                     mi_locked_max := (if held_time > mi_locked_max info then held_time else mi_locked_max info),
                     mi_last_owner := cur_pid kn\<rparr>)\<rparr>))"

datatype mu_probe = Mu_lock u64 | Mu_trylock s32 u64 | Mu_slow mu_contention u64 | Mu_unlock u64

fun mu_step :: "mu_kern \<times> mu_probe \<Rightarrow> mutrace_st \<Rightarrow> mutrace_st" where
  "mu_step (kn, Mu_lock a) s = trace_mutex_lock kn a s"
| "mu_step (kn, Mu_trylock r a) s = trace_mutex_trylock kn r a s"
| "mu_step (kn, Mu_slow mn a) s = trace_mutex_lock_slowpath kn mn a s"
| "mu_step (kn, Mu_unlock a) s = trace_mutex_unlock kn a s"

end
