(* ===== verification/CwSar.thy ===== *)
theory CwSar imports Bpf begin

text \<open>
  The counters of \<open>cpu_watcher\<close>'s activity report, \<open>bpf/sar.bpf.c\<close>: process switches and forks,
  the run-queue length, the time in soft and hard interrupts, idle, in kernel threads and in user
  threads, and the ticks that hit user mode.  The probes look the control block up and do not
  test it.

  An array of the maps is indexed by the 32-bit key read as unsigned.  What the probes read (pids
  and flags of tasks, the interrupt numbers, the run-queue length, the kernel's fork counter, the
  code segment of the interrupted context) is an input.
\<close>

record sar_ctrl =
  sar_func :: bool
  sar_percent :: bool
  sar_prev_watcher :: s32

record sar_st =
  countMap :: "u64 list"
  procStartTime :: "u64 list"
  runqlen :: "s32 list"
  softirqCpuEnterTime :: "(u32, u64) hmap"
  softirqLastTime :: "(u32, u64) hmap"
  irq_cpu_enter_start :: "(u32, u64) hmap"
  irq_Last_time :: "u64 list"
  idleStart :: "u64 list"
  idleLastTime :: "u64 list"
  kt_LastTime :: "u64 list"
  ut_LastTime :: "u64 list"
  tick_user :: "u64 list"
  symAddr :: "u64 list"
  sar_ctrl_map :: "sar_ctrl list"

definition sar_maps :: sar_st where
  "sar_maps = \<lparr>countMap = replicate 3 0, procStartTime = replicate 1024 0, runqlen = [0],
     softirqCpuEnterTime = hm_new 1024, softirqLastTime = hm_new 1, irq_cpu_enter_start = hm_new 1024,
     irq_Last_time = [0], idleStart = replicate 128 0, idleLastTime = [0], kt_LastTime = [0],
     ut_LastTime = [0], tick_user = [0], symAddr = [0],
     sar_ctrl_map = [\<lparr>sar_func = False, sar_percent = False, sar_prev_watcher = 0\<rparr>]\<rparr>"

definition get_sar_ctrl :: "sar_st \<Rightarrow> sar_ctrl option" where
  "get_sar_ctrl s = (case arr_lookup (sar_ctrl_map s) 0 of None \<Rightarrow> None
     | Some c \<Rightarrow> if sar_func c then Some c else None)"

text \<open>\<open>if (valp) *valp += d; else bpf_map_update_elem(.., &d, ..);\<close> on a one-element array.\<close>

definition arr_add :: "s32 \<Rightarrow> u64 list \<Rightarrow> nat \<Rightarrow> u64 \<Rightarrow> u64 list" where
  "arr_add fault a k d =
     (case arr_lookup a k of Some v \<Rightarrow> a[k := v + d] | None \<Rightarrow> snd (arr_update fault a k d))"

definition sar_forks :: "unit kern \<Rightarrow> u64 \<Rightarrow> u64 \<Rightarrow> sar_st \<Rightarrow> sar_st" where
  "sar_forks kn forks_addr total_forks s =
     (if forks_addr \<noteq> 0
      then s\<lparr>countMap := snd (arr_update (kn_upd kn 0) (countMap s) 1 total_forks)\<rparr> else s)"

definition trace_sched_switch2 :: "unit kern \<Rightarrow> pid_t \<Rightarrow> pid_t \<Rightarrow> sar_st \<Rightarrow> sar_st" where
  "trace_sched_switch2 kn prev nxt s =
     (if prev \<noteq> nxt then
        (let s = s\<lparr>procStartTime := snd (arr_update (kn_upd kn 0) (procStartTime s) (unat nxt) (kn_ktime kn 0))\<rparr>
         in s\<lparr>countMap := arr_add (kn_upd kn 1) (countMap s) 0 1\<rparr>)
      else s)"

abbreviation (input) PF_IDLE :: u32 where "PF_IDLE \<equiv> 0x2"
abbreviation (input) PF_KTHREAD :: u32 where "PF_KTHREAD \<equiv> 0x200000"

definition sar_finish_task_switch :: "unit kern \<Rightarrow> pid_t \<Rightarrow> u32 \<Rightarrow> sar_st \<Rightarrow> sar_st" where
  "sar_finish_task_switch kn pid flags s =
     (let time = kn_ktime kn 0 in
      if and flags PF_KTHREAD \<noteq> 0 \<and> pid \<noteq> 0 then
        (case arr_lookup (procStartTime s) (unat pid) of None \<Rightarrow> s
         | Some val \<Rightarrow> s\<lparr>kt_LastTime := arr_add (kn_upd kn 0) (kt_LastTime s) 0 (time - val)\<rparr>)
      else if \<not> and flags PF_KTHREAD \<noteq> 0 \<and> \<not> and flags PF_IDLE \<noteq> 0 then
        (case arr_lookup (procStartTime s) (unat pid) of None \<Rightarrow> s
         | Some val \<Rightarrow> s\<lparr>ut_LastTime := arr_add (kn_upd kn 0) (ut_LastTime s) 0 (time - val)\<rparr>)
      else s)"

text \<open>The value stored is the low 4 bytes of the 64-bit \<open>val\<close> (the map's value size is 4).\<close>

definition update_rq_clock :: "unit kern \<Rightarrow> u32 \<Rightarrow> sar_st \<Rightarrow> sar_st" where
  "update_rq_clock kn nr_running s =
     (let val = (ucast nr_running :: u64) in
      s\<lparr>runqlen := snd (arr_update (kn_upd kn 0) (runqlen s) 0 (ucast val))\<rparr>)"

definition trace_softirq_entry :: "unit kern \<Rightarrow> u32 \<Rightarrow> sar_st \<Rightarrow> sar_st" where
  "trace_softirq_entry kn vec s =
     s\<lparr>softirqCpuEnterTime := snd (hm_update (kn_upd kn 0) (softirqCpuEnterTime s) vec (kn_ktime kn 0))\<rparr>"

definition trace_softirq_exit :: "unit kern \<Rightarrow> u32 \<Rightarrow> sar_st \<Rightarrow> sar_st" where
  "trace_softirq_exit kn vec s =
     (case hm_lookup (softirqCpuEnterTime s) vec of None \<Rightarrow> s
      | Some t \<Rightarrow>
          (let last_time = kn_ktime kn 0 - t in
           case hm_lookup (softirqLastTime s) 0 of
             None \<Rightarrow> s\<lparr>softirqLastTime := snd (hm_update (kn_upd kn 0) (softirqLastTime s) 0 last_time)\<rparr>
           | Some v \<Rightarrow> s\<lparr>softirqLastTime := hm_poke (softirqLastTime s) 0 (v + last_time)\<rparr>))"

definition trace_irq_handler_entry :: "unit kern \<Rightarrow> u32 \<Rightarrow> sar_st \<Rightarrow> sar_st" where
  "trace_irq_handler_entry kn irq s =
     s\<lparr>irq_cpu_enter_start := snd (hm_update (kn_upd kn 0) (irq_cpu_enter_start s) irq (kn_ktime kn 0))\<rparr>"

definition trace_irq_handler_exit :: "unit kern \<Rightarrow> u32 \<Rightarrow> sar_st \<Rightarrow> sar_st" where
  "trace_irq_handler_exit kn irq s =
     (case hm_lookup (irq_cpu_enter_start s) irq of None \<Rightarrow> s
      | Some t \<Rightarrow> s\<lparr>irq_Last_time := arr_add (kn_upd kn 0) (irq_Last_time s) 0 (kn_ktime kn 0 - t)\<rparr>)"

text \<open>\<open>state == -1\<close> compares an \<open>unsigned int\<close>.\<close>

definition trace_cpu_idle :: "unit kern \<Rightarrow> u32 \<Rightarrow> u32 \<Rightarrow> sar_st \<Rightarrow> sar_st" where
  "trace_cpu_idle kn state cpu_id s =
     (let time = kn_ktime kn 0 in
      if state = -1 then
        (case arr_lookup (idleStart s) (unat cpu_id) of None \<Rightarrow> s
         | Some v \<Rightarrow>
             if v \<noteq> 0 then s\<lparr>idleLastTime := arr_add (kn_upd kn 0) (idleLastTime s) 0 (time - v)\<rparr> else s)
      else s\<lparr>idleStart := snd (arr_update (kn_upd kn 1) (idleStart s) (unat cpu_id) time)\<rparr>)"

definition user_mode :: "u64 \<Rightarrow> bool" where
  "user_mode cs \<longleftrightarrow> and cs 3 \<noteq> 0"

definition tick_update :: "unit kern \<Rightarrow> u64 \<Rightarrow> u64 \<Rightarrow> sar_st \<Rightarrow> sar_st" where
  "tick_update kn cs total_forks s =
     (let s = (if user_mode cs then s\<lparr>tick_user := arr_add (kn_upd kn 0) (tick_user s) 0 1\<rparr> else s) in
      case arr_lookup (symAddr s) 0 of None \<Rightarrow> s
      | Some addr \<Rightarrow>
          if addr > 0 then s\<lparr>countMap := snd (arr_update (kn_upd kn 1) (countMap s) 1 total_forks)\<rparr> else s)"

datatype sar_probe =
    Sar_forks u64 u64
  | Sar_switch pid_t pid_t
  | Sar_finish pid_t u32
  | Sar_rq u32
  | Sar_softirq_entry u32
  | Sar_softirq_exit u32
  | Sar_irq_entry u32
  | Sar_irq_exit u32
  | Sar_idle u32 u32
  | Sar_tick u64 u64

fun sar_step :: "unit kern \<times> sar_probe \<Rightarrow> sar_st \<Rightarrow> sar_st" where
  "sar_step (kn, Sar_forks a f) s = sar_forks kn a f s"
| "sar_step (kn, Sar_switch p n) s = trace_sched_switch2 kn p n s"
| "sar_step (kn, Sar_finish p fl) s = sar_finish_task_switch kn p fl s"
| "sar_step (kn, Sar_rq n) s = update_rq_clock kn n s"
| "sar_step (kn, Sar_softirq_entry v) s = trace_softirq_entry kn v s"
| "sar_step (kn, Sar_softirq_exit v) s = trace_softirq_exit kn v s"
| "sar_step (kn, Sar_irq_entry v) s = trace_irq_handler_entry kn v s"
| "sar_step (kn, Sar_irq_exit v) s = trace_irq_handler_exit kn v s"
| "sar_step (kn, Sar_idle st c) s = trace_cpu_idle kn st c s"
| "sar_step (kn, Sar_tick cs f) s = tick_update kn cs f s"

end
