(* ===== verification/CwStatProps.thy ===== *)
theory CwStatProps imports CwSched CwMutrace CwSar begin

text \<open>
  What the counting programs of \<open>cpu_watcher\<close> add up: the scheduling delays (\<open>wsched_delay\<close>,
  \<open>wsched_totals\<close>, and the minimum that is missed, \<open>wsched_min_ascending\<close>), the times a kernel mutex
  is held (\<open>mutex_held\<close>, \<open>mutex_contender_resets\<close>), the process switches and the user time of the
  activity report (\<open>sar_switch_count\<close>, \<open>sar_user_time\<close>, \<open>sar_big_pid\<close>).
\<close>

subsection \<open>Scheduling delays\<close>

definition ws_touches :: "unit kern \<times> wsched_probe \<Rightarrow> wproc_id \<Rightarrow> bool" where
  "ws_touches e k \<longleftrightarrow> (case e of (kn, pr) \<Rightarrow> (case pr of
     Ws_wakeup p \<Rightarrow> mk_wproc_id (wt_pid p) (kn_cpu kn) = k
   | Ws_wakeup_new p \<Rightarrow> mk_wproc_id (wt_pid p) (kn_cpu kn) = k
   | Ws_switch prev nxt \<Rightarrow> mk_wproc_id (wt_pid prev) (kn_cpu kn) = k \<or> mk_wproc_id (wt_pid nxt) (kn_cpu kn) = k
   | Ws_exit pid \<Rightarrow> mk_wproc_id pid (kn_cpu kn) = k))"

definition ws_view :: "wproc_id \<Rightarrow> wsched_st \<Rightarrow> wschedule_event option \<times> bool option" where
  "ws_view k s = (hm_lookup (enter_schedule s) k, hm_lookup (has_scheduled s) k)"

lemma wsched_enqueue_frame:
  "mk_wproc_id pid (kn_cpu kn) \<noteq> k \<Longrightarrow> ws_view k (wsched_enqueue kn pid s) = ws_view k s"
  by (auto simp: wsched_enqueue_def ws_view_def Let_def map_rules split: option.splits)

lemma wsched_dequeue_frame:
  "mk_wproc_id (wt_pid nxt) (kn_cpu kn) \<noteq> k \<Longrightarrow> ws_view k (wsched_dequeue kn prev nxt s) = ws_view k s"
  by (auto simp: wsched_dequeue_def ws_view_def Let_def map_rules split: option.splits)

interpretation ws_task: keyed_tool wsched_step ws_touches ws_view
proof unfold_locales
  fix e k s
  assume t: "\<not> ws_touches e k"
  obtain kn pr where e: "e = (kn, pr)" by (cases e)
  show "ws_view k (wsched_step e s) = ws_view k s"
  proof (cases pr)
    case (Ws_wakeup p)
    then show ?thesis using t by (simp add: e ws_touches_def wsched_wakeup_def wsched_enqueue_frame)
  next
    case (Ws_wakeup_new p)
    then show ?thesis
      using t by (auto simp: e ws_touches_def wsched_wakeup_new_def ws_view_def Let_def map_rules split: option.splits)
  next
    case (Ws_switch prev nxt)
    then show ?thesis
      using t by (simp add: e ws_touches_def wsched_switch_def Let_def wsched_enqueue_frame wsched_dequeue_frame)
  next
    case (Ws_exit pid)
    then show ?thesis
      using t by (auto simp: e ws_touches_def wsched_process_exit_def ws_view_def Let_def map_rules)
  qed
qed

lemma wsched_enqueue_sys [simp]: "wsys_schedule (wsched_enqueue kn pid s) = wsys_schedule s"
  by (simp add: wsched_enqueue_def Let_def split: option.splits)

lemma wsched_enqueue_own:
  assumes "kn_upd kn 0 = 0" and "kn_upd kn 1 = 0"
    and "k = mk_wproc_id pid (kn_cpu kn)"
    and "hm_room (has_scheduled s) k" and "hm_room (enter_schedule s) k"
    and "hm_lookup (enter_schedule s) k \<noteq> None \<longrightarrow> hm_lookup (has_scheduled s) k \<noteq> None"
  shows "\<exists>ev b. ws_view k (wsched_enqueue kn pid s) = (Some ev, Some b) \<and> we_enter_time ev = kn_ktime kn 0"
  using assms by (auto simp: wsched_enqueue_def ws_view_def Let_def map_rules simp del: One_nat_def split: option.splits)

lemma wsched_dequeue_sys:
  assumes "ws_view (mk_wproc_id (wt_pid nxt) (kn_cpu kn)) s = (Some ev, Some b)"
    and "wsys_schedule s = [t]"
  shows "wsys_schedule (wsched_dequeue kn prev nxt s) = [wsum_add (kn_ktime kn 0 - we_enter_time ev) nxt t]"
  using assms by (simp add: ws_view_def wsched_dequeue_def Let_def arr_lookup_def)

lemma wsched_dequeue_none:
  assumes "\<nexists>ev b. ws_view (mk_wproc_id (wt_pid nxt) (kn_cpu kn)) s = (Some ev, Some b)"
  shows "wsched_dequeue kn prev nxt s = s"
  using assms by (auto simp: ws_view_def wsched_dequeue_def Let_def split: option.splits)

text \<open>
  C26. A task becomes runnable by a wake-up; whatever happens to other tasks meanwhile, the switch
  that gives it a CPU adds exactly the time between the two to the system's sums, with room in
  the two maps and a kernel that grants the insertions.
\<close>

theorem wsched_delay:
  assumes "kn_upd ke 0 = 0" and "kn_upd ke 1 = 0" and "wt_pid p \<noteq> 0"
    and "hm_room (has_scheduled s) (mk_wproc_id (wt_pid p) 0)"
    and "hm_room (enter_schedule s) (mk_wproc_id (wt_pid p) 0)"
    and "hm_lookup (enter_schedule s) (mk_wproc_id (wt_pid p) 0) \<noteq> None \<longrightarrow>
         hm_lookup (has_scheduled s) (mk_wproc_id (wt_pid p) 0) \<noteq> None"
    and "\<forall>e \<in> set es. \<not> ws_touches e (mk_wproc_id (wt_pid p) 0)"
    and "wsys_schedule (run wsched_step es (wsched_wakeup ke p s)) = [t]"
    and "wt_pid prev \<noteq> wt_pid p"
  shows "wsys_schedule (wsched_switch kx prev p (run wsched_step es (wsched_wakeup ke p s))) =
           [wsum_add (kn_ktime kx 0 - kn_ktime ke 0) p t]"
proof -
  let ?k = "mk_wproc_id (wt_pid p) 0" and ?s1 = "run wsched_step es (wsched_wakeup ke p s)"
  have k: "mk_wproc_id (wt_pid p) c = ?k" "mk_wproc_id (wt_pid prev) c \<noteq> ?k" for c
    using assms(3,9) by (simp_all add: mk_wproc_id_def)
  obtain ev b where "ws_view ?k (wsched_enqueue ke (wt_pid p) s) = (Some ev, Some b)"
    and start: "we_enter_time ev = kn_ktime ke 0"
    using wsched_enqueue_own [OF assms(1,2) k(1) [symmetric] assms(4,5,6)] by blast
  then have "ws_view ?k ?s1 = (Some ev, Some b)"
    using assms(7) ws_task.run_frame [of es ?k "wsched_wakeup ke p s"] by (auto simp: wsched_wakeup_def)
  then have "ws_view ?k (if wt_state prev = 0 then wsched_enqueue kx (wt_pid prev) ?s1 else ?s1) = (Some ev, Some b)"
    by (simp add: wsched_enqueue_frame k(2))
  from wsched_dequeue_sys [where kn = kx and nxt = p, unfolded k(1) [of "kn_cpu kx"], OF this, of t]
  show ?thesis
    by (simp add: wsched_switch_def Let_def start assms(8))
qed

definition ws_task1 :: wtask where
  "ws_task1 = \<lparr>wt_pid = 5, wt_state = 0, wt_comm = [97]\<rparr>"

definition ws_idle :: wtask where
  "ws_idle = \<lparr>wt_pid = 0, wt_state = 0, wt_comm = []\<rparr>"

theorem wsched_delay_witness:
  "wsys_schedule (wsched_switch (calm 0 0 40 ()) ws_idle ws_task1
     (run wsched_step [(calm 9 9 20 (), Ws_exit 8)] (wsched_wakeup (calm 9 9 10 ()) ws_task1 wsched_maps))) =
   [wsum_add 30 ws_task1 zero_wsum]"
  using wsched_delay [where ke = "calm 9 9 10 ()" and kx = "calm 0 0 40 ()" and p = ws_task1 and prev = ws_idle
      and s = wsched_maps and es = "[(calm 9 9 20 (), Ws_exit 8)]" and t = zero_wsum]
  by (simp add: ws_task1_def ws_idle_def wsched_maps_def hm_room_def hm_new_def hm_lookup_def ws_touches_def
      mk_wproc_id_def wsched_process_exit_def wsched_wakeup_def Let_def)

subsection \<open>The sums\<close>

text \<open>
  The delay a step accounts: for a switch, if the next task has a start time and a flag once the
  previous one has been enqueued, the time since that start.
\<close>

fun ws_account :: "unit kern \<times> wsched_probe \<Rightarrow> wsched_st \<Rightarrow> (u64 \<times> wtask) list" where
  "ws_account (kn, Ws_switch prev nxt) s =
     (case ws_view (mk_wproc_id (wt_pid nxt) (kn_cpu kn))
             (if wt_state prev = 0 then wsched_enqueue kn (wt_pid prev) s else s) of
        (Some ev, Some b) \<Rightarrow> [(kn_ktime kn 0 - we_enter_time ev, nxt)]
      | _ \<Rightarrow> [])"
| "ws_account _ s = []"

primrec ws_delays :: "(unit kern \<times> wsched_probe) list \<Rightarrow> wsched_st \<Rightarrow> (u64 \<times> wtask) list" where
  "ws_delays [] s = []"
| "ws_delays (e # es) s = ws_account e s @ ws_delays es (wsched_step e s)"

lemma wsched_step_sys:
  assumes "wsys_schedule s = [t]"
  shows "wsys_schedule (wsched_step e s) = [fold (\<lambda>(d, n). wsum_add d n) (ws_account e s) t]"
proof -
  obtain kn pr where e: "e = (kn, pr)" by (cases e)
  show ?thesis
  proof (cases pr)
    case (Ws_wakeup p)
    then show ?thesis using assms by (simp add: e wsched_wakeup_def)
  next
    case (Ws_wakeup_new p)
    then show ?thesis using assms by (simp add: e wsched_wakeup_new_def Let_def split: option.splits)
  next
    case (Ws_switch prev nxt)
    let ?s = "if wt_state prev = 0 then wsched_enqueue kn (wt_pid prev) s else s"
    have sys: "wsys_schedule ?s = [t]" using assms by simp
    have "wsys_schedule (wsched_dequeue kn prev nxt ?s) =
        [fold (\<lambda>(d, n). wsum_add d n) (ws_account e s) t]"
    proof (cases "\<exists>ev b. ws_view (mk_wproc_id (wt_pid nxt) (kn_cpu kn)) ?s = (Some ev, Some b)")
      case True
      then obtain ev b where v: "ws_view (mk_wproc_id (wt_pid nxt) (kn_cpu kn)) ?s = (Some ev, Some b)" by blast
      from wsched_dequeue_sys [OF v sys] v show ?thesis by (simp add: e Ws_switch)
    next
      case False
      then have "ws_account e s = []"
        by (cases "wt_state prev = 0") (auto simp: e Ws_switch split: option.splits prod.splits)
      then show ?thesis using sys wsched_dequeue_none [OF False] by simp
    qed
    then show ?thesis by (simp add: e Ws_switch wsched_switch_def)
  next
    case (Ws_exit pid)
    then show ?thesis using assms by (simp add: e wsched_process_exit_def Let_def)
  qed
qed

lemma wsched_run_sys:
  "wsys_schedule s = [t] \<Longrightarrow>
   wsys_schedule (run wsched_step es s) = [fold (\<lambda>(d, n). wsum_add d n) (ws_delays es s) t]"
  by (induction es arbitrary: s t) (simp_all add: wsched_step_sys)

lemma wsum_add_sums:
  "wu_sum_count (wsum_add d n t) = wu_sum_count t + 1"
  "wu_sum_delay (wsum_add d n t) = wu_sum_delay t + d"
  "wu_max_delay (wsum_add d n t) = max (wu_max_delay t) d"
  by (auto simp: wsum_add_def Let_def max_def)

lemma wsum_fold_sums:
  "wu_sum_count (fold (\<lambda>(d, n). wsum_add d n) ds t) = wu_sum_count t + of_nat (length ds)"
  "wu_sum_delay (fold (\<lambda>(d, n). wsum_add d n) ds t) = wu_sum_delay t + sum_list (map fst ds)"
  "wu_max_delay (fold (\<lambda>(d, n). wsum_add d n) ds t) = fold max (map fst ds) (wu_max_delay t)"
  by (induction ds arbitrary: t) (auto simp: wsum_add_sums max.commute)

lemma wsched_maps_sys: "wsys_schedule wsched_maps = [zero_wsum]"
  by (simp add: wsched_maps_def)

text \<open>
  C31. After any history the one element of \<open>sys_schedule\<close> holds the number, the sum and the largest
  of the delays that were accounted.
\<close>

theorem wsched_totals:
  "\<exists>t. wsys_schedule (run wsched_step es wsched_maps) = [t] \<and>
     wu_sum_count t = of_nat (length (ws_delays es wsched_maps)) \<and>
     wu_sum_delay t = sum_list (map fst (ws_delays es wsched_maps)) \<and>
     wu_max_delay t = fold max (map fst (ws_delays es wsched_maps)) 0"
  unfolding wsched_run_sys [OF wsched_maps_sys]
  by (simp add: wsum_fold_sums zero_wsum_def)

lemma wsum_ascending:
  assumes "sorted_wrt (<) (wu_max_delay t # map fst ds)"
  shows "wu_min_delay (fold (\<lambda>(d, n). wsum_add d n) ds t) = wu_min_delay t \<and>
         wu_proc_name_min (fold (\<lambda>(d, n). wsum_add d n) ds t) = wu_proc_name_min t"
  using assms
proof (induction ds arbitrary: t)
  case Nil
  then show ?case by simp
next
  case (Cons x ds)
  obtain d n where x: "x = (d, n)" by (cases x)
  have "wu_max_delay t < d" using Cons.prems by (simp add: x)
  then have step: "wu_min_delay (wsum_add d n t) = wu_min_delay t"
    "wu_proc_name_min (wsum_add d n t) = wu_proc_name_min t" "wu_max_delay (wsum_add d n t) = d"
    by (simp_all add: wsum_add_def Let_def)
  show ?case
    using Cons.IH [of "wsum_add d n t"] Cons.prems by (simp add: x step)
qed

text \<open>
  The smallest delay is only looked for among the delays that do not raise the largest: while
  every delay is longer than the ones before, the reported minimum stays 0 and has no name, however
  many tasks have waited.
\<close>

theorem wsched_min_ascending:
  assumes "sorted_wrt (<) (0 # map fst (ws_delays es wsched_maps))"
  shows "map (\<lambda>t. (wu_min_delay t, wu_proc_name_min t)) (wsys_schedule (run wsched_step es wsched_maps)) = [(0, [])]"
  unfolding wsched_run_sys [OF wsched_maps_sys]
  using wsum_ascending [of zero_wsum "ws_delays es wsched_maps"] assms
  by (simp add: zero_wsum_def)

definition ws_two :: "(unit kern \<times> wsched_probe) list" where
  "ws_two = [(calm 9 9 10 (), Ws_wakeup ws_task1),
     (calm 0 0 15 (), Ws_switch \<lparr>wt_pid = 9, wt_state = 1, wt_comm = []\<rparr> ws_task1),
     (calm 9 9 20 (), Ws_wakeup \<lparr>wt_pid = 6, wt_state = 0, wt_comm = [98]\<rparr>),
     (calm 0 0 40 (), Ws_switch \<lparr>wt_pid = 9, wt_state = 1, wt_comm = []\<rparr> \<lparr>wt_pid = 6, wt_state = 0, wt_comm = [98]\<rparr>)]"

lemma ws_two_delays: "map fst (ws_delays ws_two wsched_maps) = [5, 20]"
  by (simp add: ws_two_def wsched_maps_def ws_view_def mk_wproc_id_def wsched_wakeup_def wsched_enqueue_def
      wsched_switch_def wsched_dequeue_def Let_def map_rules hm_room_def hm_new_def ws_task1_def hm_lookup_def
      hm_update_def hm_poke_def arr_update_def arr_lookup_def)

theorem wsched_min_ascending_witness:
  "map (\<lambda>t. (wu_min_delay t, wu_proc_name_min t)) (wsys_schedule (run wsched_step ws_two wsched_maps)) = [(0, [])]"
  using wsched_min_ascending [of ws_two] by (simp add: ws_two_delays)

subsection \<open>Kernel mutexes\<close>

definition mu_addr :: "mu_probe \<Rightarrow> u64" where
  "mu_addr pr = (case pr of Mu_lock a \<Rightarrow> a | Mu_trylock r a \<Rightarrow> a | Mu_slow mn a \<Rightarrow> a | Mu_unlock a \<Rightarrow> a)"

definition mu_touches :: "mu_kern \<times> mu_probe \<Rightarrow> u64 \<Rightarrow> bool" where
  "mu_touches e a \<longleftrightarrow> mu_addr (snd e) = a"

definition mu_view :: "u64 \<Rightarrow> mutrace_st \<Rightarrow> mutex_info option" where
  "mu_view a s = hm_lookup (mutex_info_map s) a"

definition mu_valid :: "u64 set \<Rightarrow> mu_kern \<times> mu_probe \<Rightarrow> bool" where
  "mu_valid K e \<longleftrightarrow> mu_addr (snd e) \<in> K \<and> kn_upd (fst e) 0 = 0"

definition mu_inv :: "u64 set \<Rightarrow> mutrace_st \<Rightarrow> bool" where
  "mu_inv K s \<longleftrightarrow> finite K \<and> card K \<le> 1024 \<and> hm_within K (mutex_info_map s) \<and> hm_max (mutex_info_map s) = 1024"

text \<open>One lock's own machine.\<close>

definition mu_fresh :: "u64 \<Rightarrow> mutex_info" where
  "mu_fresh a = \<lparr>mi_locked_total = 0, mi_locked_max = 0, mi_contended_total = 0, mi_last_owner = 0,
     mi_acquire_time = 0, mi_ptr = a\<rparr>"

fun mu_own :: "u64 \<Rightarrow> mu_kern \<times> mu_probe \<Rightarrow> mutex_info option \<Rightarrow> mutex_info option" where
  "mu_own a (kn, Mu_lock _) v =
     Some ((case v of Some i \<Rightarrow> i | None \<Rightarrow> mu_fresh a)\<lparr>mi_acquire_time := kn_ktime kn 0\<rparr>)"
| "mu_own a (kn, Mu_trylock r _) v =
     (if r = 0 then Some ((case v of Some i \<Rightarrow> i | None \<Rightarrow> mu_fresh a)\<lparr>mi_acquire_time := kn_ktime kn 0\<rparr>) else v)"
| "mu_own a (kn, Mu_slow mn _) v =
     (if kn_rsv kn 0 = None then v
      else let i = (case v of Some i \<Rightarrow> i | None \<Rightarrow> mu_fresh a) in
           Some (i\<lparr>mi_contended_total := mi_contended_total i + (kn_ktime kn 0 - mi_acquire_time i)\<rparr>))"
| "mu_own a (kn, Mu_unlock _) v =
     map_option (\<lambda>i. i\<lparr>mi_locked_total := mi_locked_total i + (kn_ktime kn 0 - mi_acquire_time i),
        mi_locked_max := max (mi_locked_max i) (kn_ktime kn 0 - mi_acquire_time i),
        mi_last_owner := cur_pid kn\<rparr>) v"

lemmas mu_handlers = trace_mutex_lock_def trace_mutex_trylock_def trace_mutex_lock_slowpath_def
  trace_mutex_unlock_def

lemma mu_step_inv: "mu_valid K e \<Longrightarrow> mu_inv K s \<Longrightarrow> mu_inv K (mu_step e s)"
  by (cases e; cases "snd e")
    (auto simp: mu_valid_def mu_inv_def mu_addr_def mu_handlers Let_def intro!: inv_rules split: option.splits)

lemma mu_room: "mu_inv K s \<Longrightarrow> a \<in> K \<Longrightarrow> hm_room (mutex_info_map s) a"
  by (auto simp: mu_inv_def intro: hm_within_room)

lemma mu_own_step:
  assumes "mu_inv K s" and "mu_valid K e" and "mu_touches e a"
  shows "mu_view a (mu_step e s) = mu_own a e (mu_view a s)"
proof -
  obtain kn pr where e: "e = (kn, pr)" by (cases e)
  have room: "hm_room (mutex_info_map s) a"
    using assms by (auto simp: mu_valid_def mu_touches_def intro: mu_room)
  show ?thesis
    using assms(2,3) room unfolding e mu_valid_def mu_touches_def
    by (cases pr)
      (auto simp: mu_addr_def mu_handlers mu_view_def Let_def map_rules mu_fresh_def max_def split: option.splits)
qed

lemma mu_other_step: "\<not> mu_touches e a \<Longrightarrow> mu_view a (mu_step e s) = mu_view a s"
  by (cases e; cases "snd e")
    (auto simp: mu_touches_def mu_addr_def mu_handlers mu_view_def Let_def map_rules split: option.splits)

interpretation mu_lock: sliced_tool mu_step "mu_inv K" "mu_valid K" mu_touches mu_view mu_own for K
  by unfold_locales (simp_all add: mu_step_inv mu_own_step mu_other_step)

text \<open>Uncontended use: the lock is taken and released, once per pair of kernels.\<close>

definition mu_holds :: "u64 \<Rightarrow> (mu_kern \<times> mu_kern) list \<Rightarrow> (mu_kern \<times> mu_probe) list" where
  "mu_holds a cs = concat (map (\<lambda>(kl, ku). [(kl, Mu_lock a), (ku, Mu_unlock a)]) cs)"

definition mu_times :: "(mu_kern \<times> mu_kern) list \<Rightarrow> u64 list" where
  "mu_times cs = map (\<lambda>(kl, ku). kn_ktime ku 0 - kn_ktime kl 0) cs"

lemma mu_own_holds:
  "cs \<noteq> [] \<or> v \<noteq> None \<Longrightarrow> \<exists>i. run (mu_own a) (mu_holds a cs) v = Some i \<and>
     mi_locked_total i = (case v of None \<Rightarrow> 0 | Some j \<Rightarrow> mi_locked_total j) + sum_list (mu_times cs) \<and>
     mi_locked_max i = fold max (mu_times cs) (case v of None \<Rightarrow> 0 | Some j \<Rightarrow> mi_locked_max j) \<and>
     mi_contended_total i = (case v of None \<Rightarrow> 0 | Some j \<Rightarrow> mi_contended_total j) \<and>
     (cs \<noteq> [] \<longrightarrow> mi_last_owner i = cur_pid (snd (last cs)))"
proof (induction cs arbitrary: v)
  case Nil
  then show ?case by (auto simp: mu_holds_def mu_times_def)
next
  case (Cons c cs)
  obtain kl ku where c: "c = (kl, ku)" by (cases c)
  define w where "w = run (mu_own a) [(kl, Mu_lock a), (ku, Mu_unlock a)] v"
  have w: "w \<noteq> None" by (simp add: w_def)
  have s: "run (mu_own a) (mu_holds a (c # cs)) v = run (mu_own a) (mu_holds a cs) w"
    by (simp add: mu_holds_def c w_def)
  have l: "cs = [] \<longrightarrow> (\<exists>j. w = Some j \<and> mi_last_owner j = cur_pid ku)"
    by (auto simp: w_def)
  from Cons.IH [of w] w obtain i where i: "run (mu_own a) (mu_holds a cs) w = Some i"
    "mi_locked_total i = (case w of None \<Rightarrow> 0 | Some j \<Rightarrow> mi_locked_total j) + sum_list (mu_times cs)"
    "mi_locked_max i = fold max (mu_times cs) (case w of None \<Rightarrow> 0 | Some j \<Rightarrow> mi_locked_max j)"
    "mi_contended_total i = (case w of None \<Rightarrow> 0 | Some j \<Rightarrow> mi_contended_total j)"
    "cs \<noteq> [] \<longrightarrow> mi_last_owner i = cur_pid (snd (last cs))" by blast
  have last: "mi_last_owner i = cur_pid (snd (last (c # cs)))"
    using i(1,5) by (cases "cs = []") (auto simp: mu_holds_def c w_def)
  have "mi_locked_total i = (case v of None \<Rightarrow> 0 | Some j \<Rightarrow> mi_locked_total j) + sum_list (mu_times (c # cs))"
    using i(2) by (simp add: w_def mu_times_def c mu_fresh_def split: option.splits)
  moreover have "mi_locked_max i = fold max (mu_times (c # cs)) (case v of None \<Rightarrow> 0 | Some j \<Rightarrow> mi_locked_max j)"
    using i(3) by (simp add: w_def mu_times_def c mu_fresh_def max.commute split: option.splits)
  moreover have "mi_contended_total i = (case v of None \<Rightarrow> 0 | Some j \<Rightarrow> mi_contended_total j)"
    using i(4) by (simp add: w_def mu_fresh_def split: option.splits)
  ultimately show ?case using i(1) last by (simp add: s)
qed

lemma mu_run_view:
  assumes "finite K" and "card K \<le> 1024" and "\<forall>e \<in> set es. mu_valid K e"
  shows "mu_view a (run mu_step es mutrace_maps) = run (mu_own a) (filter (\<lambda>e. mu_touches e a) es) None"
  using mu_lock.run_slice [of K mutrace_maps es a] assms
  by (simp add: mu_inv_def mutrace_maps_def mu_view_def)

text \<open>
  C25. For a lock whose sections never overlap, whatever is done with the other locks (at most 1024
  in all) in between: after a sequence of acquisitions and releases the lock's entry holds the sum
  and the largest of the times it was held, no contention, and the pid of the last owner.
\<close>

theorem mutex_held:
  assumes "finite K" and "card K \<le> 1024" and "\<forall>e \<in> set es. mu_valid K e"
    and "filter (\<lambda>e. mu_touches e a) es = mu_holds a cs" and "cs \<noteq> []"
  shows "\<exists>i. hm_lookup (mutex_info_map (run mu_step es mutrace_maps)) a = Some i \<and>
     mi_locked_total i = sum_list (mu_times cs) \<and> mi_locked_max i = fold max (mu_times cs) 0 \<and>
     mi_contended_total i = 0 \<and> mi_last_owner i = cur_pid (snd (last cs))"
  using mu_run_view [OF assms(1-3), of a] mu_own_holds [of cs None a] assms(4,5)
  by (simp add: mu_view_def)

definition mu_slot :: mutex_contention_event where
  "mu_slot = \<lparr>mc_ptr = 0, mc_owner_pid = 0, mc_contender_pid = 0, mc_contender_name = [], mc_owner_name = [],
     mc_owner_prio = 0, mc_contender_prio = 0\<rparr>"

theorem mutex_held_witness:
  "\<exists>i. hm_lookup (mutex_info_map (run mu_step
       [(calm 7 7 10 mu_slot, Mu_lock 64), (calm 8 8 11 mu_slot, Mu_lock 72), (calm 7 7 15 mu_slot, Mu_unlock 64)]
       mutrace_maps)) 64 = Some i \<and> mi_locked_total i = 5"
  using mutex_held [of "{64, 72}" "[(calm 7 7 10 mu_slot, Mu_lock 64), (calm 8 8 11 mu_slot, Mu_lock 72),
      (calm 7 7 15 mu_slot, Mu_unlock 64)]" 64 "[(calm 7 7 10 mu_slot, calm 7 7 15 mu_slot)]"]
  by (auto simp: mu_valid_def mu_touches_def mu_addr_def mu_holds_def mu_times_def)

text \<open>
  The acquisition time is taken when \<open>mutex_lock\<close> is entered: a thread that tries to take a held
  lock overwrites the holder's.  The holder is then charged from that attempt on, not from its own
  acquisition; the contender is charged from the attempt, its waiting included; and the contention
  time is what passed between its two probes.
\<close>

theorem mutex_contender_resets:
  assumes "finite K" and "card K \<le> 1024" and "\<forall>e \<in> set es. mu_valid K e"
    and "filter (\<lambda>e. mu_touches e a) es =
           [(ka, Mu_lock a), (kb, Mu_lock a), (kc, Mu_slow mn a), (kd, Mu_unlock a), (ke, Mu_unlock a)]"
    and "kn_rsv kc 0 = Some slot"
  shows "\<exists>i. hm_lookup (mutex_info_map (run mu_step es mutrace_maps)) a = Some i \<and>
     mi_locked_total i = (kn_ktime kd 0 - kn_ktime kb 0) + (kn_ktime ke 0 - kn_ktime kb 0) \<and>
     mi_contended_total i = kn_ktime kc 0 - kn_ktime kb 0"
  using mu_run_view [OF assms(1-3), of a] assms(4,5)
  by (simp add: mu_view_def mu_fresh_def)

text \<open>The holder has the lock from 10 to 90, the contender from 90 to 95: 85 would be right, 25 is reported.\<close>

theorem mutex_contender_resets_witness:
  "\<exists>i. hm_lookup (mutex_info_map (run mu_step
       [(calm 7 7 10 mu_slot, Mu_lock 64), (calm 8 8 80 mu_slot, Mu_lock 64),
        (calm 8 8 81 mu_slot, Mu_slow \<lparr>mn_owner = None, mn_name = [], mn_prio = 0\<rparr> 64),
        (calm 7 7 90 mu_slot, Mu_unlock 64), (calm 8 8 95 mu_slot, Mu_unlock 64)]
       mutrace_maps)) 64 = Some i \<and> mi_locked_total i = 25 \<and> mi_contended_total i = 1"
  using mutex_contender_resets [of "{64}" "[(calm 7 7 10 mu_slot, Mu_lock 64), (calm 8 8 80 mu_slot, Mu_lock 64),
        (calm 8 8 81 mu_slot, Mu_slow \<lparr>mn_owner = None, mn_name = [], mn_prio = 0\<rparr> 64),
        (calm 7 7 90 mu_slot, Mu_unlock 64), (calm 8 8 95 mu_slot, Mu_unlock 64)]" 64]
  by (simp add: mu_valid_def mu_touches_def mu_addr_def)

subsection \<open>The activity report\<close>

fun sar_switches :: "unit kern \<times> sar_probe \<Rightarrow> bool" where
  "sar_switches (kn, Sar_switch prev nxt) = (prev \<noteq> nxt)"
| "sar_switches _ = False"

definition sar_shape :: "sar_st \<Rightarrow> bool" where
  "sar_shape s \<longleftrightarrow> length (countMap s) = 3 \<and> length (procStartTime s) = 1024 \<and>
     length (kt_LastTime s) = 1 \<and> length (ut_LastTime s) = 1"

lemma length_arr_add [simp]: "length (arr_add f a k d) = length a"
  by (simp add: arr_add_def split: option.splits)

lemmas sar_handlers = sar_forks_def trace_sched_switch2_def sar_finish_task_switch_def update_rq_clock_def
  trace_softirq_entry_def trace_softirq_exit_def trace_irq_handler_entry_def trace_irq_handler_exit_def
  trace_cpu_idle_def tick_update_def

lemma sar_shape_step: "sar_shape s \<Longrightarrow> sar_shape (sar_step e s)"
  by (cases e; cases "snd e") (auto simp: sar_shape_def sar_handlers Let_def split: option.splits)

interpretation sar: tool sar_step sar_shape "\<lambda>_. True"
  by unfold_locales (simp add: sar_shape_step)

lemma sar_shape_run: "sar_shape (run sar_step es sar_maps)"
  by (rule sar.run_inv) (simp_all add: sar_shape_def sar_maps_def)

lemma sar_count_step:
  assumes "sar_shape s"
  shows "countMap (sar_step e s) ! 0 = countMap s ! 0 + (if sar_switches e then 1 else 0)"
  using assms
  by (cases e; cases "snd e")
    (auto simp: sar_shape_def sar_handlers Let_def arr_add_def arr_lookup_def arr_update_def split: option.splits)

lemma sar_count_run:
  "sar_shape s \<Longrightarrow> countMap (run sar_step es s) ! 0 = countMap s ! 0 + of_nat (length (filter sar_switches es))"
  by (induction es arbitrary: s) (simp_all add: sar_count_step sar_shape_step)

text \<open>
  The first counter is the number of switches between different tasks since the program was
  loaded, whatever else happened and whether or not the tool is switched on.
\<close>

theorem sar_switch_count:
  "countMap (run sar_step es sar_maps) ! 0 = of_nat (length (filter sar_switches es))"
  using sar_count_run [of sar_maps es] by (simp add: sar_shape_def sar_maps_def)

definition sar_gets_cpu :: "unit kern \<times> sar_probe \<Rightarrow> pid_t \<Rightarrow> bool" where
  "sar_gets_cpu e p \<longleftrightarrow> (case snd e of Sar_switch prev nxt \<Rightarrow> nxt = p | _ \<Rightarrow> False)"

definition sar_started :: "pid_t \<Rightarrow> sar_st \<Rightarrow> u64 option" where
  "sar_started p s = arr_lookup (procStartTime s) (unat p)"

interpretation sar_task: keyed_tool sar_step sar_gets_cpu sar_started
proof unfold_locales
  show "sar_started p (sar_step e s) = sar_started p s" if "\<not> sar_gets_cpu e p" for e p s
  proof (cases e)
    case (Pair kn pr)
    with that show ?thesis
      by (cases pr) (auto simp: sar_gets_cpu_def sar_started_def sar_handlers Let_def arr.lookup_update
          word_unat_eq_iff split: option.splits)
  qed
qed

lemma sar_frame:
  "\<forall>e \<in> set es. \<not> sar_gets_cpu e p \<Longrightarrow> sar_started p (run sar_step es s) = sar_started p s"
  by (rule sar_task.run_frame) auto

text \<open>
  A task with a pid below 1024 gets the CPU and gives it back; no other switch gives it the CPU
  in between.  Then the end of its switch adds exactly the time between the two to the total of the
  user threads, if its flags say it is one, and to the total of the kernel threads otherwise.
\<close>

theorem sar_user_time:
  assumes "unat p < 1024" and "p \<noteq> 0" and "prev \<noteq> p" and "kn_upd ks 0 = 0"
    and "\<forall>e \<in> set fs. \<not> sar_gets_cpu e p" and "and flags 2 = 0"
    and "s = run sar_step fs (trace_sched_switch2 ks prev p (run sar_step es sar_maps))"
  shows "ut_LastTime (sar_finish_task_switch kf p flags s) =
           [hd (ut_LastTime s) + (if and flags 0x200000 = 0 then kn_ktime kf 0 - kn_ktime ks 0 else 0)]
       \<and> kt_LastTime (sar_finish_task_switch kf p flags s) =
           [hd (kt_LastTime s) + (if and flags 0x200000 = 0 then 0 else kn_ktime kf 0 - kn_ktime ks 0)]"
proof -
  let ?s0 = "run sar_step es sar_maps"
  have s: "s = run sar_step (es @ (ks, Sar_switch prev p) # fs) sar_maps" by (simp add: assms(7))
  have shape: "sar_shape s" unfolding s by (rule sar_shape_run)
  have "length (procStartTime ?s0) = 1024" using sar_shape_run [of es] by (simp add: sar_shape_def)
  then have "sar_started p (trace_sched_switch2 ks prev p ?s0) = Some (kn_ktime ks 0)"
    using assms(1,3,4) by (simp add: sar_started_def trace_sched_switch2_def Let_def arr.lookup_update)
  then have "arr_lookup (procStartTime s) (unat p) = Some (kn_ktime ks 0)"
    using sar_frame [OF assms(5), of "trace_sched_switch2 ks prev p ?s0"] by (simp add: sar_started_def assms(7))
  moreover obtain u k where "ut_LastTime s = [u]" and "kt_LastTime s = [k]"
    using shape by (auto simp: sar_shape_def length_Suc_conv)
  ultimately show ?thesis
    using assms(2,6) by (simp add: sar_finish_task_switch_def Let_def arr_add_def arr_lookup_def [of "[_]"])
qed

theorem sar_user_time_witness:
  "ut_LastTime (sar_finish_task_switch (calm 9 9 50 ()) 7 0 (trace_sched_switch2 (calm 7 7 20 ()) 9 7 sar_maps)) = [30]"
  using sar_user_time [where p = 7 and prev = 9 and ks = "calm 7 7 20 ()" and kf = "calm 9 9 50 ()" and flags = 0
      and es = "[]" and fs = "[]" and s = "trace_sched_switch2 (calm 7 7 20 ()) 9 7 sar_maps"]
  by (simp add: trace_sched_switch2_def sar_maps_def Let_def)

text \<open>
  The start times are kept in an array of 1024 elements indexed by the pid: the time of a task
  with a larger pid is never accounted, whatever happened before.
\<close>

theorem sar_big_pid:
  assumes "1024 \<le> unat p"
  shows "sar_finish_task_switch kn p flags (run sar_step es sar_maps) = run sar_step es sar_maps"
  using sar_shape_run [of es] assms
  by (auto simp: sar_shape_def sar_finish_task_switch_def Let_def arr_lookup_def)

theorem sar_big_pid_witness:
  "sar_finish_task_switch (calm 9 9 50 ()) 2000 0 (run sar_step [(calm 0 0 20 (), Sar_switch 9 2000)] sar_maps) =
   run sar_step [(calm 0 0 20 (), Sar_switch 9 2000)] sar_maps"
  by (rule sar_big_pid) simp

end
