(* ===== verification/CwController.thy ===== *)
theory CwController imports Controller CwDelay CwMq CwSched CwSar begin

text \<open>
  The control program of the CPU watcher, \<open>cpu_watcher/controller.c\<close>, with the map updates of
  \<open>include/cpu_watcher_helper.h\<close>.  It is built like that of the process image (theory
  \<open>Controller\<close>), whose \<open>pins\<close>, \<open>argp\<close> and \<open>guarded\<close> are used here; the control maps are those of
  six of the kernel-side programs (\<open>mutrace\<close> has none).
\<close>

subsection \<open>Options\<close>

record wcenv =
  we_usemode :: s32
  we_SAR :: bool
  we_percent :: bool
  we_CS_DELAY :: bool
  we_SYSCALL_DELAY :: bool
  we_MIN_US_SET :: bool
  we_MIN_US :: s32
  we_PREEMPT :: bool
  we_SCHEDULE_DELAY :: bool
  we_MQ_DELAY :: bool
  we_freq :: s32

definition wcenv0 :: wcenv where
  "wcenv0 = \<lparr>we_usemode = 0, we_SAR = False, we_percent = False, we_CS_DELAY = False,
     we_SYSCALL_DELAY = False, we_MIN_US_SET = False, we_MIN_US = 10000, we_PREEMPT = False,
     we_SCHEDULE_DELAY = False, we_MQ_DELAY = False, we_freq = 99\<rparr>"

text \<open>
  The case \<open>'P'\<close> has no \<open>break\<close> and goes on with the body of \<open>'c'\<close>.  The threshold is checked after
  it has been stored in an \<open>int\<close>.
\<close>

definition wc_parse_arg :: "char \<Rightarrow> string option \<Rightarrow> wcenv \<Rightarrow> wcenv argp" where
  "wc_parse_arg key arg env =
     (if key = CHR ''a'' then Arg_ok (env\<lparr>we_usemode := 1\<rparr>)
      else if key = CHR ''u'' then Arg_ok (env\<lparr>we_usemode := 2\<rparr>)
      else if key = CHR ''f'' then Arg_ok (env\<lparr>we_usemode := 3\<rparr>)
      else if key = CHR ''s'' then Arg_ok (env\<lparr>we_SAR := True\<rparr>)
      else if key = CHR ''P'' then Arg_ok (env\<lparr>we_percent := True, we_CS_DELAY := True\<rparr>)
      else if key = CHR ''c'' then Arg_ok (env\<lparr>we_CS_DELAY := True\<rparr>)
      else if key = CHR ''S'' then Arg_ok (env\<lparr>we_SYSCALL_DELAY := True\<rparr>)
      else if key = CHR ''p'' then Arg_ok (env\<lparr>we_PREEMPT := True\<rparr>)
      else if key = CHR ''d'' then Arg_ok (env\<lparr>we_SCHEDULE_DELAY := True\<rparr>)
      else if key = CHR ''e'' then
        (let env = env\<lparr>we_MIN_US_SET := True\<rparr> in
         case arg of
           Some a \<Rightarrow>
             (let env = env\<lparr>we_MIN_US := word_of_int (fst (strtol a))\<rparr> in
              if we_MIN_US env \<le>s 0 then Arg_exit else Arg_ok env)
         | None \<Rightarrow> Arg_ok (env\<lparr>we_MIN_US := 10000\<rparr>))
      else if key = CHR ''m'' then Arg_ok (env\<lparr>we_MQ_DELAY := True\<rparr>)
      else if key = CHR ''h'' then Arg_exit
      else Arg_unknown)"

fun wc_parse :: "(char \<times> string option) list \<Rightarrow> wcenv \<Rightarrow> wcenv argp" where
  "wc_parse [] env = Arg_ok env"
| "wc_parse ((key, arg) # opts) env =
     (case wc_parse_arg key arg env of
        Arg_ok env \<Rightarrow> wc_parse opts env
      | Arg_unknown \<Rightarrow> Arg_unknown
      | Arg_exit \<Rightarrow> Arg_exit)"

subsection \<open>The control maps\<close>

record watch_st =
  wt_sar :: sar_st
  wt_cs :: cs_st
  wt_sc :: wsc_st
  wt_preempt :: preempt_st
  wt_sched :: wsched_st
  wt_mq :: mq_st

definition watch_maps :: watch_st where
  "watch_maps = \<lparr>wt_sar = sar_maps, wt_cs = cs_maps, wt_sc = wsc_maps, wt_preempt = preempt_maps,
     wt_sched = wsched_maps, wt_mq = mq_maps\<rparr>"

abbreviation (input) SAR_WACTHER :: s32 where "SAR_WACTHER \<equiv> 10"
abbreviation (input) CS_WACTHER :: s32 where "CS_WACTHER \<equiv> 20"
abbreviation (input) SC_WACTHER :: s32 where "SC_WACTHER \<equiv> 30"
abbreviation (input) PREEMPT_WACTHER :: s32 where "PREEMPT_WACTHER \<equiv> 40"
abbreviation (input) SCHEDULE_WACTHER :: s32 where "SCHEDULE_WACTHER \<equiv> 50"
abbreviation (input) MQ_WACTHER :: s32 where "MQ_WACTHER \<equiv> 60"

text \<open>The kernel's answers about a map are filed under its watcher's number.\<close>

definition update_sar_ctrl_map :: "pins \<Rightarrow> sar_ctrl \<Rightarrow> watch_st \<Rightarrow> s32 \<times> watch_st" where
  "update_sar_ctrl_map pn sar_ctrl s =
     (let srcmap_fd = pn_fd pn 10 in
      if srcmap_fd <s 0 then (srcmap_fd, s)
      else
        (let (err, m) = arr_update (pn_upd pn 10) (sar_ctrl_map (wt_sar s)) 0 sar_ctrl;
             s = s\<lparr>wt_sar := (wt_sar s)\<lparr>sar_ctrl_map := m\<rparr>\<rparr>
         in if err <s 0 then (err, s) else (0, s)))"

definition update_cs_ctrl_map :: "pins \<Rightarrow> cs_ctrl \<Rightarrow> watch_st \<Rightarrow> s32 \<times> watch_st" where
  "update_cs_ctrl_map pn cs_ctrl s =
     (let srcmap_fd = pn_fd pn 20 in
      if srcmap_fd <s 0 then (srcmap_fd, s)
      else
        (let (err, m) = arr_update (pn_upd pn 20) (cs_ctrl_map (wt_cs s)) 0 cs_ctrl;
             s = s\<lparr>wt_cs := (wt_cs s)\<lparr>cs_ctrl_map := m\<rparr>\<rparr>
         in if err <s 0 then (err, s) else (0, s)))"

definition update_wsc_ctrl_map :: "pins \<Rightarrow> wsc_ctrl \<Rightarrow> watch_st \<Rightarrow> s32 \<times> watch_st" where
  "update_wsc_ctrl_map pn sc_ctrl s =
     (let srcmap_fd = pn_fd pn 30 in
      if srcmap_fd <s 0 then (srcmap_fd, s)
      else
        (let (err, m) = arr_update (pn_upd pn 30) (wsc_ctrl_map (wt_sc s)) 0 sc_ctrl;
             s = s\<lparr>wt_sc := (wt_sc s)\<lparr>wsc_ctrl_map := m\<rparr>\<rparr>
         in if err <s 0 then (err, s) else (0, s)))"

definition update_preempt_ctrl_map :: "pins \<Rightarrow> preempt_ctrl \<Rightarrow> watch_st \<Rightarrow> s32 \<times> watch_st" where
  "update_preempt_ctrl_map pn preempt_ctrl s =
     (let srcmap_fd = pn_fd pn 40 in
      if srcmap_fd <s 0 then (srcmap_fd, s)
      else
        (let (err, m) = arr_update (pn_upd pn 40) (preempt_ctrl_map (wt_preempt s)) 0 preempt_ctrl;
             s = s\<lparr>wt_preempt := (wt_preempt s)\<lparr>preempt_ctrl_map := m\<rparr>\<rparr>
         in if err <s 0 then (err, s) else (0, s)))"

definition update_schedule_ctrl_map :: "pins \<Rightarrow> schedule_ctrl \<Rightarrow> watch_st \<Rightarrow> s32 \<times> watch_st" where
  "update_schedule_ctrl_map pn schedule_ctrl s =
     (let srcmap_fd = pn_fd pn 50 in
      if srcmap_fd <s 0 then (srcmap_fd, s)
      else
        (let (err, m) = arr_update (pn_upd pn 50) (schedule_ctrl_map (wt_sched s)) 0 schedule_ctrl;
             s = s\<lparr>wt_sched := (wt_sched s)\<lparr>schedule_ctrl_map := m\<rparr>\<rparr>
         in if err <s 0 then (err, s) else (0, s)))"

definition update_mq_ctrl_map :: "pins \<Rightarrow> mq_ctrl \<Rightarrow> watch_st \<Rightarrow> s32 \<times> watch_st" where
  "update_mq_ctrl_map pn mq_ctrl s =
     (let srcmap_fd = pn_fd pn 60 in
      if srcmap_fd <s 0 then (srcmap_fd, s)
      else
        (let (err, m) = arr_update (pn_upd pn 60) (mq_ctrl_map (wt_mq s)) 0 mq_ctrl;
             s = s\<lparr>wt_mq := (wt_mq s)\<lparr>mq_ctrl_map := m\<rparr>\<rparr>
         in if err <s 0 then (err, s) else (0, s)))"

subsection \<open>The modes\<close>

definition wc_deactivate_mode :: "pins \<Rightarrow> wcenv \<Rightarrow> watch_st \<Rightarrow> s32 \<times> watch_st" where
  "wc_deactivate_mode pn env =
     guarded (we_SAR env) (update_sar_ctrl_map pn
       \<lparr>sar_func = False, sar_percent = False, sar_prev_watcher = 0\<rparr>)
    (guarded (we_CS_DELAY env) (update_cs_ctrl_map pn \<lparr>cs_func = False, cs_prev_watcher = 0\<rparr>)
    (guarded (we_SYSCALL_DELAY env) (update_wsc_ctrl_map pn \<lparr>wsc_func = False, wsc_prev_watcher = 0\<rparr>)
    (guarded (we_PREEMPT env) (update_preempt_ctrl_map pn \<lparr>preempt_func = False, pe_prev_watcher = 0\<rparr>)
    (guarded (we_SCHEDULE_DELAY env) (update_schedule_ctrl_map pn
       \<lparr>wsd_func = False, wsd_min_us_set = False, wsd_min_us = 10000, wsd_prev_watcher = 0\<rparr>)
    (guarded (we_MQ_DELAY env) (update_mq_ctrl_map pn \<lparr>mq_func = False, mq_prev_watcher = 0\<rparr>)
    (\<lambda>s. (0, s)))))))"

definition wc_activate_mode :: "pins \<Rightarrow> wcenv \<Rightarrow> watch_st \<Rightarrow> s32 \<times> watch_st" where
  "wc_activate_mode pn env =
     guarded (we_SAR env) (update_sar_ctrl_map pn
       \<lparr>sar_func = True, sar_percent = we_percent env,
        sar_prev_watcher = SAR_WACTHER + of_bool (we_percent env)\<rparr>)
    (guarded (we_CS_DELAY env) (update_cs_ctrl_map pn \<lparr>cs_func = True, cs_prev_watcher = CS_WACTHER\<rparr>)
    (guarded (we_SYSCALL_DELAY env) (update_wsc_ctrl_map pn \<lparr>wsc_func = True, wsc_prev_watcher = SC_WACTHER\<rparr>)
    (guarded (we_PREEMPT env) (update_preempt_ctrl_map pn
       \<lparr>preempt_func = True, pe_prev_watcher = PREEMPT_WACTHER\<rparr>)
    (guarded (we_SCHEDULE_DELAY env) (update_schedule_ctrl_map pn
       \<lparr>wsd_func = True, wsd_min_us_set = we_MIN_US_SET env, wsd_min_us = we_MIN_US env,
        wsd_prev_watcher = SCHEDULE_WACTHER + of_bool (we_MIN_US_SET env)\<rparr>)
    (guarded (we_MQ_DELAY env) (update_mq_ctrl_map pn \<lparr>mq_func = True, mq_prev_watcher = MQ_WACTHER\<rparr>)
    (\<lambda>s. (0, s)))))))"

text \<open>
  \<open>main\<close>: the result of the process and whether it ran the command \<open>pkill cpu_watcher\<close>.  The signal
  handlers it installs run \<open>deactivate_mode\<close>, but the program does not wait for a signal.
\<close>

datatype wc_end = Wc_returns s32 bool watch_st | Wc_exits

definition wc_main :: "pins \<Rightarrow> (char \<times> string option) list \<Rightarrow> watch_st \<Rightarrow> wc_end" where
  "wc_main pn opts s =
     (case wc_parse opts wcenv0 of
        Arg_exit \<Rightarrow> Wc_exits
      | Arg_unknown \<Rightarrow> Wc_returns EINVAL False s
      | Arg_ok env \<Rightarrow>
          if we_usemode env = 1 then
            (let (err, s) = wc_activate_mode pn env s in Wc_returns err False s)
          else if we_usemode env = 2 then
            (let (err, s) = wc_deactivate_mode pn env s in
             if err <s 0 then Wc_returns err False s else Wc_returns 0 False s)
          else if we_usemode env = 3 then Wc_returns 0 True s
          else Wc_returns 0 False s)"

end
