(* ===== verification/CwControllerProps.thy ===== *)
theory CwControllerProps imports CwController begin

text \<open>
  The properties of the watcher's control program.  It writes exactly the control blocks of the
  tools it was asked for (\<open>wc_activate_selects\<close>, \<open>wc_deactivate_off\<close>), but the kernel-side
  programs do not read them: deactivation changes nothing of what they record and report
  (\<open>wc_silences_nothing\<close>).
\<close>

subsection \<open>The control blocks\<close>

definition wc_pins_ok :: "pins \<Rightarrow> bool" where
  "wc_pins_ok pn \<longleftrightarrow> (\<forall>i. \<not> pn_fd pn i <s 0 \<and> pn_upd pn i = 0)"

definition wc_loaded :: "watch_st \<Rightarrow> bool" where
  "wc_loaded s \<longleftrightarrow> length (sar_ctrl_map (wt_sar s)) = 1 \<and> length (cs_ctrl_map (wt_cs s)) = 1 \<and>
     length (wsc_ctrl_map (wt_sc s)) = 1 \<and> length (preempt_ctrl_map (wt_preempt s)) = 1 \<and>
     length (schedule_ctrl_map (wt_sched s)) = 1 \<and> length (mq_ctrl_map (wt_mq s)) = 1"

definition set_sar_ctrl :: "sar_ctrl list \<Rightarrow> sar_st \<Rightarrow> sar_st" where "set_sar_ctrl c s = s\<lparr>sar_ctrl_map := c\<rparr>"
definition set_cs_ctrl :: "cs_ctrl list \<Rightarrow> cs_st \<Rightarrow> cs_st" where "set_cs_ctrl c s = s\<lparr>cs_ctrl_map := c\<rparr>"
definition set_wsc_ctrl :: "wsc_ctrl list \<Rightarrow> wsc_st \<Rightarrow> wsc_st" where "set_wsc_ctrl c s = s\<lparr>wsc_ctrl_map := c\<rparr>"
definition set_preempt_ctrl :: "preempt_ctrl list \<Rightarrow> preempt_st \<Rightarrow> preempt_st" where
  "set_preempt_ctrl c s = s\<lparr>preempt_ctrl_map := c\<rparr>"
definition set_wsched_ctrl :: "schedule_ctrl list \<Rightarrow> wsched_st \<Rightarrow> wsched_st" where
  "set_wsched_ctrl c s = s\<lparr>schedule_ctrl_map := c\<rparr>"
definition set_mq_ctrl :: "mq_ctrl list \<Rightarrow> mq_st \<Rightarrow> mq_st" where "set_mq_ctrl c s = s\<lparr>mq_ctrl_map := c\<rparr>"

lemmas set_ctrl_defs = set_sar_ctrl_def set_cs_ctrl_def set_wsc_ctrl_def set_preempt_ctrl_def
  set_wsched_ctrl_def set_mq_ctrl_def

lemma wc_list_one: "length xs = 1 \<Longrightarrow> xs[0 := x] = [x]"
  by (cases xs) simp_all

lemma wc_guarded_put:
  assumes "wc_pins_ok pn" and "wc_loaded s"
  shows "guarded b (update_sar_ctrl_map pn c1) rest s =
           rest (if b then s\<lparr>wt_sar := set_sar_ctrl [c1] (wt_sar s)\<rparr> else s)"
    and "guarded b (update_cs_ctrl_map pn c2) rest s =
           rest (if b then s\<lparr>wt_cs := set_cs_ctrl [c2] (wt_cs s)\<rparr> else s)"
    and "guarded b (update_wsc_ctrl_map pn c3) rest s =
           rest (if b then s\<lparr>wt_sc := set_wsc_ctrl [c3] (wt_sc s)\<rparr> else s)"
    and "guarded b (update_preempt_ctrl_map pn c4) rest s =
           rest (if b then s\<lparr>wt_preempt := set_preempt_ctrl [c4] (wt_preempt s)\<rparr> else s)"
    and "guarded b (update_schedule_ctrl_map pn c5) rest s =
           rest (if b then s\<lparr>wt_sched := set_wsched_ctrl [c5] (wt_sched s)\<rparr> else s)"
    and "guarded b (update_mq_ctrl_map pn c6) rest s =
           rest (if b then s\<lparr>wt_mq := set_mq_ctrl [c6] (wt_mq s)\<rparr> else s)"
  using assms
  by (simp_all add: guarded_def wc_pins_ok_def wc_loaded_def wc_list_one arr_update_def Let_def set_ctrl_defs
      update_sar_ctrl_map_def update_cs_ctrl_map_def update_wsc_ctrl_map_def update_preempt_ctrl_map_def
      update_schedule_ctrl_map_def update_mq_ctrl_map_def)

lemma wc_loaded_put:
  "wc_loaded s \<Longrightarrow> wc_loaded (if b then s\<lparr>wt_sar := set_sar_ctrl [c1] (wt_sar s)\<rparr> else s)"
  "wc_loaded s \<Longrightarrow> wc_loaded (if b then s\<lparr>wt_cs := set_cs_ctrl [c2] (wt_cs s)\<rparr> else s)"
  "wc_loaded s \<Longrightarrow> wc_loaded (if b then s\<lparr>wt_sc := set_wsc_ctrl [c3] (wt_sc s)\<rparr> else s)"
  "wc_loaded s \<Longrightarrow> wc_loaded (if b then s\<lparr>wt_preempt := set_preempt_ctrl [c4] (wt_preempt s)\<rparr> else s)"
  "wc_loaded s \<Longrightarrow> wc_loaded (if b then s\<lparr>wt_sched := set_wsched_ctrl [c5] (wt_sched s)\<rparr> else s)"
  "wc_loaded s \<Longrightarrow> wc_loaded (if b then s\<lparr>wt_mq := set_mq_ctrl [c6] (wt_mq s)\<rparr> else s)"
  by (simp_all add: wc_loaded_def set_ctrl_defs)

text \<open>What a mode leaves in each tool: the new block if the tool was asked for, the old state if not.\<close>

definition wc_puts :: "wcenv \<Rightarrow> sar_ctrl \<Rightarrow> cs_ctrl \<Rightarrow> wsc_ctrl \<Rightarrow> preempt_ctrl \<Rightarrow> schedule_ctrl \<Rightarrow> mq_ctrl \<Rightarrow>
    watch_st \<Rightarrow> watch_st" where
  "wc_puts env c1 c2 c3 c4 c5 c6 s =
     \<lparr>wt_sar = (if we_SAR env then set_sar_ctrl [c1] (wt_sar s) else wt_sar s),
      wt_cs = (if we_CS_DELAY env then set_cs_ctrl [c2] (wt_cs s) else wt_cs s),
      wt_sc = (if we_SYSCALL_DELAY env then set_wsc_ctrl [c3] (wt_sc s) else wt_sc s),
      wt_preempt = (if we_PREEMPT env then set_preempt_ctrl [c4] (wt_preempt s) else wt_preempt s),
      wt_sched = (if we_SCHEDULE_DELAY env then set_wsched_ctrl [c5] (wt_sched s) else wt_sched s),
      wt_mq = (if we_MQ_DELAY env then set_mq_ctrl [c6] (wt_mq s) else wt_mq s)\<rparr>"

lemma wc_modes_put:
  assumes "wc_pins_ok pn" and "wc_loaded s"
  shows "wc_activate_mode pn env s = (0, wc_puts env
       \<lparr>sar_func = True, sar_percent = we_percent env, sar_prev_watcher = 10 + of_bool (we_percent env)\<rparr>
       \<lparr>cs_func = True, cs_prev_watcher = 20\<rparr> \<lparr>wsc_func = True, wsc_prev_watcher = 30\<rparr>
       \<lparr>preempt_func = True, pe_prev_watcher = 40\<rparr>
       \<lparr>wsd_func = True, wsd_min_us_set = we_MIN_US_SET env, wsd_min_us = we_MIN_US env,
        wsd_prev_watcher = 50 + of_bool (we_MIN_US_SET env)\<rparr>
       \<lparr>mq_func = True, mq_prev_watcher = 60\<rparr> s)"
    and "wc_deactivate_mode pn env s = (0, wc_puts env
       \<lparr>sar_func = False, sar_percent = False, sar_prev_watcher = 0\<rparr>
       \<lparr>cs_func = False, cs_prev_watcher = 0\<rparr> \<lparr>wsc_func = False, wsc_prev_watcher = 0\<rparr>
       \<lparr>preempt_func = False, pe_prev_watcher = 0\<rparr>
       \<lparr>wsd_func = False, wsd_min_us_set = False, wsd_min_us = 10000, wsd_prev_watcher = 0\<rparr>
       \<lparr>mq_func = False, mq_prev_watcher = 0\<rparr> s)"
  using assms
  by (simp_all only: wc_activate_mode_def wc_deactivate_mode_def wc_guarded_put wc_loaded_put)
    (simp_all add: wc_puts_def)

lemma wc_deactivate_off:
  assumes "wc_pins_ok pn" and "wc_loaded s"
  shows "fst (wc_deactivate_mode pn env s) = 0"
    and "we_SAR env \<Longrightarrow> get_sar_ctrl (wt_sar (snd (wc_deactivate_mode pn env s))) = None"
    and "we_CS_DELAY env \<Longrightarrow> get_cs_ctrl (wt_cs (snd (wc_deactivate_mode pn env s))) = None"
    and "we_SYSCALL_DELAY env \<Longrightarrow> get_sc_ctrl (wt_sc (snd (wc_deactivate_mode pn env s))) = None"
    and "we_PREEMPT env \<Longrightarrow> get_preempt_ctrl (wt_preempt (snd (wc_deactivate_mode pn env s))) = None"
    and "we_SCHEDULE_DELAY env \<Longrightarrow> get_schedule_ctrl (wt_sched (snd (wc_deactivate_mode pn env s))) = None"
    and "we_MQ_DELAY env \<Longrightarrow> get_mq_ctrl (wt_mq (snd (wc_deactivate_mode pn env s))) = None"
  by (simp_all add: wc_modes_put [OF assms] wc_puts_def set_ctrl_defs arr_lookup_def
      get_sar_ctrl_def get_cs_ctrl_def get_sc_ctrl_def get_preempt_ctrl_def get_schedule_ctrl_def get_mq_ctrl_def)

text \<open>
  When the control maps are pinned and the kernel accepts the updates, activation returns 0;
  each tool that was asked for is switched on with the parameters of the options (the percentages,
  the threshold and the watcher's number with them), and every other tool keeps its state.
\<close>

theorem wc_activate_selects:
  assumes "wc_pins_ok pn" and "wc_loaded s" and "wc_activate_mode pn env s = (err, s')"
  shows "err = 0 \<and>
     (if we_SAR env then get_sar_ctrl (wt_sar s') = Some \<lparr>sar_func = True, sar_percent = we_percent env,
        sar_prev_watcher = 10 + of_bool (we_percent env)\<rparr> else wt_sar s' = wt_sar s) \<and>
     (if we_CS_DELAY env then get_cs_ctrl (wt_cs s') = Some \<lparr>cs_func = True, cs_prev_watcher = 20\<rparr>
      else wt_cs s' = wt_cs s) \<and>
     (if we_SYSCALL_DELAY env then get_sc_ctrl (wt_sc s') = Some \<lparr>wsc_func = True, wsc_prev_watcher = 30\<rparr>
      else wt_sc s' = wt_sc s) \<and>
     (if we_PREEMPT env then get_preempt_ctrl (wt_preempt s') = Some \<lparr>preempt_func = True, pe_prev_watcher = 40\<rparr>
      else wt_preempt s' = wt_preempt s) \<and>
     (if we_SCHEDULE_DELAY env then get_schedule_ctrl (wt_sched s') = Some \<lparr>wsd_func = True,
        wsd_min_us_set = we_MIN_US_SET env, wsd_min_us = we_MIN_US env,
        wsd_prev_watcher = 50 + of_bool (we_MIN_US_SET env)\<rparr> else wt_sched s' = wt_sched s) \<and>
     (if we_MQ_DELAY env then get_mq_ctrl (wt_mq s') = Some \<lparr>mq_func = True, mq_prev_watcher = 60\<rparr>
      else wt_mq s' = wt_mq s)"
proof -
  have modes: "err = fst (wc_activate_mode pn env s)" "s' = snd (wc_activate_mode pn env s)"
    using assms(3) by simp_all
  note puts = modes(2) wc_modes_put(1) [OF assms(1,2)] wc_puts_def set_ctrl_defs arr_lookup_def
  show ?thesis
    by (intro conjI)
      (simp_all add: modes(1) puts get_sar_ctrl_def get_cs_ctrl_def get_sc_ctrl_def get_preempt_ctrl_def
        get_schedule_ctrl_def get_mq_ctrl_def)
qed

definition wc_pins :: pins where
  "wc_pins = \<lparr>pn_fd = (\<lambda>_. 3), pn_upd = (\<lambda>_. 0)\<rparr>"

lemma wc_pins_fine: "wc_pins_ok wc_pins"
  by (simp add: wc_pins_ok_def wc_pins_def word_sless_alt)

lemma wc_maps_loaded: "wc_loaded watch_maps"
  by (simp add: wc_loaded_def watch_maps_def sar_maps_def cs_maps_def wsc_maps_def preempt_maps_def
      wsched_maps_def mq_maps_def)

theorem wc_activate_selects_witness:
  "get_sar_ctrl (wt_sar (snd (wc_activate_mode wc_pins (wcenv0\<lparr>we_SAR := True, we_percent := True\<rparr>) watch_maps))) =
     Some \<lparr>sar_func = True, sar_percent = True, sar_prev_watcher = 11\<rparr>"
  using wc_activate_selects [OF wc_pins_fine wc_maps_loaded,
      where env = "wcenv0\<lparr>we_SAR := True, we_percent := True\<rparr>", OF prod.collapse [symmetric]]
  by (simp add: wcenv0_def)

subsection \<open>The probes do not read them\<close>

interpretation sar_ungated: ungated_tool sar_step set_sar_ctrl
proof unfold_locales
  show "sar_step e (set_sar_ctrl c s) = set_sar_ctrl c (sar_step e s)" for e c s
    by (cases e; cases "snd e")
      (auto simp: set_sar_ctrl_def sar_forks_def trace_sched_switch2_def sar_finish_task_switch_def
        update_rq_clock_def trace_softirq_entry_def trace_softirq_exit_def trace_irq_handler_entry_def
        trace_irq_handler_exit_def trace_cpu_idle_def tick_update_def Let_def split: option.splits)
qed

interpretation cs_ungated: ungated_tool cs_step set_cs_ctrl
proof unfold_locales
  show "cs_step e (set_cs_ctrl c s) = set_cs_ctrl c (cs_step e s)" for e c s
    by (cases e; cases "snd e")
      (auto simp: set_cs_ctrl_def cs_schedule_def cs_schedule_exit_def Let_def split: option.splits)
qed

interpretation wsc_ungated: ungated_tool wsc_step set_wsc_ctrl
proof unfold_locales
  show "wsc_step e (set_wsc_ctrl c s) = set_wsc_ctrl c (wsc_step e s)" for e c s
    by (cases e; cases "snd e")
      (auto simp: set_wsc_ctrl_def wsc_sys_enter_def wsc_sys_exit_def Let_def split: option.splits)
qed

interpretation pe_ungated: ungated_tool pe_step set_preempt_ctrl
proof unfold_locales
  show "pe_step e (set_preempt_ctrl c s) = set_preempt_ctrl c (pe_step e s)" for e c s
    by (cases e; cases "snd e")
      (auto simp: set_preempt_ctrl_def pe_sched_switch_def pe_finish_task_switch_def Let_def split: option.splits)
qed

interpretation mq_ungated: ungated_tool mq_step set_mq_ctrl
proof unfold_locales
  show "mq_step e (set_mq_ctrl c s) = set_mq_ctrl c (mq_step e s)" for e c s
    by (cases e; cases "snd e")
      (auto simp: set_mq_ctrl_def mq_timedsend_def load_msg_enter_def load_msg_exit_def
        do_mq_timedsend_exit_def mq_timedreceive_entry_def mq_store_msg_def do_mq_timedreceive_exit_def
        Let_def split: option.splits)
qed

text \<open>What the activity report reads.\<close>

definition sar_step_reports :: "sar_st \<Rightarrow> u64 list \<times> s32 list \<times> (u32, u64) hmap \<times> u64 list list" where
  "sar_step_reports s = (countMap s, runqlen s, softirqLastTime s,
     [irq_Last_time s, idleLastTime s, kt_LastTime s, ut_LastTime s, tick_user s])"

text \<open>
  C40. Deactivation does not stop the kernel side: when the control maps are pinned and the
  kernel accepts the updates, the five programs other than the scheduling one go on to submit the
  same records and to count the same times as if the control program had not been run.
\<close>

theorem wc_silences_nothing:
  assumes "wc_pins_ok pn" and "wc_loaded s"
  shows "sar_step_reports (run sar_step es_sar (wt_sar (snd (wc_deactivate_mode pn env s)))) =
           sar_step_reports (run sar_step es_sar (wt_sar s)) \<and>
     cs_rb (run cs_step es_cs (wt_cs (snd (wc_deactivate_mode pn env s)))) = cs_rb (run cs_step es_cs (wt_cs s)) \<and>
     wsc_rb (run wsc_step es_sc (wt_sc (snd (wc_deactivate_mode pn env s)))) = wsc_rb (run wsc_step es_sc (wt_sc s)) \<and>
     preempt_rb (run pe_step es_pe (wt_preempt (snd (wc_deactivate_mode pn env s)))) =
       preempt_rb (run pe_step es_pe (wt_preempt s)) \<and>
     mq_rb (run mq_step es_mq (wt_mq (snd (wc_deactivate_mode pn env s)))) = mq_rb (run mq_step es_mq (wt_mq s))"
  by (simp add: wc_modes_put [OF assms] wc_puts_def sar_ungated.run_ctrl cs_ungated.run_ctrl
      wsc_ungated.run_ctrl pe_ungated.run_ctrl mq_ungated.run_ctrl)
    (simp add: set_ctrl_defs sar_step_reports_def)

theorem wc_silences_nothing_witness:
  "cs_rb (run cs_step [(calm 7 7 1000 \<lparr>cse_t1 = 0, cse_t2 = 0, cse_delay = 0\<rparr>, Cs_schedule_exit)]
     (wt_cs (snd (wc_deactivate_mode wc_pins (wcenv0\<lparr>we_CS_DELAY := True\<rparr>) watch_maps)))) \<noteq> []"
  using wc_silences_nothing [OF wc_pins_fine wc_maps_loaded, where env = "wcenv0\<lparr>we_CS_DELAY := True\<rparr>" and es_sar = "[]"
      and es_cs = "[(calm 7 7 1000 \<lparr>cse_t1 = 0, cse_t2 = 0, cse_delay = 0\<rparr>, Cs_schedule_exit)]"
      and es_sc = "[]" and es_pe = "[]" and es_mq = "[]"]
  by (simp add: watch_maps_def cs_maps_def cs_schedule_exit_def arr_lookup_def Let_def)

end
