(* ===== verification/CwUser.thy ===== *)
theory CwUser imports CwDelay CwMq CwMutrace CwSched CwSar begin

text \<open>
  The user side of \<open>cpu_watcher\<close>: what \<open>cpu_watcher.c\<close> does with the records and counters of the
  kernel-side programs, and the tables of \<open>include/cpu_watcher_helper.h\<close> it keeps for that.  What is
  printed is a value; the clock and the layout of the lines are left out.

  Floating-point numbers are not modelled: where the code divides a number by a constant to print
  it, the model keeps the number, and the two places where a \<open>double\<close> decides something (the filter
  \<open>dynamic_filter\<close>, the user time in \<open>print_all\<close>) are parameters.
\<close>

subsection \<open>The table of lock counts (\<open>cpu_watcher_helper.h\<close>)\<close>

record lock_count =
  lc_ptr :: u64
  lc_count :: u64

abbreviation (input) HASH_SIZE :: nat where "HASH_SIZE \<equiv> 1024"

definition lock_counts0 :: "lock_count list" where
  "lock_counts0 = replicate HASH_SIZE \<lparr>lc_ptr = 0, lc_count = 0\<rparr>"

definition lc_hash :: "u64 \<Rightarrow> nat" where
  "lc_hash ptr = unat ptr mod HASH_SIZE"

text \<open>The probing loop, which ends at a slot that is empty or holds the pointer: \<open>None\<close> if it never does.\<close>

partial_function (option) lc_find :: "lock_count list \<Rightarrow> u64 \<Rightarrow> nat \<Rightarrow> nat option" where
  "lc_find t ptr h =
     (if lc_ptr (t ! h) \<noteq> 0 \<and> lc_ptr (t ! h) \<noteq> ptr then lc_find t ptr ((h + 1) mod HASH_SIZE)
      else Some h)"

definition increment_lock_count :: "u64 \<Rightarrow> lock_count list \<Rightarrow> lock_count list option" where
  "increment_lock_count ptr t =
     (case lc_find t ptr (lc_hash ptr) of None \<Rightarrow> None
      | Some h \<Rightarrow>
          Some (if lc_ptr (t ! h) = 0 then t[h := \<lparr>lc_ptr = ptr, lc_count = 1\<rparr>]
                else t[h := (t ! h)\<lparr>lc_count := lc_count (t ! h) + 1\<rparr>]))"

definition get_lock_count :: "lock_count list \<Rightarrow> u64 \<Rightarrow> u64 option" where
  "get_lock_count t ptr =
     (case lc_find t ptr (lc_hash ptr) of None \<Rightarrow> None
      | Some h \<Rightarrow> Some (if lc_ptr (t ! h) = 0 then 0 else lc_count (t ! h)))"

subsection \<open>The entries already shown (\<open>cpu_watcher_helper.h\<close>)\<close>

record output_entry =
  oe_pid :: s32
  oe_comm :: comm
  oe_delay :: u64

abbreviation (input) MAX_ENTRIES :: nat where "MAX_ENTRIES \<equiv> 102400"

text \<open>\<open>strncpy\<close> into 16 bytes; a name of 16 bytes or more keeps no terminator, which \<open>cs_comm\<close> shows
  as the first 16 bytes (what follows them in the structure is read by \<open>strcmp\<close>, not modelled).\<close>

definition entry_exists :: "output_entry list \<Rightarrow> s32 \<Rightarrow> comm \<Rightarrow> u64 \<Rightarrow> bool" where
  "entry_exists seen pid comm delay =
     list_ex (\<lambda>e. oe_pid e = pid \<and> oe_comm e = comm \<and> oe_delay e = delay) seen"

definition add_entry :: "s32 \<Rightarrow> comm \<Rightarrow> u64 \<Rightarrow> output_entry list \<Rightarrow> output_entry list" where
  "add_entry pid comm delay seen =
     (if length seen < MAX_ENTRIES
      then seen @ [\<lparr>oe_pid = pid, oe_comm = take 16 comm, oe_delay = delay\<rparr>] else seen)"

subsection \<open>The histogram of \<open>cs_delay\<close>\<close>

text \<open>\<open>while (dly > 1) { dly /= 2; i++; }\<close>\<close>

function log2_loop :: "int \<Rightarrow> nat \<Rightarrow> nat" where
  "log2_loop dly i = (if dly > 1 then log2_loop (dly div 2) (i + 1) else i)"
  by auto
termination by (relation "measure (\<lambda>(d, i). nat d)") auto

declare log2_loop.simps [simp del]

definition count0 :: "s32 list" where
  "count0 = replicate 25 0"

text \<open>The delay is cut to an \<open>int\<close>.  \<open>None\<close>: the element written is not one of the array's 25.\<close>

definition handle_event :: "cs_event \<Rightarrow> s32 list \<Rightarrow> s32 list option" where
  "handle_event e count =
     (let dly = sint (ucast (cse_delay e) :: s32); i = log2_loop dly 0
      in if i < length count then Some (count[i := count ! i + 1]) else None)"

fun handle_events :: "cs_event list \<Rightarrow> s32 list \<Rightarrow> s32 list option" where
  "handle_events [] count = Some count"
| "handle_events (e # es) count =
     (case handle_event e count of None \<Rightarrow> None | Some count \<Rightarrow> handle_events es count)"

text \<open>The stars of one row; \<open>None\<close> if the second loop does not end.\<close>

partial_function (option) hstgram_loop :: "int \<Rightarrow> int \<Rightarrow> nat \<Rightarrow> nat option" where
  "hstgram_loop cnt per_len stars =
     (if cnt - per_len \<ge> 0 then hstgram_loop (cnt - per_len) per_len (stars + 1) else Some stars)"

text \<open>With \<open>per_len == 1\<close> the first loop prints \<open>cnt\<close> stars and leaves \<open>cnt\<close> at 0 (or below).\<close>

definition print_hstgram :: "int \<Rightarrow> int \<Rightarrow> nat option" where
  "print_hstgram cnt per_len =
     (if per_len = 1 then hstgram_loop (min cnt 0) per_len (nat cnt) else hstgram_loop cnt per_len 0)"

text \<open>\<open>while (tmp >= 10) { tmp /= 10; cnt++; }\<close>\<close>

function log10_loop :: "int \<Rightarrow> nat \<Rightarrow> nat" where
  "log10_loop tmp cnt = (if tmp \<ge> 10 then log10_loop (tmp div 10) (cnt + 1) else cnt)"
  by auto
termination by (relation "measure (\<lambda>(d, i). nat d)") auto

declare log10_loop.simps [simp del]

text \<open>The number of the first ten rows with a given number of digits.\<close>

definition log10_table :: "s32 list \<Rightarrow> nat list" where
  "log10_table count =
     fold (\<lambda>i t. (let c = log10_loop (sint (count ! i)) 0 in t[c := t ! c + 1])) [0..<10] (replicate 15 0)"

text \<open>
  The loop that is to find the most frequent number of digits: it compares with, and then stores,
  the index and not the number.
\<close>

definition find_max :: "nat list \<Rightarrow> nat" where
  "find_max log10 = fold (\<lambda>i max. if max < log10 ! i then i else max) [0..<10] 0"

definition histogram_per_len :: "s32 list \<Rightarrow> int" where
  "histogram_per_len count = 10 ^ find_max (log10_table count)"

text \<open>The rows: bounds, count and stars.  The first two are written out in the code.\<close>

definition histogram :: "s32 list \<Rightarrow> (int \<times> int \<times> s32 \<times> nat option) list" where
  "histogram count =
     (let per_len = histogram_per_len count;
          row = (\<lambda>i. print_hstgram (sint (count ! i)) per_len)
      in (0, 1, count ! 0, row 0) # (2, 3, count ! 1, row 1) #
         map (\<lambda>i. (2 ^ i, 2 ^ (i + 1) - 1, count ! i, row i)) [2..<20])"

subsection \<open>Records that are printed\<close>

text \<open>\<open>Shown\<close>: a line is printed with these values; \<open>Hidden\<close>: none; \<open>Failed\<close>: the callback returns -1.\<close>

datatype 'a shown = Shown 'a | Hidden | Failed

definition syscall_delay_print ::
  "s32 \<Rightarrow> bool \<Rightarrow> ('w \<Rightarrow> u64 \<Rightarrow> bool \<times> 'w) \<Rightarrow> wsc_st \<Rightarrow> syscall_events \<Rightarrow> 'w \<Rightarrow> (s32 \<times> u64 \<times> u64) shown \<times> 'w" where
  "syscall_delay_print err ewma dynamic_filter s e w =
     (if err <s 0 then (Failed, w)
      else if \<not> wsc_func (hd (wsc_ctrl_map s)) then (Hidden, w)
      else if se_delay e > 1000000 then (Hidden, w)
      else if \<not> ewma then (Shown (se_pid e, se_syscall_id e, se_delay e), w)
      else (let (keep, w) = dynamic_filter w (se_delay e)
            in (if keep then Shown (se_pid e, se_syscall_id e, se_delay e) else Hidden, w)))"

record preempt_sum =
  ps_count :: s32
  ps_sum :: s32
  ps_start_print :: bool

definition preempt_print :: "preempt_event \<Rightarrow> preempt_sum \<Rightarrow> preempt_sum" where
  "preempt_print e s = s\<lparr>ps_count := ps_count s + 1, ps_sum := ucast (scast (ps_sum s) + pev_duration e)\<rparr>"

text \<open>
  The part of the loop of \<open>main\<close> after the poll: it prints the average of the last period except the
  first time, and starts a new one.  \<open>None\<close>: the division by the number of events traps.
\<close>

definition preempt_period :: "preempt_sum \<Rightarrow> (int option \<times> preempt_sum) option" where
  "preempt_period s =
     (let s' = \<lparr>ps_count = 0, ps_sum = 0, ps_start_print = True\<rparr> in
      if \<not> ps_start_print s then Some (None, s')
      else if ps_count s = 0 then None
      else Some (Some (sgn (sint (ps_sum s)) * sgn (sint (ps_count s)) *
                       (\<bar>sint (ps_sum s)\<bar> div \<bar>sint (ps_count s)\<bar>)), s'))"

definition mutrace_print ::
  "mutex_contention_event \<Rightarrow> lock_count list \<Rightarrow> ((mutex_contention_event \<times> u64) shown \<times> lock_count list) option" where
  "mutrace_print e t =
     (if mc_owner_pid e = 0 \<or> mc_contender_pid e = 0 \<or> mc_owner_pid e = 1 then Some (Hidden, t)
      else case increment_lock_count (mc_ptr e) t of None \<Rightarrow> None
        | Some t \<Rightarrow> (case get_lock_count t (mc_ptr e) of None \<Rightarrow> None
            | Some contention_count \<Rightarrow> Some (Shown (e, contention_count), t)))"

text \<open>
  The three delays of a message, each the list of the differences (in nanoseconds) that the code
  converts to milliseconds and adds.
\<close>

datatype mq_line = Mq_erro | Mq_line "u64 list" "u64 list" "u64 list"

definition mq_event :: "mq_events \<Rightarrow> mq_line" where
  "mq_event e =
     (if me_send_enter_time e = 0 \<or> me_send_exit_time e = 0 \<or> me_rcv_enter_time e = 0 \<or> me_rcv_exit_time e = 0
      then Mq_erro
      else
        (let send_delay = me_send_exit_time e - me_send_enter_time e;
             rcv_delay = me_rcv_exit_time e - me_rcv_enter_time e;
             delay = me_rcv_exit_time e - me_send_enter_time e
         in Mq_line [send_delay] [rcv_delay]
              (if me_send_enter_time e < me_rcv_enter_time e then [delay] else [delay, send_delay, rcv_delay])))"


subsection \<open>The scheduling report\<close>

text \<open>
  \<open>schedule_print\<close>.  The kernel's errors are given per call, in source order; the entries of an
  array are always found, that of \<open>proc_histories\<close> only if it is there.  \<open>Sp_trap\<close>: the division by
  the number of delays traps.
\<close>

record sp_user =
  sp_ifprint :: bool
  sp_seen :: "output_entry list"

datatype sp_out =
    Sp_err
  | Sp_off
  | Sp_trap
  | Sp_first
  | Sp_sums u64 u64 comm u64 comm
  | Sp_proc s32 comm u64 "(nat \<times> proc_info) list"
  | Sp_none

definition schedule_header :: "(nat \<Rightarrow> s32) \<Rightarrow> schedule_ctrl \<Rightarrow> wsched_st \<Rightarrow> wsched_st" where
  "schedule_header err c s =
     (if wsd_prev_watcher c = 50 \<or> wsd_prev_watcher c = 51
      then s\<lparr>schedule_ctrl_map := snd (arr_update (err 1) (schedule_ctrl_map s) 0 (c\<lparr>wsd_prev_watcher := 59\<rparr>))\<rparr>
      else s)"

definition schedule_sums :: "(nat \<Rightarrow> s32) \<Rightarrow> wsched_st \<Rightarrow> sp_user \<Rightarrow> sp_out \<times> sp_user" where
  "schedule_sums err s u =
     (if err 2 <s 0 then (Sp_err, u)
      else
        (let info = hd (wsys_schedule s) in
         if wu_sum_count info = 0 then (Sp_trap, u)
         else
           (let avg_delay = wu_sum_delay info div wu_sum_count info in
            if \<not> sp_ifprint u then (Sp_first, u\<lparr>sp_ifprint := True\<rparr>)
            else (Sp_sums avg_delay (wu_max_delay info) (wu_proc_name_max info)
                    (wu_min_delay info) (wu_proc_name_min info), u))))"

definition schedule_threshold :: "(nat \<Rightarrow> s32) \<Rightarrow> schedule_ctrl \<Rightarrow> wsched_st \<Rightarrow> sp_user \<Rightarrow> sp_out \<times> sp_user" where
  "schedule_threshold err c s u =
     (if err 3 <s 0 then (Sp_err, u)
      else
        (let info = hd (threshold_schedule s); pid = wp_pid (ws_id info); ms = ws_delay info div 1000 in
         if ms > scast (wsd_min_us c) \<and> pid \<noteq> 0 then
           (if err 4 <s 0 then (Sp_err, u)
            else case hm_lookup (proc_histories s) (ws_id info) of None \<Rightarrow> (Sp_err, u)
              | Some prev_info \<Rightarrow>
                  if \<not> entry_exists (sp_seen u) pid (ws_proc_name info) ms then
                    (Sp_proc pid (ws_proc_name info) ms
                       (filter (\<lambda>(i, p). pi_pid p \<noteq> 0) [(1, ph_last0 prev_info), (2, ph_last1 prev_info)]),
                     u\<lparr>sp_seen := add_entry pid (ws_proc_name info) ms (sp_seen u)\<rparr>)
                  else (Sp_none, u))
         else (Sp_none, u)))"

definition schedule_print :: "(nat \<Rightarrow> s32) \<Rightarrow> wsched_st \<Rightarrow> sp_user \<Rightarrow> sp_out \<times> wsched_st \<times> sp_user" where
  "schedule_print err s u =
     (if err 0 <s 0 then (Sp_err, s, u)
      else
        (let sd_ctrl = hd (schedule_ctrl_map s) in
         if \<not> wsd_func sd_ctrl then (Sp_off, s, u)
         else
           (let s = schedule_header err sd_ctrl s;
                (out, u) = (if \<not> wsd_min_us_set sd_ctrl then schedule_sums err s u
                            else schedule_threshold err sd_ctrl s u)
            in (out, s, u))))"

subsection \<open>The activity report\<close>

text \<open>
  \<open>print_all\<close> prints what the counters grew by since its last call.  Its globals hold the last
  values; a failing lookup ends it with the globals written so far.  \<open>utraw\<close> is the conversion of
  user ticks to nanoseconds, a \<open>double\<close> expression; \<open>abs\<close> takes and gives an \<open>int\<close>.
\<close>

record sar_user =
  su_softirq :: u64
  su_irqtime :: u64
  su_idle :: u64
  su_sched :: u64
  su_proc :: u64
  su_ktTime :: u64
  su_utTime :: u64
  su_tick_user :: u64
  su_enable_proc :: bool

definition sar_user0 :: sar_user where
  "sar_user0 = \<lparr>su_softirq = 0, su_irqtime = 0, su_idle = 0, su_sched = 0, su_proc = 0, su_ktTime = 0,
     su_utTime = 0, su_tick_user = 0, su_enable_proc = False\<rparr>"

record sar_line =
  sl_proc :: u64
  sl_sched :: u64
  sl_runqlen :: s32
  sl_irq :: u64
  sl_softirq :: u64
  sl_idle :: u64
  sl_kt :: u64
  sl_sysc :: u64
  sl_utraw :: u64
  sl_sys :: u64

datatype sar_out = Sar_err | Sar_off | Sar_first | Sar_line bool sar_line

definition sar_header :: "(nat \<Rightarrow> s32) \<Rightarrow> sar_ctrl \<Rightarrow> sar_st \<Rightarrow> sar_st" where
  "sar_header err c s =
     (if sar_prev_watcher c = 10 + 1 \<or> sar_prev_watcher c = 10
      then s\<lparr>sar_ctrl_map := snd (arr_update (err 1) (sar_ctrl_map s) 0 (c\<lparr>sar_prev_watcher := 10 + 2\<rparr>))\<rparr>
      else s)"

definition c_abs :: "s32 \<Rightarrow> s32" where
  "c_abs x = (if x <s 0 then - x else x)"

text \<open>The user time of the kernel's bookkeeping against that of the ticks, and the line.\<close>

definition sar_print_line :: "(u64 \<Rightarrow> u64) \<Rightarrow> bool \<Rightarrow> u64 \<Rightarrow> u64 \<Rightarrow> s32 \<Rightarrow> sar_user \<Rightarrow> sar_user \<Rightarrow> sar_out \<times> sar_user" where
  "sar_print_line utraw percent proc sched runq u u' =
     (let dtaKT = su_ktTime u' - su_ktTime u;
          dtaUT = su_utTime u' - su_utTime u;
          dtaUTRaw = utraw (su_tick_user u' - su_tick_user u);
          dtaSysc = scast (c_abs (ucast (dtaUT - dtaUTRaw)));
          dtaSys = dtaKT + dtaSysc
      in if su_enable_proc u' then
           (Sar_line percent \<lparr>sl_proc = proc, sl_sched = sched, sl_runqlen = runq,
              sl_irq = su_irqtime u' - su_irqtime u, sl_softirq = su_softirq u' - su_softirq u,
              sl_idle = su_idle u' - su_idle u, sl_kt = dtaKT, sl_sysc = dtaSysc, sl_utraw = dtaUTRaw,
              sl_sys = dtaSys\<rparr>, u')
         else (Sar_first, u'\<lparr>su_enable_proc := True\<rparr>))"

definition print_all :: "(nat \<Rightarrow> s32) \<Rightarrow> (u64 \<Rightarrow> u64) \<Rightarrow> sar_st \<Rightarrow> sar_user \<Rightarrow> sar_out \<times> sar_st \<times> sar_user" where
  "print_all err utraw s u0 =
     (if err 0 <s 0 then (Sar_err, s, u0)
      else let c = hd (sar_ctrl_map s) in
      if \<not> sar_func c then (Sar_off, s, u0)
      else let s = sar_header err c s in
      if err 2 <s 0 then (Sar_err, s, u0)
      else let proc = countMap s ! 1 - su_proc u0; u = u0\<lparr>su_proc := countMap s ! 1\<rparr> in
      if err 3 <s 0 then (Sar_err, s, u)
      else let sched = countMap s ! 0 - su_sched u0; u = u\<lparr>su_sched := countMap s ! 0\<rparr> in
      if err 4 <s 0 then (Sar_err, s, u)
      else let runq = hd (runqlen s) in
      if err 5 <s 0 then (Sar_err, s, u)
      else let u = u\<lparr>su_irqtime := hd (irq_Last_time s)\<rparr> in
      if err 6 <s 0 then (Sar_err, s, u)
      else (case hm_lookup (softirqLastTime s) 0 of None \<Rightarrow> (Sar_err, s, u)
       | Some softirq \<Rightarrow>
           let u = u\<lparr>su_softirq := softirq\<rparr> in
           if err 7 <s 0 then (Sar_err, s, u)
           else let u = u\<lparr>su_idle := hd (idleLastTime s)\<rparr> in
           if err 8 <s 0 then (Sar_err, s, u)
           else let u = u\<lparr>su_ktTime := hd (kt_LastTime s)\<rparr> in
           if err 9 <s 0 then (Sar_err, s, u)
           else let u = u\<lparr>su_utTime := hd (ut_LastTime s)\<rparr> in
           if err 10 <s 0 then (Sar_err, s, u)
           else let u = u\<lparr>su_tick_user := hd (tick_user s)\<rparr>;
                    (out, u) = sar_print_line utraw (sar_percent c) proc sched runq u0 u
                in (out, s, u)))"

end
