(* ===== verification/CwLockCount.thy ===== *)
theory CwLockCount imports CwUser begin

text \<open>
  The table of lock counts of \<open>cpu_watcher_helper.h\<close>, an open-addressing hash table that is never
  emptied and never grows.  Up to its 1024 slots it counts exactly (\<open>lock_counts_exact\<close>): \<open>counter\<close>
  is the contract of a table of counts, and \<open>lc\<close> its instance.  Once it is full, a new pointer's
  probing never ends (\<open>lock_table_hangs\<close>).
\<close>

subsection \<open>Tables of counts\<close>

locale counter =
  fixes add :: "'k \<Rightarrow> 's \<Rightarrow> 's option"
    and get :: "'s \<Rightarrow> 'k \<Rightarrow> 64 word option"
    and inv :: "'s \<Rightarrow> bool"
    and key :: "'k \<Rightarrow> bool"
  assumes add_key: "inv s \<Longrightarrow> key k \<Longrightarrow> \<exists>t. add k s = Some t \<and> inv t \<and>
      (\<forall>j. key j \<longrightarrow> get t j = map_option (\<lambda>c. if j = k then c + 1 else c) (get s j))"
begin

lemma add_all:
  "inv s \<Longrightarrow> \<forall>k \<in> set ks. key k \<Longrightarrow>
   \<exists>t. fold (\<lambda>k s. Option.bind s (add k)) ks (Some s) = Some t \<and> inv t \<and>
     (\<forall>j. key j \<longrightarrow> get t j = map_option (\<lambda>c. c + of_nat (count_list ks j)) (get s j))"
proof (induction ks arbitrary: s)
  case Nil
  then show ?case by (simp add: option.map_ident)
next
  case (Cons k ks)
  then obtain s1 where s1: "add k s = Some s1" "inv s1"
    "\<forall>j. key j \<longrightarrow> get s1 j = map_option (\<lambda>c. if j = k then c + 1 else c) (get s j)"
    using add_key [of s k] by auto
  from Cons.IH [OF s1(2)] Cons.prems(2) obtain t where t:
    "fold (\<lambda>k s. Option.bind s (add k)) ks (Some s1) = Some t" "inv t"
    "\<forall>j. key j \<longrightarrow> get t j = map_option (\<lambda>c. c + of_nat (count_list ks j)) (get s1 j)" by auto
  have "get t j = map_option (\<lambda>c. c + of_nat (count_list (k # ks) j)) (get s j)" if "key j" for j
    using t(3) s1(3) that by (cases "get s j") auto
  then show ?case using s1(1) t(1,2) by auto
qed

end

subsection \<open>Probing\<close>

text \<open>A slot where the loop for a pointer stops.\<close>

definition lc_stop :: "lock_count list \<Rightarrow> u64 \<Rightarrow> nat \<Rightarrow> bool" where
  "lc_stop t p i \<longleftrightarrow> lc_ptr (t ! i) = 0 \<or> lc_ptr (t ! i) = p"

lemma lc_find_unfold: "lc_find t p h = (if lc_stop t p h then Some h else lc_find t p ((h + 1) mod 1024))"
  by (subst lc_find.simps) (simp add: lc_stop_def)

lemma lc_find_first:
  assumes "lc_stop t p ((h + n) mod 1024)" and "\<forall>m < n. \<not> lc_stop t p ((h + m) mod 1024)" and "h < 1024"
  shows "lc_find t p h = Some ((h + n) mod 1024)"
  using assms
proof (induction n arbitrary: h)
  case 0
  then show ?case by (subst lc_find_unfold) simp
next
  case (Suc n)
  have "\<not> lc_stop t p h" using Suc.prems(2) [rule_format, of 0] Suc.prems(3) by simp
  moreover have "lc_find t p ((h + 1) mod 1024) = Some (((h + 1) mod 1024 + n) mod 1024)"
  proof (rule Suc.IH)
    show "lc_stop t p (((h + 1) mod 1024 + n) mod 1024)"
      using Suc.prems(1) by (simp add: mod_simps)
    show "\<forall>m<n. \<not> lc_stop t p (((h + 1) mod 1024 + m) mod 1024)"
    proof (intro allI impI)
      fix m assume "m < n"
      then show "\<not> lc_stop t p (((h + 1) mod 1024 + m) mod 1024)"
        using Suc.prems(2) [rule_format, of "Suc m"] by (simp add: mod_simps)
    qed
  qed simp
  ultimately show ?case by (subst lc_find_unfold) (simp add: mod_simps)
qed

lemma lc_find_stops:
  assumes "lc_find t p h = Some i" and "h < 1024"
  shows "i < 1024 \<and> lc_stop t p i"
proof -
  have "h < 1024 \<longrightarrow> i < 1024 \<and> lc_stop t p i"
  proof (rule lc_find.raw_induct [where P = "\<lambda>t p h i. h < 1024 \<longrightarrow> i < 1024 \<and> lc_stop t p i", OF _ assms(1)])
    fix f :: "lock_count list \<Rightarrow> u64 \<Rightarrow> nat \<Rightarrow> nat option" and t p h i
    assume "\<And>t p h i. f t p h = Some i \<Longrightarrow> h < 1024 \<longrightarrow> i < 1024 \<and> lc_stop t p i"
      and "(if lc_ptr (t ! h) \<noteq> 0 \<and> lc_ptr (t ! h) \<noteq> p then f t p ((h + 1) mod 1024) else Some h) = Some i"
    then show "h < 1024 \<longrightarrow> i < 1024 \<and> lc_stop t p i"
      by (auto simp: lc_stop_def split: if_splits)
  qed
  then show ?thesis using assms(2) by simp
qed

text \<open>The loop ends as soon as some slot stops it: the first one on its way does.\<close>

lemma lc_find_ends:
  assumes "lc_stop t p i" and "i < 1024" and "h < 1024"
  shows "\<exists>n. lc_find t p h = Some ((h + n) mod 1024) \<and> lc_stop t p ((h + n) mod 1024) \<and>
             (\<forall>m < n. \<not> lc_stop t p ((h + m) mod 1024))"
proof -
  have "(h + (1024 + i - h)) mod 1024 = i" using assms(2,3) by simp
  then have ex: "\<exists>n. lc_stop t p ((h + n) mod 1024)" using assms(1) by metis
  define n where "n = (LEAST n. lc_stop t p ((h + n) mod 1024))"
  have n: "lc_stop t p ((h + n) mod 1024)" "\<forall>m < n. \<not> lc_stop t p ((h + m) mod 1024)"
    using LeastI_ex [OF ex] not_less_Least by (auto simp: n_def)
  then show ?thesis using lc_find_first [OF n assms(3)] by blast
qed

lemma lc_find_diverges:
  assumes "\<forall>i < 1024. \<not> lc_stop t p i" and "h < 1024"
  shows "lc_find t p h = None"
  using lc_find_stops [OF _ assms(2)] assms(1) by (cases "lc_find t p h") auto

subsection \<open>The table's invariant\<close>

text \<open>Every occupied slot is the one where the probing for its pointer ends.\<close>

definition lc_inv :: "lock_count list \<Rightarrow> bool" where
  "lc_inv t \<longleftrightarrow> length t = 1024 \<and>
     (\<forall>i < 1024. lc_ptr (t ! i) \<noteq> 0 \<longrightarrow> lc_find t (lc_ptr (t ! i)) (lc_hash (lc_ptr (t ! i))) = Some i)"

definition lc_used :: "lock_count list \<Rightarrow> u64 set" where
  "lc_used t = (\<lambda>i. lc_ptr (t ! i)) ` {..<1024} - {0}"

definition lc_full :: "lock_count list \<Rightarrow> bool" where
  "lc_full t \<longleftrightarrow> (\<forall>i < 1024. lc_ptr (t ! i) \<noteq> 0)"

lemma lc_hash_less [simp]: "lc_hash p < 1024"
  by (simp add: lc_hash_def)

lemma lc_used_card:
  assumes "lc_inv t" and "lc_full t"
  shows "card (lc_used t) = 1024"
proof -
  have "inj_on (\<lambda>i. lc_ptr (t ! i)) {..<1024}"
    using assms by (intro inj_onI) (metis lc_inv_def lc_full_def lessThan_iff option.inject)
  then have "card ((\<lambda>i. lc_ptr (t ! i)) ` {..<1024}) = 1024" by (simp add: card_image)
  moreover have "lc_used t = (\<lambda>i. lc_ptr (t ! i)) ` {..<1024}"
    using assms(2) by (auto simp: lc_used_def lc_full_def)
  ultimately show ?thesis by simp
qed

text \<open>The probing ends for a pointer in the table, and for every pointer while the table is not full.\<close>

lemma lc_find_total:
  assumes "p \<in> lc_used t \<or> \<not> lc_full t"
  shows "\<exists>i. lc_find t p (lc_hash p) = Some i \<and> i < 1024 \<and> lc_stop t p i"
proof -
  have "\<exists>i < 1024. lc_stop t p i"
    using assms by (auto simp: lc_used_def lc_full_def lc_stop_def)
  then show ?thesis
    using lc_find_ends [of t p _ "lc_hash p"] lc_find_stops [of t p "lc_hash p"] lc_hash_less by metis
qed


subsection \<open>What a change of one slot does to the probing\<close>

lemma lc_find_frame:
  assumes "lc_find t p h = Some i" and "h < 1024" and "length t = 1024"
    and "lc_stop t p j" and "lc_stop (t[j := x]) p i"
  shows "lc_find (t[j := x]) p h = Some i"
proof -
  have "i < 1024" "lc_stop t p i" using lc_find_stops [OF assms(1,2)] by simp_all
  from lc_find_ends [OF this(2,1) assms(2)] assms(1) obtain n where
    n: "i = (h + n) mod 1024" "\<forall>m < n. \<not> lc_stop t p ((h + m) mod 1024)" by auto
  have "\<not> lc_stop (t[j := x]) p ((h + m) mod 1024)" if "m < n" for m
  proof -
    have "(h + m) mod 1024 \<noteq> j" using n(2) that assms(4) by metis
    then show ?thesis using n(2) that by (simp add: lc_stop_def)
  qed
  then have "lc_find (t[j := x]) p h = Some ((h + n) mod 1024)"
    using assms(2,5) n(1) by (intro lc_find_first) auto
  then show ?thesis by (simp add: n(1))
qed

lemma lc_find_cong:
  assumes "\<forall>i < 1024. lc_ptr (t' ! i) = lc_ptr (t ! i)" and "h < 1024"
  shows "lc_find t' p h = lc_find t p h"
proof -
  have stop: "lc_stop t' p i = lc_stop t p i" if "i < 1024" for i
    using assms(1) that by (simp add: lc_stop_def)
  show ?thesis
  proof (cases "\<exists>i < 1024. lc_stop t p i")
    case True
    then obtain i where "lc_stop t p i" "i < 1024" by blast
    from lc_find_ends [OF this assms(2)] obtain n where
      n: "lc_find t p h = Some ((h + n) mod 1024)" "lc_stop t p ((h + n) mod 1024)"
      "\<forall>m < n. \<not> lc_stop t p ((h + m) mod 1024)" by blast
    then have "lc_find t' p h = Some ((h + n) mod 1024)"
      using assms(2) by (intro lc_find_first) (simp_all add: stop)
    then show ?thesis using n(1) by simp
  next
    case False
    then show ?thesis using assms(2) by (simp add: lc_find_diverges stop)
  qed
qed

subsection \<open>Lookups\<close>

lemma get_used:
  assumes "lc_inv t" and "j < 1024" and "lc_ptr (t ! j) = k" and "k \<noteq> 0"
  shows "get_lock_count t k = Some (lc_count (t ! j))"
proof -
  have "lc_find t k (lc_hash k) = Some j" using assms by (auto simp: lc_inv_def)
  then show ?thesis using assms(3,4) by (simp add: get_lock_count_def)
qed

lemma get_unused:
  assumes "k \<notin> lc_used t" and "k \<noteq> 0" and "\<not> lc_full t"
  shows "get_lock_count t k = Some 0"
proof -
  obtain i where i: "lc_find t k (lc_hash k) = Some i" "i < 1024" "lc_stop t k i"
    using lc_find_total [of k t] assms(3) by blast
  have "lc_ptr (t ! i) \<noteq> k" using i(2) assms(1,2) by (auto simp: lc_used_def)
  then show ?thesis using i by (simp add: get_lock_count_def lc_stop_def)
qed

subsection \<open>Increments\<close>

lemma lc_bump:
  assumes "lc_inv t" and "i < 1024" and "lc_ptr x = lc_ptr (t ! i)"
  shows "lc_inv (t[i := x])" and "lc_used (t[i := x]) = lc_used t" and "lc_full (t[i := x]) = lc_full t"
proof -
  have len: "length t = 1024" using assms(1) by (simp add: lc_inv_def)
  have ptr: "lc_ptr (t[i := x] ! j) = lc_ptr (t ! j)" for j
    using assms(2,3) len by (simp add: nth_list_update)
  then have "lc_find (t[i := x]) q (lc_hash q) = lc_find t q (lc_hash q)" for q
    by (intro lc_find_cong) simp_all
  then show "lc_inv (t[i := x])" using assms(1) ptr by (simp add: lc_inv_def)
  show "lc_used (t[i := x]) = lc_used t" "lc_full (t[i := x]) = lc_full t"
    using ptr by (simp_all add: lc_used_def lc_full_def)
qed

lemma lc_fill:
  assumes "lc_inv t" and "lc_find t p (lc_hash p) = Some i" and "lc_ptr (t ! i) = 0" and "p \<noteq> 0"
    and "lc_ptr x = p"
  shows "lc_inv (t[i := x])" and "lc_used (t[i := x]) = insert p (lc_used t)" and "p \<notin> lc_used t"
proof -
  have i: "i < 1024" using lc_find_stops [OF assms(2)] by simp
  have len: "length t = 1024" using assms(1) by (simp add: lc_inv_def)
  show fresh: "p \<notin> lc_used t"
  proof
    assume "p \<in> lc_used t"
    then obtain j where "j < 1024" "lc_ptr (t ! j) = p" by (auto simp: lc_used_def)
    then have "lc_find t p (lc_hash p) = Some j" using assms(1,4) by (auto simp: lc_inv_def)
    then show False using assms(2,3,4) \<open>lc_ptr (t ! j) = p\<close> by simp
  qed
  have stop: "lc_stop t q i" for q using assms(3) by (simp add: lc_stop_def)
  have "lc_find (t[i := x]) (lc_ptr (t[i := x] ! j)) (lc_hash (lc_ptr (t[i := x] ! j))) = Some j"
    if "j < 1024" "lc_ptr (t[i := x] ! j) \<noteq> 0" for j
  proof (cases "j = i")
    case True
    then show ?thesis
      using lc_find_frame [OF assms(2) lc_hash_less len stop] i len assms(5) by (simp add: lc_stop_def)
  next
    case False
    then have "lc_ptr (t[i := x] ! j) = lc_ptr (t ! j)" by simp
    moreover have "lc_find t (lc_ptr (t ! j)) (lc_hash (lc_ptr (t ! j))) = Some j"
      using assms(1) that False by (simp add: lc_inv_def)
    ultimately show ?thesis
      using lc_find_frame [OF _ lc_hash_less len stop] False by (simp add: lc_stop_def)
  qed
  then show "lc_inv (t[i := x])" using len by (simp add: lc_inv_def)
  have "lc_ptr (t[i := x] ! j) = (if j = i then p else lc_ptr (t ! j))" for j
    using i len assms(5) by (simp add: nth_list_update)
  then show "lc_used (t[i := x]) = insert p (lc_used t)"
    using i assms(3,4) by (auto simp: lc_used_def)
qed

text \<open>An increment of a pointer for which there is a slot.\<close>

lemma increment_effect:
  assumes "lc_inv t" and "p \<noteq> 0" and "p \<in> lc_used t \<or> \<not> lc_full t"
  shows "\<exists>u. increment_lock_count p t = Some u \<and> lc_inv u \<and> lc_used u = insert p (lc_used t) \<and>
     get_lock_count u p = map_option (\<lambda>c. c + 1) (get_lock_count t p) \<and>
     (\<forall>k. k \<noteq> 0 \<longrightarrow> k \<noteq> p \<longrightarrow> k \<in> lc_used u \<or> \<not> lc_full u \<longrightarrow> get_lock_count u k = get_lock_count t k)"
proof -
  obtain i where i: "lc_find t p (lc_hash p) = Some i" "i < 1024" "lc_stop t p i"
    using lc_find_total [OF assms(3)] by blast
  have len: "length t = 1024" using assms(1) by (simp add: lc_inv_def)
  define x where "x = (if lc_ptr (t ! i) = 0 then \<lparr>lc_ptr = p, lc_count = 1\<rparr>
      else (t ! i)\<lparr>lc_count := lc_count (t ! i) + 1\<rparr>)"
  have inc: "increment_lock_count p t = Some (t[i := x])"
    by (simp add: increment_lock_count_def i(1) x_def)
  have x: "lc_ptr x = p" using i(3) by (auto simp: x_def lc_stop_def)
  have inv: "lc_inv (t[i := x])" and used: "lc_used (t[i := x]) = insert p (lc_used t)"
  proof -
    show "lc_inv (t[i := x])"
      using lc_bump(1) [OF assms(1) i(2)] lc_fill(1) [OF assms(1) i(1) _ assms(2) x] i(3) x
      by (auto simp: lc_stop_def)
    show "lc_used (t[i := x]) = insert p (lc_used t)"
    proof (cases "lc_ptr (t ! i) = 0")
      case True
      then show ?thesis by (rule lc_fill(2) [OF assms(1) i(1) _ assms(2) x])
    next
      case False
      then have "lc_ptr (t ! i) = p" using i(3) by (simp add: lc_stop_def)
      moreover from this have "p \<in> lc_used t" using i(2) assms(2) by (auto simp: lc_used_def)
      ultimately show ?thesis using lc_bump(2) [OF assms(1) i(2)] x by auto
    qed
  qed
  have own: "get_lock_count (t[i := x]) p = map_option (\<lambda>c. c + 1) (get_lock_count t p)"
    using get_used [OF inv i(2), of p] i len x assms(2)
    by (auto simp: get_lock_count_def x_def lc_stop_def)
  have other: "get_lock_count (t[i := x]) k = get_lock_count t k"
    if "k \<noteq> 0" "k \<noteq> p" "k \<in> lc_used (t[i := x]) \<or> \<not> lc_full (t[i := x])" for k
  proof (cases "k \<in> lc_used t")
    case True
    then obtain j where j: "j < 1024" "lc_ptr (t ! j) = k" by (auto simp: lc_used_def)
    then have "j \<noteq> i" using i(3) that(1,2) by (auto simp: lc_stop_def)
    then show ?thesis
      using get_used [OF assms(1) j that(1)] get_used [OF inv j(1), of k] j that(1) by simp
  next
    case False
    then have "\<not> lc_full (t[i := x])" "k \<notin> lc_used (t[i := x])" using that used by auto
    moreover from this have "\<not> lc_full t"
      using x assms(2) i(2) len by (auto simp: lc_full_def nth_list_update split: if_splits)
    ultimately show ?thesis using get_unused False that(1) by simp
  qed
  show ?thesis using inc inv used own other by blast
qed


subsection \<open>The table counts exactly while it has room for its keys\<close>

definition lc_within :: "u64 set \<Rightarrow> lock_count list \<Rightarrow> bool" where
  "lc_within K t \<longleftrightarrow> lc_inv t \<and> lc_used t \<subseteq> K \<and> finite K \<and> card K \<le> 1024 \<and> 0 \<notin> K"

lemma lc_within_slot:
  assumes "lc_within K t" and "k \<in> K"
  shows "k \<in> lc_used t \<or> \<not> lc_full t"
proof (rule ccontr)
  assume no: "\<not> (k \<in> lc_used t \<or> \<not> lc_full t)"
  then have "card (lc_used t) = 1024" using assms(1) by (intro lc_used_card) (auto simp: lc_within_def)
  moreover have "lc_used t \<subset> K" using no assms by (auto simp: lc_within_def)
  then have "card (lc_used t) < card K" using assms(1) by (intro psubset_card_mono) (auto simp: lc_within_def)
  ultimately show False using assms(1) by (simp add: lc_within_def)
qed

lemma lc_within_add:
  assumes "lc_within K t" and "k \<in> K"
  shows "\<exists>u. increment_lock_count k t = Some u \<and> lc_within K u \<and> lc_used u = insert k (lc_used t) \<and>
     (\<forall>j \<in> K. get_lock_count u j = map_option (\<lambda>c. if j = k then c + 1 else c) (get_lock_count t j))"
proof -
  have k: "lc_inv t" "k \<noteq> 0" using assms by (auto simp: lc_within_def)
  obtain u where u: "increment_lock_count k t = Some u" "lc_inv u" "lc_used u = insert k (lc_used t)"
    "get_lock_count u k = map_option (\<lambda>c. c + 1) (get_lock_count t k)"
    "\<forall>j. j \<noteq> 0 \<longrightarrow> j \<noteq> k \<longrightarrow> j \<in> lc_used u \<or> \<not> lc_full u \<longrightarrow> get_lock_count u j = get_lock_count t j"
    using increment_effect [OF k lc_within_slot [OF assms]] by blast
  have w: "lc_within K u" using assms u(2,3) by (simp add: lc_within_def)
  have "get_lock_count u j = map_option (\<lambda>c. if j = k then c + 1 else c) (get_lock_count t j)" if "j \<in> K" for j
  proof (cases "j = k")
    case True
    then show ?thesis using u(4) by simp
  next
    case False
    have "j \<noteq> 0" using that assms(1) by (auto simp: lc_within_def)
    then have "get_lock_count u j = get_lock_count t j"
      using u(5) lc_within_slot [OF w that] False by blast
    then show ?thesis using False by (simp add: option.map_ident)
  qed
  then show ?thesis using u(1,3) w by blast
qed

interpretation lc: counter increment_lock_count get_lock_count "lc_within K" "\<lambda>k. k \<in> K" for K
  by unfold_locales (use lc_within_add in blast)

lemma lc_within_empty:
  assumes "finite K" and "card K \<le> 1024" and "0 \<notin> K"
  shows "lc_within K lock_counts0"
  using assms by (auto simp: lc_within_def lc_inv_def lc_used_def lock_counts0_def)

lemma get_empty: "k \<noteq> 0 \<Longrightarrow> get_lock_count lock_counts0 k = Some 0"
  by (rule get_unused) (auto simp: lc_used_def lc_full_def lock_counts0_def intro!: exI [of _ 0])

lemma lock_counts_exact:
  assumes "finite K" and "card K \<le> 1024" and "0 \<notin> K" and "set ps \<subseteq> K"
  shows "\<exists>t. fold (\<lambda>p s. Option.bind s (increment_lock_count p)) ps (Some lock_counts0) = Some t \<and> lc_within K t \<and>
     (\<forall>k \<in> K. get_lock_count t k = Some (of_nat (count_list ps k)))"
proof -
  obtain t where t: "fold (\<lambda>p s. Option.bind s (increment_lock_count p)) ps (Some lock_counts0) = Some t"
    "lc_within K t"
    "\<forall>k. k \<in> K \<longrightarrow> get_lock_count t k =
       map_option (\<lambda>c. c + of_nat (count_list ps k)) (get_lock_count lock_counts0 k)"
    using lc.add_all [OF lc_within_empty [OF assms(1-3)], of ps] assms(4) by blast
  have "get_lock_count t k = Some (of_nat (count_list ps k))" if "k \<in> K" for k
  proof -
    have "k \<noteq> 0" using that assms(3) by auto
    then show ?thesis using t(3) that by (simp add: get_empty)
  qed
  with t show ?thesis by blast
qed

subsection \<open>The contention report\<close>

definition mu_shown :: "mutex_contention_event \<Rightarrow> bool" where
  "mu_shown e \<longleftrightarrow> mc_owner_pid e \<noteq> 0 \<and> mc_contender_pid e \<noteq> 0 \<and> mc_owner_pid e \<noteq> 1"

fun mutrace_prints :: "mutex_contention_event list \<Rightarrow> lock_count list \<Rightarrow> lock_count list option" where
  "mutrace_prints [] t = Some t"
| "mutrace_prints (e # es) t =
     (case mutrace_print e t of None \<Rightarrow> None | Some (_, t) \<Rightarrow> mutrace_prints es t)"

lemma mutrace_print_shown:
  assumes "lc_within K t" and "mc_ptr e \<in> K" and "mu_shown e"
  shows "\<exists>u c. increment_lock_count (mc_ptr e) t = Some u \<and> lc_within K u \<and>
     get_lock_count t (mc_ptr e) = Some c \<and> mutrace_print e t = Some (Shown (e, c + 1), u)"
proof -
  obtain u where u: "increment_lock_count (mc_ptr e) t = Some u" "lc_within K u"
    "get_lock_count u (mc_ptr e) = map_option (\<lambda>c. c + 1) (get_lock_count t (mc_ptr e))"
    using lc_within_add [OF assms(1,2)] assms(2) by auto
  obtain c where c: "get_lock_count t (mc_ptr e) = Some c"
  proof -
    obtain i where "lc_find t (mc_ptr e) (lc_hash (mc_ptr e)) = Some i"
      using lc_find_total [OF lc_within_slot [OF assms(1,2)]] by blast
    then show thesis using that by (simp add: get_lock_count_def)
  qed
  have "mutrace_print e t = Some (Shown (e, c + 1), u)"
    using u(1,3) c assms(3) by (simp add: mutrace_print_def mu_shown_def)
  with u c show ?thesis by blast
qed

lemma mutrace_prints_counts:
  "lc_within K t \<Longrightarrow> mc_ptr ` set es \<subseteq> K \<Longrightarrow>
   mutrace_prints es t =
     fold (\<lambda>p s. Option.bind s (increment_lock_count p)) (map mc_ptr (filter mu_shown es)) (Some t)"
proof (induction es arbitrary: t)
  case Nil
  then show ?case by simp
next
  case (Cons e es)
  show ?case
  proof (cases "mu_shown e")
    case True
    obtain u c where u: "increment_lock_count (mc_ptr e) t = Some u" "lc_within K u"
      "mutrace_print e t = Some (Shown (e, c + 1), u)"
      using mutrace_print_shown [OF Cons.prems(1) _ True] Cons.prems(2) by auto
    then show ?thesis using Cons.IH [OF u(2)] Cons.prems(2) True by simp
  next
    case False
    then have "mutrace_print e t = Some (Hidden, t)" by (simp add: mutrace_print_def mu_shown_def)
    then show ?thesis using Cons.IH [OF Cons.prems(1)] Cons.prems(2) False by simp
  qed
qed

text \<open>
  C19. As long as at most 1024 locks are contended, the number printed with a contention is exact:
  it is the number of contentions of that lock shown so far, this one included, whatever the
  other locks' contentions in between and however their hashes collide.
\<close>

theorem mutrace_contention_count:
  assumes "finite K" and "card K \<le> 1024" and "0 \<notin> K" and "mc_ptr ` set es \<subseteq> K" and "mc_ptr e \<in> K"
    and "mu_shown e"
  shows "\<exists>t u. mutrace_prints es lock_counts0 = Some t \<and>
     mutrace_print e t = Some (Shown (e, of_nat (count_list (map mc_ptr (filter mu_shown es)) (mc_ptr e)) + 1), u)"
proof -
  let ?ps = "map mc_ptr (filter mu_shown es)"
  have "set ?ps \<subseteq> K" using assms(4) by auto
  then obtain t where t: "fold (\<lambda>p s. Option.bind s (increment_lock_count p)) ?ps (Some lock_counts0) = Some t"
    "lc_within K t" "get_lock_count t (mc_ptr e) = Some (of_nat (count_list ?ps (mc_ptr e)))"
    using lock_counts_exact [OF assms(1-3)] assms(5) by blast
  have "mutrace_prints es lock_counts0 = Some t"
    using mutrace_prints_counts [OF lc_within_empty [OF assms(1-3)] assms(4)] t(1) by simp
  moreover obtain u c where "get_lock_count t (mc_ptr e) = Some c" "mutrace_print e t = Some (Shown (e, c + 1), u)"
    using mutrace_print_shown [OF t(2) assms(5,6)] by blast
  ultimately show ?thesis using t(3) by auto
qed

definition mu_contended :: "u64 \<Rightarrow> mutex_contention_event" where
  "mu_contended a = \<lparr>mc_ptr = a, mc_owner_pid = 7, mc_contender_pid = 8, mc_contender_name = [], mc_owner_name = [],
     mc_owner_prio = 0, mc_contender_prio = 0\<rparr>"

text \<open>The locks 5 and 1029 have the same hash.\<close>

theorem mutrace_contention_count_witness:
  "\<exists>t u. mutrace_prints [mu_contended 5, mu_contended 1029, mu_contended 5] lock_counts0 = Some t \<and>
     mutrace_print (mu_contended 1029) t = Some (Shown (mu_contended 1029, 2), u)"
  using mutrace_contention_count [of "{5, 1029}" "[mu_contended 5, mu_contended 1029, mu_contended 5]"
      "mu_contended 1029"]
  by (simp add: mu_contended_def mu_shown_def)

subsection \<open>The full table\<close>

lemma lc_used_fold:
  "lc_within K t \<Longrightarrow> set ps \<subseteq> K \<Longrightarrow>
   fold (\<lambda>p s. Option.bind s (increment_lock_count p)) ps (Some t) = Some u \<Longrightarrow> lc_used u = set ps \<union> lc_used t"
proof (induction ps arbitrary: t)
  case Nil
  then show ?case by simp
next
  case (Cons p ps)
  obtain v where v: "increment_lock_count p t = Some v" "lc_within K v" "lc_used v = insert p (lc_used t)"
    using lc_within_add [of K t p] Cons.prems(1,2) by auto
  show ?case using Cons.IH [OF v(2)] Cons.prems(2,3) v(1,3) by auto
qed

lemma lc_full_card:
  assumes "card (lc_used t) = 1024"
  shows "lc_full t"
proof (rule ccontr)
  assume "\<not> lc_full t"
  then obtain i where i: "i < 1024" "lc_ptr (t ! i) = 0" by (auto simp: lc_full_def)
  have "lc_used t \<subseteq> (\<lambda>j. lc_ptr (t ! j)) ` ({..<1024} - {i})" using i(2) by (auto simp: lc_used_def)
  then have "card (lc_used t) \<le> card ({..<1024::nat} - {i})" by (rule surj_card_le [rotated]) simp
  then show False using i(1) assms by simp
qed

text \<open>
  C37. Once 1024 different locks have been contended the table is full, and the next contention of a
  lock that is not in it never returns: the probing loop of \<open>increment_lock_count\<close> has no exit, so
  neither the callback nor the program's main loop goes on.
\<close>

theorem lock_table_hangs:
  assumes "distinct ps" and "length ps = 1024" and "0 \<notin> set ps"
    and "mc_ptr e \<notin> set ps" and "mc_ptr e \<noteq> 0" and "mu_shown e"
  shows "\<exists>t. fold (\<lambda>p s. Option.bind s (increment_lock_count p)) ps (Some lock_counts0) = Some t \<and>
     mutrace_print e t = None"
proof -
  have K: "finite (set ps)" "card (set ps) \<le> 1024" using assms(1,2) by (simp_all add: distinct_card)
  obtain t where t: "fold (\<lambda>p s. Option.bind s (increment_lock_count p)) ps (Some lock_counts0) = Some t"
    using lock_counts_exact [OF K assms(3)] by blast
  have used: "lc_used t = set ps"
    using lc_used_fold [OF lc_within_empty [OF K assms(3)] _ t] by (auto simp: lc_used_def lock_counts0_def)
  then have "lc_full t" using assms(1,2) by (intro lc_full_card) (simp add: distinct_card)
  then have "lc_ptr (t ! i) \<noteq> 0" "lc_ptr (t ! i) \<in> set ps" if "i < 1024" for i
    using that used by (auto simp: lc_full_def lc_used_def)
  then have "\<forall>i < 1024. \<not> lc_stop t (mc_ptr e) i"
    using assms(4) unfolding lc_stop_def by metis
  then have "lc_find t (mc_ptr e) (lc_hash (mc_ptr e)) = None" by (rule lc_find_diverges) simp
  then have "mutrace_print e t = None"
    using assms(6) by (simp add: mutrace_print_def mu_shown_def increment_lock_count_def)
  with t show ?thesis by blast
qed

lemma many_locks:
  "distinct (map of_nat [1..<1025] :: u64 list)" "0 \<notin> set (map of_nat [1..<1025] :: u64 list)"
  "2000 \<notin> set (map of_nat [1..<1025] :: u64 list)"
proof -
  have u: "unat (of_nat i :: u64) = i" if "i < 1025" for i
    using that by (simp add: unat_of_nat)
  show "distinct (map of_nat [1..<1025] :: u64 list)"
    unfolding distinct_map by (auto intro!: inj_onI dest!: arg_cong [where f = unat] simp: u)
  show "0 \<notin> set (map of_nat [1..<1025] :: u64 list)" "2000 \<notin> set (map of_nat [1..<1025] :: u64 list)"
    by (auto dest!: arg_cong [where f = unat] simp: u)
qed

theorem lock_table_hangs_witness:
  "\<exists>t. fold (\<lambda>p s. Option.bind s (increment_lock_count p)) (map of_nat [1..<1025]) (Some lock_counts0) = Some t \<and>
     mutrace_print (mu_contended 2000) t = None"
  using lock_table_hangs [OF many_locks(1) _ many_locks(2), of "mu_contended 2000"] many_locks(3)
  by (simp add: mu_contended_def mu_shown_def)

end
