(* ===== verification/CwUserProps.thy ===== *)
theory CwUserProps imports CwUser CwMqProps CwStatProps begin

text \<open>
  What the user side of \<open>cpu_watcher\<close> shows.  The histogram of \<open>cs_delay\<close>: which element an event is
  counted in (\<open>histogram_buckets\<close>), the one that is written past the end (\<open>histogram_overrun\<close>), the
  rows (\<open>histogram_rows\<close>).  The averages and the divisions that trap (\<open>preempt_average\<close>,
  \<open>schedule_average\<close>).  The activity report as the difference of two readings (\<open>sar_interval\<close>).
\<close>

subsection \<open>The histogram\<close>

lemma log2_loop_bucket: "2 ^ j \<le> d \<Longrightarrow> d < 2 ^ (j + 1) \<Longrightarrow> log2_loop d i = i + j"
proof (induction j arbitrary: d i)
  case 0
  then have "d = 1" by simp
  then show ?case by (simp add: log2_loop.simps)
next
  case (Suc j)
  then have "2 ^ j \<le> d div 2" "d div 2 < 2 ^ (j + 1)" by simp_all
  moreover have "1 \<le> (2::int) ^ j" by simp
  then have "1 < d" using Suc.prems(1) unfolding power_Suc by linarith
  ultimately show ?case using Suc.IH [of "d div 2" "i + 1"] by (simp add: log2_loop.simps [of d])
qed

lemma log2_loop_small: "d \<le> 1 \<Longrightarrow> log2_loop d i = i"
  by (simp add: log2_loop.simps)

text \<open>Bucket \<open>i\<close> holds the delays from \<open>2 ^ i\<close> up to \<open>2 ^ (i + 1) - 1\<close>, the first one 0 as well.\<close>

definition in_bucket :: "nat \<Rightarrow> cs_event \<Rightarrow> bool" where
  "in_bucket i e \<longleftrightarrow> unat (cse_delay e) < 2 ^ (i + 1) \<and> (i = 0 \<or> 2 ^ i \<le> unat (cse_delay e))"

lemma half_bucket: "(p::nat) \<le> d div 2 \<Longrightarrow> d div 2 < 2 * p \<Longrightarrow> 2 * p \<le> d \<and> d < 2 * (2 * p)"
  using div_mult_mod_eq [of d 2] mod_less_divisor [of 2 d] by linarith

lemma bucket_exists: "0 < (d::nat) \<Longrightarrow> \<exists>i. 2 ^ i \<le> d \<and> d < 2 ^ (i + 1)"
proof (induction d rule: less_induct)
  case (less d)
  show ?case
  proof (cases "d = 1")
    case True
    then show ?thesis by (intro exI [of _ 0]) simp
  next
    case False
    then obtain i where "2 ^ i \<le> d div 2" "d div 2 < 2 ^ (i + 1)" using less.IH [of "d div 2"] less.prems by auto
    then show ?thesis using half_bucket [of "2 ^ i" d] by (intro exI [of _ "i + 1"]) simp
  qed
qed

lemma bucket_ex: "\<exists>i. in_bucket i e"
proof (cases "unat (cse_delay e) = 0")
  case True
  then show ?thesis by (intro exI [of _ 0]) (simp add: in_bucket_def)
next
  case False
  then show ?thesis using bucket_exists [of "unat (cse_delay e)"] by (auto simp: in_bucket_def)
qed

lemma sint_ucast_small:
  assumes "unat (x :: 64 word) < 2 ^ 31"
  shows "sint (ucast x :: s32) = int (unat x)"
proof -
  have "unat (ucast x :: s32) = unat x"
    using assms by (simp add: unsigned_ucast_eq take_bit_nat_eq_self)
  then show ?thesis using sint_small [of "ucast x :: s32"] assms by simp
qed

lemma handle_event_index:
  assumes "in_bucket i e" and "unat (cse_delay e) < 2 ^ 31"
  shows "handle_event e c = (if i < length c then Some (c[i := c ! i + 1]) else None)"
proof -
  have "log2_loop (int (unat (cse_delay e))) 0 = i"
  proof (cases "unat (cse_delay e) \<le> 1")
    case True
    have "i = 0"
    proof (rule ccontr)
      assume "i \<noteq> 0"
      then have "(2::nat) ^ 1 \<le> 2 ^ i" by (intro power_increasing) simp_all
      moreover have "2 ^ i \<le> unat (cse_delay e)" using assms(1) \<open>i \<noteq> 0\<close> by (simp add: in_bucket_def)
      ultimately show False using True by simp
    qed
    moreover have "int (unat (cse_delay e)) \<le> 1" using True by (metis of_nat_1 of_nat_mono)
    ultimately show ?thesis by (simp only: log2_loop_small)
  next
    case False
    then have "2 ^ i \<le> unat (cse_delay e)" "unat (cse_delay e) < 2 ^ (i + 1)"
      using assms(1) by (auto simp: in_bucket_def)
    then have "2 ^ i \<le> int (unat (cse_delay e))" "int (unat (cse_delay e)) < 2 ^ (i + 1)"
      by (metis of_nat_le_iff of_nat_numeral of_nat_power) (metis \<open>unat (cse_delay e) < 2 ^ (i + 1)\<close> of_nat_less_iff of_nat_numeral of_nat_power)
    then show ?thesis using log2_loop_bucket [of i _ 0] by simp
  qed
  then show ?thesis
    by (simp only: handle_event_def Let_def sint_ucast_small [OF assms(2)])
qed

lemma bucket_less:
  assumes "in_bucket i e" and "unat (cse_delay e) < 2 ^ n"
  shows "i < n \<or> n = 0"
proof (rule ccontr)
  assume "\<not> (i < n \<or> n = 0)"
  then have "(2::nat) ^ n \<le> 2 ^ i" "i \<noteq> 0" by auto
  moreover from this have "2 ^ i \<le> unat (cse_delay e)" using assms(1) by (simp add: in_bucket_def)
  ultimately show False using assms(2) by linarith
qed

lemma bucket_unique: "in_bucket i e \<Longrightarrow> in_bucket j e \<Longrightarrow> i = j"
proof (rule linorder_cases [of i j])
  have no: False if "in_bucket i e" "in_bucket j e" "i < j" for i j
  proof -
    have "(2::nat) ^ (i + 1) \<le> 2 ^ j" using that(3) by (intro power_increasing) simp_all
    moreover have "2 ^ j \<le> unat (cse_delay e)" "unat (cse_delay e) < 2 ^ (i + 1)"
      using that by (auto simp: in_bucket_def)
    ultimately show False by linarith
  qed
  assume b: "in_bucket i e" "in_bucket j e"
  { assume "i < j" from no [OF b this] show ?thesis .. }
  { assume "j < i" from no [OF b(2,1) this] show ?thesis .. }
qed simp_all

lemma handle_events_counts:
  "length c = 25 \<Longrightarrow> \<forall>e \<in> set es. unat (cse_delay e) < 2 ^ 25 \<Longrightarrow>
   \<exists>d. handle_events es c = Some d \<and> length d = 25 \<and>
     (\<forall>i < 25. d ! i = c ! i + of_nat (length (filter (in_bucket i) es)))"
proof (induction es arbitrary: c)
  case Nil
  then show ?case by simp
next
  case (Cons e es)
  obtain j where j: "in_bucket j e" using bucket_ex by blast
  then have "j < 25" using bucket_less [of j e 25] Cons.prems(2) by simp
  then have step: "handle_event e c = Some (c[j := c ! j + 1])"
    using handle_event_index [OF j] Cons.prems by simp
  obtain d where d: "handle_events es (c[j := c ! j + 1]) = Some d" "length d = 25"
    "\<forall>i < 25. d ! i = c[j := c ! j + 1] ! i + of_nat (length (filter (in_bucket i) es))"
    using Cons.IH [of "c[j := c ! j + 1]"] Cons.prems by auto
  have "in_bucket i e \<longleftrightarrow> i = j" for i using j bucket_unique by blast
  then show ?case
    using d \<open>j < 25\<close> Cons.prems(1) step by (auto simp: nth_list_update)
qed

text \<open>
  As long as no call of \<open>schedule()\<close> took \<open>2 ^ 25\<close> microseconds (33 s) or more, every event is
  counted, and element \<open>i\<close> of the histogram is the number of delays from \<open>2 ^ i\<close> up to
  \<open>2 ^ (i + 1) - 1\<close> (element 0 counts the zeros as well).
\<close>

theorem histogram_buckets:
  assumes "\<forall>e \<in> set es. unat (cse_delay e) < 2 ^ 25"
  shows "\<exists>c. handle_events es count0 = Some c \<and> length c = 25 \<and>
     (\<forall>i < 25. c ! i = of_nat (length (filter (in_bucket i) es)))"
  using handle_events_counts [of count0 es] assms by (auto simp: count0_def)

definition cs_ev :: "u64 \<Rightarrow> cs_event" where
  "cs_ev d = \<lparr>cse_t1 = 0, cse_t2 = d, cse_delay = d\<rparr>"

theorem histogram_buckets_witness:
  "\<exists>c. handle_events [cs_ev 5, cs_ev 0, cs_ev 7, cs_ev 4] count0 = Some c \<and> c ! 2 = 3 \<and> c ! 0 = 1"
proof -
  obtain c where c: "handle_events [cs_ev 5, cs_ev 0, cs_ev 7, cs_ev 4] count0 = Some c"
    "\<forall>i < 25. c ! i = of_nat (length (filter (in_bucket i) [cs_ev 5, cs_ev 0, cs_ev 7, cs_ev 4]))"
    using histogram_buckets [of "[cs_ev 5, cs_ev 0, cs_ev 7, cs_ev 4]"] by (auto simp: cs_ev_def)
  show ?thesis using c(1) c(2) [rule_format, of 2] c(2) [rule_format, of 0] by (auto simp: in_bucket_def cs_ev_def)
qed

text \<open>
  The array has 25 elements: a call of \<open>schedule()\<close> that took from \<open>2 ^ 25\<close> microseconds up to
  what an \<open>int\<close> holds makes the program write past its end.
\<close>

theorem histogram_overrun:
  assumes "2 ^ 25 \<le> unat (cse_delay e)" and "unat (cse_delay e) < 2 ^ 31" and "length c = 25"
  shows "handle_event e c = None"
proof -
  obtain i where i: "in_bucket i e" using bucket_ex by blast
  have "25 \<le> i"
  proof (rule ccontr)
    assume "\<not> 25 \<le> i"
    then have "(2::nat) ^ (i + 1) \<le> 2 ^ 25" by (intro power_increasing) simp_all
    moreover have "unat (cse_delay e) < 2 ^ (i + 1)" using i by (simp add: in_bucket_def)
    ultimately show False using assms(1) by linarith
  qed
  then show ?thesis using handle_event_index [OF i assms(2)] assms(3) by simp
qed

theorem histogram_overrun_witness: "handle_event (cs_ev 40000000) count0 = None"
  by (rule histogram_overrun) (simp_all add: cs_ev_def count0_def)

subsection \<open>The rows\<close>

lemma hstgram_loop_ends:
  assumes "0 < p"
  shows "hstgram_loop c p n = Some (n + nat (c div p) * of_bool (0 \<le> c))"
proof (induction "nat c" arbitrary: c n rule: less_induct)
  case less
  show ?case
  proof (cases "p \<le> c")
    case True
    then have "nat (c - p) < nat c" using assms by simp
    from less [OF this, of "n + 1"] True assms
    have "hstgram_loop (c - p) p (n + 1) = Some (n + 1 + nat ((c - p) div p))" by simp
    moreover have "nat ((c - p) div p) + 1 = nat (c div p)"
    proof -
      have "c div p = (c - p) div p + 1" using div_add_self2 [of p "c - p"] assms by simp
      moreover have "0 \<le> (c - p) div p" using True assms by (simp add: pos_imp_zdiv_nonneg_iff)
      ultimately show ?thesis by simp
    qed
    ultimately show ?thesis using True assms by (subst hstgram_loop.simps) simp
  next
    case False
    then have "0 \<le> c \<Longrightarrow> c div p = 0" by (simp add: div_pos_pos_trivial)
    then show ?thesis using False by (subst hstgram_loop.simps) auto
  qed
qed

lemma print_hstgram_stars:
  assumes "0 < p"
  shows "print_hstgram c p = Some (nat c div nat p)"
proof (cases "0 \<le> c")
  case True
  then show ?thesis
    using assms by (auto simp: print_hstgram_def hstgram_loop_ends nat_div_distrib)
next
  case False
  then show ?thesis using assms by (simp add: print_hstgram_def hstgram_loop_ends min_def)
qed

lemma histogram_per_len_pos: "0 < histogram_per_len c"
  by (simp add: histogram_per_len_def)

text \<open>
  The histogram always ends: it has twenty rows, row \<open>i\<close> is headed by the bounds of its
  bucket (0 and 1 for the first) and its count, and shows one star for every \<open>per_len\<close> events.
\<close>

theorem histogram_rows:
  "histogram c = map (\<lambda>i. (if i = 0 then 0 else 2 ^ i, 2 ^ (i + 1) - 1, c ! i,
     Some (nat (sint (c ! i)) div nat (histogram_per_len c)))) [0..<20]"
proof -
  have "[0..<20] = 0 # 1 # [2..<20]" by (simp add: upt_conv_Cons)
  then show ?thesis
    by (simp add: histogram_def Let_def print_hstgram_stars [OF histogram_per_len_pos])
qed

subsection \<open>The average of the preemption times\<close>

definition pe_total :: "preempt_event list \<Rightarrow> nat" where
  "pe_total es = sum_list (map (unat \<circ> pev_duration) es)"

lemma preempt_print_add:
  assumes "sint (ps_sum s) = int n" and "n + unat (pev_duration e) < 2 ^ 31"
  shows "sint (ps_sum (preempt_print e s)) = int (n + unat (pev_duration e))"
proof -
  have "scast (ps_sum s) = (word_of_nat n :: 64 word)"
    using assms(1) by (metis of_int_of_nat_eq scast_eq)
  moreover have "unat (word_of_nat n :: 64 word) = n"
    using assms(2) by (simp add: unat_of_nat)
  ultimately have "unat (scast (ps_sum s) + pev_duration e) = n + unat (pev_duration e)"
    using assms(2) unat_plus_no_wrap [of "word_of_nat n :: 64 word" "pev_duration e"] by simp
  moreover have "ps_sum (preempt_print e s) = ucast (scast (ps_sum s) + pev_duration e)"
    by (simp add: preempt_print_def)
  ultimately show ?thesis
    using sint_ucast_small [of "scast (ps_sum s) + pev_duration e"] assms(2) by simp
qed

lemma preempt_prints:
  "sint (ps_sum s) = int n \<Longrightarrow> n + pe_total es < 2 ^ 31 \<Longrightarrow>
   sint (ps_sum (fold preempt_print es s)) = int (n + pe_total es) \<and>
   ps_count (fold preempt_print es s) = ps_count s + of_nat (length es) \<and>
   ps_start_print (fold preempt_print es s) = ps_start_print s"
proof (induction es arbitrary: s n)
  case Nil
  then show ?case by (simp add: pe_total_def)
next
  case (Cons e es)
  have "sint (ps_sum (preempt_print e s)) = int (n + unat (pev_duration e))"
    using preempt_print_add [OF Cons.prems(1), of e] Cons.prems(2) by (simp add: pe_total_def)
  from Cons.IH [OF this] Cons.prems(2) show ?case
    by (simp add: pe_total_def preempt_print_def add.assoc)
qed

text \<open>
  In a period after the first, with fewer than \<open>2 ^ 31\<close> events and nanoseconds in all, the
  program prints the average preemption time of the period; but when there was no event in the
  period it divides by zero.
\<close>

theorem preempt_average:
  assumes "length es < 2 ^ 31" and "pe_total es < 2 ^ 31"
  shows "map_option fst (preempt_period (fold preempt_print es \<lparr>ps_count = 0, ps_sum = 0, ps_start_print = True\<rparr>)) =
     (if es = [] then None else Some (Some (int (pe_total es div length es))))"
proof (cases "es = []")
  case True
  then show ?thesis by (simp add: preempt_period_def)
next
  case False
  let ?s = "fold preempt_print es \<lparr>ps_count = 0, ps_sum = 0, ps_start_print = True\<rparr>"
  have s: "sint (ps_sum ?s) = int (pe_total es)" "ps_count ?s = of_nat (length es)" "ps_start_print ?s"
    using preempt_prints [of "\<lparr>ps_count = 0, ps_sum = 0, ps_start_print = True\<rparr>" 0 es] assms(2) by simp_all
  have u: "unat (of_nat (length es) :: s32) = length es" using assms(1) by (simp add: unat_of_nat)
  then have c: "sint (ps_count ?s) = int (length es)"
    using sint_small [of "of_nat (length es)"] assms(1) s(2) by simp
  have nz: "ps_count ?s \<noteq> 0" using u s(2) False by (metis length_0_conv unat_0)
  have "sgn (int (pe_total es)) * (int (pe_total es) div int (length es)) = int (pe_total es div length es)"
    by (cases "pe_total es = 0") (simp_all add: zdiv_int)
  then show ?thesis
    using False s(1,3) c nz by (simp add: preempt_period_def Let_def)
qed

definition pe_ev :: "u64 \<Rightarrow> preempt_event" where
  "pe_ev d = \<lparr>pev_prev_pid = 5, pev_next_pid = 6, pev_duration = d, pev_comm = []\<rparr>"

theorem preempt_average_witness:
  "map_option fst (preempt_period (fold preempt_print [pe_ev 10, pe_ev 31] \<lparr>ps_count = 0, ps_sum = 0, ps_start_print = True\<rparr>)) =
     Some (Some 20) \<and>
   map_option fst (preempt_period (fold preempt_print [] \<lparr>ps_count = 0, ps_sum = 0, ps_start_print = True\<rparr>)) = None"
  using preempt_average [of "[pe_ev 10, pe_ev 31]"] preempt_average [of "[]"]
  by (simp add: pe_total_def pe_ev_def flip: numeral_2_eq_2)

subsection \<open>A message handed over\<close>

text \<open>
  When the receiver returns before the sender's return probe has fired, which is what happens
  when a receiver is already waiting, the report has no \<open>send_exit_time\<close>: the program prints an
  error for it instead of the delays; and the sender's entry is left in the map, because its return
  probe finds no entry of the message any more.
\<close>

theorem mq_handoff:
  assumes "mq_inv P M p r m s" and "\<forall>e \<in> set es. mq_valid P M p r m e"
    and "filter (mq_touches p r) es = take i (mq_sends ks d u l k m) @ [(kb, Mq_receive d' v)] @
           drop i (take 3 (mq_sends ks d u l k m)) @ [(kc, Mq_store v m ty ts)]"
    and "i \<le> 3" and "\<forall>n. cur_pid (ks n) = p"
    and "cur_pid kb = r" and "cur_pid kc = r" and "cur_pid kx = r" and "kn_rsv kx 0 = Some slot"
    and "\<forall>n. kn_upd kx n = 0" and "r \<in> P"
    and "\<forall>e \<in> set fs. mq_valid P M p r m e" and "filter (mq_touches p r) fs = [(ks 3, Mq_send_exit)]"
  shows "map mq_event (mq_rb (do_mq_timedreceive_exit kx (run mq_step es s))) =
           map mq_event (mq_rb (run mq_step es s)) @ [Mq_erro]
     \<and> hm_lookup (send_msg1 (run mq_step fs (do_mq_timedreceive_exit kx (run mq_step es s)))) p =
         Some (mq_sent ks p d u l k m)"
  using mq_handoff_left [OF assms] by (simp add: mq_event_def)

theorem mq_handoff_witness:
  "hm_lookup (send_msg1 (run mq_step [(calm 7 7 13 mq_slot, Mq_send_exit)]
     (do_mq_timedreceive_exit (calm 9 9 30 mq_slot) (run mq_step
     [(calm 9 9 5 mq_slot, Mq_receive 3 96), (calm 7 7 10 mq_slot, Mq_send 3 80 16 2),
      (calm 7 7 11 mq_slot, Mq_load_enter 80), (calm 7 7 12 mq_slot, Mq_load_exit 64),
      (calm 9 9 20 mq_slot, Mq_store 96 64 2 16)] mq_maps)))) 7 \<noteq> None"
  using mq_handoff [OF mq_inv_new, where es = "[(calm 9 9 5 mq_slot, Mq_receive 3 96),
      (calm 7 7 10 mq_slot, Mq_send 3 80 16 2), (calm 7 7 11 mq_slot, Mq_load_enter 80),
      (calm 7 7 12 mq_slot, Mq_load_exit 64), (calm 9 9 20 mq_slot, Mq_store 96 64 2 16)]"
      and fs = "[(calm 7 7 13 mq_slot, Mq_send_exit)]" and i = 0 and ks = mq_demo_send
      and d = 3 and u = 80 and l = 16 and k = 2 and kb = "calm 9 9 5 mq_slot" and d' = 3 and v = 96
      and kc = "calm 9 9 20 mq_slot" and ty = 2 and ts = 16 and kx = "calm 9 9 30 mq_slot" and slot = mq_slot]
  by (simp add: mq_valid_def mq_touches_def mq_demo_sends numeral_eq_Suc) (simp add: mq_demo_send_def)

subsection \<open>The scheduling report\<close>

lemma schedule_header_sys [simp]: "wsys_schedule (schedule_header err c s) = wsys_schedule s"
  by (simp add: schedule_header_def)

lemma of_nat_zero_iff:
  assumes "unat (of_nat n :: 'a::len word) = n"
  shows "((of_nat n :: 'a word) = 0) = (n = 0)"
proof
  assume "(of_nat n :: 'a word) = 0"
  then have "unat (of_nat n :: 'a word) = 0" by (simp only: unat_0)
  then show "n = 0" using assms by (simp only:)
qed simp

text \<open>
  C32. The scheduling report, switched on without a threshold, from the kernel's program and the
  display together: after any history, the program traps on a division by zero if no delay has been
  accounted yet; otherwise it prints (from its second call on) the quotient of the sum of all
  accounted delays by their number, and the largest of them.
\<close>

theorem schedule_average:
  assumes "wsys_schedule s = [zero_wsum]" and "schedule_ctrl_map (run wsched_step es s) = [c]"
    and "wsd_func c" and "\<not> wsd_min_us_set c" and "\<forall>i. err i = 0" and "length (ws_delays es s) < 2 ^ 64"
  shows "case fst (schedule_print err (run wsched_step es s) u) of
       Sp_trap \<Rightarrow> ws_delays es s = []
     | Sp_first \<Rightarrow> ws_delays es s \<noteq> [] \<and> \<not> sp_ifprint u
     | Sp_sums avg mx n1 mn n2 \<Rightarrow> ws_delays es s \<noteq> [] \<and> sp_ifprint u \<and>
         avg = sum_list (map fst (ws_delays es s)) div of_nat (length (ws_delays es s)) \<and>
         mx = fold max (map fst (ws_delays es s)) 0
     | _ \<Rightarrow> False"
proof -
  define t where "t = fold (\<lambda>(d, n). wsum_add d n) (ws_delays es s) zero_wsum"
  have sys: "wsys_schedule (run wsched_step es s) = [t]"
    by (simp add: t_def wsched_run_sys [OF assms(1)])
  have sums: "wu_sum_count t = of_nat (length (ws_delays es s))"
    "wu_sum_delay t = sum_list (map fst (ws_delays es s))"
    "wu_max_delay t = fold max (map fst (ws_delays es s)) 0"
    by (simp_all add: t_def wsum_fold_sums) (simp_all add: zero_wsum_def)
  have "unat (of_nat (length (ws_delays es s)) :: 64 word) = length (ws_delays es s)"
    using assms(6) by (simp add: unat_of_nat)
  then have zero: "(wu_sum_count t = 0) = (ws_delays es s = [])"
    unfolding sums(1) by (simp only: of_nat_zero_iff length_0_conv)
  have "fst (schedule_print err S u) = (if wu_sum_count t = 0 then Sp_trap
      else if \<not> sp_ifprint u then Sp_first
      else Sp_sums (wu_sum_delay t div wu_sum_count t) (wu_max_delay t) (wu_proc_name_max t)
             (wu_min_delay t) (wu_proc_name_min t))"
    if "wsys_schedule S = [t]" "schedule_ctrl_map S = [c]" for S
    using that assms(3-5) by (simp add: schedule_print_def schedule_sums_def Let_def split_beta)
  from this [OF sys assms(2)] have out: "fst (schedule_print err (run wsched_step es s) u) =
      (if ws_delays es s = [] then Sp_trap else if \<not> sp_ifprint u then Sp_first
      else Sp_sums (wu_sum_delay t div wu_sum_count t) (wu_max_delay t) (wu_proc_name_max t)
             (wu_min_delay t) (wu_proc_name_min t))"
    by (simp only: zero)
  show ?thesis
    unfolding out sums
    by (cases "ws_delays es s = []"; cases "sp_ifprint u") (simp_all only: if_True if_False sp_out.case simp_thms not_True_eq_False not_False_eq_True)
qed

definition wsched_on :: wsched_st where
  "wsched_on = wsched_maps\<lparr>schedule_ctrl_map := [\<lparr>wsd_func = True, wsd_min_us_set = False, wsd_min_us = 0,
     wsd_prev_watcher = 59\<rparr>]\<rparr>"

theorem schedule_average_witness:
  "(case fst (schedule_print (\<lambda>_. 0) (run wsched_step [] wsched_on) \<lparr>sp_ifprint = True, sp_seen = []\<rparr>) of
      Sp_trap \<Rightarrow> ws_delays [] wsched_on = []
    | Sp_first \<Rightarrow> False
    | Sp_sums avg mx n1 mn n2 \<Rightarrow> ws_delays [] wsched_on \<noteq> []
    | _ \<Rightarrow> False)"
  using schedule_average [of wsched_on "[]" _ "\<lambda>_. 0" "\<lparr>sp_ifprint = True, sp_seen = []\<rparr>"]
  by (simp add: wsched_on_def wsched_maps_def split: sp_out.splits)

subsection \<open>The activity report\<close>

lemma sar_header_same [simp]:
  "countMap (sar_header err c s) = countMap s" "irq_Last_time (sar_header err c s) = irq_Last_time s"
  "runqlen (sar_header err c s) = runqlen s" "softirqLastTime (sar_header err c s) = softirqLastTime s"
  "idleLastTime (sar_header err c s) = idleLastTime s" "kt_LastTime (sar_header err c s) = kt_LastTime s"
  "ut_LastTime (sar_header err c s) = ut_LastTime s" "tick_user (sar_header err c s) = tick_user s"
  "procStartTime (sar_header err c s) = procStartTime s"
  by (simp_all add: sar_header_def)

text \<open>The globals after a call that read everything.\<close>

definition sar_read :: "sar_st \<Rightarrow> u64 \<Rightarrow> sar_user \<Rightarrow> sar_user" where
  "sar_read s softirq u = u\<lparr>su_proc := countMap s ! 1, su_sched := countMap s ! 0,
     su_irqtime := hd (irq_Last_time s), su_softirq := softirq, su_idle := hd (idleLastTime s),
     su_ktTime := hd (kt_LastTime s), su_utTime := hd (ut_LastTime s), su_tick_user := hd (tick_user s)\<rparr>"

lemma print_all_reads:
  assumes "\<forall>i. err i = 0" and "sar_func (hd (sar_ctrl_map s))" and "hm_lookup (softirqLastTime s) 0 = Some q"
  shows "print_all err utraw s u =
    (let (out, v) = sar_print_line utraw (sar_percent (hd (sar_ctrl_map s))) (countMap s ! 1 - su_proc u)
            (countMap s ! 0 - su_sched u) (hd (runqlen s)) u (sar_read s q u)
     in (out, sar_header err (hd (sar_ctrl_map s)) s, v))"
  using assms by (simp add: print_all_def Let_def sar_read_def)

lemma sar_shape_header [simp]: "sar_shape (sar_header err c s) = sar_shape s"
  by (simp add: sar_shape_def)

text \<open>
  C33. Two calls of \<open>print_all\<close> with the switch on and any kernel events in between, where every look-up
  succeeds and the entry of the softirq times is there at both calls: the second
  prints the number of switches between different tasks since the first, the growth of the
  interrupt, softirq, idle and kernel-thread times, and \<open>sys\<close> as the kernel-thread time plus \<open>sysc\<close> (the
  manual gives the two columns the other way round).
\<close>

theorem sar_interval:
  assumes "\<forall>i. err i = 0" and "sar_shape s" and "sar_func (hd (sar_ctrl_map s))"
    and "hm_lookup (softirqLastTime s) 0 = Some q"
    and "print_all err utraw s u = (out, s', u')" and "z = run sar_step es s'"
    and "sar_func (hd (sar_ctrl_map z))" and "hm_lookup (softirqLastTime z) 0 = Some q'"
  shows "\<exists>pc l v. print_all err utraw z u' = (Sar_line pc l, v) \<and>
     sl_sched l = of_nat (length (filter sar_switches es)) \<and>
     sl_irq l = hd (irq_Last_time z) - hd (irq_Last_time s) \<and> sl_softirq l = q' - q \<and>
     sl_idle l = hd (idleLastTime z) - hd (idleLastTime s) \<and>
     sl_kt l = hd (kt_LastTime z) - hd (kt_LastTime s) \<and> sl_sys l = sl_kt l + sl_sysc l"
proof -
  have s': "s' = sar_header err (hd (sar_ctrl_map s)) s"
    and u': "u' = (if su_enable_proc u then sar_read s q u else (sar_read s q u)\<lparr>su_enable_proc := True\<rparr>)"
    using assms(5) by (auto simp: print_all_reads [OF assms(1,3,4)] sar_print_line_def Let_def sar_read_def
        split: if_splits)
  have on: "su_enable_proc (sar_read z q' u')" by (simp add: u' sar_read_def)
  have "countMap z ! 0 = countMap s ! 0 + of_nat (length (filter sar_switches es))"
    using sar_count_run [of s' es] assms(2,6) by (simp add: s')
  then show ?thesis
    using on by (simp add: print_all_reads [OF assms(1,7,8)] sar_print_line_def Let_def)
      (simp add: u' sar_read_def)
qed

definition sar_on :: sar_st where
  "sar_on = sar_maps\<lparr>sar_ctrl_map := [\<lparr>sar_func = True, sar_percent = False, sar_prev_watcher = 12\<rparr>],
     softirqLastTime := \<lparr>hm_max = 1, hm_ents = [(0, 0)]\<rparr>\<rparr>"

theorem sar_interval_witness:
  "\<exists>pc l v. print_all (\<lambda>_. 0) id (run sar_step [(calm 0 0 20 (), Sar_switch 9 7), (calm 0 0 30 (), Sar_switch 7 9)]
       sar_on) (sar_user0\<lparr>su_enable_proc := True\<rparr>) = (Sar_line pc l, v) \<and> sl_sched l = 2"
proof -
  let ?es = "[(calm 0 0 20 (), Sar_switch 9 7), (calm 0 0 30 (), Sar_switch 7 9)]"
  have first: "\<exists>out. print_all (\<lambda>_. 0) id sar_on sar_user0 = (out, sar_on, sar_user0\<lparr>su_enable_proc := True\<rparr>)"
    by (simp add: print_all_def sar_print_line_def sar_header_def sar_on_def sar_maps_def sar_user0_def
        hm_lookup_def Let_def)
  then obtain out where p: "print_all (\<lambda>_. 0) id sar_on sar_user0 = (out, sar_on, sar_user0\<lparr>su_enable_proc := True\<rparr>)" ..
  have z: "sar_func (hd (sar_ctrl_map (run sar_step ?es sar_on)))"
    "hm_lookup (softirqLastTime (run sar_step ?es sar_on)) 0 = Some 0"
    by (simp_all add: trace_sched_switch2_def Let_def sar_on_def hm_lookup_def)
  show ?thesis
    using sar_interval [OF _ _ _ _ p refl z] by (auto simp: sar_on_def sar_shape_def sar_maps_def hm_lookup_def)
qed

end
