(* ===== verification/CwMain.thy ===== *)
theory CwMain imports CwUser CwController begin

text \<open>
  The program \<open>cpu_watcher/cpu_watcher.c\<close> as a process: its options, the loading of one kernel-side
  program (open, load, pin the control map, initialise it, attach, make the ring buffer), the loop
  that reads and prints, and the cleanup code that the errors jump to.

  What libbpf answers is an input (\<open>startup\<close> for the loading, \<open>round\<close> for one turn of the loop).
  The state has what outlives the process or has to be released: the open skeletons, the control
  maps found, the pinned files, the ring buffer.
\<close>

subsection \<open>Options\<close>

record wenv =
  wv_time :: s32
  wv_alarm :: "s32 option"
  wv_period :: s32
  wv_SAR :: bool
  wv_CS_DELAY :: bool
  wv_SYSCALL_DELAY :: bool
  wv_PREEMPT :: bool
  wv_SCHEDULE_DELAY :: bool
  wv_MQ_DELAY :: bool
  wv_EWMA :: bool
  wv_cycle :: s32
  wv_MUTRACE :: bool

definition wenv0 :: wenv where
  "wenv0 = \<lparr>wv_time = 0, wv_alarm = None, wv_period = 1, wv_SAR = False, wv_CS_DELAY = False,
     wv_SYSCALL_DELAY = False, wv_PREEMPT = False, wv_SCHEDULE_DELAY = False, wv_MQ_DELAY = False,
     wv_EWMA = False, wv_cycle = 0, wv_MUTRACE = False\<rparr>"

text \<open>\<open>wv_alarm\<close> is the alarm that the option \<open>'t'\<close> sets.\<close>

definition watcher_parse_arg :: "char \<Rightarrow> string \<Rightarrow> wenv \<Rightarrow> wenv argp" where
  "watcher_parse_arg key arg env =
     (if key = CHR ''t'' then
        (let env = env\<lparr>wv_time := word_of_int (fst (strtol arg))\<rparr>
         in Arg_ok (if wv_time env \<noteq> 0 then env\<lparr>wv_alarm := Some (wv_time env)\<rparr> else env))
      else if key = CHR ''i'' then Arg_ok (env\<lparr>wv_period := word_of_int (fst (strtol arg))\<rparr>)
      else if key = CHR ''s'' then Arg_ok (env\<lparr>wv_SAR := True\<rparr>)
      else if key = CHR ''c'' then Arg_ok (env\<lparr>wv_CS_DELAY := True\<rparr>)
      else if key = CHR ''S'' then Arg_ok (env\<lparr>wv_SYSCALL_DELAY := True\<rparr>)
      else if key = CHR ''p'' then Arg_ok (env\<lparr>wv_PREEMPT := True\<rparr>)
      else if key = CHR ''d'' then Arg_ok (env\<lparr>wv_SCHEDULE_DELAY := True\<rparr>)
      else if key = CHR ''m'' then Arg_ok (env\<lparr>wv_MQ_DELAY := True\<rparr>)
      else if key = CHR ''x'' then Arg_ok (env\<lparr>wv_MUTRACE := True\<rparr>)
      else if key = CHR ''E'' then Arg_ok (env\<lparr>wv_EWMA := True\<rparr>)
      else if key = CHR ''T'' then Arg_ok (env\<lparr>wv_cycle := word_of_int (fst (strtol arg))\<rparr>)
      else if key = CHR ''h'' then Arg_exit
      else Arg_unknown)"

subsection \<open>Loading\<close>

datatype wtool = T_cs | T_preempt | T_sc | T_sched | T_sar | T_mq | T_mutrace

record startup =
  so_open :: bool
  so_load :: s32
  so_perf :: s32
  so_find :: bool
  so_pin :: s32
  so_upd :: s32
  so_attach :: s32
  so_rb :: bool

record wproc =
  wm_skel :: "wtool list"
  wm_map :: "wtool list"
  wm_pinned :: "wtool list"
  wm_rb :: bool
  wm_kern :: watch_st

definition open_skel :: "wtool \<Rightarrow> wproc \<Rightarrow> wproc" where
  "open_skel t w = w\<lparr>wm_skel := List.insert t (wm_skel w)\<rparr>"

text \<open>\<open>bpf_map__unpin\<close> does nothing for a map pointer that is still NULL.\<close>

definition unpin :: "wtool \<Rightarrow> wproc \<Rightarrow> wproc" where
  "unpin t w = (if t \<in> set (wm_map w) then w\<lparr>wm_pinned := removeAll t (wm_pinned w)\<rparr> else w)"

definition common_pin_map :: "wtool \<Rightarrow> startup \<Rightarrow> wproc \<Rightarrow> s32 \<times> wproc" where
  "common_pin_map t so w =
     (if \<not> so_find so then (-1, w)
      else
        (let w = unpin t (w\<lparr>wm_map := List.insert t (wm_map w)\<rparr>)
         in if so_pin so \<noteq> 0 then (-1, w)
            else (0, w\<lparr>wm_pinned := List.insert t (wm_pinned w)\<rparr>)))"

definition free_rb :: "wproc \<Rightarrow> wproc" where
  "free_rb w = w\<lparr>wm_rb := False\<rparr>"

definition destroy :: "wtool \<Rightarrow> wproc \<Rightarrow> wproc" where
  "destroy t w = w\<lparr>wm_skel := removeAll t (wm_skel w)\<rparr>"

definition exit_code :: "s32 \<Rightarrow> s32" where
  "exit_code err = (if err <s 0 then - err else 0)"

text \<open>The seven cleanup labels: only four of them unpin and free, as each tool has a map and a buffer.\<close>

definition cleanup :: "wtool \<Rightarrow> s32 \<Rightarrow> wproc \<Rightarrow> s32 \<times> wproc" where
  "cleanup t err w =
     (let w = (if t = T_mutrace then w else unpin t w);
          w = (if t = T_sar \<or> t = T_sched then w else free_rb w)
      in (exit_code err, destroy t w))"

text \<open>\<open>bpf_map_update_elem(fd, &key, &init_value, 0)\<close>.\<close>

definition init_ctrl :: "wtool \<Rightarrow> s32 \<Rightarrow> watch_st \<Rightarrow> watch_st" where
  "init_ctrl t err k = (case t of
       T_cs \<Rightarrow> k\<lparr>wt_cs := (wt_cs k)\<lparr>cs_ctrl_map := snd (arr_update err (cs_ctrl_map (wt_cs k)) 0
          \<lparr>cs_func = False, cs_prev_watcher = 20\<rparr>)\<rparr>\<rparr>
     | T_preempt \<Rightarrow> k\<lparr>wt_preempt := (wt_preempt k)\<lparr>preempt_ctrl_map := snd (arr_update err (preempt_ctrl_map (wt_preempt k)) 0
          \<lparr>preempt_func = False, pe_prev_watcher = 40\<rparr>)\<rparr>\<rparr>
     | T_sc \<Rightarrow> k\<lparr>wt_sc := (wt_sc k)\<lparr>wsc_ctrl_map := snd (arr_update err (wsc_ctrl_map (wt_sc k)) 0
          \<lparr>wsc_func = False, wsc_prev_watcher = 30\<rparr>)\<rparr>\<rparr>
     | T_sched \<Rightarrow> k\<lparr>wt_sched := (wt_sched k)\<lparr>schedule_ctrl_map := snd (arr_update err (schedule_ctrl_map (wt_sched k)) 0
          \<lparr>wsd_func = False, wsd_min_us_set = False, wsd_min_us = 10000, wsd_prev_watcher = 50\<rparr>)\<rparr>\<rparr>
     | T_sar \<Rightarrow> k\<lparr>wt_sar := (wt_sar k)\<lparr>sar_ctrl_map := snd (arr_update err (sar_ctrl_map (wt_sar k)) 0
          \<lparr>sar_func = False, sar_percent = False, sar_prev_watcher = 10\<rparr>)\<rparr>\<rparr>
     | T_mq \<Rightarrow> k\<lparr>wt_mq := (wt_mq k)\<lparr>mq_ctrl_map := snd (arr_update err (mq_ctrl_map (wt_mq k)) 0
          \<lparr>mq_func = False, mq_prev_watcher = 60\<rparr>)\<rparr>\<rparr>
     | T_mutrace \<Rightarrow> k)"

text \<open>Loading gives the program fresh maps.\<close>

definition load_maps :: "wtool \<Rightarrow> watch_st \<Rightarrow> watch_st" where
  "load_maps t k = (case t of
       T_cs \<Rightarrow> k\<lparr>wt_cs := cs_maps\<rparr> | T_preempt \<Rightarrow> k\<lparr>wt_preempt := preempt_maps\<rparr>
     | T_sc \<Rightarrow> k\<lparr>wt_sc := wsc_maps\<rparr> | T_sched \<Rightarrow> k\<lparr>wt_sched := wsched_maps\<rparr>
     | T_sar \<Rightarrow> k\<lparr>wt_sar := sar_maps\<rparr> | T_mq \<Rightarrow> k\<lparr>wt_mq := mq_maps\<rparr> | T_mutrace \<Rightarrow> k)"

text \<open>
  The branch of \<open>main\<close> that loads a tool.  \<open>Inl\<close>: the program has ended with this code and state;
  \<open>Inr\<close>: the loop begins.  The branches differ where the \<open>if\<close>s on the tool say so: \<open>sar\<close> attaches a
  perf event before it pins, \<open>sar\<close> and \<open>schedule_delay\<close> have no ring buffer, and \<open>mutrace\<close> has no
  control map.
\<close>

definition watcher_start :: "wtool \<Rightarrow> startup \<Rightarrow> wproc \<Rightarrow> (s32 \<times> wproc) + wproc" where
  "watcher_start t so w =
     (if \<not> so_open so then Inl (1, w)
      else let w = open_skel t w in
      if so_load so \<noteq> 0 then Inl (cleanup t (so_load so) w)
      else let w = w\<lparr>wm_kern := load_maps t (wm_kern w)\<rparr> in
      if t = T_sar \<and> so_perf so \<noteq> 0 then Inl (cleanup t (so_perf so) w)
      else let (err, w) = (if t = T_mutrace then (0, w) else common_pin_map t so w) in
      if err <s 0 then Inl (cleanup t err w)
      else let w = w\<lparr>wm_kern := init_ctrl t (so_upd so) (wm_kern w)\<rparr> in
      if t \<noteq> T_mutrace \<and> so_upd so <s 0 then Inl (cleanup t (so_upd so) w)
      else if so_attach so \<noteq> 0 then Inl (cleanup t (so_attach so) w)
      else if t = T_sar \<or> t = T_sched then Inr w
      else if \<not> so_rb so then Inl (cleanup t (-1) w)
      else Inr (w\<lparr>wm_rb := True\<rparr>))"

text \<open>Which branch is taken.\<close>

definition tool_loaded :: "wenv \<Rightarrow> wtool option" where
  "tool_loaded env =
     (if wv_CS_DELAY env then Some T_cs else if wv_PREEMPT env then Some T_preempt
      else if wv_SYSCALL_DELAY env then Some T_sc else if wv_SCHEDULE_DELAY env then Some T_sched
      else if wv_SAR env then Some T_sar else if wv_MQ_DELAY env then Some T_mq
      else if wv_MUTRACE env then Some T_mutrace else None)"

subsection \<open>The loop\<close>

text \<open>
  One turn: whether \<open>exiting\<close> is set, what \<open>ring_buffer__poll\<close> returns and the records it hands to the
  callback, and for the reports that read maps the kernel's state and errors.
\<close>

record round =
  rd_exiting :: bool
  rd_poll :: s32
  rd_cs :: "cs_event list"
  rd_sc :: "syscall_events list"
  rd_pe :: "preempt_event list"
  rd_mq :: "mq_events list"
  rd_mu :: "mutex_contention_event list"
  rd_err :: "nat \<Rightarrow> s32"
  rd_kern :: watch_st

text \<open>The globals of the program.\<close>

record 'w wuser =
  us_sar :: sar_user
  us_count :: "s32 list"
  us_ewma :: 'w
  us_preempt :: preempt_sum
  us_sp :: sp_user
  us_locks :: "lock_count list"

text \<open>
  \<open>Turn_err\<close>: the turn's \<open>err\<close>; \<open>Turn_break\<close>: the branch for no tool; \<open>Turn_crash\<close>: a division
  trapped or a write left its array; \<open>Turn_hang\<close>: a callback, or the histogram that is printed
  after the poll, does not return.
\<close>

datatype 'w turn = Turn_err s32 "'w wuser" | Turn_break "'w wuser" | Turn_crash | Turn_hang

fun mutrace_shows :: "mutex_contention_event list \<Rightarrow> lock_count list \<Rightarrow> lock_count list option" where
  "mutrace_shows [] t = Some t"
| "mutrace_shows (e # es) t =
     (case mutrace_print e t of None \<Rightarrow> None | Some (_, t) \<Rightarrow> mutrace_shows es t)"

fun syscall_shows :: "round \<Rightarrow> bool \<Rightarrow> ('w \<Rightarrow> u64 \<Rightarrow> bool \<times> 'w) \<Rightarrow> syscall_events list \<Rightarrow> 'w \<Rightarrow> 'w" where
  "syscall_shows rd ewma filt [] w = w"
| "syscall_shows rd ewma filt (e # es) w =
     (case syscall_delay_print (rd_err rd 0) ewma filt (wt_sc (rd_kern rd)) e w of
        (Failed, w) \<Rightarrow> w
      | (_, w) \<Rightarrow> syscall_shows rd ewma filt es w)"

text \<open>The call of \<open>histogram\<close> returns if the loops of all its rows do.\<close>

definition histogram_returns :: "s32 list \<Rightarrow> bool" where
  "histogram_returns count \<longleftrightarrow> list_all (\<lambda>(_, _, _, stars). stars \<noteq> None) (histogram count)"

text \<open>
  The chain of \<open>else if\<close>s.  The results of the two reports are the errors \<open>print_all\<close> and
  \<open>schedule_print\<close> return.  The branch is that of the tool that was loaded, as for the options of
  one tool; with several, the loading and the loop may choose different ones, and the loop
  then works on the other's buffer.
\<close>

definition watcher_turn :: "('w \<Rightarrow> u64 \<Rightarrow> bool \<times> 'w) \<Rightarrow> (u64 \<Rightarrow> u64) \<Rightarrow> wenv \<Rightarrow> round \<Rightarrow> 'w wuser \<Rightarrow> 'w turn" where
  "watcher_turn filt utraw env rd us =
     (if wv_SAR env then
        (let (out, _, u) = print_all (rd_err rd) utraw (wt_sar (rd_kern rd)) (us_sar us)
         in Turn_err (if out = Sar_err then -1 else 0) (us\<lparr>us_sar := u\<rparr>))
      else if wv_CS_DELAY env then
        (case handle_events (rd_cs rd) (us_count us) of None \<Rightarrow> Turn_crash
         | Some c \<Rightarrow>
             if rd_poll rd <s 0 then Turn_err (rd_poll rd) (us\<lparr>us_count := c\<rparr>)
             else if \<not> histogram_returns c then Turn_hang
             else Turn_err (rd_poll rd) (us\<lparr>us_count := c\<rparr>))
      else if wv_SYSCALL_DELAY env then
        Turn_err (rd_poll rd) (us\<lparr>us_ewma := syscall_shows rd (wv_EWMA env) filt (rd_sc rd) (us_ewma us)\<rparr>)
      else if wv_PREEMPT env then
        (let ps = fold preempt_print (rd_pe rd) (us_preempt us) in
         if rd_poll rd <s 0 then Turn_err (rd_poll rd) (us\<lparr>us_preempt := ps\<rparr>)
         else (case preempt_period ps of None \<Rightarrow> Turn_crash
            | Some (_, ps) \<Rightarrow> Turn_err (rd_poll rd) (us\<lparr>us_preempt := ps\<rparr>)))
      else if wv_SCHEDULE_DELAY env then
        (let (out, _, sp) = schedule_print (rd_err rd) (wt_sched (rd_kern rd)) (us_sp us)
         in if out = Sp_trap then Turn_crash
            else Turn_err (if out = Sp_err then -1 else 0) (us\<lparr>us_sp := sp\<rparr>))
      else if wv_MQ_DELAY env then Turn_err (rd_poll rd) us
      else if wv_MUTRACE env then
        (case mutrace_shows (rd_mu rd) (us_locks us) of None \<Rightarrow> Turn_hang
         | Some t \<Rightarrow> Turn_err (rd_poll rd) (us\<lparr>us_locks := t\<rparr>))
      else Turn_break us)"

abbreviation (input) EINTR :: s32 where "EINTR \<equiv> 4"

text \<open>
  \<open>Loop_left err\<close>: the loop has been left with this \<open>err\<close>; \<open>Loop_on\<close>: the given turns are over and it
  goes on.
\<close>

datatype 'w loop_end = Loop_left s32 "'w wuser" | Loop_on s32 "'w wuser" | Loop_crash | Loop_hang

fun watcher_loop :: "('w \<Rightarrow> u64 \<Rightarrow> bool \<times> 'w) \<Rightarrow> (u64 \<Rightarrow> u64) \<Rightarrow> wenv \<Rightarrow> round list \<Rightarrow> s32 \<Rightarrow> 'w wuser \<Rightarrow> 'w loop_end" where
  "watcher_loop filt utraw env [] err us = Loop_on err us"
| "watcher_loop filt utraw env (rd # rds) err us =
     (if rd_exiting rd then Loop_left err us
      else case watcher_turn filt utraw env rd us of
        Turn_crash \<Rightarrow> Loop_crash
      | Turn_hang \<Rightarrow> Loop_hang
      | Turn_break us \<Rightarrow> Loop_left err us
      | Turn_err err us \<Rightarrow>
          if err = - EINTR then Loop_left 0 us
          else if err <s 0 then Loop_left err us
          else watcher_loop filt utraw env rds err us)"

text \<open>
  The whole of \<open>main\<close> after the options, for at least one CPU and not more than 128.  When the loop
  is left, control falls into the label that follows it, \<open>cs_delay_cleanup\<close>, whatever tool was loaded.
\<close>

datatype 'w watcher_end = Watcher_exits s32 wproc | Watcher_runs wproc "'w wuser" | Watcher_crashes wproc | Watcher_hangs wproc

definition watcher_main :: "('w \<Rightarrow> u64 \<Rightarrow> bool \<times> 'w) \<Rightarrow> (u64 \<Rightarrow> u64) \<Rightarrow> s32 \<Rightarrow> wenv \<Rightarrow> startup \<Rightarrow> round list \<Rightarrow>
    wproc \<Rightarrow> 'w wuser \<Rightarrow> 'w watcher_end" where
  "watcher_main filt utraw nr_cpus env so rds w us =
     (if nr_cpus <s 0 \<or> 128 <s nr_cpus then Watcher_exits 1 w
      else case (case tool_loaded env of None \<Rightarrow> Inr w | Some t \<Rightarrow> watcher_start t so w) of
        Inl (code, w) \<Rightarrow> Watcher_exits code w
      | Inr w \<Rightarrow>
          (case watcher_loop filt utraw env rds 0 us of
             Loop_left err us \<Rightarrow> (let (code, w) = cleanup T_cs err w in Watcher_exits code w)
           | Loop_on err us \<Rightarrow> Watcher_runs w us
           | Loop_crash \<Rightarrow> Watcher_crashes w
           | Loop_hang \<Rightarrow> Watcher_hangs w))"

end
