(* ===== verification/CwMainProps.thy ===== *)
theory CwMainProps imports CwMain CwUserProps CwLockCount begin

text \<open>
  The life of the process.  A loading that fails releases what it had taken (\<open>failed_start_clean\<close>); a
  loop that is told to exit is left, since no turn of it hangs (\<open>watcher_stops\<close>); but the code it then runs is the cleanup of
  \<open>cs_delay\<close>, so that any other tool's skeleton and pinned map stay (\<open>exit_leaves_pinned\<close>).
\<close>

subsection \<open>Loading\<close>

lemma cleanup_state:
  "wm_skel (snd (cleanup t err w)) = removeAll t (wm_skel w)"
  "wm_map (snd (cleanup t err w)) = wm_map w"
  "wm_pinned (snd (cleanup t err w)) =
     (if t \<noteq> T_mutrace \<and> t \<in> set (wm_map w) then removeAll t (wm_pinned w) else wm_pinned w)"
  "wm_rb (snd (cleanup t err w)) = (wm_rb w \<and> (t = T_sar \<or> t = T_sched))"
  "fst (cleanup t err w) = exit_code err"
  by (auto simp: cleanup_def unpin_def free_rb_def destroy_def Let_def)

text \<open>What every jump to the tool's label leaves behind, given what the jump found.\<close>

definition start_inv :: "wtool \<Rightarrow> wproc \<Rightarrow> wproc \<Rightarrow> bool" where
  "start_inv t w v \<longleftrightarrow> wm_skel v = List.insert t (wm_skel w) \<and>
     set (wm_pinned v) \<subseteq> insert t (set (wm_pinned w)) \<and> set (wm_pinned w) - {t} \<subseteq> set (wm_pinned v) \<and>
     (t \<in> set (wm_pinned v) \<longrightarrow> t \<in> set (wm_pinned w) \<or> t \<in> set (wm_map v) \<and> t \<noteq> T_mutrace) \<and>
     (wm_rb v \<longrightarrow> wm_rb w)"

definition released :: "wtool \<Rightarrow> wproc \<Rightarrow> wproc \<Rightarrow> bool" where
  "released t w v \<longleftrightarrow> set (wm_skel v) = set (wm_skel w) - {t} \<and> set (wm_pinned v) \<subseteq> set (wm_pinned w) \<and>
     set (wm_pinned w) - {t} \<subseteq> set (wm_pinned v) \<and> (wm_rb v \<longrightarrow> wm_rb w)"

lemma cleanup_releases:
  assumes "start_inv t w v" and "cleanup t err v = (code, v')"
  shows "released t w v'" and "code = exit_code err"
proof -
  have v': "v' = snd (cleanup t err v)" "code = fst (cleanup t err v)" using assms(2) by simp_all
  show "code = exit_code err" by (simp add: v'(2) cleanup_state)
  show "released t w v'"
    using assms(1) by (auto simp: v'(1) released_def start_inv_def cleanup_state)
qed

lemma removeAll_only: "set xs \<subseteq> {t} \<Longrightarrow> removeAll t xs = []"
  by (induction xs) auto

lemma start_inv_open: "start_inv t w (open_skel t w)"
  by (auto simp: start_inv_def open_skel_def)

lemma start_inv_kern: "start_inv t w v \<Longrightarrow> start_inv t w (v\<lparr>wm_kern := k\<rparr>)"
  by (simp add: start_inv_def)

lemma start_inv_pin:
  assumes "start_inv t w v" and "t \<noteq> T_mutrace" and "common_pin_map t so v = (err, u)"
  shows "start_inv t w u" and "err = 0 \<or> err = -1" and "err = 0 \<Longrightarrow> t \<in> set (wm_pinned u) \<and> t \<in> set (wm_map u)"
  using assms by (auto simp: common_pin_map_def unpin_def start_inv_def Let_def split: if_splits)

text \<open>
  The steps that load an opened tool, in order: whether the step has failed, and the error it then
  stands for.
\<close>

definition start_steps :: "wtool \<Rightarrow> startup \<Rightarrow> (bool \<times> s32) list" where
  "start_steps t so =
     [(so_load so \<noteq> 0, so_load so)] @
     (if t = T_sar then [(so_perf so \<noteq> 0, so_perf so)] else []) @
     (if t = T_mutrace then [] else [(\<not> so_find so, -1), (so_pin so \<noteq> 0, -1), (so_upd so <s 0, so_upd so)]) @
     [(so_attach so \<noteq> 0, so_attach so)] @
     (if t = T_sar \<or> t = T_sched then [] else [(\<not> so_rb so, -1)])"

definition first_error :: "(bool \<times> s32) list \<Rightarrow> s32 option" where
  "first_error steps = map_option snd (find fst steps)"

lemma first_error_simps [simp]:
  "first_error [] = None"
  "first_error ((b, e) # steps) = (if b then Some e else first_error steps)"
  "first_error (xs @ ys) = (case first_error xs of None \<Rightarrow> first_error ys | Some e \<Rightarrow> Some e)"
  by (simp_all add: first_error_def) (induction xs; simp add: first_error_def)

lemma watcher_start_cases:
  assumes "so_open so"
  shows "case watcher_start t so w of
      Inl (code, w') \<Rightarrow> (\<exists>e u. start_inv t w u \<and> cleanup t e u = (code, w') \<and> first_error (start_steps t so) = Some e)
    | Inr v \<Rightarrow> first_error (start_steps t so) = None \<and> start_inv t (w\<lparr>wm_rb := True\<rparr>) v \<and> t \<in> set (wm_skel v) \<and>
        (t \<noteq> T_mutrace \<longrightarrow> t \<in> set (wm_pinned v) \<and> t \<in> set (wm_map v))"
proof -
  define w1 where "w1 = open_skel t w"
  define w2 where "w2 = w1\<lparr>wm_kern := load_maps t (wm_kern w1)\<rparr>"
  obtain err v where pin: "(if t = T_mutrace then (0, w2) else common_pin_map t so w2) = (err, v)"
    by (cases "if t = T_mutrace then (0, w2) else common_pin_map t so w2")
  define v1 where "v1 = v\<lparr>wm_kern := init_ctrl t (so_upd so) (wm_kern v)\<rparr>"
  have i1: "start_inv t w w1" by (simp add: w1_def start_inv_open)
  have i2: "start_inv t w w2" using i1 by (simp add: w2_def start_inv_kern)
  have iv: "start_inv t w v" and pinned: "err = 0 \<Longrightarrow> t \<noteq> T_mutrace \<Longrightarrow> t \<in> set (wm_pinned v) \<and> t \<in> set (wm_map v)"
    and err: "err = 0 \<or> err = -1"
    using pin i2 start_inv_pin [OF i2] by (auto split: if_splits)
  have bad: "err <s 0 \<longleftrightarrow> t \<noteq> T_mutrace \<and> (\<not> so_find so \<or> so_pin so \<noteq> 0)"
    using pin by (auto simp: common_pin_map_def Let_def word_sless_alt split: if_splits)
  have i3: "start_inv t w v1" using iv by (simp add: v1_def start_inv_kern)
  have run: "watcher_start t so w =
     (if so_load so \<noteq> 0 then Inl (cleanup t (so_load so) w1)
      else if t = T_sar \<and> so_perf so \<noteq> 0 then Inl (cleanup t (so_perf so) w2)
      else if err <s 0 then Inl (cleanup t err v)
      else if t \<noteq> T_mutrace \<and> so_upd so <s 0 then Inl (cleanup t (so_upd so) v1)
      else if so_attach so \<noteq> 0 then Inl (cleanup t (so_attach so) v1)
      else if t = T_sar \<or> t = T_sched then Inr v1
      else if \<not> so_rb so then Inl (cleanup t (-1) v1)
      else Inr (v1\<lparr>wm_rb := True\<rparr>))"
    unfolding watcher_start_def Let_def w1_def [symmetric] w2_def [symmetric] pin prod.case v1_def [symmetric]
    using assms by (simp only: not_True_eq_False if_False)
  have steps: "first_error (start_steps t so) =
     (if so_load so \<noteq> 0 then Some (so_load so)
      else if t = T_sar \<and> so_perf so \<noteq> 0 then Some (so_perf so)
      else if err <s 0 then Some err
      else if t \<noteq> T_mutrace \<and> so_upd so <s 0 then Some (so_upd so)
      else if so_attach so \<noteq> 0 then Some (so_attach so)
      else if t = T_sar \<or> t = T_sched then None
      else if \<not> so_rb so then Some (-1) else None)"
    using bad err by (cases t) (auto simp: start_steps_def word_sless_alt)
  have good: "start_inv t (w\<lparr>wm_rb := True\<rparr>) (v1\<lparr>wm_rb := b\<rparr>)" for b
    using i3 by (simp add: start_inv_def)
  have skel: "t \<in> set (wm_skel v1)" using i3 by (simp add: start_inv_def)
  have okpin: "\<not> err <s 0 \<Longrightarrow> t \<noteq> T_mutrace \<Longrightarrow> t \<in> set (wm_pinned v1) \<and> t \<in> set (wm_map v1)"
    using err pinned by (auto simp: v1_def word_sless_alt)
  show ?thesis
  proof (cases "watcher_start t so w")
    case (Inl p)
    obtain code w' where p: "p = (code, w')" by (cases p)
    have "\<exists>e u. start_inv t w u \<and> cleanup t e u = (code, w') \<and> first_error (start_steps t so) = Some e"
    proof -
      have "\<exists>e. first_error (start_steps t so) = Some e \<and> (\<exists>u \<in> {w1, w2, v, v1}. cleanup t e u = (code, w'))"
        using Inl [unfolded run p] unfolding steps by (auto split: if_split_asm)
      then show ?thesis using i1 i2 iv i3 by blast
    qed
    then show ?thesis by (simp add: Inl p)
  next
    case (Inr u)
    have "u = v1 \<or> u = v1\<lparr>wm_rb := True\<rparr>" "\<not> err <s 0" "first_error (start_steps t so) = None"
      using Inr [unfolded run] by (auto simp: steps split: if_splits)
    then show ?thesis
      using good [of True] good [of "wm_rb v1"] skel okpin by (auto simp: Inr)
  qed
qed

text \<open>
  C34. A loading that fails after the skeleton was opened ends the program with the error \<open>e\<close> of the first
  step that fails: the exit code is \<open>-e\<close> for a negative error, and 0 for a positive one.  It releases what
  it had taken: the skeleton is gone, no ring buffer is left, and nothing is pinned that was not pinned
  before; the other tools' files stay.
\<close>

theorem failed_start_clean:
  assumes "watcher_start t so w = Inl (code, w')" and "so_open so"
  shows "(\<exists>e. first_error (start_steps t so) = Some e \<and> code = (if e <s 0 then - e else 0)) \<and>
     set (wm_skel w') = set (wm_skel w) - {t} \<and>
     set (wm_pinned w') \<subseteq> set (wm_pinned w) \<and> set (wm_pinned w) - {t} \<subseteq> set (wm_pinned w') \<and>
     (wm_rb w' \<longrightarrow> wm_rb w)"
proof -
  obtain e u where u: "start_inv t w u" "cleanup t e u = (code, w')" "first_error (start_steps t so) = Some e"
    using watcher_start_cases [OF assms(2), of t w] assms(1) by auto
  from cleanup_releases [OF u(1,2)] u(3) show ?thesis by (auto simp: released_def exit_code_def)
qed

definition wproc0 :: wproc where
  "wproc0 = \<lparr>wm_skel = [], wm_map = [], wm_pinned = [], wm_rb = False, wm_kern = watch_maps\<rparr>"

definition startup_ok :: startup where
  "startup_ok = \<lparr>so_open = True, so_load = 0, so_perf = 0, so_find = True, so_pin = 0, so_upd = 0, so_attach = 0,
     so_rb = True\<rparr>"

lemmas start_demo_simps = watcher_start_def startup_ok_def wproc0_def open_skel_def common_pin_map_def unpin_def
  cleanup_def free_rb_def destroy_def exit_code_def load_maps_def init_ctrl_def Let_def

theorem failed_start_clean_witness:
  "\<exists>w'. watcher_start T_mq (startup_ok\<lparr>so_attach := -22, so_rb := False\<rparr>) wproc0 = Inl (22, w') \<and> set (wm_pinned w') = {}"
proof -
  let ?so = "startup_ok\<lparr>so_attach := -22, so_rb := False\<rparr>"
  have "\<exists>code w'. watcher_start T_mq ?so wproc0 = Inl (code, w')"
    by (simp add: start_demo_simps)
  then obtain code w' where r: "watcher_start T_mq ?so wproc0 = Inl (code, w')" by blast
  have "first_error (start_steps T_mq ?so) = Some (- 22)" by (simp add: start_steps_def startup_ok_def)
  with failed_start_clean [OF r] have "code = 22" "set (wm_pinned w') = {}"
    by (simp_all add: startup_ok_def wproc0_def word_sless_alt)
  with r show ?thesis by blast
qed

subsection \<open>The loop\<close>

text \<open>The rows of the histogram all end, whatever the counts.\<close>

lemma histogram_returns_always: "histogram_returns c"
  by (simp add: histogram_returns_def histogram_rows list_all_iff)

text \<open>The callback of \<open>cs_delay\<close> only leaves its array for a delay of \<open>2 ^ 25\<close> microseconds or more.\<close>

lemma handle_event_small:
  assumes "unat (cse_delay e) < 2 ^ 25" and "length c = 25"
  shows "\<exists>c'. handle_event e c = Some c' \<and> length c' = 25"
proof -
  obtain i where i: "in_bucket i e" using bucket_ex by blast
  have "i < 25" using bucket_less [OF i assms(1)] by simp
  moreover have "unat (cse_delay e) < 2 ^ 31" using assms(1) by simp
  ultimately show ?thesis using handle_event_index [OF i] assms(2) by simp
qed

lemma handle_events_small:
  "\<forall>e \<in> set es. unat (cse_delay e) < 2 ^ 25 \<Longrightarrow> length c = 25 \<Longrightarrow> \<exists>c'. handle_events es c = Some c'"
proof (induction es arbitrary: c)
  case (Cons e es)
  obtain c' where "handle_event e c = Some c'" "length c' = 25"
    using handle_event_small [of e c] Cons.prems by auto
  then show ?case using Cons.IH [of c'] Cons.prems(1) by simp
qed simp

lemma handle_events_length: "handle_events es c = Some c' \<Longrightarrow> length c' = length c"
  by (induction es arbitrary: c) (auto simp: handle_event_def Let_def split: option.splits if_splits)

text \<open>The callback of \<open>mutrace\<close> returns as long as the table has room for the locks.\<close>

lemma mutrace_shows_end:
  "lc_within K t \<Longrightarrow> mc_ptr ` set es \<subseteq> K \<Longrightarrow> \<exists>u. mutrace_shows es t = Some u \<and> lc_within K u"
proof (induction es arbitrary: t)
  case (Cons e es)
  show ?case
  proof (cases "mu_shown e")
    case True
    obtain u c where u: "lc_within K u" "mutrace_print e t = Some (Shown (e, c + 1), u)"
      using mutrace_print_shown [OF Cons.prems(1) _ True] Cons.prems(2) by auto
    then show ?thesis using Cons.IH [OF u(1)] Cons.prems(2) by simp
  next
    case False
    then have "mutrace_print e t = Some (Hidden, t)" by (simp add: mutrace_print_def mu_shown_def)
    then show ?thesis using Cons.IH [OF Cons.prems(1)] Cons.prems(2) by simp
  qed
qed simp

text \<open>The tool whose branch the loop takes.\<close>

definition tool_run :: "wenv \<Rightarrow> wtool option" where
  "tool_run env =
     (if wv_SAR env then Some T_sar else if wv_CS_DELAY env then Some T_cs
      else if wv_SYSCALL_DELAY env then Some T_sc else if wv_PREEMPT env then Some T_preempt
      else if wv_SCHEDULE_DELAY env then Some T_sched else if wv_MQ_DELAY env then Some T_mq
      else if wv_MUTRACE env then Some T_mutrace else None)"

text \<open>
  The inputs with which a turn may crash: a delay outside the histogram, a period without a preemption, a
  schedule report before the first delay.
\<close>

definition round_traps :: "wenv \<Rightarrow> round \<Rightarrow> bool" where
  "round_traps env rd =
     (case tool_run env of
        Some T_cs \<Rightarrow> \<exists>e \<in> set (rd_cs rd). 2 ^ 25 \<le> unat (cse_delay e)
      | Some T_preempt \<Rightarrow> of_nat (length (rd_pe rd)) = (0 :: s32)
      | Some T_sched \<Rightarrow> wu_sum_count (hd (wsys_schedule (wt_sched (rd_kern rd)))) = 0
      | _ \<Rightarrow> False)"

definition loop_inv :: "u64 set \<Rightarrow> 'w wuser \<Rightarrow> bool" where
  "loop_inv K us \<longleftrightarrow> lc_within K (us_locks us) \<and> length (us_count us) = 25 \<and> ps_count (us_preempt us) = 0"

lemma preempt_print_count: "ps_count (fold preempt_print es s) = ps_count s + of_nat (length es)"
  by (induction es arbitrary: s) (simp_all add: preempt_print_def algebra_simps)

lemma schedule_trap:
  "fst (schedule_print err s u) = Sp_trap \<Longrightarrow> wu_sum_count (hd (wsys_schedule s)) = 0"
  by (auto simp: schedule_print_def schedule_sums_def schedule_threshold_def schedule_header_def Let_def
      split: if_splits option.splits prod.splits)

lemma watcher_turn_safe:
  assumes "loop_inv K us" and "mc_ptr ` set (rd_mu rd) \<subseteq> K"
  shows "case watcher_turn filt utraw env rd us of
      Turn_err err us' \<Rightarrow> err <s 0 \<or> loop_inv K us'
    | Turn_break us' \<Rightarrow> True
    | Turn_crash \<Rightarrow> round_traps env rd
    | Turn_hang \<Rightarrow> False"
proof (cases "tool_run env")
  case None
  then show ?thesis by (simp add: watcher_turn_def tool_run_def split: if_splits)
next
  case (Some t)
  show ?thesis
  proof (cases t)
    case T_cs
    then have env: "\<not> wv_SAR env" "wv_CS_DELAY env" using Some by (auto simp: tool_run_def split: if_splits)
    show ?thesis
    proof (cases "handle_events (rd_cs rd) (us_count us)")
      case None
      then have "\<not> (\<forall>e \<in> set (rd_cs rd). unat (cse_delay e) < 2 ^ 25)"
        using handle_events_small [of "rd_cs rd" "us_count us"] assms(1) by (auto simp: loop_inv_def)
      then have "\<exists>e \<in> set (rd_cs rd). 2 ^ 25 \<le> unat (cse_delay e)" by (simp add: not_less)
      then show ?thesis using None Some T_cs env by (simp add: watcher_turn_def round_traps_def)
    next
      case (Some c)
      then show ?thesis
        using env assms(1) handle_events_length [OF Some]
        by (simp add: watcher_turn_def histogram_returns_always loop_inv_def)
    qed
  next
    case T_preempt
    then have env: "\<not> wv_SAR env" "\<not> wv_CS_DELAY env" "\<not> wv_SYSCALL_DELAY env" "wv_PREEMPT env"
      using Some by (auto simp: tool_run_def split: if_splits)
    then show ?thesis
      using Some T_preempt assms(1) preempt_print_count [of "rd_pe rd" "us_preempt us"]
      by (auto simp: watcher_turn_def round_traps_def loop_inv_def preempt_period_def Let_def split: option.splits)
  next
    case T_sched
    then have env: "\<not> wv_SAR env" "\<not> wv_CS_DELAY env" "\<not> wv_SYSCALL_DELAY env" "\<not> wv_PREEMPT env"
      "wv_SCHEDULE_DELAY env"
      using Some by (auto simp: tool_run_def split: if_splits)
    then show ?thesis
      using Some T_sched assms(1) schedule_trap [of "rd_err rd" "wt_sched (rd_kern rd)" "us_sp us"]
      by (auto simp: watcher_turn_def round_traps_def loop_inv_def split_beta Let_def)
  next
    case T_mutrace
    then have env: "\<not> wv_SAR env" "\<not> wv_CS_DELAY env" "\<not> wv_SYSCALL_DELAY env" "\<not> wv_PREEMPT env"
      "\<not> wv_SCHEDULE_DELAY env" "\<not> wv_MQ_DELAY env" "wv_MUTRACE env"
      using Some by (auto simp: tool_run_def split: if_splits)
    obtain u where "mutrace_shows (rd_mu rd) (us_locks us) = Some u" "lc_within K u"
      using mutrace_shows_end [OF _ assms(2)] assms(1) by (auto simp: loop_inv_def)
    then show ?thesis using env assms(1) by (simp add: watcher_turn_def loop_inv_def)
  qed (use Some assms(1) in \<open>auto simp: tool_run_def watcher_turn_def loop_inv_def split_beta Let_def split: if_splits\<close>)
qed

lemma watcher_loop_left:
  assumes "rd_exiting rd"
  shows "loop_inv K us \<Longrightarrow> \<forall>a \<in> set rds. mc_ptr ` set (rd_mu a) \<subseteq> K \<Longrightarrow>
    (\<exists>e u. watcher_loop filt utraw env (rds @ rd # later) err us = Loop_left e u) \<or>
    watcher_loop filt utraw env (rds @ rd # later) err us = Loop_crash \<and> (\<exists>a \<in> set rds. round_traps env a)"
proof (induction rds arbitrary: err us)
  case Nil
  then show ?case using assms by simp
next
  case (Cons a rds)
  have safe: "case watcher_turn filt utraw env a us of
      Turn_err err us' \<Rightarrow> err <s 0 \<or> loop_inv K us' | Turn_break us' \<Rightarrow> True
    | Turn_crash \<Rightarrow> round_traps env a | Turn_hang \<Rightarrow> False"
    using Cons.prems by (intro watcher_turn_safe) simp_all
  show ?case
  proof (cases "watcher_turn filt utraw env a us")
    case (Turn_err e u)
    have "e = - EINTR \<or> e <s 0 \<or> loop_inv K u" using safe Turn_err by simp
    then show ?thesis using Cons.IH [of u e] Cons.prems(2) Turn_err by auto
  qed (use safe in simp_all)
qed

text \<open>
  C38. The loop of \<open>main\<close> obeys \<open>exiting\<close>: if a signal has set it before some turn, then by that turn the loop has been
  left, whatever tool runs and whatever records and errors the turns before it bring; no callback and no report
  hangs, the rows of the histogram included, provided that the records of \<open>mutrace\<close> name at most 1024 locks,
  none of them at the address 0.  The one exception is a turn in which the program dies: of a delay of \<open>2 ^ 25\<close>
  microseconds or more in \<open>cs_delay\<close>, of a period without a preemption in \<open>preempt_time\<close>, or of a report of
  \<open>schedule_delay\<close> before the first delay.
\<close>

theorem watcher_stops:
  assumes "rd_exiting rd" and "K = (\<Union>a \<in> set rds. mc_ptr ` set (rd_mu a))" and "card K \<le> 1024" and "0 \<notin> K"
    and "us_locks us = lock_counts0" and "us_count us = count0" and "ps_count (us_preempt us) = 0"
  shows "(\<exists>e u. watcher_loop filt utraw env (rds @ rd # later) err us = Loop_left e u) \<or>
    watcher_loop filt utraw env (rds @ rd # later) err us = Loop_crash \<and> (\<exists>a \<in> set rds. round_traps env a)"
proof -
  have "finite K" by (simp add: assms(2))
  then have "loop_inv K us" using assms(3-7) by (simp add: loop_inv_def lc_within_empty count0_def)
  then show ?thesis by (rule watcher_loop_left [OF assms(1)]) (use assms(2) in blast)
qed

definition quiet_round :: round where
  "quiet_round = \<lparr>rd_exiting = False, rd_poll = 0, rd_cs = [], rd_sc = [], rd_pe = [], rd_mq = [], rd_mu = [],
     rd_err = (\<lambda>_. 0), rd_kern = watch_maps\<rparr>"

definition wuser0 :: "unit wuser" where
  "wuser0 = \<lparr>us_sar = sar_user0, us_count = count0, us_ewma = (), us_preempt = \<lparr>ps_count = 0, ps_sum = 0, ps_start_print = False\<rparr>,
     us_sp = \<lparr>sp_ifprint = False, sp_seen = []\<rparr>, us_locks = lock_counts0\<rparr>"

text \<open>Two turns of \<open>mutrace\<close>, on the locks 5 and 1029, which have the same hash, and one of \<open>cs_delay\<close>.\<close>

theorem watcher_stops_witness:
  "(\<exists>e u. watcher_loop (\<lambda>w d. (True, w)) id (wenv0\<lparr>wv_MUTRACE := True\<rparr>)
      ([quiet_round\<lparr>rd_mu := [mu_contended 5, mu_contended 1029]\<rparr>, quiet_round\<lparr>rd_mu := [mu_contended 5]\<rparr>] @
       quiet_round\<lparr>rd_exiting := True\<rparr> # [quiet_round]) 0 wuser0 = Loop_left e u) \<and>
   (\<exists>e u. watcher_loop (\<lambda>w d. (True, w)) id (wenv0\<lparr>wv_CS_DELAY := True\<rparr>)
      ([quiet_round\<lparr>rd_cs := [cs_ev 40, cs_ev 0]\<rparr>] @ quiet_round\<lparr>rd_exiting := True\<rparr> # [quiet_round]) 0 wuser0 =
      Loop_left e u)"
proof -
  let ?m = "[quiet_round\<lparr>rd_mu := [mu_contended 5, mu_contended 1029]\<rparr>, quiet_round\<lparr>rd_mu := [mu_contended 5]\<rparr>]"
  let ?c = "[quiet_round\<lparr>rd_cs := [cs_ev 40, cs_ev 0]\<rparr>]"
  have K: "(\<Union>a \<in> set ?m. mc_ptr ` set (rd_mu a)) = {5, 1029}" "(\<Union>a \<in> set ?c. mc_ptr ` set (rd_mu a)) = {}"
    by (auto simp: mu_contended_def quiet_round_def)
  have user: "us_locks wuser0 = lock_counts0" "us_count wuser0 = count0" "ps_count (us_preempt wuser0) = 0"
    by (simp_all add: wuser0_def)
  have "\<not> (\<exists>a \<in> set ?m. round_traps (wenv0\<lparr>wv_MUTRACE := True\<rparr>) a)"
    "\<not> (\<exists>a \<in> set ?c. round_traps (wenv0\<lparr>wv_CS_DELAY := True\<rparr>) a)"
    by (simp_all add: round_traps_def tool_run_def wenv0_def cs_ev_def)
  moreover have "rd_exiting (quiet_round\<lparr>rd_exiting := True\<rparr>)" by simp
  note watcher_stops [OF this K(1) [symmetric] _ _ user, of "\<lambda>w d. (True, w)" id "wenv0\<lparr>wv_MUTRACE := True\<rparr>" "[quiet_round]" 0]
    watcher_stops [OF this K(2) [symmetric] _ _ user, of "\<lambda>w d. (True, w)" id "wenv0\<lparr>wv_CS_DELAY := True\<rparr>" "[quiet_round]" 0]
  ultimately show ?thesis by (simp only: card.empty card_insert_if) simp
qed

text \<open>
  A tool is loaded and the loop is left, for a signal or an error.  The process exits through the
  cleanup of \<open>cs_delay\<close>: with that tool everything is released; with any other one the skeleton is
  not destroyed, and its control map stays pinned in the BPF file system after the process has
  ended (\<open>mutrace\<close> pins none).
\<close>

theorem exit_leaves_pinned:
  assumes "tool_loaded env = Some t" and "watcher_start t so wproc0 = Inr v" and "so_open so"
    and "watcher_loop filt utraw env rds 0 us = Loop_left err us'"
    and "\<not> nr_cpus <s 0" and "\<not> 128 <s nr_cpus"
  shows "\<exists>w'. watcher_main filt utraw nr_cpus env so rds wproc0 us = Watcher_exits (exit_code err) w' \<and>
     set (wm_skel w') = (if t = T_cs then {} else {t}) \<and>
     set (wm_pinned w') = (if t = T_cs \<or> t = T_mutrace then {} else {t}) \<and> \<not> wm_rb w'"
proof -
  let ?w = "snd (cleanup T_cs err v)"
  have v: "set (wm_skel v) = {t}" "set (wm_pinned v) = (if t = T_mutrace then {} else {t})"
    "t \<noteq> T_mutrace \<Longrightarrow> t \<in> set (wm_map v)"
    using watcher_start_cases [OF assms(3), of t wproc0] assms(2)
    by (auto simp: start_inv_def wproc0_def dest: subset_singletonD)
  have "watcher_main filt utraw nr_cpus env so rds wproc0 us = Watcher_exits (exit_code err) ?w"
    using assms by (simp add: watcher_main_def split_beta cleanup_state(5))
  moreover have "set (wm_skel ?w) = (if t = T_cs then {} else {t})"
    using v by (auto simp: cleanup_state removeAll_only)
  moreover have "set (wm_pinned ?w) = (if t = T_cs \<or> t = T_mutrace then {} else {t})"
    using v by (auto simp: cleanup_state removeAll_only)
  moreover have "\<not> wm_rb ?w" by (simp add: cleanup_state)
  ultimately show ?thesis by blast
qed

theorem exit_leaves_pinned_witness:
  "\<exists>w'. watcher_main (\<lambda>w d. (True, w)) id 4 (wenv0\<lparr>wv_MQ_DELAY := True\<rparr>) startup_ok
     [quiet_round, quiet_round\<lparr>rd_exiting := True\<rparr>] wproc0 wuser0 = Watcher_exits 0 w' \<and> set (wm_pinned w') = {T_mq}"
proof -
  let ?env = "wenv0\<lparr>wv_MQ_DELAY := True\<rparr>"
  have start: "\<exists>v. watcher_start T_mq startup_ok wproc0 = Inr v" by (simp add: start_demo_simps)
  then obtain v where v: "watcher_start T_mq startup_ok wproc0 = Inr v" ..
  have tool: "tool_loaded ?env = Some T_mq" by (simp add: tool_loaded_def wenv0_def)
  have loop: "watcher_loop (\<lambda>w d. (True, w)) id ?env [quiet_round, quiet_round\<lparr>rd_exiting := True\<rparr>] 0 wuser0 =
      Loop_left 0 wuser0"
    by (simp add: watcher_turn_def wenv0_def quiet_round_def)
  have "so_open startup_ok" by (simp add: startup_ok_def)
  from exit_leaves_pinned [OF tool v this loop, of 4] show ?thesis by (auto simp: exit_code_def word_sless_alt)
qed

end
