(* ===== verification/TopSyscalls.thy ===== *)
theory TopSyscalls imports SyscallImage begin

text \<open>
  The ranking of the system calls of a process, \<open>update_syscalls\<close> of \<open>include/helpers.h\<close>: how often
  each number occurred, and the three numbers that are displayed as the most frequent ones.  The
  ranking is kept up to date call by call: a listed number is moved by three compare-and-swap
  steps, another one is inserted when its count exceeds the third's.

  \<open>None\<close> is C's undefined behaviour: a call number outside of the array of \<open>NR_syscalls\<close> counters,
  or a \<open>count\<close> larger than the record's array.
\<close>

subsection \<open>The data\<close>

abbreviation (input) NR_syscalls :: nat where "NR_syscalls \<equiv> 500"

record proc_syscall_info =
  first_syscall :: s32
  second_syscall :: s32
  third_syscall :: s32
  syscalls :: "u32 list"

text \<open>\<open>struct syscall_hash syscall_hash = {}\<close>.\<close>

definition zero_info :: proc_syscall_info where
  "zero_info = \<lparr>first_syscall = 0, second_syscall = 0, third_syscall = 0,
     syscalls = replicate NR_syscalls 0\<rparr>"

definition calls_of :: "proc_syscall_info \<Rightarrow> s32 \<Rightarrow> u32" where
  "calls_of p nr = syscalls p ! unat nr"

subsection \<open>The update\<close>

definition swap_third :: "proc_syscall_info \<Rightarrow> proc_syscall_info" where
  "swap_third p =
     (if calls_of p (third_syscall p) > calls_of p (second_syscall p)
      then p\<lparr>second_syscall := third_syscall p, third_syscall := second_syscall p\<rparr> else p)"

definition swap_second :: "proc_syscall_info \<Rightarrow> proc_syscall_info" where
  "swap_second p =
     (if calls_of p (second_syscall p) > calls_of p (first_syscall p)
      then p\<lparr>first_syscall := second_syscall p, second_syscall := first_syscall p\<rparr> else p)"

definition rank_insert :: "s32 \<Rightarrow> proc_syscall_info \<Rightarrow> proc_syscall_info" where
  "rank_insert nr p =
     (if calls_of p nr > calls_of p (third_syscall p) then
        (if calls_of p nr > calls_of p (second_syscall p) then
           (if calls_of p nr > calls_of p (first_syscall p)
            then p\<lparr>third_syscall := second_syscall p, second_syscall := first_syscall p, first_syscall := nr\<rparr>
            else p\<lparr>third_syscall := second_syscall p, second_syscall := nr\<rparr>)
         else p\<lparr>third_syscall := nr\<rparr>)
      else p)"

definition listed :: "proc_syscall_info \<Rightarrow> s32 \<Rightarrow> bool" where
  "listed p nr \<longleftrightarrow> nr = first_syscall p \<or> nr = second_syscall p \<or> nr = third_syscall p"

text \<open>One turn of the loop.\<close>

definition rank_call :: "s32 \<Rightarrow> proc_syscall_info \<Rightarrow> proc_syscall_info option" where
  "rank_call nr p =
     (if length (syscalls p) \<le> unat nr then None
      else
        (let p = p\<lparr>syscalls := (syscalls p)[unat nr := calls_of p nr + 1]\<rparr>
         in Some (if listed p nr then swap_third (swap_second (swap_third p)) else rank_insert nr p)))"

text \<open>\<open>for(int i=0; i<e->count; i++)\<close>; \<open>count\<close> is unsigned.\<close>

function rank_loop :: "u32 \<Rightarrow> s32 list \<Rightarrow> nat \<Rightarrow> proc_syscall_info \<Rightarrow> proc_syscall_info option" where
  "rank_loop count record_syscall i p =
     (if i < unat count then
        (if i < length record_syscall then
           (case rank_call (record_syscall ! i) p of
              None \<Rightarrow> None
            | Some p \<Rightarrow> rank_loop count record_syscall (Suc i) p)
         else None)
      else Some p)"
  by pat_completeness auto
termination by (relation "measure (\<lambda>(count, _, i, _). unat count - i)") auto

declare rank_loop.simps [simp del]

definition update_syscalls :: "syscall_seq \<Rightarrow> proc_syscall_info \<Rightarrow> proc_syscall_info option" where
  "update_syscalls e p = rank_loop (sq_count e) (sq_record e) 0 p"

subsection \<open>The loop as a fold\<close>

fun rank_calls :: "s32 list \<Rightarrow> proc_syscall_info \<Rightarrow> proc_syscall_info option" where
  "rank_calls [] p = Some p"
| "rank_calls (nr # nrs) p = (case rank_call nr p of None \<Rightarrow> None | Some p \<Rightarrow> rank_calls nrs p)"

lemma rank_calls_append:
  "rank_calls (xs @ ys) p = (case rank_calls xs p of None \<Rightarrow> None | Some p \<Rightarrow> rank_calls ys p)"
  by (induction xs arbitrary: p) (auto split: option.splits)

lemma rank_loop_calls:
  "unat count \<le> length rec \<Longrightarrow> rank_loop count rec i p = rank_calls (drop i (take (unat count) rec)) p"
proof (induction count rec i p rule: rank_loop.induct)
  case (1 count rec i p)
  show ?case
  proof (cases "i < unat count")
    case True
    with "1.prems" have "drop i (take (unat count) rec) = rec ! i # drop (Suc i) (take (unat count) rec)"
      using Cons_nth_drop_Suc [of i "take (unat count) rec"] by simp
    with 1 True show ?thesis
      by (auto simp: rank_loop.simps [of count rec i] split: option.splits)
  qed (simp add: rank_loop.simps [of count rec i])
qed

lemma update_syscalls_calls:
  "unat (sq_count e) \<le> length (sq_record e) \<Longrightarrow>
   update_syscalls e p = rank_calls (take (unat (sq_count e)) (sq_record e)) p"
  by (simp add: update_syscalls_def rank_loop_calls)

subsection \<open>The counters\<close>

definition info_ok :: "proc_syscall_info \<Rightarrow> bool" where
  "info_ok p \<longleftrightarrow> length (syscalls p) = 500 \<and> unat (first_syscall p) < 500 \<and>
     unat (second_syscall p) < 500 \<and> unat (third_syscall p) < 500"

lemma info_ok_zero [simp]: "info_ok zero_info"
  by (simp add: info_ok_def zero_info_def)

lemma swaps_calls [simp]:
  "syscalls (swap_third p) = syscalls p" "syscalls (swap_second p) = syscalls p"
  "syscalls (rank_insert nr p) = syscalls p"
  by (simp_all add: swap_third_def swap_second_def rank_insert_def)

lemma calls_of_swaps [simp]:
  "calls_of (swap_third p) = calls_of p" "calls_of (swap_second p) = calls_of p"
  "calls_of (rank_insert nr p) = calls_of p"
  by (simp_all add: calls_of_def fun_eq_iff)

lemma info_ok_swaps:
  "info_ok p \<Longrightarrow> info_ok (swap_third p)" "info_ok p \<Longrightarrow> info_ok (swap_second p)"
  "info_ok p \<Longrightarrow> unat nr < 500 \<Longrightarrow> info_ok (rank_insert nr p)"
  by (auto simp: info_ok_def swap_third_def swap_second_def rank_insert_def)

lemma rank_call_Some:
  assumes "info_ok p" and "unat nr < 500"
  obtains q where "rank_call nr p = Some q" and "info_ok q"
    and "\<And>k. unat k < 500 \<Longrightarrow> calls_of q k = (if k = nr then calls_of p k + 1 else calls_of p k)"
proof -
  let ?p = "p\<lparr>syscalls := (syscalls p)[unat nr := calls_of p nr + 1]\<rparr>"
  let ?q = "if listed ?p nr then swap_third (swap_second (swap_third ?p)) else rank_insert nr ?p"
  have ok: "info_ok ?p" using assms by (simp add: info_ok_def)
  have "calls_of ?q k = (if k = nr then calls_of p k + 1 else calls_of p k)" if "unat k < 500" for k
    using that assms by (auto simp: calls_of_def info_ok_def nth_list_update dest: unsigned_word_eqI)
  moreover have "info_ok ?q" using ok assms(2) by (simp add: info_ok_swaps)
  moreover have "rank_call nr p = Some ?q"
    using assms by (simp add: rank_call_def info_ok_def Let_def)
  ultimately show ?thesis using that by blast
qed

lemma rank_calls_total:
  "info_ok p \<Longrightarrow> \<forall>nr \<in> set nrs. unat nr < 500 \<Longrightarrow> \<exists>q. rank_calls nrs p = Some q \<and> info_ok q"
proof (induction nrs arbitrary: p)
  case (Cons nr nrs)
  from Cons.prems have "unat nr < 500" by simp
  from rank_call_Some [OF Cons.prems(1) this] obtain q where "rank_call nr p = Some q" "info_ok q" .
  with Cons show ?case by simp
qed simp

end
