(* ===== verification/TopSyscallsProps.thy ===== *)
theory TopSyscallsProps imports TopSyscalls begin

text \<open>
  What the ranking shows.  The counters are exact, the three listed numbers are in descending order
  and no other number occurred more often (\<open>top_three\<close>).  But an empty place is the number 0, which
  is \<open>read\<close>: as long as \<open>read\<close> is the most frequent call, all three places show it
  (\<open>read_hides_others\<close>).
\<close>

subsection \<open>The order\<close>

definition top_ok :: "proc_syscall_info \<Rightarrow> bool" where
  "top_ok p \<longleftrightarrow> calls_of p (third_syscall p) \<le> calls_of p (second_syscall p) \<and>
     calls_of p (second_syscall p) \<le> calls_of p (first_syscall p) \<and>
     (\<forall>k. unat k < 500 \<longrightarrow> listed p k \<or> calls_of p k \<le> calls_of p (third_syscall p))"

definition apart :: "proc_syscall_info \<Rightarrow> bool" where
  "apart p \<longleftrightarrow> (first_syscall p = second_syscall p \<longrightarrow> first_syscall p = 0) \<and>
     (first_syscall p = third_syscall p \<longrightarrow> first_syscall p = 0) \<and>
     (second_syscall p = third_syscall p \<longrightarrow> second_syscall p = 0)"

definition sorted_top :: "proc_syscall_info \<Rightarrow> proc_syscall_info" where
  "sorted_top p = swap_third (swap_second (swap_third p))"

lemma calls_of_sorted_top [simp]: "calls_of (sorted_top p) = calls_of p"
  by (simp add: sorted_top_def)

lemma sorted_top_order:
  "calls_of p (third_syscall (sorted_top p)) \<le> calls_of p (second_syscall (sorted_top p)) \<and>
   calls_of p (second_syscall (sorted_top p)) \<le> calls_of p (first_syscall (sorted_top p))"
  by (auto simp: sorted_top_def swap_third_def swap_second_def calls_of_def not_less)

lemma listed_swaps: "listed (swap_third p) k = listed p k" "listed (swap_second p) k = listed p k"
  by (auto simp: listed_def swap_third_def swap_second_def)

lemma listed_sorted_top: "listed (sorted_top p) k = listed p k"
  by (simp add: sorted_top_def listed_swaps)

lemma apart_swaps: "apart p \<Longrightarrow> apart (swap_third p)" "apart p \<Longrightarrow> apart (swap_second p)"
  by (auto simp: apart_def swap_third_def swap_second_def)

lemma apart_insert: "apart p \<Longrightarrow> \<not> listed p nr \<Longrightarrow> apart (rank_insert nr p)"
  by (auto simp: apart_def listed_def rank_insert_def)

text \<open>The increment of a counter that does not wrap.\<close>

lemma top_ok_sorted:
  assumes "top_ok p" and "listed p nr" and "calls_of p nr < calls_of p nr + 1"
    and "\<And>k. unat k < 500 \<Longrightarrow> calls_of p' k = (if k = nr then calls_of p k + 1 else calls_of p k)"
    and "info_ok p" and "\<And>k. listed p' k = listed p k"
  shows "top_ok (sorted_top p')"
proof -
  let ?q = "sorted_top p'"
  have small: "unat k < 500" if "listed p k" for k
    using that assms(5) by (auto simp: listed_def info_ok_def)
  have grow: "calls_of p k \<le> calls_of p' k" if "unat k < 500" for k
    using assms(3,4) that by (auto simp: order.strict_implies_order)
  have low: "calls_of p (third_syscall p) \<le> calls_of p k" if "listed p k" for k
    using that assms(1) by (auto simp: listed_def top_ok_def)
  have "listed p (third_syscall ?q)"
    using assms(6) listed_sorted_top [of p' "third_syscall ?q"] by (simp add: listed_def)
  then have third: "calls_of p (third_syscall p) \<le> calls_of p' (third_syscall ?q)"
    using low grow small order_trans by blast
  have "listed ?q k \<or> calls_of ?q k \<le> calls_of ?q (third_syscall ?q)" if "unat k < 500" for k
  proof (cases "listed p k")
    case True
    then show ?thesis by (simp add: listed_sorted_top assms(6))
  next
    case False
    with assms(2) have "calls_of p' k = calls_of p k" using assms(4) that by auto
    moreover have "calls_of p k \<le> calls_of p (third_syscall p)"
      using False that assms(1) by (auto simp: top_ok_def)
    ultimately show ?thesis using third by (auto intro: order_trans)
  qed
  then show ?thesis using sorted_top_order [of p'] by (simp add: top_ok_def)
qed

lemma top_ok_insert:
  assumes "top_ok p" and "\<not> listed p nr"
    and "\<And>k. unat k < 500 \<Longrightarrow> calls_of p' k = (if k = nr then calls_of p k + 1 else calls_of p k)"
    and "info_ok p"
    and "first_syscall p' = first_syscall p" "second_syscall p' = second_syscall p"
      "third_syscall p' = third_syscall p"
  shows "top_ok (rank_insert nr p')"
proof -
  have same: "calls_of p' k = calls_of p k" if "listed p k" for k
  proof -
    have "unat k < 500" using that assms(4) by (auto simp: listed_def info_ok_def)
    then show ?thesis using assms(2,3) that by auto
  qed
  have o: "calls_of p' (third_syscall p) \<le> calls_of p' (second_syscall p)"
    "calls_of p' (second_syscall p) \<le> calls_of p' (first_syscall p)"
    using assms(1) same by (simp_all add: top_ok_def listed_def)
  have rest: "calls_of p' k \<le> calls_of p' (third_syscall p)" if "\<not> listed p k" "k \<noteq> nr" "unat k < 500" for k
    using that assms(1,3) same [of "third_syscall p"] by (auto simp: top_ok_def listed_def)
  define c where "c = calls_of p'"
  consider "c nr \<le> c (third_syscall p)"
    | "c nr > c (third_syscall p)" "c nr \<le> c (second_syscall p)"
    | "c nr > c (second_syscall p)" "c nr \<le> c (first_syscall p)"
    | "c nr > c (first_syscall p)"
    by fastforce
  then show ?thesis
  proof cases
    case 1
    then show ?thesis using o rest
      by (auto simp: top_ok_def rank_insert_def assms(5-7) c_def listed_def)
  next
    case 2
    then have "c k \<le> c nr" if "\<not> listed p k" "unat k < 500" for k
      using rest [of k] that by (cases "k = nr") (auto simp: c_def)
    with 2 o show ?thesis
      by (fastforce simp: top_ok_def rank_insert_def assms(5-7) c_def listed_def calls_of_def)
  next
    case 3
    then have "c k \<le> c (second_syscall p)" if "\<not> listed p k" "unat k < 500" "k \<noteq> nr" for k
      using rest [of k] that o by (auto simp: c_def)
    moreover have "c nr > c (third_syscall p)" using 3 o by (auto simp: c_def)
    ultimately show ?thesis using 3 o
      by (fastforce simp: top_ok_def rank_insert_def assms(5-7) c_def listed_def calls_of_def)
  next
    case 4
    then have "c k \<le> c (second_syscall p)" if "\<not> listed p k" "unat k < 500" "k \<noteq> nr" for k
      using rest [of k] that o by (auto simp: c_def)
    moreover have "c nr > c (third_syscall p)" "c nr > c (second_syscall p)" using 4 o by (auto simp: c_def)
    ultimately show ?thesis using 4 o
      by (fastforce simp: top_ok_def rank_insert_def assms(5-7) c_def listed_def calls_of_def)
  qed
qed

lemma rank_call_eq:
  assumes "info_ok p" and "unat nr < 500"
  shows "rank_call nr p = Some (if listed p nr
    then sorted_top (p\<lparr>syscalls := (syscalls p)[unat nr := calls_of p nr + 1]\<rparr>)
    else rank_insert nr (p\<lparr>syscalls := (syscalls p)[unat nr := calls_of p nr + 1]\<rparr>))"
  using assms by (auto simp: rank_call_def info_ok_def Let_def sorted_top_def listed_def)

lemma rank_call_top:
  assumes "top_ok p" and "apart p" and "info_ok p" and "unat nr < 500"
    and "calls_of p nr < calls_of p nr + 1" and "rank_call nr p = Some q"
  shows "top_ok q" and "apart q"
proof -
  let ?p = "p\<lparr>syscalls := (syscalls p)[unat nr := calls_of p nr + 1]\<rparr>"
  have c: "calls_of ?p k = (if k = nr then calls_of p k + 1 else calls_of p k)" if "unat k < 500" for k
    using that assms(3,4) by (auto simp: calls_of_def info_ok_def nth_list_update dest: unsigned_word_eqI)
  have l: "listed ?p k = listed p k" for k by (simp add: listed_def)
  have a: "apart ?p" using assms(2) by (simp add: apart_def)
  have q: "q = (if listed p nr then sorted_top ?p else rank_insert nr ?p)"
    using assms(6) unfolding rank_call_eq [OF assms(3,4)] by blast
  show "top_ok q"
    using top_ok_sorted [OF assms(1) _ assms(5) c assms(3) l] top_ok_insert [OF assms(1) _ c assms(3)]
    by (simp add: q)
  show "apart q"
    using a by (simp add: q sorted_top_def apart_swaps apart_insert l)
qed

subsection \<open>The counts\<close>

definition exact :: "s32 list \<Rightarrow> proc_syscall_info \<Rightarrow> bool" where
  "exact nrs p \<longleftrightarrow> (\<forall>k. unat k < 500 \<longrightarrow> calls_of p k = of_nat (count_list nrs k))"

lemma exact_zero: "exact [] zero_info"
  by (simp add: exact_def calls_of_def zero_info_def)

lemma count_list_le: "count_list xs x \<le> length xs"
  by (induction xs) auto

lemma exact_below:
  assumes "exact nrs p" and "unat k < 500" and "length nrs < 2 ^ 32"
  shows "unat (calls_of p k) = count_list nrs k"
proof -
  have "count_list nrs k < 2 ^ 32"
    using count_list_le [of nrs k] assms(3) by simp
  then show ?thesis using assms(1,2) by (simp add: exact_def unat_of_nat)
qed

definition rank_inv :: "s32 list \<Rightarrow> proc_syscall_info \<Rightarrow> bool" where
  "rank_inv nrs p \<longleftrightarrow> info_ok p \<and> exact nrs p \<and> top_ok p \<and> apart p"

lemma rank_inv_zero: "rank_inv [] zero_info"
  by (simp add: rank_inv_def exact_zero)
    (simp add: top_ok_def apart_def zero_info_def calls_of_def)

lemma rank_inv_call:
  assumes "rank_inv nrs p" and "unat nr < 500" and "Suc (length nrs) < 2 ^ 32"
  shows "\<exists>q. rank_call nr p = Some q \<and> rank_inv (nrs @ [nr]) q"
proof -
  have p: "info_ok p" "exact nrs p" "top_ok p" "apart p" using assms(1) by (simp_all add: rank_inv_def)
  obtain q where q: "rank_call nr p = Some q" "info_ok q"
      "\<And>k. unat k < 500 \<Longrightarrow> calls_of q k = (if k = nr then calls_of p k + 1 else calls_of p k)"
    using rank_call_Some [OF p(1) assms(2)] by blast
  have n: "unat (calls_of p nr) = count_list nrs nr"
    using exact_below [OF p(2) assms(2)] assms(3) by simp
  then have "Suc (unat (calls_of p nr)) < 2 ^ LENGTH(32)"
    using count_list_le [of nrs nr] assms(3) by simp
  then have "calls_of p nr < calls_of p nr + 1"
    by (simp only: word_less_nat_alt unat_Suc_no_wrap)
  moreover have "exact (nrs @ [nr]) q"
    using p(2) q(3) by (auto simp: exact_def)
  ultimately show ?thesis
    using q p rank_call_top [OF p(3,4,1) assms(2) _ q(1)] by (simp add: rank_inv_def)
qed

lemma rank_inv_calls:
  "rank_inv nrs p \<Longrightarrow> \<forall>nr \<in> set ms. unat nr < 500 \<Longrightarrow> length nrs + length ms < 2 ^ 32 \<Longrightarrow>
   \<exists>q. rank_calls ms p = Some q \<and> rank_inv (nrs @ ms) q"
proof (induction ms arbitrary: nrs p)
  case (Cons nr ms)
  then obtain q where "rank_call nr p = Some q" "rank_inv (nrs @ [nr]) q"
    using rank_inv_call [of nrs p nr] by auto
  with Cons.IH [of "nrs @ [nr]" q] Cons.prems show ?case by simp
qed simp

subsection \<open>Whole histories of a process\<close>

text \<open>The numbers a record carries, and the updates of a process's records in turn.\<close>

definition numbers_of :: "syscall_seq \<Rightarrow> s32 list" where
  "numbers_of e = take (unat (sq_count e)) (sq_record e)"

definition numbers_ok :: "syscall_seq \<Rightarrow> bool" where
  "numbers_ok e \<longleftrightarrow> unat (sq_count e) \<le> length (sq_record e) \<and> (\<forall>nr \<in> set (numbers_of e). unat nr < 500)"

fun rank_records :: "syscall_seq list \<Rightarrow> proc_syscall_info \<Rightarrow> proc_syscall_info option" where
  "rank_records [] p = Some p"
| "rank_records (e # es) p = (case update_syscalls e p of None \<Rightarrow> None | Some p \<Rightarrow> rank_records es p)"

lemma rank_records_calls:
  "\<forall>e \<in> set es. numbers_ok e \<Longrightarrow> rank_records es p = rank_calls (concat (map numbers_of es)) p"
  by (induction es arbitrary: p)
    (auto simp: numbers_ok_def numbers_of_def update_syscalls_calls rank_calls_append split: option.splits)

lemma rank_records_inv:
  assumes "\<forall>e \<in> set es. numbers_ok e" and "length (concat (map numbers_of es)) < 2 ^ 32"
  shows "\<exists>p. rank_records es zero_info = Some p \<and> rank_inv (concat (map numbers_of es)) p"
proof -
  have "\<forall>nr \<in> set (concat (map numbers_of es)). unat nr < 500"
    using assms(1) by (auto simp: numbers_ok_def)
  then show ?thesis
    using rank_inv_calls [OF rank_inv_zero] assms by (simp add: rank_records_calls)
qed

text \<open>
  C10. The ranking is right: after any records of a process, with valid call numbers and fewer than
  \<open>2 ^ 32\<close> calls in all, every counter is the number of occurrences of its call, the three listed
  counts are in descending order, no call that is not listed occurred more often than the third, and
  a number listed twice can only be the 0 that stands for an empty place.
\<close>

theorem top_three:
  assumes "\<forall>e \<in> set es. numbers_ok e" and "nrs = concat (map numbers_of es)" and "length nrs < 2 ^ 32"
    and "unat k < 500"
  shows "\<exists>p. rank_records es zero_info = Some p \<and> unat (calls_of p k) = count_list nrs k
    \<and> count_list nrs (third_syscall p) \<le> count_list nrs (second_syscall p)
    \<and> count_list nrs (second_syscall p) \<le> count_list nrs (first_syscall p)
    \<and> (k \<in> {first_syscall p, second_syscall p, third_syscall p} \<or>
        count_list nrs k \<le> count_list nrs (third_syscall p))
    \<and> (first_syscall p = second_syscall p \<or> first_syscall p = third_syscall p \<longrightarrow> first_syscall p = 0)
    \<and> (second_syscall p = third_syscall p \<longrightarrow> second_syscall p = 0)"
proof -
  obtain p where p: "rank_records es zero_info = Some p" "rank_inv nrs p"
    using rank_records_inv assms by blast
  have n: "unat (calls_of p j) = count_list nrs j" if "unat j < 500" for j
    using p(2) that assms(3) by (simp add: rank_inv_def exact_below)
  have "info_ok p" "top_ok p" "apart p" using p(2) by (simp_all add: rank_inv_def)
  then show ?thesis using p(1) n assms(4)
    by (auto simp: top_ok_def apart_def info_ok_def word_le_nat_alt listed_def)
qed

definition seq_of :: "s32 list \<Rightarrow> syscall_seq" where
  "seq_of nrs = zero_seq\<lparr>sq_count := of_nat (length nrs), sq_record := nrs\<rparr>"

theorem top_three_witness:
  "\<exists>p. rank_records [seq_of [3, 1], seq_of [3, 4, 1, 3]] zero_info = Some p \<and> unat (calls_of p 3) = 3"
  using top_three [where es = "[seq_of [3, 1], seq_of [3, 4, 1, 3]]" and k = 3, OF _ refl]
  by (auto simp: numbers_ok_def numbers_of_def seq_of_def zero_seq_def)

subsection \<open>The call 0\<close>

text \<open>Whether the number 0 is, from the first call on, at least as frequent as any other.\<close>

fun zero_leads :: "s32 list \<Rightarrow> s32 list \<Rightarrow> bool" where
  "zero_leads seen [] = True"
| "zero_leads seen (nr # nrs) =
     (count_list (seen @ [nr]) nr \<le> count_list (seen @ [nr]) 0 \<and> zero_leads (seen @ [nr]) nrs)"

lemma zero_leads_calls:
  "rank_inv seen p \<Longrightarrow> first_syscall p = 0 \<and> second_syscall p = 0 \<and> third_syscall p = 0 \<Longrightarrow>
   zero_leads seen nrs \<Longrightarrow> \<forall>nr \<in> set nrs. unat nr < 500 \<Longrightarrow> length seen + length nrs < 2 ^ 32 \<Longrightarrow>
   \<exists>q. rank_calls nrs p = Some q \<and> first_syscall q = 0 \<and> second_syscall q = 0 \<and> third_syscall q = 0"
proof (induction nrs arbitrary: seen p)
  case (Cons nr nrs)
  then obtain q where q: "rank_call nr p = Some q" "rank_inv (seen @ [nr]) q"
    using rank_inv_call [of seen p nr] by auto
  let ?p = "p\<lparr>syscalls := (syscalls p)[unat nr := calls_of p nr + 1]\<rparr>"
  have ok: "info_ok p" "unat nr < 500" using Cons.prems(1,4) by (simp_all add: rank_inv_def)
  have qp: "q = (if listed p nr then sorted_top ?p else rank_insert nr ?p)"
    using q(1) unfolding rank_call_eq [OF ok] by blast
  have "unat (calls_of q nr) \<le> unat (calls_of q 0)"
    using q(2) Cons.prems(3-5) exact_below [of "seen @ [nr]" q] by (simp add: rank_inv_def)
  moreover have "calls_of q = calls_of ?p" by (simp add: qp)
  ultimately have le: "calls_of ?p nr \<le> calls_of ?p 0" by (simp add: word_le_nat_alt)
  have "first_syscall q = 0 \<and> second_syscall q = 0 \<and> third_syscall q = 0"
    using le Cons.prems(2)
    by (auto simp: qp sorted_top_def swap_third_def swap_second_def rank_insert_def)
  with Cons q show ?case by simp
qed simp

text \<open>
  The places of the ranking are initialised with 0, which is also the number of \<open>read\<close>.  As long
  as \<open>read\<close> has been the most frequent call of a process from its first call on, all three places
  show \<open>read\<close>, whatever the other calls are.
\<close>

theorem read_hides_others:
  assumes "\<forall>e \<in> set es. numbers_ok e" and "nrs = concat (map numbers_of es)" and "length nrs < 2 ^ 32"
    and "zero_leads [] nrs"
  shows "\<exists>p. rank_records es zero_info = Some p \<and>
    first_syscall p = 0 \<and> second_syscall p = 0 \<and> third_syscall p = 0"
proof -
  have "\<forall>nr \<in> set nrs. unat nr < 500" using assms(1,2) by (auto simp: numbers_ok_def)
  then show ?thesis
    using zero_leads_calls [OF rank_inv_zero _ assms(4)] assms(1-3)
    by (simp add: rank_records_calls zero_info_def)
qed

theorem read_hides_others_witness:
  "\<exists>p. rank_records [seq_of [0, 0, 1], seq_of [0, 1, 7]] zero_info = Some p \<and> second_syscall p = 0"
  using read_hides_others [where es = "[seq_of [0, 0, 1], seq_of [0, 1, 7]]", OF _ refl]
  by (auto simp: numbers_ok_def numbers_of_def seq_of_def zero_seq_def)

end
