(* ===== verification/Ksyms.thy ===== *)
theory Ksyms imports Prelude begin

text \<open>
  The kernel symbol table, \<open>include/trace_helpers.c\<close> lines 36-182: \<open>ksyms__load\<close> reads
  \<open>/proc/kallsyms\<close> and sorts the symbols, \<open>ksyms__map_addr\<close> finds the symbol an address belongs to
  by a binary search, \<open>ksyms__get_symbol\<close> finds a name.

  The file is given as the list of the entries \<open>fscanf\<close> reads, a wrong one included; the growing
  string buffer and symbol array are lists, and an allocation that fails is an input.  The indices
  of the search are C \<open>int\<close>s, which at most \<open>2 ^ 31 - 1\<close> symbols cannot exceed.
\<close>

subsection \<open>Symbols and their order\<close>

datatype ksym = Ksym (ks_addr: u64) (ks_name: "u8 list")

text \<open>\<open>strcmp\<close>: the bytes are compared as unsigned, a proper prefix is smaller.\<close>

fun strcmp_le :: "u8 list \<Rightarrow> u8 list \<Rightarrow> bool" where
  "strcmp_le [] ys = True"
| "strcmp_le (x # xs) [] = False"
| "strcmp_le (x # xs) (y # ys) = (x < y \<or> (x = y \<and> strcmp_le xs ys))"

text \<open>\<open>ksym_cmp\<close>, as \<open>ksym_cmp(p1, p2) <= 0\<close>.\<close>

definition ksym_le :: "ksym \<Rightarrow> ksym \<Rightarrow> bool" where
  "ksym_le s1 s2 =
     (if ks_addr s1 = ks_addr s2 then strcmp_le (ks_name s1) (ks_name s2) else ks_addr s1 < ks_addr s2)"

lemma strcmp_le_refl: "strcmp_le xs xs"
  by (induction xs) auto

lemma strcmp_le_trans: "strcmp_le xs ys \<Longrightarrow> strcmp_le ys zs \<Longrightarrow> strcmp_le xs zs"
proof (induction xs ys arbitrary: zs rule: strcmp_le.induct)
  case (3 x xs y ys)
  then show ?case by (cases zs) auto
qed simp_all

lemma strcmp_le_antisym: "strcmp_le xs ys \<Longrightarrow> strcmp_le ys xs \<Longrightarrow> xs = ys"
  by (induction xs ys rule: strcmp_le.induct) (auto elim: strcmp_le.elims)

lemma strcmp_le_total: "strcmp_le xs ys \<or> strcmp_le ys xs"
  by (induction xs ys rule: strcmp_le.induct) auto

instantiation ksym :: linorder
begin

definition less_eq_ksym :: "ksym \<Rightarrow> ksym \<Rightarrow> bool" where
  "less_eq_ksym a b = ksym_le a b"

definition less_ksym :: "ksym \<Rightarrow> ksym \<Rightarrow> bool" where
  "less_ksym a b = (ksym_le a b \<and> \<not> ksym_le b a)"

instance
proof
  fix a b c :: ksym
  show "(a < b) = (a \<le> b \<and> \<not> b \<le> a)" by (simp add: less_ksym_def less_eq_ksym_def)
  show "a \<le> a" by (simp add: less_eq_ksym_def ksym_le_def strcmp_le_refl)
  show "a \<le> b \<Longrightarrow> b \<le> c \<Longrightarrow> a \<le> c"
    by (auto simp: less_eq_ksym_def ksym_le_def split: if_splits intro: strcmp_le_trans)
  show "a \<le> b \<Longrightarrow> b \<le> a \<Longrightarrow> a = b"
    by (cases a; cases b) (auto simp: less_eq_ksym_def ksym_le_def split: if_splits intro: strcmp_le_antisym)
  show "a \<le> b \<or> b \<le> a"
    using strcmp_le_total [of "ks_name a" "ks_name b"] by (auto simp: less_eq_ksym_def ksym_le_def)
qed

end

subsection \<open>Loading\<close>

text \<open>
  What \<open>fscanf\<close> makes of the next line: the three items, or fewer than three.  The name array has
  256 bytes.
\<close>

datatype kallsyms_line = Sym_line u64 u8 "u8 list" | Bad_line

text \<open>
  The loop of \<open>ksyms__load\<close>, with the symbols added so far; \<open>None\<close>: it jumps to \<open>err_out\<close>, for a bad
  line or because \<open>ksyms__add_symbol\<close> got no memory (for the symbol of this index).
\<close>

fun ksyms_read :: "(nat \<Rightarrow> bool) \<Rightarrow> kallsyms_line list \<Rightarrow> ksym list \<Rightarrow> ksym list option" where
  "ksyms_read alloc [] syms = Some syms"
| "ksyms_read alloc (Bad_line # ls) syms = None"
| "ksyms_read alloc (Sym_line sym_addr sym_type sym_name # ls) syms =
     (if \<not> alloc (length syms) then None else ksyms_read alloc ls (syms @ [Ksym sym_addr sym_name]))"

definition ksyms_load :: "(nat \<Rightarrow> bool) \<Rightarrow> kallsyms_line list option \<Rightarrow> ksym list option" where
  "ksyms_load alloc file =
     (case file of None \<Rightarrow> None
      | Some ls \<Rightarrow> (case ksyms_read alloc ls [] of None \<Rightarrow> None | Some syms \<Rightarrow> Some (sort syms)))"

subsection \<open>Finding\<close>

text \<open>
  The binary search.  Its invariant makes the indices non-negative, so that they are natural numbers
  here; \<open>end = -1\<close> of an empty table is the case \<open>ksyms__map_addr\<close> treats first.
\<close>

function addr_search :: "ksym list \<Rightarrow> u64 \<Rightarrow> nat \<Rightarrow> nat \<Rightarrow> nat" where
  "addr_search syms addr start end_i =
     (if start < end_i then
        (let mid = start + (end_i - start + 1) div 2 in
         if ks_addr (syms ! mid) \<le> addr then addr_search syms addr mid end_i
         else addr_search syms addr start (mid - 1))
      else start)"
  by pat_completeness auto
termination
  by (relation "measure (\<lambda>(_, _, start, end_i). end_i - start)") (auto simp: Let_def)

declare addr_search.simps [simp del]

text \<open>The loop ends with \<open>start = end\<close>.\<close>

definition ksyms_map_addr :: "ksym list \<Rightarrow> u64 \<Rightarrow> ksym option" where
  "ksyms_map_addr syms addr =
     (if syms = [] then None
      else
        (let i = addr_search syms addr 0 (length syms - 1)
         in if ks_addr (syms ! i) \<le> addr then Some (syms ! i) else None))"

text \<open>\<open>ksyms__get_symbol\<close>: the first symbol of this name.\<close>

fun ksyms_get_symbol :: "ksym list \<Rightarrow> u8 list \<Rightarrow> ksym option" where
  "ksyms_get_symbol [] name = None"
| "ksyms_get_symbol (s # syms) name = (if ks_name s = name then Some s else ksyms_get_symbol syms name)"

subsection \<open>The search finds the symbol\<close>

lemma sorted_addr: "sorted syms \<Longrightarrow> i \<le> j \<Longrightarrow> j < length syms \<Longrightarrow> ks_addr (syms ! i) \<le> ks_addr (syms ! j)"
  using sorted_nth_mono [of syms i j] by (auto simp: less_eq_ksym_def ksym_le_def split: if_splits)

lemma addr_search_done: "\<not> start < end_i \<Longrightarrow> addr_search syms addr start end_i = start"
  by (subst addr_search.simps) simp

lemma addr_search_step:
  "start < end_i \<Longrightarrow> mid = start + (end_i - start + 1) div 2 \<Longrightarrow>
   addr_search syms addr start end_i =
     (if ks_addr (syms ! mid) \<le> addr then addr_search syms addr mid end_i
      else addr_search syms addr start (mid - 1))"
  by (subst addr_search.simps) (simp add: Let_def)

lemma addr_search_range:
  "start \<le> end_i \<Longrightarrow> start \<le> addr_search syms addr start end_i \<and> addr_search syms addr start end_i \<le> end_i"
proof (induction syms addr start end_i rule: addr_search.induct)
  case (1 syms addr start end_i)
  show ?case
  proof (cases "start < end_i")
    case False
    with "1.prems" show ?thesis by (simp add: addr_search_done)
  next
    case True
    define mid where "mid = start + (end_i - start + 1) div 2"
    have mid: "start < mid" "mid \<le> end_i" "start \<le> mid - 1" using True by (simp_all add: mid_def)
    then show ?thesis
      using "1.IH" [OF True mid_def] addr_search_step [OF True mid_def, of syms addr]
      by (cases "ks_addr (syms ! mid) \<le> addr") auto
  qed
qed

lemma addr_search_end:
  assumes "sorted syms" and "start \<le> end_i" and "end_i < length syms"
    and "\<And>j. end_i < j \<Longrightarrow> j < length syms \<Longrightarrow> addr < ks_addr (syms ! j)"
    and "start = 0 \<or> ks_addr (syms ! start) \<le> addr"
  shows "(\<forall>j < length syms. addr_search syms addr start end_i < j \<longrightarrow> addr < ks_addr (syms ! j)) \<and>
    (addr_search syms addr start end_i = 0 \<or> ks_addr (syms ! addr_search syms addr start end_i) \<le> addr)"
  using assms
proof (induction syms addr start end_i rule: addr_search.induct)
  case (1 syms addr start end_i)
  show ?case
  proof (cases "start < end_i")
    case False
    with "1.prems" show ?thesis by (auto simp: addr_search_done)
  next
    case True
    define mid where "mid = start + (end_i - start + 1) div 2"
    have mid: "start < mid" "mid \<le> end_i" "start \<le> mid - 1" using True by (simp_all add: mid_def)
    show ?thesis
    proof (cases "ks_addr (syms ! mid) \<le> addr")
      case low: True
      then show ?thesis
        using "1.IH"(1) [OF True mid_def low] mid "1.prems" addr_search_step [OF True mid_def, of syms addr]
        by simp
    next
      case high: False
      have "addr < ks_addr (syms ! j)" if "mid - 1 < j" "j < length syms" for j
      proof -
        have "ks_addr (syms ! mid) \<le> ks_addr (syms ! j)"
          using that mid "1.prems"(1) by (intro sorted_addr) simp_all
        then show ?thesis using high by (simp add: not_le)
      qed
      then show ?thesis
        using "1.IH"(2) [OF True mid_def high] high mid "1.prems" addr_search_step [OF True mid_def, of syms addr]
        by simp
    qed
  qed
qed

text \<open>The reference: of the symbols that start at or below the address, the last one of the table.\<close>

definition last_below :: "ksym list \<Rightarrow> u64 \<Rightarrow> ksym option" where
  "last_below syms addr =
     (case filter (\<lambda>s. ks_addr s \<le> addr) syms of [] \<Rightarrow> None | ss \<Rightarrow> Some (last ss))"

lemma last_below_if:
  "last_below syms addr = (let ss = filter (\<lambda>s. ks_addr s \<le> addr) syms in if ss = [] then None else Some (last ss))"
  by (simp add: last_below_def split: list.split)

lemma filter_prefix:
  assumes "i < length xs" and "\<forall>j \<le> i. P (xs ! j)" and "\<forall>j < length xs. i < j \<longrightarrow> \<not> P (xs ! j)"
  shows "filter P xs = take (Suc i) xs"
proof -
  have "filter P (take (Suc i) xs) = take (Suc i) xs"
    using assms(1,2) by (auto simp: filter_id_conv in_set_conv_nth)
  moreover have "filter P (drop (Suc i) xs) = []"
    using assms(3) by (auto simp: filter_empty_conv in_set_conv_nth)
  ultimately show ?thesis
    using append_take_drop_id [of "Suc i" xs] filter_append [of P "take (Suc i) xs" "drop (Suc i) xs"]
    by simp
qed

lemma map_addr_last_below:
  assumes "sorted syms"
  shows "ksyms_map_addr syms addr = last_below syms addr"
proof (cases "syms = []")
  case True
  then show ?thesis by (simp add: ksyms_map_addr_def last_below_def)
next
  case False
  define i where "i = addr_search syms addr 0 (length syms - 1)"
  have i: "i < length syms"
    using addr_search_range [of 0 "length syms - 1" syms addr] False
    by (simp add: i_def less_eq_Suc_le [symmetric] Suc_diff_le less_le_trans flip: length_greater_0_conv)
  have above: "\<forall>j < length syms. i < j \<longrightarrow> addr < ks_addr (syms ! j)"
    and at: "i = 0 \<or> ks_addr (syms ! i) \<le> addr"
    using addr_search_end [OF assms, of 0 "length syms - 1" addr] False unfolding i_def by auto
  show ?thesis
  proof (cases "ks_addr (syms ! i) \<le> addr")
    case True
    have "\<forall>j \<le> i. ks_addr (syms ! j) \<le> addr"
      using True sorted_addr [OF assms _ i] order_trans by blast
    then have "filter (\<lambda>s. ks_addr s \<le> addr) syms = take (Suc i) syms"
      using i above by (intro filter_prefix) (auto simp: not_le)
    moreover have "last (take (Suc i) syms) = syms ! i" "take (Suc i) syms \<noteq> []"
      using i False by (simp_all add: take_Suc_conv_app_nth)
    ultimately show ?thesis
      using True False by (simp add: ksyms_map_addr_def last_below_if i_def Let_def)
  next
    case high: False
    with at have "i = 0" by simp
    with high above have "addr < ks_addr (syms ! j)" if "j < length syms" for j
      using that by (cases "j = 0") (auto simp: not_le)
    then have "filter (\<lambda>s. ks_addr s \<le> addr) syms = []"
      by (auto simp: filter_empty_conv in_set_conv_nth not_le)
    with high False show ?thesis
      by (simp add: ksyms_map_addr_def last_below_if i_def Let_def)
  qed
qed

text \<open>
  C35. Equivalence: in a table that was loaded from any file, the binary search answers for every
  address what a scan of the whole table does: the last symbol that starts at or below the address,
  and nothing if there is none.
\<close>

theorem ksyms_search:
  assumes "ksyms_load alloc file = Some syms"
  shows "ksyms_map_addr syms addr = last_below syms addr"
proof -
  have "sorted syms" using assms by (auto simp: ksyms_load_def split: option.splits)
  then show ?thesis by (rule map_addr_last_below)
qed

theorem ksyms_search_witness:
  "\<exists>syms. ksyms_load (\<lambda>_. True) (Some [Sym_line 50 84 [97], Sym_line 10 84 [98], Sym_line 30 84 [99]]) = Some syms
     \<and> ksyms_map_addr syms 31 = last_below syms 31"
proof -
  obtain syms where s: "ksyms_load (\<lambda>_. True)
      (Some [Sym_line 50 84 [97], Sym_line 10 84 [98], Sym_line 30 84 [99]]) = Some syms"
    by (simp add: ksyms_load_def)
  then show ?thesis using ksyms_search [OF s, of 31] by blast
qed

end
