(* ===== verification/ProcImage.thy ===== *)
theory ProcImage imports LockImage ScheduleImage KeytimeImage TopSyscalls Ksyms begin

text \<open>
  What the display program prints, \<open>eBPF_proc_image/proc_image.c\<close> lines 41-118 and 175-653: the
  callbacks of the three ring buffers (system calls, locks, key times) and the two reports that walk
  over maps (resources, schedule).

  A printed line is a value of \<open>shown_line\<close> with the numbers the code hands to \<open>printf\<close>; the local
  time, the column widths and the conversions of nanoseconds to milliseconds are left out.  The
  kernel's errors are inputs, numbered in the order of the calls.  \<open>None\<close> is C's undefined
  behaviour: a division by zero, an index outside of an array, a null pointer.
\<close>

subsection \<open>The globals\<close>

record penv =
  pv_output_resourse :: bool
  pv_output_schedule :: bool
  pv_create_thread :: bool
  pv_exit_thread :: bool
  pv_enable_resource :: bool
  pv_first_rsc :: bool
  pv_sum_delay :: u64
  pv_sum_count :: u64
  pv_max_delay :: u64
  pv_min_delay :: u64
  pv_enable_hashmap :: bool
  pv_enable_syscall :: bool
  pv_enable_lock :: bool
  pv_max_args :: s32
  pv_enable_keytime :: bool
  pv_stack_count :: s32
  pv_enable_schedule :: bool
  pv_rsc_prev_tgid :: nat
  pv_kt_prev_tgid :: nat
  pv_lock_prev_tgid :: nat
  pv_sched_prev_tgid :: nat
  pv_sc_prev_tgid :: nat
  pv_prev_image :: nat
  pv_map :: "s32 \<Rightarrow> proc_syscall_info option"
  pv_prevtime :: "u64 \<times> u64"

definition penv0 :: penv where
  "penv0 = \<lparr>pv_output_resourse = False, pv_output_schedule = False, pv_create_thread = False,
     pv_exit_thread = False, pv_enable_resource = False, pv_first_rsc = True, pv_sum_delay = 0,
     pv_sum_count = 0, pv_max_delay = 0, pv_min_delay = 0, pv_enable_hashmap = False,
     pv_enable_syscall = False, pv_enable_lock = False, pv_max_args = 20, pv_enable_keytime = False,
     pv_stack_count = 0, pv_enable_schedule = False, pv_rsc_prev_tgid = 0, pv_kt_prev_tgid = 0,
     pv_lock_prev_tgid = 0, pv_sched_prev_tgid = 0, pv_sc_prev_tgid = 0, pv_prev_image = 0,
     pv_map = (\<lambda>_. None), pv_prevtime = (0, 0)\<rparr>"

subsection \<open>What is printed\<close>

datatype kt_text = Kt_chars "u8 list" bool | Kt_numbers "u64 list" | Kt_offcpu u64

datatype shown_line =
    Header nat bool
  | Syscall_line "s32 option" s32 "(s32 \<times> u32) list" u64 u64 u64 u64 u64 u64 "s32 list"
  | Lock_line u64 "s32 option" s32 u64 string "s32 option"
  | Keytime_line "s32 option" s32 string string kt_text
  | Resource_line "s32 option" s32 s32 u64 u64 u64 u64 u64
  | Schedule_line "s32 option" s32 s32 u64 u64 u64 u64 u64 u64

text \<open>
  Every report begins with a header when the line before it was another tool's, or when the \<open>TGID\<close>
  column comes or goes: \<open>2\<close> stands for a column, \<open>1\<close> for none, \<open>0\<close> for no header yet.
\<close>

definition tgid_mode :: "bool \<Rightarrow> nat" where
  "tgid_mode column = (if column then 2 else 1)"

definition header_due :: "nat \<Rightarrow> nat \<Rightarrow> bool \<Rightarrow> penv \<Rightarrow> bool" where
  "header_due img prev column env \<longleftrightarrow> pv_prev_image env \<noteq> img \<or> prev \<noteq> tgid_mode column"

definition header_lines :: "nat \<Rightarrow> nat \<Rightarrow> bool \<Rightarrow> penv \<Rightarrow> shown_line list" where
  "header_lines img prev column env = (if header_due img prev column env then [Header img column] else [])"

subsection \<open>System calls\<close>

text \<open>
  \<open>print_syscall\<close>.  The hash map is used through \<open>hashmap_get\<close> and \<open>hashmap_set\<close> with the pid as
  key only, and is a map here, with memory enough (\<open>SyscallMap\<close> has the program with its hash map).
  The value is updated in place when there is one.
\<close>

definition sc_shown :: "sc_ctrl \<Rightarrow> syscall_seq \<Rightarrow> bool" where
  "sc_shown c e \<longleftrightarrow> (sc_target_pid c = -1 \<and> sc_target_tgid c = -1) \<or>
     sq_pid e = sc_target_pid c \<or> sq_tgid e = sc_target_tgid c"

definition sc_sums :: "syscall_seq \<Rightarrow> penv \<Rightarrow> penv" where
  "sc_sums e env =
     env\<lparr>pv_sum_delay := pv_sum_delay env + sq_sum_delay e,
         pv_max_delay := (if sq_max_delay e > pv_max_delay env then sq_max_delay e else pv_max_delay env),
         pv_min_delay := (if pv_min_delay env = 0 \<or> sq_min_delay e < pv_min_delay env
                          then sq_min_delay e else pv_min_delay env),
         pv_sum_count := pv_sum_count env + ucast (sq_count e)\<rparr>"

definition ranked :: "proc_syscall_info \<Rightarrow> (s32 \<times> u32) list" where
  "ranked p = map (\<lambda>nr. (nr, calls_of p nr)) [first_syscall p, second_syscall p, third_syscall p]"

text \<open>The lines for a record that is shown, and the globals after it.\<close>

definition sc_line :: "sc_ctrl \<Rightarrow> syscall_seq \<Rightarrow> u64 \<Rightarrow> penv \<Rightarrow> (shown_line \<times> penv) option" where
  "sc_line c e avg_delay env =
     (case update_syscalls e (case pv_map env (sq_pid e) of Some p \<Rightarrow> p | None \<Rightarrow> zero_info) of
        None \<Rightarrow> None
      | Some p \<Rightarrow>
          if sq_proc_count e = 0 \<or> length (sq_record e) < unat (sq_count e) then None
          else Some
            (Syscall_line (if sc_target_tgid c \<noteq> -1 then Some (sq_tgid e) else None) (sq_pid e) (ranked p)
               (sq_proc_sd e div ucast (sq_proc_count e)) avg_delay (sq_max_delay e) (pv_max_delay env)
               (sq_min_delay e) (pv_min_delay env) (take (unat (sq_count e)) (sq_record e)),
             env\<lparr>pv_map := (pv_map env)(sq_pid e := Some p)\<rparr>))"

definition print_syscall :: "s32 \<Rightarrow> sc_ctrl \<Rightarrow> syscall_seq \<Rightarrow> penv \<Rightarrow> (s32 \<times> shown_line list \<times> penv) option" where
  "print_syscall err c e env =
     (if err <s 0 then Some (-1, [], env)
      else if \<not> sc_func c then Some (0, [], env)
      else
        (let column = (sc_target_tgid c \<noteq> -1);
             head = header_lines 2 (pv_sc_prev_tgid env) column env;
             env = env\<lparr>pv_sc_prev_tgid := tgid_mode column, pv_prev_image := 2\<rparr>;
             env = sc_sums e env in
         if pv_sum_count env = 0 then None
         else
           (let avg_delay = pv_sum_delay env div pv_sum_count env;
                env = env\<lparr>pv_enable_hashmap := True\<rparr> in
            if sc_shown c e then
              (case sc_line c e avg_delay env of None \<Rightarrow> None
               | Some (line, env) \<Rightarrow> Some (0, head @ [line], env))
            else Some (0, head, env))))"

subsection \<open>Locks\<close>

definition lock_status :: "string list" where
  "lock_status = ['''', ''mutex_req'', ''mutex_lock'', ''mutex_unlock'',
     ''rdlock_req'', ''rdlock_lock'', ''rdlock_unlock'',
     ''wrlock_req'', ''wrlock_lock'', ''wrlock_unlock'',
     ''spinlock_req'', ''spinlock_lock'', ''spinlock_unlock'']"

definition print_lock :: "lock_event \<Rightarrow> penv \<Rightarrow> (s32 \<times> shown_line list \<times> penv) option" where
  "print_lock e env =
     (let column = (le_tgid e \<noteq> -1);
          head = header_lines 3 (pv_lock_prev_tgid env) column env;
          env = env\<lparr>pv_lock_prev_tgid := tgid_mode column, pv_prev_image := 3\<rparr>;
          status = le_lock_status e in
      if length lock_status \<le> unat status then None
      else Some (0,
        head @ [Lock_line (le_time e) (if column then Some (le_tgid e) else None) (le_pid e) (le_lock_ptr e)
           (lock_status ! unat status)
           (if status = 2 \<or> status = 5 \<or> status = 8 \<or> status = 11 then Some (le_ret e) else None)],
        env))"

subsection \<open>Key times\<close>

definition keytime_type :: "string list" where
  "keytime_type = ['''', ''exec_enter'', ''exec_exit'', ''exit'', ''forkP_enter'', ''forkP_exit'',
     ''vforkP_enter'', ''vforkP_exit'', ''createT_enter'', ''createT_exit'', ''onCPU'', ''offCPU'']"

text \<open>
  The loop of \<open>print_info1\<close>: a terminator is printed as a blank and ends an argument.  The index is
  compared with an unsigned size, the number of arguments with a signed count.
\<close>

function info1_loop :: "u8 list \<Rightarrow> u32 \<Rightarrow> s32 \<Rightarrow> nat \<Rightarrow> nat \<Rightarrow> u8 list option" where
  "info1_loop char_info info_size info_count i args_counter =
     (if i < unat info_size \<and> int args_counter < sint info_count then
        (if i < length char_info then
           (let c = char_info ! i;
                (out, args_counter) = (if c = 0 then (32, Suc args_counter) else (c, args_counter))
            in case info1_loop char_info info_size info_count (Suc i) args_counter of
                 None \<Rightarrow> None | Some cs \<Rightarrow> Some (out # cs))
         else None)
      else Some [])"
  by pat_completeness auto
termination by (relation "measure (\<lambda>(_, info_size, _, i, _). unat info_size - i)") auto

declare info1_loop.simps [simp del]

definition print_info1 :: "s32 \<Rightarrow> keytime_event \<Rightarrow> kt_text option" where
  "print_info1 max_args e =
     (case info1_loop (ke_char_info e) (ke_info_size e) (ke_info_count e) 0 0 of
        None \<Rightarrow> None
      | Some cs \<Rightarrow> Some (Kt_chars cs (ke_info_count e = max_args + 1)))"

text \<open>\<open>for(int tmp=e->info_count; tmp>0 ; tmp--) .. e->info[i++]\<close>.\<close>

definition print_info2 :: "keytime_event \<Rightarrow> kt_text option" where
  "print_info2 e =
     (let n = nat (sint (ke_info_count e))
      in if length (ke_info e) < n then None else Some (Kt_numbers (take n (ke_info e))))"

text \<open>\<open>print_stack\<close>: the address, and the symbol with the offset in it when one is found.\<close>

definition print_stack :: "ksym list \<Rightarrow> u64 \<Rightarrow> u64 \<times> (u8 list \<times> u64) option" where
  "print_stack ksyms address =
     (case ksyms_map_addr ksyms address of
        None \<Rightarrow> (address, None)
      | Some k \<Rightarrow> (address, Some (ks_name k, address - ks_addr k)))"

text \<open>
  An entry of \<open>.output/data/offcpu_stack.txt\<close>; the flag says whether it was appended (the file is
  begun anew after 100 entries).  \<open>can_open\<close>: a failing \<open>fopen\<close> is not noticed and the null pointer
  is printed to.  The depth is computed in \<open>size_t\<close> and stored in an \<open>int\<close>, so that a negative size
  (an error of \<open>bpf_get_stack\<close>) gives a negative depth and no line.
\<close>

type_synonym stack_entry = "bool \<times> s32 option \<times> s32 \<times> u64 \<times> (u64 \<times> (u8 list \<times> u64) option) list"

definition stack_depth :: "offcpu_event \<Rightarrow> nat" where
  "stack_depth e = nat (sint (ucast ((scast (of_kstack_sz e) :: u64) div 8) :: s32))"

definition stack_write :: "bool \<Rightarrow> ksym list \<Rightarrow> offcpu_event \<Rightarrow> penv \<Rightarrow> (stack_entry \<times> penv) option" where
  "stack_write can_open ksyms e env =
     (if \<not> can_open \<or> length (of_kstack e) < stack_depth e then None
      else
        (let tgid = (if of_tgid e \<noteq> -1 then Some (of_tgid e) else None);
             stack = map (print_stack ksyms) (take (stack_depth e) (of_kstack e)) in
         if pv_stack_count env <s 100
         then Some ((True, tgid, of_pid e, of_offcpu_time e, stack),
                    env\<lparr>pv_stack_count := pv_stack_count env + 1\<rparr>)
         else Some ((False, tgid, of_pid e, of_offcpu_time e, stack), env\<lparr>pv_stack_count := 1\<rparr>)))"

definition kt_prefix :: "s32 \<Rightarrow> string" where
  "kt_prefix type =
     (if type = 4 \<or> type = 5 \<or> type = 6 \<or> type = 7 \<or> type = 8 \<or> type = 9 then ''child_pid:''
      else if type = 10 then ''oncpu_time:'' else '''')"

text \<open>
  \<open>print_keytime\<close>.  The record is told apart by its type, which both structures have in the same
  place, like the pid and the thread group; a record whose type says the other structure than the
  one that was written does not occur (theory \<open>KeytimeProps\<close>, \<open>kt_types\<close>) and is \<open>None\<close> here.
\<close>

definition report_tgid :: "kt_report \<Rightarrow> s32" where
  "report_tgid r = (case r of Kt e \<Rightarrow> ke_tgid e | Off e \<Rightarrow> of_tgid e)"

definition print_keytime ::
  "bool \<Rightarrow> ksym list \<Rightarrow> kt_report \<Rightarrow> penv \<Rightarrow> (s32 \<times> shown_line list \<times> stack_entry list \<times> penv) option" where
  "print_keytime can_open ksyms r env =
     (let column = (report_tgid r \<noteq> -1);
          head = header_lines 4 (pv_kt_prev_tgid env) column env;
          env = env\<lparr>pv_kt_prev_tgid := tgid_mode column, pv_prev_image := 4\<rparr>;
          tgid = (if column then Some (report_tgid r) else None) in
      case r of
        Kt e \<Rightarrow>
          (if ke_type e = 11 \<or> length keytime_type \<le> unat (ke_type e) then None
           else case (if ke_enable_char_info e then print_info1 (pv_max_args env) e else print_info2 e) of
             None \<Rightarrow> None
           | Some txt \<Rightarrow> Some (0,
               head @ [Keytime_line tgid (ke_pid e) (keytime_type ! unat (ke_type e)) (kt_prefix (ke_type e)) txt],
               [], env))
      | Off e \<Rightarrow>
          (if of_type e \<noteq> 11 then None
           else case stack_write can_open ksyms e env of
             None \<Rightarrow> None
           | Some (entry, env) \<Rightarrow> Some (0,
               head @ [Keytime_line tgid (of_pid e) (keytime_type ! unat (of_type e)) '''' (Kt_offcpu (of_offcpu_time e))],
               [entry], env)))"

end
