(* ===== verification/ProcSyscallProps.thy ===== *)
theory ProcSyscallProps imports ProcImage SyscallProps TopSyscallsProps begin

text \<open>
  The syscall tool from the probes to the screen: the records the kernel side submits under one
  control block are all printed, without a division by zero or an index out of bounds, and the
  ranking of every process is that of its own records (\<open>syscall_display\<close>).  With two targets at once
  the two sides disagree on which records are meant, and the display can divide by zero
  (\<open>two_targets_trap\<close>).
\<close>

subsection \<open>What the kernel side submits\<close>

fun sc_event_ok :: "sc_kern \<times> sc_probe \<Rightarrow> bool" where
  "sc_event_ok (kn, pr) = (slot_ok (kn, pr) \<and> cur_pid kn \<noteq> -1 \<and> cur_tgid kn \<noteq> -1 \<and>
     (case pr of Sc_enter nr \<Rightarrow> unat (ucast nr :: s32) < 500 | _ \<Rightarrow> True))"

definition entry_good :: "nat \<Rightarrow> syscall_seq \<Rightarrow> bool" where
  "entry_good n q \<longleftrightarrow> seq_ok q \<and> (\<forall>x \<in> set (sq_record q). unat x < 500) \<and> unat (sq_proc_count q) \<le> 50 * n"

definition report_good :: "sc_ctrl \<Rightarrow> syscall_seq \<Rightarrow> bool" where
  "report_good c e \<longleftrightarrow> seq_ok e \<and> sq_count e \<noteq> 0 \<and> numbers_ok e \<and> (sc_shown c e \<longrightarrow> sq_proc_count e \<noteq> 0)"

definition entries_good :: "nat \<Rightarrow> sc_st \<Rightarrow> bool" where
  "entries_good n s \<longleftrightarrow> (\<forall>k q. hm_lookup (proc_syscall s) k = Some q \<longrightarrow> entry_good n q)"

definition reports_good :: "nat \<Rightarrow> sc_ctrl \<Rightarrow> sc_st \<Rightarrow> bool" where
  "reports_good n c s \<longleftrightarrow> (\<forall>e \<in> set (syscall_rb s). report_good c e) \<and> length (syscall_rb s) \<le> n"

lemma entry_good_mono: "entry_good m q \<Longrightarrow> m \<le> n \<Longrightarrow> entry_good n q"
  unfolding entry_good_def by (meson le_trans mult_le_mono2)

lemma arr_set_500: "\<forall>x \<in> set xs. unat x < 500 \<Longrightarrow> unat (y::s32) < 500 \<Longrightarrow> \<forall>x \<in> set (arr_set xs i y). unat x < 500"
  using set_update_subset_insert [of xs i y] by (auto simp: arr_set_def)

lemma seq_enter_record:
  "sq_record (seq_enter c p t now nr q) = sq_record q \<or>
   (\<exists>i. sq_record (seq_enter c p t now nr q) = arr_set (sq_record q) i (ucast nr))"
  by (auto simp: seq_enter_def Let_def)

lemma seq_enter_proc [simp]: "sq_proc_count (seq_enter c p t now nr q) = sq_proc_count q"
  by (simp add: seq_enter_def Let_def)

lemma entry_good_enter:
  assumes "entry_good n q" and "unat (ucast nr :: s32) < 500"
  shows "entry_good n (seq_enter c p t now nr q)"
proof -
  have "\<forall>x \<in> set (sq_record (seq_enter c p t now nr q)). unat x < 500"
    using seq_enter_record [of c p t now nr q] arr_set_500 [of "sq_record q" "ucast nr"] assms
    by (auto simp: entry_good_def)
  then show ?thesis using assms(1) seq_enter_ok [of q c p t now nr] by (simp add: entry_good_def)
qed

lemma entry_good_zero: "entry_good n (zero_seq\<lparr>sq_pid := p\<rparr>)"
  by (simp add: entry_good_def zero_seq_def seq_ok_def)

lemma entry_good_first:
  "unat (ucast nr :: s32) < 500 \<Longrightarrow> entry_good n (seq_first c p t now nr)"
  unfolding seq_first_enter by (rule entry_good_enter [OF entry_good_zero])

lemma entries_good_enter:
  assumes "entries_good n s" and "sc_event_ok (kn, Sc_enter nr)"
  shows "entries_good n (sys_enter g h kn nr s)" and "syscall_rb (sys_enter g h kn nr s) = syscall_rb s"
  using assms
  by (auto simp: sys_enter_def entries_good_def Let_def case_prod_beta map_rules entry_good_first
      entry_good_enter split: option.splits if_splits)

text \<open>The condition of the two sides agrees when there is one target at most.\<close>

lemma shown_target:
  assumes "sc_target_pid c = -1 \<or> sc_target_tgid c = -1" and "pid \<noteq> -1" and "tgid \<noteq> -1"
    and "sq_pid e = pid" and "sq_tgid e = tgid" and "sc_shown c e"
  shows "sc_is_target c pid tgid"
  using assms by (auto simp: sc_shown_def sc_is_target_def)

lemma seq_account_proj [simp]:
  "sq_count (seq_account d q) = sq_count q" "sq_record (seq_account d q) = sq_record q"
  "sq_proc_count (seq_account d q) = sq_proc_count q"
  by (simp_all add: seq_account_def)

lemma report_numbers:
  assumes "entry_good n q" and "sq_count q \<noteq> 0" and "length (sq_record e) = 50"
  shows "numbers_ok (seq_report c p t q e)"
proof -
  have c: "sq_count (seq_report c p t q e) = sq_count q"
    "sq_record (seq_report c p t q e) = copy_record (sq_count q) (sq_record q) 0 (sq_record e)"
    by (simp_all add: seq_report_def Let_def)
  have "1 \<le> unat (sq_count q)" using assms(2) by (simp add: unat_gt_0 Suc_le_eq)
  then have "take (unat (sq_count q)) (copy_record (sq_count q) (sq_record q) 0 (sq_record e)) =
      take (unat (sq_count q)) (sq_record q)"
    using assms(1,3) by (intro copy_record_prefix) (simp_all add: entry_good_def seq_ok_def)
  then show ?thesis
    using assms(1,3) by (auto simp: numbers_ok_def numbers_of_def c entry_good_def seq_ok_def dest: in_set_takeD)
qed

lemma count_added:
  assumes "entry_good n q" and "sq_count q \<noteq> 0" and "50 * Suc n < 2 ^ 32"
  shows "unat (sq_proc_count q + sq_count q) \<le> 50 * Suc n" and "sq_proc_count q + sq_count q \<noteq> 0"
proof -
  have le: "unat (sq_proc_count q) + unat (sq_count q) \<le> 50 * Suc n"
    using assms(1) by (simp add: entry_good_def seq_ok_def)
  then have u: "unat (sq_proc_count q + sq_count q) = unat (sq_proc_count q) + unat (sq_count q)"
    using assms(3) by (intro unat_plus_no_wrap) simp
  with le show "unat (sq_proc_count q + sq_count q) \<le> 50 * Suc n" by simp
  show "sq_proc_count q + sq_count q \<noteq> 0"
    using u assms(2) by (metis add_is_0 unat_0 unat_eq_zero)
qed

lemma good_exit_entry:
  assumes "entries_good n s" and "reports_good n c s" and "entry_good n q" and "slot_ok (kn, Sc_exit)"
    and "cur_pid kn \<noteq> -1" and "cur_tgid kn \<noteq> -1" and "sc_target_pid c = -1 \<or> sc_target_tgid c = -1"
    and "sc_syscalls c \<noteq> 0" and "50 * Suc n < 2 ^ 32"
  shows "entries_good (Suc n) (sys_exit_entry kn c q s) \<and> reports_good (Suc n) c (sys_exit_entry kn c q s)"
proof -
  define q1 where "q1 = seq_account (kn_ktime kn 0 - sq_enter_time q) q"
  define q2 where "q2 = (if sc_is_target c (cur_pid kn) (cur_tgid kn)
      then q1\<lparr>sq_proc_count := sq_proc_count q1 + sq_count q1, sq_proc_sd := sq_proc_sd q1 + sq_sum_delay q1\<rparr> else q1)"
  have up: "entry_good (Suc n) r" if "entry_good n r" for r
    using that by (rule entry_good_mono) simp
  have q1: "entry_good n q1" "sq_count q1 = sq_count q"
    using assms(3) by (simp_all add: q1_def entry_good_def)
  have q1': "entry_good (Suc n) (q1\<lparr>sq_sum_delay := 0, sq_count := 0\<rparr>)"
    using up [OF q1(1)] by (simp add: entry_good_def seq_ok_def)
  show ?thesis
  proof (cases "sq_count q < sc_syscalls c")
    case True
    then show ?thesis
      using assms(1,2) up q1 by (auto simp: sys_exit_entry_def Let_def entries_good_def reports_good_def
          map_rules q1_def [symmetric])
  next
    case False
    then have nz: "sq_count q1 \<noteq> 0" using assms(8) q1(2) word_gt_0 [of "sc_syscalls c"] by auto
    note added = count_added [OF q1(1) nz assms(9)]
    have q2: "entry_good (Suc n) q2" "sq_count q2 = sq_count q1" "sq_record q2 = sq_record q1"
      using up [OF q1(1)] added(1) by (auto simp: q2_def entry_good_def seq_ok_def)
    then have q2': "entry_good (Suc n) (q2\<lparr>sq_sum_delay := 0, sq_count := 0\<rparr>)"
      by (simp add: entry_good_def seq_ok_def)
    have rep: "report_good c (seq_report c (cur_pid kn) (cur_tgid kn) q2 e)" if "kn_rsv kn 0 = Some e" for e
    proof -
      let ?r = "seq_report c (cur_pid kn) (cur_tgid kn) q2 e"
      have len: "length (sq_record e) = 50" using assms(4) that by (simp add: slot_ok_def)
      have "numbers_ok ?r" using report_numbers [OF q2(1) _ len] q2(2) nz by simp
      moreover have "seq_ok ?r" using seq_report_ok [OF _ len] q2(1) by (simp add: entry_good_def)
      moreover have "sq_proc_count ?r \<noteq> 0" if "sc_shown c ?r"
      proof -
        have "sc_is_target c (cur_pid kn) (cur_tgid kn)"
          by (rule shown_target [OF assms(7,5,6) _ _ that]) (simp_all add: seq_report_def Let_def)
        then show ?thesis using added(2) by (simp add: seq_report_def Let_def q2_def)
      qed
      moreover have "sq_count ?r \<noteq> 0" using q2(2) nz by (simp add: seq_report_def Let_def)
      ultimately show ?thesis by (simp add: report_good_def)
    qed
    show ?thesis
      unfolding sys_exit_entry_def Let_def q1_def [symmetric] q2_def [symmetric]
      using False assms(1,2) up q1 q1' q2 q2' rep
      by (auto simp: entries_good_def reports_good_def map_rules split: option.splits)
  qed
qed

lemma good_step:
  assumes "sc_ctrl_on s = Some c" and "entries_good n s" and "reports_good n c s" and "sc_event_ok e"
    and "sc_target_pid c = -1 \<or> sc_target_tgid c = -1" and "sc_syscalls c \<noteq> 0" and "50 * Suc n < 2 ^ 32"
  shows "entries_good (Suc n) (sc_step g h e s) \<and> reports_good (Suc n) c (sc_step g h e s)"
proof -
  have up: "entries_good (Suc n) s'" "reports_good (Suc n) c s'"
    if "entries_good n s'" "reports_good n c s'" for s'
    using that by (auto simp: entries_good_def reports_good_def intro: entry_good_mono [where m = n])
  show ?thesis
  proof (cases "(g, h, e, s)" rule: sc_step.cases)
    case (1 g' h' kn nr s')
    then show ?thesis
      using up [of "sys_enter g h kn nr s"] entries_good_enter [of n s kn nr g h] assms
      by (simp add: reports_good_def)
  next
    case (2 g' h' kn s')
    define s1 where "s1 = snd (is_container_task kn h s)"
    have s1: "entries_good n s1" "reports_good n c s1"
      using assms(2,3) by (simp_all add: s1_def entries_good_def reports_good_def)
    have "entries_good (Suc n) (sys_exit_entry kn c q x) \<and> reports_good (Suc n) c (sys_exit_entry kn c q x)"
      if "hm_lookup (proc_syscall s) (cur_pid kn) = Some q" "x = s \<or> x = s1" for q x
      using that s1 assms 2 by (intro good_exit_entry) (auto simp: entries_good_def)
    then show ?thesis
      using 2 assms(1) up s1 assms(2,3)
      by (auto simp: sys_exit_def Let_def case_prod_beta s1_def split: option.splits)
  next
    case (3 g' h' kn s')
    then show ?thesis
      using up [of "sc_process_exit kn s"] assms(1-3)
      by (auto simp: sc_process_exit_def entries_good_def reports_good_def map_rules split: if_splits)
  qed
qed

lemma good_run:
  "sc_ctrl_on s = Some c \<Longrightarrow> entries_good n s \<Longrightarrow> reports_good n c s \<Longrightarrow> \<forall>e \<in> set es. sc_event_ok e \<Longrightarrow>
   sc_target_pid c = -1 \<or> sc_target_tgid c = -1 \<Longrightarrow> sc_syscalls c \<noteq> 0 \<Longrightarrow> 50 * (n + length es) < 2 ^ 32 \<Longrightarrow>
   reports_good (n + length es) c (run (sc_step g h) es s)"
proof (induction es arbitrary: n s)
  case (Cons e es)
  then show ?case
    using Cons.IH [of "sc_step g h e s" "Suc n"] good_step [of s c n e g h] by simp
qed simp

subsection \<open>What is displayed\<close>

text \<open>The callback on record after record, with the control block unchanged.\<close>

fun print_syscalls :: "sc_ctrl \<Rightarrow> syscall_seq list \<Rightarrow> penv \<Rightarrow> (shown_line list \<times> penv) option" where
  "print_syscalls c [] env = Some ([], env)"
| "print_syscalls c (e # es) env =
     (case print_syscall 0 c e env of None \<Rightarrow> None
      | Some (_, out, env) \<Rightarrow>
          (case print_syscalls c es env of None \<Rightarrow> None | Some (out', env) \<Rightarrow> Some (out @ out', env)))"

definition own_records :: "sc_ctrl \<Rightarrow> s32 \<Rightarrow> syscall_seq list \<Rightarrow> syscall_seq list" where
  "own_records c p es = filter (\<lambda>e. sc_shown c e \<and> sq_pid e = p) es"

definition ranks :: "sc_ctrl \<Rightarrow> syscall_seq list \<Rightarrow> s32 \<Rightarrow> proc_syscall_info option" where
  "ranks c es p = (if own_records c p es = [] then None else rank_records (own_records c p es) zero_info)"

definition calls_total :: "syscall_seq list \<Rightarrow> nat" where
  "calls_total es = sum_list (map (\<lambda>e. unat (sq_count e)) es)"

lemma rank_records_append:
  "rank_records (es @ [e]) p = (case rank_records es p of None \<Rightarrow> None | Some p \<Rightarrow> update_syscalls e p)"
  by (induction es arbitrary: p) (auto split: option.splits)

lemma calls_total_le: "\<forall>e \<in> set es. seq_ok e \<Longrightarrow> calls_total es \<le> 50 * length es"
  by (induction es) (auto simp: calls_total_def seq_ok_def)

lemma length_numbers:
  "\<forall>e \<in> set es. seq_ok e \<Longrightarrow> length (concat (map numbers_of es)) \<le> 50 * length es"
  by (induction es) (auto simp: numbers_of_def seq_ok_def)

lemma own_records_some:
  assumes "\<forall>e \<in> set es. report_good c e" and "50 * length es < 2 ^ 32"
  shows "\<exists>p. rank_records (own_records c pid es) zero_info = Some p"
proof -
  let ?h = "own_records c pid es"
  have h: "\<forall>e \<in> set ?h. numbers_ok e" "\<forall>e \<in> set ?h. seq_ok e"
    using assms(1) by (auto simp: own_records_def report_good_def)
  have "length (concat (map numbers_of ?h)) \<le> 50 * length ?h"
    using h(2) by (rule length_numbers)
  also have "... \<le> 50 * length es" by (simp add: own_records_def)
  finally have "length (concat (map numbers_of ?h)) < 2 ^ 32" using assms(2) by simp
  from rank_records_inv [OF h(1) this] show ?thesis by blast
qed

lemma sum_count_add:
  assumes "s = of_nat (calls_total done)" and "calls_total (done @ [e]) < 2 ^ 64" and "sq_count e \<noteq> 0"
  shows "s + ucast (sq_count e) = (of_nat (calls_total (done @ [e])) :: u64)" and "s + ucast (sq_count e) \<noteq> (0 :: u64)"
proof -
  have n: "(ucast (sq_count e) :: u64) = of_nat (unat (sq_count e))"
    by simp
  then show eq: "s + ucast (sq_count e) = (of_nat (calls_total (done @ [e])) :: u64)"
    using assms(1) by (simp add: calls_total_def)
  have "unat (of_nat (calls_total (done @ [e])) :: u64) = calls_total (done @ [e])"
    using assms(2) by (simp add: unat_of_nat)
  moreover have "calls_total (done @ [e]) \<noteq> 0"
    using assms(3) by (simp add: calls_total_def unat_eq_zero)
  ultimately show "s + ucast (sq_count e) \<noteq> (0 :: u64)" unfolding eq by (metis unat_0)
qed

lemma ranks_snoc:
  "ranks c (done @ [e]) = (if sc_shown c e
     then (ranks c done)(sq_pid e := (case rank_records (own_records c (sq_pid e) done) zero_info of
       None \<Rightarrow> None | Some p \<Rightarrow> update_syscalls e p)) else ranks c done)"
  by (rule ext) (auto simp: ranks_def own_records_def rank_records_append split: option.split)

lemma print_syscall_record:
  assumes "\<forall>r \<in> set (done @ [e]). report_good c r" and "50 * length (done @ [e]) < 2 ^ 32" and "sc_func c"
    and "pv_sum_count env = of_nat (calls_total done)" and "pv_map env = ranks c done"
  shows "\<exists>out env'. print_syscall 0 c e env = Some (0, out, env') \<and>
    pv_sum_count env' = of_nat (calls_total (done @ [e])) \<and> pv_map env' = ranks c (done @ [e])"
proof -
  have good: "report_good c e" "seq_ok e" using assms(1) by (simp_all add: report_good_def)
  have "calls_total (done @ [e]) \<le> 50 * length (done @ [e])"
    using assms(1) by (intro calls_total_le) (auto simp: report_good_def)
  then have total: "calls_total (done @ [e]) < 2 ^ 64" using assms(2) by simp
  have nz: "sq_count e \<noteq> 0" using good by (simp add: report_good_def)
  note sums = sum_count_add [OF assms(4) total nz]
  obtain p where p: "rank_records (own_records c (sq_pid e) done) zero_info = Some p"
    using own_records_some [of "done" c "sq_pid e"] assms(1,2) by auto
  obtain q where q: "rank_records (own_records c (sq_pid e) (done @ [e])) zero_info = Some q"
    using own_records_some [OF assms(1,2)] by blast
  have prev: "(case pv_map env (sq_pid e) of None \<Rightarrow> zero_info | Some p \<Rightarrow> p) = p"
    using p by (auto simp: assms(5) ranks_def)
  have upd: "update_syscalls e p = Some q" if "sc_shown c e"
    using q p that by (simp add: own_records_def rank_records_append)
  show ?thesis
  proof (cases "sc_shown c e")
    case True
    then show ?thesis
      using good upd prev p sums assms(3,5)
      by (simp add: print_syscall_def Let_def sc_line_def sc_sums_def ranks_snoc report_good_def seq_ok_def)
  next
    case False
    then show ?thesis
      using sums assms(3,5) by (simp add: print_syscall_def Let_def sc_sums_def ranks_snoc)
  qed
qed

lemma print_syscalls_records:
  "\<forall>r \<in> set (done @ es). report_good c r \<Longrightarrow> 50 * length (done @ es) < 2 ^ 32 \<Longrightarrow> sc_func c \<Longrightarrow>
   pv_sum_count env = of_nat (calls_total done) \<Longrightarrow> pv_map env = ranks c done \<Longrightarrow>
   \<exists>out env'. print_syscalls c es env = Some (out, env') \<and> pv_map env' = ranks c (done @ es)"
proof (induction es arbitrary: "done" env)
  case (Cons e es)
  then obtain out env' where e: "print_syscall 0 c e env = Some (0, out, env')"
      "pv_sum_count env' = of_nat (calls_total (done @ [e]))" "pv_map env' = ranks c (done @ [e])"
    using print_syscall_record [of "done" e c env] by auto
  with Cons.IH [of "done @ [e]" env'] Cons.prems show ?case by auto
qed simp

text \<open>
  C6. From the probes to the screen: any history of the syscall probes, under a control block that is on, has at
  most one target and a batch size other than 0 (the controller takes 1 to 50), with valid call numbers and not too long; then every record that the kernel side
  has submitted is displayed without undefined behaviour (no division by zero, no index out of
  bounds), and what is kept for a process is exactly the ranking of its displayed records.
\<close>

theorem syscall_display:
  assumes "s = run (sc_step g h) es (sc_maps\<lparr>sc_ctrl_map := [c]\<rparr>)" and "\<forall>e \<in> set es. sc_event_ok e"
    and "50 * length es < 2 ^ 32" and "sc_func c" and "sc_syscalls c \<noteq> 0"
    and "sc_target_pid c = -1 \<or> sc_target_tgid c = -1"
  shows "\<exists>out env. print_syscalls c (syscall_rb s) penv0 = Some (out, env) \<and>
    (own_records c pid (syscall_rb s) = [] \<and> pv_map env pid = None \<or>
     own_records c pid (syscall_rb s) \<noteq> [] \<and>
       pv_map env pid = rank_records (own_records c pid (syscall_rb s)) zero_info \<and> pv_map env pid \<noteq> None)"
proof -
  let ?s = "sc_maps\<lparr>sc_ctrl_map := [c]\<rparr>"
  have "sc_ctrl_on ?s = Some c" "entries_good 0 ?s" "reports_good 0 c ?s"
    using assms(4) by (simp_all add: sc_ctrl_on_def arr_lookup_def entries_good_def reports_good_def sc_maps_def)
  from good_run [OF this assms(2,6,5)] assms(3)
  have good: "reports_good (length es) c s" by (simp add: assms(1))
  have rb: "\<forall>r \<in> set ([] @ syscall_rb s). report_good c r" "50 * length ([] @ syscall_rb s) < 2 ^ 32"
    using good assms(3) by (auto simp: reports_good_def)
  have "pv_map penv0 = ranks c []" "pv_sum_count penv0 = of_nat (calls_total [])"
    by (simp_all add: penv0_def ranks_def own_records_def calls_total_def fun_eq_iff)
  then obtain out env where "print_syscalls c (syscall_rb s) penv0 = Some (out, env)"
      "pv_map env = ranks c (syscall_rb s)"
    using print_syscalls_records [OF rb assms(4), of penv0] by auto
  then show ?thesis
    using own_records_some [of "syscall_rb s" c pid] rb by (auto simp: ranks_def)
qed

theorem syscall_display_witness:
  "\<exists>out env. print_syscalls sc_demo_ctrl (syscall_rb (run (sc_step 1 [])
     [(sc_calm 7 7 10, Sc_enter 3), (sc_calm 7 7 15, Sc_exit), (sc_calm 7 7 20, Sc_enter 4),
      (sc_calm 7 7 28, Sc_exit)] sc_demo)) penv0 = Some (out, env)"
proof -
  have "\<forall>e \<in> set [(sc_calm 7 7 10, Sc_enter 3), (sc_calm 7 7 15, Sc_exit), (sc_calm 7 7 20, Sc_enter 4),
      (sc_calm 7 7 28, Sc_exit)]. sc_event_ok e"
    by (simp add: slot_ok_def zero_seq_def)
  moreover have "sc_func sc_demo_ctrl" "sc_syscalls sc_demo_ctrl \<noteq> 0" "sc_target_pid sc_demo_ctrl = -1"
    by (simp_all add: sc_demo_ctrl_def)
  ultimately show ?thesis
    unfolding sc_demo_def
    using syscall_display [OF refl, where g = 1 and h = "[]" and c = sc_demo_ctrl] by fastforce
qed

text \<open>
  With a process and a thread group as targets, the kernel side accounts the calls of the group only,
  while the display also shows the records of the process: their \<open>proc_count\<close> was never written, and
  when it is 0 the program divides by it.
\<close>

lemma two_targets_trap:
  assumes "sc_func c" and "sc_shown c e" and "sq_proc_count e = 0"
  shows "print_syscall 0 c e env = None"
  using assms by (auto simp: print_syscall_def sc_line_def Let_def split: option.splits)

lemma two_targets_unwritten:
  assumes "sc_target_tgid c \<noteq> -1" and "sc_target_pid c = pid" and "tgid \<noteq> sc_target_tgid c"
  shows "sc_shown c (seq_report c pid tgid q e)" and "sq_proc_count (seq_report c pid tgid q e) = sq_proc_count e"
  using assms by (simp_all add: sc_shown_def seq_report_def sc_is_target_def Let_def)

end
