(* ===== verification/ProcKeytimeProps.thy ===== *)
theory ProcKeytimeProps imports ProcImage KeytimeProps begin

text \<open>
  The key-time tool from the probes to the screen: the command line that is displayed for an
  \<open>execve\<close> (\<open>exec_display\<close>), and that every report, whatever the probes met, is displayed without
  undefined behaviour (\<open>keytime_display\<close>).
\<close>

subsection \<open>The text of an execve\<close>

definition blank :: "u8 \<Rightarrow> u8" where
  "blank x = (if x = 0 then 32 else x)"

lemma info1_loop_end: "\<not> i < unat sz \<Longrightarrow> info1_loop buf sz n i k = Some []"
  by (simp add: info1_loop.simps [of buf sz n i k])

lemma info1_loop_text:
  assumes "txt = take (unat sz) buf" and "unat sz \<le> length buf"
  shows "i < unat sz \<Longrightarrow> int (k + count_list (butlast (drop i txt)) 0) < sint n \<Longrightarrow>
    info1_loop buf sz n i k = Some (map blank (drop i txt))"
proof (induction "unat sz - i" arbitrary: i k)
  case (Suc d)
  define c where "c = buf ! i"
  define k' where "k' = (if c = 0 then Suc k else k)"
  have len: "length txt = unat sz" using assms by simp
  have drop: "drop i txt = c # drop (Suc i) txt"
    using Suc.prems(1) assms len by (simp add: c_def Cons_nth_drop_Suc [symmetric])
  have step: "info1_loop buf sz n i k =
      (case info1_loop buf sz n (Suc i) k' of None \<Rightarrow> None | Some cs \<Rightarrow> Some (blank c # cs))"
    using Suc.prems assms(2)
    by (subst info1_loop.simps) (auto simp: c_def k'_def blank_def Let_def split: option.splits)
  show ?case
  proof (cases "Suc i < unat sz")
    case True
    then have "drop (Suc i) txt \<noteq> []" using len by simp
    then have "butlast (drop i txt) = c # butlast (drop (Suc i) txt)" by (simp add: drop)
    then have "int (k' + count_list (butlast (drop (Suc i) txt)) 0) < sint n"
      using Suc.prems(2) by (simp add: k'_def split: if_splits)
    with True Suc.hyps show ?thesis by (simp add: step drop)
  next
    case False
    then have "drop (Suc i) txt = []" using len by simp
    with False show ?thesis by (simp add: step drop info1_loop_end)
  qed
qed simp

text \<open>A C string with its terminator.\<close>

definition c_string :: "u8 list \<Rightarrow> bool" where
  "c_string b \<longleftrightarrow> b \<noteq> [] \<and> last b = 0 \<and> 0 \<notin> set (butlast b)"

lemma count_butlast: "xs \<noteq> [] \<Longrightarrow> last xs = x \<Longrightarrow> count_list xs x = Suc (count_list (butlast xs) x)"
  by (induction xs) auto

lemma c_string_zeros: "c_string b \<Longrightarrow> count_list b 0 = 1"
  by (auto simp: c_string_def count_butlast)

lemma c_strings_zeros: "\<forall>b \<in> set bs. c_string b \<Longrightarrow> count_list (concat bs) 0 = length bs"
  by (induction bs) (auto simp: c_string_zeros)

lemma c_strings_last: "bs \<noteq> [] \<Longrightarrow> \<forall>b \<in> set bs. c_string b \<Longrightarrow> concat bs \<noteq> [] \<and> last (concat bs) = 0"
proof (induction bs)
  case (Cons b bs)
  then show ?case by (cases "bs = []") (auto simp: c_string_def)
qed simp

text \<open>
  C12. From the probe to the screen: for an \<open>execve\<close> of a file with at most 18 arguments that fit into the
  record, the display shows the file name and the arguments, one after the other, each followed by
  a blank, and no sign of omission.
\<close>

theorem exec_display:
  assumes "xa_file xa = user_str f" and "args_are xa 1 bs" and "\<forall>b \<in> set (f # bs). c_string b \<and> length b \<le> 128"
    and "length (concat (f # bs)) \<le> 312" and "1 + length bs < 20"
    and "ur_ret (xa_str xa (1 + length bs)) <s 0" and "length (ur_bytes (xa_str xa (1 + length bs))) \<le> 128"
    and "exec_reads_ok xa" and "length (ke_char_info e) = 440"
  shows "print_info1 20 (exec_event 20 xa pid tgid e) = Some (Kt_chars (map blank (concat (f # bs))) False)"
proof -
  let ?e = "exec_event 20 xa pid tgid e"
  have "take (unat (ke_info_size ?e)) (ke_char_info ?e) = f @ concat bs
       \<and> ke_info_count ?e = 1 + of_nat (length bs)"
    using assms(1-7,9) by (intro exec_report) (auto simp: word_sless_alt)
  then have r: "concat (f # bs) = take (unat (ke_info_size ?e)) (ke_char_info ?e)"
    "ke_info_count ?e = of_nat (length (f # bs))"
    by simp_all
  have size: "unat (ke_info_size ?e) \<le> length (ke_char_info ?e)"
    using exec_event_buffer [OF assms(8,9)] by (simp add: buffer_ok_def)
  have str: "\<forall>b \<in> set (f # bs). c_string b" using assms(3) by simp
  have last: "concat (f # bs) \<noteq> [] \<and> last (concat (f # bs)) = 0"
    by (rule c_strings_last [OF _ str]) simp
  have "Suc (count_list (butlast (concat (f # bs))) 0) = length (f # bs)"
    using c_strings_zeros [OF str] count_butlast [of "concat (f # bs)" 0] last by simp
  then have zeros: "count_list (butlast (concat (f # bs))) 0 = length bs" by simp
  have un: "unat (ke_info_count ?e) = Suc (length bs)"
    using assms(5) unfolding r(2) by (simp add: unat_of_nat del: of_nat_Suc)
  then have count: "sint (ke_info_count ?e) = int (Suc (length bs))"
    using assms(5) sint_small [of "ke_info_count ?e"] by simp
  have "0 < unat (ke_info_size ?e)"
    using last r(1) by (metis bot_nat_0.not_eq_extremum take_eq_Nil)
  then have "info1_loop (ke_char_info ?e) (ke_info_size ?e) (ke_info_count ?e) 0 0 =
      Some (map blank (drop 0 (concat (f # bs))))"
    using zeros count by (intro info1_loop_text [OF r(1) size]) simp_all
  moreover have "ke_info_count ?e \<noteq> 20 + 1"
  proof
    assume "ke_info_count ?e = 20 + 1"
    then have "unat (ke_info_count ?e) = 21" by simp
    then show False using un assms(5) by simp
  qed
  ultimately show ?thesis by (simp add: print_info1_def)
qed

theorem exec_display_witness:
  "print_info1 20 (exec_event 20 demo_args 7 7 kt_slot) = Some (Kt_chars [108, 115, 32, 45, 108, 32] False)"
  using exec_display [where xa = demo_args and f = "[108, 115, 0]" and bs = "[[45, 108, 0]]" and e = kt_slot
      and pid = 7 and tgid = 7, OF _ _ _ _ _ _ _ demo_args_ok]
  by (simp add: demo_args_def kt_slot_def word_sless_alt c_string_def blank_def)

subsection \<open>Every report is displayed\<close>

text \<open>What the kernel hands to a probe: records of the declared sizes, and a stack of the reported size.\<close>

definition kst_depth :: "s32 \<Rightarrow> nat" where
  "kst_depth sz = nat (sint (ucast ((scast sz :: u64) div 8) :: s32))"

definition slots_fit :: "kt_kern \<Rightarrow> bool" where
  "slots_fit kn \<longleftrightarrow> (\<forall>i e oe. kn_rsv kn i = Some (e, oe) \<longrightarrow> length (ke_info e) = 6 \<and> length (ke_char_info e) = 440)"

fun kt_event_ok :: "kt_kern \<times> kt_probe \<Rightarrow> bool" where
  "kt_event_ok (kn, pr) = (slots_fit kn \<and> (case pr of
       Kt_enter_execve xa \<Rightarrow> exec_reads_ok xa
     | Kt_sched_switch p q st \<Rightarrow> kst_depth (kst_sz st) \<le> length (kst_stack st)
     | _ \<Rightarrow> True))"

fun report_fits :: "kt_report \<Rightarrow> bool" where
  "report_fits (Kt e) = (report_ok (Kt e) \<and> (if ke_type e = 1 then buffer_ok e
     else length (ke_info e) = 6 \<and> ke_info_count e = 1))"
| "report_fits (Off e) = (of_type e = 11 \<and> stack_depth e \<le> length (of_kstack e))"

definition kt_fits :: "kt_st \<Rightarrow> bool" where
  "kt_fits s \<longleftrightarrow> (\<forall>r \<in> set (keytime_rb s). report_fits r) \<and>
     (\<forall>p ci. hm_lookup (child s) p = Some ci \<longrightarrow> ci_type ci \<in> {4, 6, 8})"

lemma number_fits:
  "ty \<in> {2, 3, 4, 5, 6, 7, 8, 9, 10} \<Longrightarrow> length (ke_info e) = 6 \<Longrightarrow> report_fits (Kt (kt_number ty p t x e))"
  by (auto simp: kt_number_def)

lemma exec_fits:
  "exec_reads_ok xa \<Longrightarrow> length (ke_char_info e) = 440 \<Longrightarrow> report_fits (Kt (exec_event ma xa p t e))"
  by (simp add: exec_event_keeps exec_event_buffer)

lemma off_fits:
  "kst_depth (kst_sz st) \<le> length (kst_stack st) \<Longrightarrow> report_fits (Off (oe\<lparr>of_type := 11, of_pid := p, of_tgid := t,
     of_offcpu_time := x, of_kstack_sz := kst_sz st, of_kstack := kst_stack st\<rparr>))"
  by (simp add: stack_depth_def kst_depth_def)

lemma kt_fits_create:
  assumes "kt_fits s" and "slots_fit kn" and "ty \<in> {4, 6, 8}"
  shows "kt_fits (child_create ty q pp kn t tt s)"
proof -
  have "report_fits (Kt (kt_number ty p g x e))" if "kn_rsv kn 0 = Some (e, oe)" for p g x e oe
    using that assms(2,3) by (intro number_fits) (auto simp: slots_fit_def)
  then show ?thesis
    using assms(1,3)
    by (auto simp: kt_fits_def child_create_def Let_def case_prod_beta map_rules split: option.splits if_splits)
qed

lemma kt_fits_child_exit:
  assumes "kt_fits s" and "slots_fit kn"
  shows "kt_fits (child_exit kn s)"
proof -
  have "report_fits (Kt (kt_number (ci_type ci + 1) p g x e))"
    if "kn_rsv kn 1 = Some (e, oe)" "hm_lookup (child s) k = Some ci" for p g x e oe ci k
    using that assms by (intro number_fits) (auto simp: slots_fit_def kt_fits_def)
  then show ?thesis
    using assms(1)
    by (auto simp: kt_fits_def child_exit_def Let_def map_rules simp del: report_fits.simps
        split: option.splits if_splits)
qed

lemma kt_fits_report: "kt_fits s \<Longrightarrow> report_fits r \<Longrightarrow> kt_fits (s\<lparr>keytime_rb := keytime_rb s @ [r]\<rparr>)"
  by (auto simp: kt_fits_def)

lemma kt_fits_report2:
  "kt_fits s \<Longrightarrow> report_fits r \<Longrightarrow> report_fits r' \<Longrightarrow> kt_fits (s\<lparr>keytime_rb := keytime_rb s @ [r, r']\<rparr>)"
  by (auto simp: kt_fits_def)

lemma kt_fits_pthread: "kt_fits (s\<lparr>pthread_create_enable := m\<rparr>) = kt_fits s"
  by (simp add: kt_fits_def)

lemma slots_fit_rsv: "slots_fit kn \<Longrightarrow> kn_rsv kn i = Some (e, oe) \<Longrightarrow>
    length (ke_info e) = 6 \<and> length (ke_char_info e) = 440"
  by (auto simp: slots_fit_def)

lemma kt_fits_step: "kt_event_ok e \<Longrightarrow> kt_fits s \<Longrightarrow> kt_fits (kt_step ma g e s)"
  by (cases "(ma, g, e, s)" rule: kt_step.cases)
    (auto simp: kt_handlers Let_def case_prod_beta kt_fits_pthread simp del: report_fits.simps
      dest: slots_fit_rsv
      intro!: kt_fits_create kt_fits_child_exit kt_fits_report kt_fits_report2 number_fits exec_fits off_fits
      split: option.splits bool.splits)

interpretation kt_fits: tool "kt_step ma g" kt_fits kt_event_ok
  by unfold_locales (rule kt_fits_step)

lemma info1_loop_total: "unat sz \<le> length buf \<Longrightarrow> \<exists>cs. info1_loop buf sz n i k = Some cs"
proof (induction "unat sz - i" arbitrary: i k)
  case 0
  then show ?case by (simp add: info1_loop_end)
next
  case (Suc d)
  then have rest: "\<exists>cs. info1_loop buf sz n (Suc i) j = Some cs" for j by simp
  obtain xs ys where "info1_loop buf sz n (Suc i) k = Some xs" "info1_loop buf sz n (Suc i) (Suc k) = Some ys"
    using rest [of k] rest [of "Suc k"] by blast
  then show ?case
    using Suc.prems by (subst info1_loop.simps) (auto simp: Let_def)
qed

lemma print_keytime_fits:
  assumes "report_fits r"
  shows "\<exists>line st env'. print_keytime True ksyms r env =
    Some (0, header_lines 4 (pv_kt_prev_tgid env) (report_tgid r \<noteq> -1) env @ [line], st, env')"
proof (cases r)
  case (Kt e)
  have ty: "ke_type e \<noteq> 11" "unat (ke_type e) < length keytime_type"
    using assms Kt by (auto simp: keytime_type_def)
  have "\<exists>body. (if ke_enable_char_info e then print_info1 ma e else print_info2 e) = Some body" for ma
  proof (cases "ke_type e = 1")
    case True
    then have "unat (ke_info_size e) \<le> length (ke_char_info e)" "ke_enable_char_info e"
      using assms Kt by (auto simp: buffer_ok_def)
    then show ?thesis
      using info1_loop_total [of "ke_info_size e" "ke_char_info e" "ke_info_count e" 0 0]
      by (auto simp: print_info1_def)
  next
    case False
    then show ?thesis using assms Kt by (auto simp: print_info2_def)
  qed
  then obtain body where
    "(if ke_enable_char_info e then print_info1 (pv_max_args env) e else print_info2 e) = Some body" by blast
  then show ?thesis
    using ty Kt by (cases "ke_enable_char_info e"; cases "report_tgid r = -1") (simp_all add: print_keytime_def Let_def)
next
  case (Off e)
  then show ?thesis
    using assms by (simp add: print_keytime_def stack_write_def Let_def)
qed

text \<open>
  C28. From the probes to the screen: whatever events the probes of the key-time tool meet, every report
  they submit is displayed as one line (after a header, if it is due), without an index out of the
  bounds of the record or of the names, as long as the stack file can be opened.
\<close>

theorem keytime_display:
  assumes "\<forall>e \<in> set es. kt_event_ok e" and "child s = hm_new 10240" and "keytime_rb s = []"
    and "r \<in> set (keytime_rb (run (kt_step max_args g) es s))"
  shows "\<exists>line st env'. print_keytime True ksyms r env =
    Some (0, header_lines 4 (pv_kt_prev_tgid env) (report_tgid r \<noteq> -1) env @ [line], st, env')"
proof -
  have "kt_fits s" using assms(2,3) by (simp add: kt_fits_def)
  then have "kt_fits (run (kt_step max_args g) es s)"
    using kt_fits.run_inv [of es s max_args g] assms(1) by blast
  then have "report_fits r" using assms(4) by (simp add: kt_fits_def)
  then show ?thesis by (rule print_keytime_fits)
qed

theorem keytime_display_witness:
  "\<exists>out. print_keytime True [] (hd (keytime_rb (run (kt_step 20 1) [(kt_calm 7, Kt_fork_exit 9)] kt_demo))) penv0
     = Some out"
proof -
  note kt_demo_report
  moreover have "child kt_demo = hm_new 10240" "keytime_rb kt_demo = []"
    by (simp_all add: kt_demo_def kt_maps_def)
  moreover have "\<forall>e \<in> set [(kt_calm 7, Kt_fork_exit 9)]. kt_event_ok e"
    by (simp add: slots_fit_def kt_slot_def)
  ultimately show ?thesis
    using keytime_display [where s = kt_demo and es = "[(kt_calm 7, Kt_fork_exit 9)]" and max_args = 20 and g = 1
        and ksyms = "[]" and env = penv0] by blast
qed

end
