(* ===== verification/MapWalk.thy ===== *)
theory MapWalk imports Bpf begin

text \<open>
  Walking over a BPF hash map from user space with \<open>bpf_map_get_next_key\<close>: it returns the key that
  follows the given one, and the first key of the map when the given one is not in it.
\<close>

definition hm_keys :: "('k, 'v) hmap \<Rightarrow> 'k list" where
  "hm_keys m = map fst (hm_ents m)"

fun key_after :: "'k list \<Rightarrow> 'k \<Rightarrow> 'k list" where
  "key_after [] k = []"
| "key_after (x # xs) k = (if x = k then xs else key_after xs k)"

definition hm_next_key :: "('k, 'v) hmap \<Rightarrow> 'k \<Rightarrow> 'k option" where
  "hm_next_key m k =
     (case (if k \<in> set (hm_keys m) then key_after (hm_keys m) k else hm_keys m) of
        [] \<Rightarrow> None | x # _ \<Rightarrow> Some x)"

subsection \<open>What remains of a walk\<close>

text \<open>
  A map that does not change is walked key by key, from the key after the given one; the walk is
  described by what remains of the keys.
\<close>

definition keys_from :: "('k, 'v) hmap \<Rightarrow> 'k \<Rightarrow> 'k list" where
  "keys_from m k = (if k \<in> set (hm_keys m) then key_after (hm_keys m) k else hm_keys m)"

lemma hm_next_key_from: "hm_next_key m k = (case keys_from m k of [] \<Rightarrow> None | x # _ \<Rightarrow> Some x)"
  by (simp add: hm_next_key_def keys_from_def)

lemma key_after_append: "distinct (xs @ k # ys) \<Longrightarrow> key_after (xs @ k # ys) k = ys"
  by (induction xs) auto

lemma key_after_suffix: "\<exists>xs. l = xs @ key_after l k"
proof (induction l)
  case (Cons a l)
  then obtain xs where "l = xs @ key_after l k" by blast
  then show ?case
    by (cases "a = k") (auto intro: exI [of _ "[a]"] exI [of _ "a # xs"])
qed simp

lemma keys_from_Cons:
  assumes "distinct (hm_keys m)" and "keys_from m k = x # xs"
  shows "keys_from m x = xs" and "x \<in> set (hm_keys m)"
proof -
  obtain ys where "hm_keys m = ys @ x # xs"
    using assms(2) key_after_suffix [of "hm_keys m" k] by (auto simp: keys_from_def split: if_splits)
  with assms(1) show "keys_from m x = xs" "x \<in> set (hm_keys m)"
    using key_after_append [of ys x xs] by (simp_all add: keys_from_def)
qed

lemma distinct_hm_keys: "hm_ok m \<Longrightarrow> distinct (hm_keys m)"
  by (simp add: hm_ok_def hm_keys_def)

lemma in_hm_keys: "k \<in> set (hm_keys m) \<longleftrightarrow> hm_lookup m k \<noteq> None"
  by (simp add: hm_keys_def hm_lookup_None)

lemma keys_from_absent: "hm_lookup m k = None \<Longrightarrow> keys_from m k = hm_keys m"
  by (simp add: keys_from_def in_hm_keys)

lemma hm_keys_delete: "hm_keys (hm_delete m k) = filter (\<lambda>x. k \<noteq> x) (hm_keys m)"
  by (simp add: hm_keys_def hm_delete_def AList.delete_eq filter_map comp_def split_def)

end
