(* ===== verification/ProcReports.thy ===== *)
theory ProcReports imports ProcImage MapWalk begin

text \<open>
  The two reports of the display program that walk over the kernel's maps, \<open>print_resource\<close> (lines
  175-269 of \<open>proc_image.c\<close>) and \<open>print_schedule\<close> (lines 271-387).

  The walks are loops over \<open>bpf_map_get_next_key\<close>, which returns the first key of the map when the
  key it is given is not in it.  They are partial functions here: \<open>None\<close> is a walk that does not end.
  The kernel's probes do not run during a report.
\<close>

subsection \<open>Resources\<close>

text \<open>
  \<open>at_most_100 n d\<close> is the test of the code, in \<open>double\<close> rounded to \<open>float\<close>, whether \<open>100.0 * n / d\<close>
  is at most 100; \<open>clk i\<close> is the reading of the clock in turn \<open>i\<close>, \<open>mem\<close> the number of physical pages.
\<close>

record rsc_world =
  rw_err :: "nat \<Rightarrow> s32"
  rw_clk :: "nat \<Rightarrow> u64 \<times> u64"
  rw_mem :: u64
  rw_at_most_100 :: "u64 \<Rightarrow> u64 \<Rightarrow> bool"
  rw_del :: "nat \<Rightarrow> s32"
  rw_fd_ok :: bool
  rw_now :: "u64 \<times> u64"

definition rsc_interval :: "u64 \<times> u64 \<Rightarrow> u64 \<times> u64 \<Rightarrow> u64" where
  "rsc_interval cur prev = snd cur - snd prev + (fst cur - fst prev) * 1000000000"

text \<open>The line of one entry, if it has one: it is printed only for plausible percentages.\<close>

definition rsc_line :: "rsc_world \<Rightarrow> rsc_ctrl \<Rightarrow> u64 \<Rightarrow> total_rsc \<Rightarrow> shown_line list" where
  "rsc_line w c interval event =
     (if 0 < interval \<and> 0 < rw_mem w \<and> 0 < tr_time event
        \<and> rw_at_most_100 w (tr_time event) interval \<and> rw_at_most_100 w (tr_memused event) (rw_mem w)
      then [Resource_line (if rc_target_tgid c \<noteq> -1 then Some (tr_tgid event) else None) (tr_pid event)
              (tr_cpu_id event) (tr_time event) interval (tr_memused event) (tr_readchar event) (tr_writechar event)]
      else [])"

partial_function (option) rsc_walk ::
  "rsc_world \<Rightarrow> rsc_ctrl \<Rightarrow> (proc_id, total_rsc) hmap \<Rightarrow> nat \<Rightarrow> proc_id \<Rightarrow> shown_line list \<Rightarrow> penv \<Rightarrow>
   (s32 \<times> shown_line list \<times> penv) option" where
  "rsc_walk w c m i lookup_key out env =
     (case hm_next_key m lookup_key of
        None \<Rightarrow> Some (0, out, env)
      | Some next_key \<Rightarrow>
          (let column = (rc_target_tgid c \<noteq> -1);
               out = out @ header_lines 1 (pv_rsc_prev_tgid env) column env;
               env = env\<lparr>pv_rsc_prev_tgid := tgid_mode column, pv_prev_image := 1\<rparr> in
           if rw_err w (Suc i) <s 0 then Some (-1, out, env)
           else case hm_lookup m next_key of
             None \<Rightarrow> Some (-1, out, env)
           | Some event \<Rightarrow>
               rsc_walk w c m (Suc i) next_key
                 (out @ rsc_line w c (rsc_interval (rw_clk w i) (pv_prevtime env)) event) env))"

declare rsc_walk.simps [simp del]

partial_function (option) rsc_delete ::
  "(nat \<Rightarrow> s32) \<Rightarrow> nat \<Rightarrow> proc_id \<Rightarrow> (proc_id, total_rsc) hmap \<Rightarrow> (s32 \<times> (proc_id, total_rsc) hmap) option" where
  "rsc_delete del i lookup_key m =
     (case hm_next_key m lookup_key of
        None \<Rightarrow> Some (0, m)
      | Some next_key \<Rightarrow>
          (if del i <s 0 then Some (-1, m)
           else rsc_delete del (Suc i) next_key (hm_delete m next_key)))"

declare rsc_delete.simps [simp del]

definition start_key :: proc_id where
  "start_key = \<lparr>pd_pid = -1, pd_cpu_id = -1\<rparr>"

text \<open>
  The first call jumps over the initialisation of \<open>fd\<close> to the deletion: what \<open>fd\<close> then holds is
  not determined.  \<open>rw_fd_ok\<close>: it happens to be the map's; otherwise no map is behind it, and the
  loop over its keys ends at once.
\<close>

definition rsc_cleared :: "rsc_world \<Rightarrow> bool \<Rightarrow> rsc_st \<Rightarrow> shown_line list \<Rightarrow> penv \<Rightarrow>
    (s32 \<times> shown_line list \<times> rsc_st \<times> penv) option" where
  "rsc_cleared w fd_ok s out env =
     (case (if fd_ok then rsc_delete (rw_del w) 0 start_key (rsc_total s) else Some (0, rsc_total s)) of
        None \<Rightarrow> None
      | Some (err, m) \<Rightarrow>
          (let s = s\<lparr>rsc_total := m\<rparr> in
           if err <s 0 then Some (-1, out, s, env)
           else Some (0, out, s, env\<lparr>pv_prevtime := rw_now w, pv_output_resourse := False\<rparr>)))"

definition print_resource :: "rsc_world \<Rightarrow> rsc_st \<Rightarrow> penv \<Rightarrow> (s32 \<times> shown_line list \<times> rsc_st \<times> penv) option" where
  "print_resource w s env =
     (if rw_err w 0 <s 0 then Some (-1, [], s, env)
      else
        (let c = hd (rsc_ctrl_map s) in
         if \<not> rsc_func c then Some (0, [], s, env)
         else if pv_first_rsc env then rsc_cleared w (rw_fd_ok w) s [] (env\<lparr>pv_first_rsc := False\<rparr>)
         else
           (case rsc_walk w c (rsc_total s) 0 start_key [] env of
              None \<Rightarrow> None
            | Some (err, out, env) \<Rightarrow>
                if err <s 0 then Some (-1, out, s, env) else rsc_cleared w True s out env)))"

subsection \<open>The schedule\<close>

text \<open>
  \<open>Sched_trap\<close>: one of the two divisions is by zero.  The count of an event is an \<open>int\<close>, which the
  division converts to an unsigned 64-bit number.
\<close>

datatype sched_end = Sched_ret s32 "shown_line list" | Sched_trap

definition sched_line :: "bool \<Rightarrow> schedule_event \<Rightarrow> sum_schedule \<Rightarrow> shown_line option" where
  "sched_line column ev t =
     (if sv_count ev = 0 \<or> ss_sum_count t = 0 then None
      else Some (Schedule_line (if column then Some (sv_tgid ev) else None) (sv_pid ev) (sv_prio ev)
        (sv_sum_delay ev div scast (sv_count ev)) (ss_sum_delay t div ss_sum_count t)
        (sv_max_delay ev) (ss_max_delay t) (sv_min_delay ev) (ss_min_delay t)))"

text \<open>
  The body the two loops share: the event, the first division, the system's sums, the second
  division, the line.  An error of the second lookup comes after the first division.
\<close>

partial_function (option) sched_walk ::
  "(nat \<Rightarrow> s32) \<Rightarrow> bool \<Rightarrow> ('k, schedule_event) hmap \<Rightarrow> sum_schedule \<Rightarrow> nat \<Rightarrow> 'k \<Rightarrow> shown_line list \<Rightarrow>
   sched_end option" where
  "sched_walk err column m t i lookup_key out =
     (case hm_next_key m lookup_key of
        None \<Rightarrow> Some (Sched_ret 0 out)
      | Some next_key \<Rightarrow>
          (if err i <s 0 then Some (Sched_ret (-1) out)
           else case hm_lookup m next_key of
             None \<Rightarrow> Some (Sched_ret (-1) out)
           | Some ev \<Rightarrow>
               if sv_count ev = 0 then Some Sched_trap
               else if err (i + 1) <s 0 then Some (Sched_ret (-1) out)
               else (case sched_line column ev t of
                       None \<Rightarrow> Some Sched_trap
                     | Some line \<Rightarrow> sched_walk err column m t (i + 2) next_key (out @ [line]))))"

declare sched_walk.simps [simp del]

text \<open>The report for one target process.\<close>

definition sched_target :: "(nat \<Rightarrow> s32) \<Rightarrow> schedule_event \<Rightarrow> sum_schedule \<Rightarrow> shown_line list \<Rightarrow> sched_end" where
  "sched_target err ev t out =
     (if err 1 <s 0 then Sched_ret (-1) out
      else if sv_count ev = 0 then Sched_ret 0 out
      else if err 2 <s 0 then Sched_ret (-1) out
      else case sched_line False ev t of None \<Rightarrow> Sched_trap | Some line \<Rightarrow> Sched_ret 0 (out @ [line]))"

definition print_schedule :: "(nat \<Rightarrow> s32) \<Rightarrow> sched_st \<Rightarrow> penv \<Rightarrow> (sched_end \<times> penv) option" where
  "print_schedule err s env =
     (if err 0 <s 0 then Some (Sched_ret (-1) [], env)
      else
        (let c = hd (sched_ctrl_map s) in
         if \<not> sched_func c then Some (Sched_ret 0 [], env)
         else
           (let column = (sd_target_tgid c \<noteq> -1);
                out = header_lines 5 (pv_sched_prev_tgid env) column env;
                env = env\<lparr>pv_sched_prev_tgid := tgid_mode column, pv_prev_image := 5\<rparr>;
                t = hd (sys_schedule s);
                r = (if sd_target_pid c = -1 \<and> sd_target_tgid c = -1
                     then sched_walk err False (proc_schedule s) t 1 \<lparr>pd_pid = -1, pd_cpu_id = 0\<rparr> out
                     else if sd_target_pid c \<noteq> -1 \<and> sd_target_tgid c = -1
                     then Some (sched_target err (hd (target_schedule s)) t out)
                     else if sd_target_pid c = -1 \<and> sd_target_tgid c \<noteq> -1
                     then sched_walk err True (tg_schedule s) t 1 (-1) out
                     else Some (Sched_ret 0 out))
            in case r of
                 None \<Rightarrow> None
               | Some (Sched_ret e out) \<Rightarrow>
                   Some (Sched_ret e out, if e <s 0 then env else env\<lparr>pv_output_schedule := False\<rparr>)
               | Some Sched_trap \<Rightarrow> Some (Sched_trap, env))))"

end
