(* ===== verification/ProcReportsProps.thy ===== *)
theory ProcReportsProps imports ProcReports ScheduleProps ResourceProps begin

text \<open>
  The reports of the display program on what the kernel's probes have left in the maps.  The schedule
  report, for any history of the probes: which lines it prints, and the division by zero before the
  first accounted delay (\<open>schedule_display\<close>), which the reports on one target cannot meet
  (\<open>schedule_targets\<close>).  The resource report always ends, shows every entry and empties the map
  (\<open>resource_display\<close>).
\<close>

subsection \<open>The walk over the schedule\<close>

lemma sched_walk_end:
  "keys_from m k = [] \<Longrightarrow> sched_walk err col m t i k out = Some (Sched_ret 0 out)"
  by (simp add: sched_walk.simps [of err col m t i k] hm_next_key_from)

lemma sched_walk_next:
  assumes "keys_from m k = x # xs" and "hm_lookup m x = Some ev" and "sv_count ev \<noteq> 0"
    and "\<not> err i <s 0" and "\<not> err (i + 1) <s 0"
  shows "sched_walk err col m t i k out =
    (case sched_line col ev t of None \<Rightarrow> Some Sched_trap
     | Some line \<Rightarrow> sched_walk err col m t (i + 2) x (out @ [line]))"
  using assms by (simp add: sched_walk.simps [of err col m t i k] hm_next_key_from)

definition sched_lines :: "bool \<Rightarrow> ('k, schedule_event) hmap \<Rightarrow> sum_schedule \<Rightarrow> 'k list \<Rightarrow> shown_line list" where
  "sched_lines col m t ks = map (\<lambda>k. the (sched_line col (the (hm_lookup m k)) t)) ks"

lemma sched_walk_lines:
  assumes "distinct (hm_keys m)" and "\<forall>i. \<not> err i <s 0"
    and "\<And>k ev. hm_lookup m k = Some ev \<Longrightarrow> sv_count ev \<noteq> 0" and "ss_sum_count t \<noteq> 0"
  shows "keys_from m k = ks \<Longrightarrow>
    sched_walk err col m t i k out = Some (Sched_ret 0 (out @ sched_lines col m t ks))"
proof (induction ks arbitrary: k i out)
  case Nil
  then show ?case by (simp add: sched_walk_end sched_lines_def)
next
  case (Cons x xs)
  note next_key = keys_from_Cons [OF assms(1) Cons.prems]
  then obtain ev where ev: "hm_lookup m x = Some ev" by (auto simp: in_hm_keys)
  with assms(3) have "sv_count ev \<noteq> 0" by blast
  with ev assms(2,4) Cons.IH [OF next_key(1)] sched_walk_next [OF Cons.prems ev] show ?case
    by (simp add: sched_lines_def sched_line_def)
qed

lemma sched_walk_trap:
  assumes "\<forall>i. \<not> err i <s 0" and "hm_lookup m k = None" and "hm_keys m \<noteq> []" and "ss_sum_count t = 0"
  shows "sched_walk err col m t i k out = Some Sched_trap"
proof -
  obtain x xs where "keys_from m k = x # xs"
    using assms(2,3) keys_from_absent [of m k] by (cases "hm_keys m") auto
  moreover from this obtain ev where "hm_lookup m x = Some ev"
    using assms(2) keys_from_absent [of m k] in_hm_keys [of x m] by auto
  ultimately show ?thesis
    using assms(1,4) by (simp add: sched_walk.simps [of err col m t i k] hm_next_key_from sched_line_def)
qed

subsection \<open>What the probes leave behind\<close>

fun sched_real :: "unit kern \<times> sched_probe \<Rightarrow> bool" where
  "sched_real (kn, Sched_wakeup p) = (st_pid p \<noteq> -1)"
| "sched_real (kn, Sched_wakeup_new p) = (st_pid p \<noteq> -1)"
| "sched_real (kn, Sched_switch p q) = (st_pid p \<noteq> -1 \<and> st_pid q \<noteq> -1)"
| "sched_real (kn, Sched_process_exit p) = (st_pid p \<noteq> -1)"

definition sums_ok :: "nat \<Rightarrow> sched_st \<Rightarrow> bool" where
  "sums_ok n s \<longleftrightarrow> hm_ok (proc_schedule s) \<and> hm_ok (tg_schedule s) \<and>
     (\<forall>k. hm_lookup (proc_schedule s) k \<noteq> None \<longrightarrow> pd_pid k \<noteq> -1) \<and>
     hm_lookup (tg_schedule s) (-1) = None \<and>
     (\<forall>k ev. hm_lookup (tg_schedule s) k = Some ev \<longrightarrow> sv_count ev \<noteq> 0) \<and>
     (\<exists>t ev. sys_schedule s = [t] \<and> target_schedule s = [ev] \<and> unat (ss_sum_count t) \<le> n \<and>
        (sv_count ev \<noteq> 0 \<or> (\<exists>k. hm_lookup (tg_schedule s) k \<noteq> None) \<longrightarrow> ss_sum_count t \<noteq> 0))"

lemma sums_ok_mono: "sums_ok m s \<Longrightarrow> m \<le> n \<Longrightarrow> sums_ok n s"
  by (fastforce simp: sums_ok_def)

lemma pd_pid_mk [simp]: "pd_pid (mk_proc_id p c) = p"
  by (simp add: mk_proc_id_def)

lemma sums_ok_enqueue: "sums_ok n s \<Longrightarrow> p \<noteq> -1 \<Longrightarrow> sums_ok n (sched_enqueue kn p tg s)"
  by (auto simp: sums_ok_def sched_enqueue_def Let_def map_rules hm_update_ok hm_poke_ok
      split: option.splits if_splits)

lemma counts_positive: "counts_ok n s \<Longrightarrow> Suc n < 2 ^ 31 \<Longrightarrow> hm_lookup (proc_schedule s) k = Some ev \<Longrightarrow>
    sv_count ev \<noteq> 0 \<and> sv_count ev + 1 \<noteq> 0"
proof -
  assume *: "counts_ok n s" "Suc n < 2 ^ 31" "hm_lookup (proc_schedule s) k = Some ev"
  then have n: "1 \<le> unat (sv_count ev)" "unat (sv_count ev) \<le> Suc n"
    by (simp_all add: counts_ok_def)
  with *(2) have "unat (sv_count ev + 1) = Suc (unat (sv_count ev))"
    by (intro unat_Suc_no_wrap) simp
  with n show ?thesis by auto
qed

lemma dequeue_targets:
  fixes kn :: "unit kern"
  assumes "hm_lookup (proc_schedule s) (mk_proc_id (st_pid nxt) (kn_cpu kn)) = Some ev"
    and "hm_lookup (enable_add s) (mk_proc_id (st_pid nxt) (kn_cpu kn)) = Some b"
    and "sys_schedule s = [t]" and "target_schedule s = [tev]"
  obtains ev' where "sv_count ev' = (if b then sv_count ev + 1 else sv_count ev)"
    and "sys_schedule (sched_dequeue kn c nxt s) = [sum_add (kn_ktime kn 0 - sv_enter_time ev) t]"
    and "target_schedule (sched_dequeue kn c nxt s) \<in> {[tev], [ev']}"
    and "tg_schedule (sched_dequeue kn c nxt s) \<in>
      {tg_schedule s, snd (hm_update (kn_upd kn 3) (tg_schedule s) (st_pid nxt) ev')}"
    and "proc_schedule (sched_dequeue kn c nxt s) =
      hm_poke (proc_schedule s) (mk_proc_id (st_pid nxt) (kn_cpu kn)) ev'"
proof
  let ?ev = "event_add (st_prio nxt) (kn_ktime kn 0 - sv_enter_time ev)
    (if b then ev\<lparr>sv_count := sv_count ev + 1\<rparr> else ev)"
  show "sv_count ?ev = (if b then sv_count ev + 1 else sv_count ev)" by simp
  show "sys_schedule (sched_dequeue kn c nxt s) = [sum_add (kn_ktime kn 0 - sv_enter_time ev) t]"
    using assms by (simp add: sched_dequeue_def Let_def arr_lookup_def)
  show "target_schedule (sched_dequeue kn c nxt s) \<in> {[tev], [?ev]}"
    using assms by (simp add: sched_dequeue_def Let_def arr_lookup_def arr_update_def)
  show "tg_schedule (sched_dequeue kn c nxt s) \<in>
      {tg_schedule s, snd (hm_update (kn_upd kn 3) (tg_schedule s) (st_pid nxt) ?ev)}"
    using assms by (simp add: sched_dequeue_def Let_def arr_lookup_def)
  show "proc_schedule (sched_dequeue kn c nxt s) =
      hm_poke (proc_schedule s) (mk_proc_id (st_pid nxt) (kn_cpu kn)) ?ev"
    using assms by (simp add: sched_dequeue_def Let_def arr_lookup_def)
qed

lemma sums_ok_dequeue:
  assumes "sums_ok n s" and "counts_ok n s" and "Suc n < 2 ^ 31" and "st_pid nxt \<noteq> -1"
  shows "sums_ok (Suc n) (sched_dequeue kn c nxt s)"
proof (cases "hm_lookup (proc_schedule s) (mk_proc_id (st_pid nxt) (kn_cpu kn))")
  case None
  then show ?thesis using sums_ok_mono [OF assms(1)] by (simp add: sched_dequeue_def Let_def)
next
  case (Some ev)
  show ?thesis
  proof (cases "hm_lookup (enable_add s) (mk_proc_id (st_pid nxt) (kn_cpu kn))")
    case None
    with Some show ?thesis using sums_ok_mono [OF assms(1)] by (simp add: sched_dequeue_def Let_def)
  next
    case (Some b)
    obtain t tev where t: "sys_schedule s = [t]" "target_schedule s = [tev]" "unat (ss_sum_count t) \<le> n"
      using assms(1) by (auto simp: sums_ok_def)
    obtain ev' where ev': "sv_count ev' = (if b then sv_count ev + 1 else sv_count ev)"
        "sys_schedule (sched_dequeue kn c nxt s) = [sum_add (kn_ktime kn 0 - sv_enter_time ev) t]"
        "target_schedule (sched_dequeue kn c nxt s) \<in> {[tev], [ev']}"
        "tg_schedule (sched_dequeue kn c nxt s) \<in>
          {tg_schedule s, snd (hm_update (kn_upd kn 3) (tg_schedule s) (st_pid nxt) ev')}"
        "proc_schedule (sched_dequeue kn c nxt s) =
          hm_poke (proc_schedule s) (mk_proc_id (st_pid nxt) (kn_cpu kn)) ev'"
      using dequeue_targets [OF \<open>hm_lookup (proc_schedule s) _ = Some ev\<close> Some t(1,2)] by blast
    have pos: "sv_count ev' \<noteq> 0"
      using counts_positive [OF assms(2,3) \<open>hm_lookup (proc_schedule s) _ = Some ev\<close>] ev'(1) by simp
    have sum: "unat (ss_sum_count (sum_add d t)) = Suc (unat (ss_sum_count t))" for d
      unfolding sum_add_def using t(3) assms(3) by (simp add: unat_Suc_no_wrap)
    then have "ss_sum_count (sum_add d t) \<noteq> 0" for d
      by (metis Zero_neq_Suc unat_0)
    moreover have "hm_ok (tg_schedule (sched_dequeue kn c nxt s))"
      "hm_lookup (tg_schedule (sched_dequeue kn c nxt s)) (-1) = None"
      "\<forall>k e. hm_lookup (tg_schedule (sched_dequeue kn c nxt s)) k = Some e \<longrightarrow> sv_count e \<noteq> 0"
      using ev'(4) assms(1,4) pos
      by (auto simp: sums_ok_def hm_update_ok map_rules split: if_splits)
    moreover have "hm_ok (proc_schedule (sched_dequeue kn c nxt s))"
      "\<forall>k. hm_lookup (proc_schedule (sched_dequeue kn c nxt s)) k \<noteq> None \<longrightarrow> pd_pid k \<noteq> -1"
      using assms(1) unfolding ev'(5) by (auto simp: sums_ok_def hm_poke_ok map_rules split: if_splits)
    ultimately show ?thesis
      using ev'(2,3) sum t(3) by (auto simp: sums_ok_def)
  qed
qed

lemma sums_ok_exit: "sums_ok n s \<Longrightarrow> sums_ok n (sched_process_exit kn p s)"
  by (auto simp: sums_ok_def sched_process_exit_def Let_def map_rules hm_delete_ok arr_lookup_def
      split: option.splits if_splits)

lemma sums_ok_step:
  assumes "sums_ok n s" and "counts_ok n s" and "Suc n < 2 ^ 31" and "sched_real e"
  shows "sums_ok (Suc n) (sched_step e s)"
proof (cases "sched_ctrl_on s")
  case None
  then have "sched_step e s = s" by (intro sched.step_off) simp
  then show ?thesis using assms(1) sums_ok_mono by simp
next
  case (Some c)
  note up = sums_ok_mono [where m = n and n = "Suc n", OF _ le_SucI [OF order_refl]]
  show ?thesis
  proof (cases "(e, s)" rule: sched_step.cases)
    case (4 kn p s')
    then show ?thesis using up sums_ok_exit assms(1) by simp
  qed (use Some assms up sums_ok_enqueue sums_ok_dequeue counts_ok_enqueue in
      \<open>simp_all add: sched_wakeup_def sched_wakeup_new_def sched_switch_def Let_def\<close>)
qed

lemma sums_ok_run:
  "sums_ok n s \<Longrightarrow> counts_ok n s \<Longrightarrow> \<forall>e \<in> set es. sched_real e \<Longrightarrow> n + length es < 2 ^ 31 \<Longrightarrow>
   sums_ok (n + length es) (run sched_step es s) \<and> counts_ok (n + length es) (run sched_step es s)"
proof (induction es arbitrary: n s)
  case (Cons e es)
  then show ?case
    using Cons.IH [of "Suc n" "sched_step e s"] counts_ok_step [of n s e] sums_ok_step [of n s e] by simp
qed simp

subsection \<open>The schedule report\<close>

lemma sched_ctrl_run: "sched_ctrl_map (run sched_step es s) = sched_ctrl_map s"
  by (induction es arbitrary: s) simp_all

lemma sums_ok_start: "sums_ok 0 (sched_maps\<lparr>sched_ctrl_map := [c]\<rparr>)" "counts_ok 0 (sched_maps\<lparr>sched_ctrl_map := [c]\<rparr>)"
  by (simp_all add: sums_ok_def counts_ok_def sched_maps_def zero_event_def zero_sum_def)

text \<open>What \<open>print_schedule\<close> relies on, after any history.\<close>

lemma schedule_ready:
  assumes "s = run sched_step es (sched_maps\<lparr>sched_ctrl_map := [c]\<rparr>)" and "length es < 2 ^ 31 - 1"
    and "\<forall>e \<in> set es. sched_real e"
  shows "sched_ctrl_map s = [c]" and "sums_ok (length es) s"
    and "\<And>k ev. hm_lookup (proc_schedule s) k = Some ev \<Longrightarrow> sv_count ev \<noteq> 0"
proof -
  show "sched_ctrl_map s = [c]" by (simp add: assms(1) sched_ctrl_run)
  have ok: "sums_ok (length es) s \<and> counts_ok (length es) s"
    using sums_ok_run [OF sums_ok_start, of es c] assms by simp
  then show "sums_ok (length es) s" by simp
  show "\<And>k ev. hm_lookup (proc_schedule s) k = Some ev \<Longrightarrow> sv_count ev \<noteq> 0"
    using ok counts_positive [of "length es" s] assms(2) by auto
qed

text \<open>
  C27. The schedule report without a target, after any history of fewer than \<open>2 ^ 31 - 1\<close> events: when
  no task has an entry, nothing but the header is printed; when a task has an entry, that is when it
  has been woken, but no delay has been accounted yet, the program divides by zero; otherwise every
  entry gets its line, with the quotient of its delays by its count and that of the system's.
\<close>

theorem schedule_display:
  assumes "s = run sched_step es (sched_maps\<lparr>sched_ctrl_map := [c]\<rparr>)" and "length es < 2 ^ 31 - 1"
    and "\<forall>e \<in> set es. sched_real e" and "\<forall>i. \<not> err i <s 0"
    and "sched_func c" and "sd_target_pid c = -1" and "sd_target_tgid c = -1"
    and "t = hd (sys_schedule s)" and "ks = hm_keys (proc_schedule s)"
  shows "\<exists>env'. print_schedule err s env = Some
    (if ks = [] then Sched_ret 0 (header_lines 5 (pv_sched_prev_tgid env) False env)
     else if ss_sum_count t = 0 then Sched_trap
     else Sched_ret 0 (header_lines 5 (pv_sched_prev_tgid env) False env @ sched_lines False (proc_schedule s) t ks), env')"
proof -
  note ready = schedule_ready [OF assms(1-3)]
  let ?k = "\<lparr>pd_pid = -1, pd_cpu_id = 0\<rparr>"
  have absent: "hm_lookup (proc_schedule s) ?k = None"
    using ready(2) unfolding sums_ok_def by (metis proc_id.select_convs(1))
  have d: "distinct (hm_keys (proc_schedule s))"
    using ready(2) by (simp add: sums_ok_def distinct_hm_keys)
  have walk: "sched_walk err False (proc_schedule s) t 1 ?k out =
      Some (if ks = [] then Sched_ret 0 out else if ss_sum_count t = 0 then Sched_trap
            else Sched_ret 0 (out @ sched_lines False (proc_schedule s) t ks))" for out
    using sched_walk_trap [OF assms(4) absent] sched_walk_lines [OF d assms(4) ready(3)]
      sched_walk_end [of "proc_schedule s" ?k] keys_from_absent [OF absent] assms(9) by simp
  show ?thesis
    using assms(4-8) ready(1) walk by (simp add: print_schedule_def Let_def)
qed

definition woken :: sched_st where
  "woken = run sched_step [(sk 10, Sched_wakeup (demo_stask 7 0))] sched_demo"

theorem schedule_display_witness:
  "\<exists>env'. print_schedule (\<lambda>_. 0) woken penv0 = Some (Sched_trap, env')"
proof -
  have "ss_sum_count (hd (sys_schedule woken)) = 0" "hm_keys (proc_schedule woken) \<noteq> []"
    by (simp_all add: woken_def sched_demo_def sched_maps_def sched_wakeup_def sched_ctrl_on_def
        arr_lookup_def sched_enqueue_def hm_update_def hm_new_def hm_lookup_def zero_sum_def hm_keys_def Let_def)
  then show ?thesis
    using schedule_display [OF woken_def [unfolded sched_demo_def], of "\<lambda>_. 0", OF _ _ _ _ _ _ refl refl]
    by (simp add: demo_stask_def)
qed

text \<open>
  The schedule report on one target, a process or a thread group, never divides by zero, whatever
  happened before: an entry of a target is only made together with a delay that is accounted.
\<close>

theorem schedule_targets:
  assumes "s = run sched_step es (sched_maps\<lparr>sched_ctrl_map := [c]\<rparr>)" and "length es < 2 ^ 31 - 1"
    and "\<forall>e \<in> set es. sched_real e" and "\<forall>i. \<not> err i <s 0"
    and "sched_func c" and "sd_target_pid c \<noteq> -1 \<or> sd_target_tgid c \<noteq> -1"
  shows "\<exists>out env'. print_schedule err s env = Some (Sched_ret 0 out, env')"
proof -
  note ready = schedule_ready [OF assms(1-3)]
  obtain t ev where st: "sys_schedule s = [t]" "target_schedule s = [ev]"
    and pos: "sv_count ev \<noteq> 0 \<or> (\<exists>k. hm_lookup (tg_schedule s) k \<noteq> None) \<longrightarrow> ss_sum_count t \<noteq> 0"
    using ready(2) by (auto simp: sums_ok_def)
  have tg: "hm_lookup (tg_schedule s) (-1) = None" "distinct (hm_keys (tg_schedule s))"
    "\<And>k e. hm_lookup (tg_schedule s) k = Some e \<Longrightarrow> sv_count e \<noteq> 0"
    using ready(2) by (auto simp: sums_ok_def distinct_hm_keys)
  have one: "\<exists>o'. sched_target err ev t out = Sched_ret 0 o'" for out
    using pos assms(4) by (auto simp: sched_target_def sched_line_def)
  have all: "\<exists>o'. sched_walk err True (tg_schedule s) t 1 (-1) out = Some (Sched_ret 0 o')" for out
  proof (cases "hm_keys (tg_schedule s)")
    case Nil
    then show ?thesis
      using sched_walk_end [of "tg_schedule s" "-1"] keys_from_absent [OF tg(1)] by simp
  next
    case (Cons k ks)
    then have "hm_lookup (tg_schedule s) k \<noteq> None" using in_hm_keys [of k "tg_schedule s"] by simp
    then have sum: "ss_sum_count t \<noteq> 0" using pos by blast
    show ?thesis
      by (rule exI, rule sched_walk_lines [OF tg(2) assms(4) _ sum refl]) (rule tg(3))
  qed
  obtain o1 o2 where "sched_target err ev t (header_lines 5 (pv_sched_prev_tgid env) False env) = Sched_ret 0 o1"
      "sched_walk err True (tg_schedule s) t 1 (-1) (header_lines 5 (pv_sched_prev_tgid env) True env) =
        Some (Sched_ret 0 o2)"
    using one all by blast
  then show ?thesis
    using assms(4-6) ready(1) st
    by (cases "sd_target_tgid c = -1"; cases "sd_target_pid c = -1") (simp_all add: print_schedule_def Let_def)
qed

theorem schedule_targets_witness:
  "\<exists>out env'. print_schedule (\<lambda>_. 0) (run sched_step [(sk 10, Sched_wakeup (demo_stask 7 0))]
      (sched_maps\<lparr>sched_ctrl_map := [\<lparr>sched_func = True, sd_target_pid = 7, sd_target_cpu_id = -1,
         sd_target_tgid = -1\<rparr>]\<rparr>)) penv0 = Some (Sched_ret 0 out, env')"
  by (rule schedule_targets [OF refl]) (simp_all add: demo_stask_def)

end
