(* ===== verification/ProcResourceProps.thy ===== *)
theory ProcResourceProps imports ProcReports ResourceProps begin

text \<open>
  The resource report: whatever the probe has gathered, the two walks over the map of the totals end,
  every entry is looked at once, and the map is empty afterwards, so that the next report is about
  the time after this one (\<open>resource_display\<close>).
\<close>

subsection \<open>The walk\<close>

text \<open>
  An entry is shown if the time since the last report and the size of the memory are known, the key has
  had a CPU, and neither of its two shares is above 100 percent.
\<close>

definition rsc_plausible :: "rsc_world \<Rightarrow> u64 \<Rightarrow> total_rsc \<Rightarrow> bool" where
  "rsc_plausible w interval tot \<longleftrightarrow> 0 < interval \<and> 0 < rw_mem w \<and> 0 < tr_time tot \<and>
     rw_at_most_100 w (tr_time tot) interval \<and> rw_at_most_100 w (tr_memused tot) (rw_mem w)"

definition rsc_shows :: "rsc_ctrl \<Rightarrow> u64 \<Rightarrow> total_rsc \<Rightarrow> shown_line" where
  "rsc_shows c interval tot =
     Resource_line (if rc_target_tgid c = -1 then None else Some (tr_tgid tot)) (tr_pid tot) (tr_cpu_id tot)
       (tr_time tot) interval (tr_memused tot) (tr_readchar tot) (tr_writechar tot)"

text \<open>The entries with the times since the last report at which the walk comes to them.\<close>

definition rsc_entries :: "rsc_world \<Rightarrow> u64 \<times> u64 \<Rightarrow> (proc_id, total_rsc) hmap \<Rightarrow> nat \<Rightarrow> proc_id list \<Rightarrow>
    (u64 \<times> total_rsc) list" where
  "rsc_entries w prev m i ks =
     map (\<lambda>(j, k). (rsc_interval (rw_clk w j) prev, the (hm_lookup m k))) (enumerate i ks)"

definition rsc_lines :: "rsc_world \<Rightarrow> rsc_ctrl \<Rightarrow> u64 \<times> u64 \<Rightarrow> (proc_id, total_rsc) hmap \<Rightarrow> nat \<Rightarrow> proc_id list \<Rightarrow>
    shown_line list" where
  "rsc_lines w c prev m i ks =
     map (\<lambda>(interval, tot). rsc_shows c interval tot)
       (filter (\<lambda>(interval, tot). rsc_plausible w interval tot) (rsc_entries w prev m i ks))"

lemma rsc_lines_Cons:
  "rsc_lines w c prev m i (k # ks) =
     rsc_line w c (rsc_interval (rw_clk w i) prev) (the (hm_lookup m k)) @ rsc_lines w c prev m (Suc i) ks"
  by (simp add: rsc_lines_def rsc_entries_def rsc_line_def rsc_plausible_def rsc_shows_def)

definition rsc_headed :: "bool \<Rightarrow> penv \<Rightarrow> penv" where
  "rsc_headed column env = env\<lparr>pv_rsc_prev_tgid := tgid_mode column, pv_prev_image := 1\<rparr>"

lemma rsc_headed_again:
  "header_lines 1 (pv_rsc_prev_tgid (rsc_headed col env)) col (rsc_headed col env) = []"
  "rsc_headed col (rsc_headed col env) = rsc_headed col env"
  "pv_prevtime (rsc_headed col env) = pv_prevtime env"
  by (simp_all add: rsc_headed_def header_lines_def header_due_def)

lemma rsc_walk_end: "keys_from m k = [] \<Longrightarrow> rsc_walk w c m i k out env = Some (0, out, env)"
  by (simp add: rsc_walk.simps [of w c m i k] hm_next_key_from)

lemma rsc_walk_next:
  assumes "keys_from m k = x # xs" and "hm_lookup m x = Some ev" and "\<not> rw_err w (Suc i) <s 0"
    and "col = (rc_target_tgid c \<noteq> -1)"
  shows "rsc_walk w c m i k out env = rsc_walk w c m (Suc i) x
    ((out @ header_lines 1 (pv_rsc_prev_tgid env) col env) @
       rsc_line w c (rsc_interval (rw_clk w i) (pv_prevtime env)) ev) (rsc_headed col env)"
  using assms by (simp add: rsc_walk.simps [of w c m i k] hm_next_key_from rsc_headed_def Let_def)

lemma rsc_walk_lines:
  assumes "distinct (hm_keys m)" and "\<forall>i. \<not> rw_err w i <s 0" and "col = (rc_target_tgid c \<noteq> -1)"
  shows "keys_from m k = ks \<Longrightarrow> rsc_walk w c m i k out env = Some (0,
    out @ (if ks = [] then [] else header_lines 1 (pv_rsc_prev_tgid env) col env) @
      rsc_lines w c (pv_prevtime env) m i ks,
    if ks = [] then env else rsc_headed col env)"
proof (induction ks arbitrary: k i out env)
  case Nil
  then show ?case by (simp add: rsc_walk_end rsc_lines_def rsc_entries_def)
next
  case (Cons x xs)
  note next_key = keys_from_Cons [OF assms(1) Cons.prems]
  then obtain ev where ev: "hm_lookup m x = Some ev" using in_hm_keys [of x m] by auto
  then show ?case
    using rsc_walk_next [OF Cons.prems ev _ assms(3)] assms(2) Cons.IH [OF next_key(1)]
    by (simp add: rsc_headed_again rsc_headed_again(1) [unfolded One_nat_def] rsc_lines_Cons)
qed

subsection \<open>The deletion\<close>

lemma hm_ok_delete_keys: "distinct (hm_keys m) \<Longrightarrow> distinct (hm_keys (hm_delete m k))"
  by (simp add: hm_keys_delete)

lemma rsc_delete_all:
  assumes "\<forall>i. \<not> del i <s 0"
  shows "distinct (hm_keys m) \<Longrightarrow> k \<notin> set (hm_keys m) \<Longrightarrow>
    \<exists>m'. rsc_delete del i k m = Some (0, m') \<and> hm_ents m' = []"
proof (induction "hm_keys m" arbitrary: m k i)
  case Nil
  then have "hm_next_key m k = None" by (simp add: hm_next_key_def)
  then show ?case using Nil by (simp add: rsc_delete.simps [of del i k] hm_keys_def)
next
  case (Cons x xs)
  note keys = Cons.hyps(2) [symmetric]
  have "hm_next_key m k = Some x" using Cons.prems(2) by (simp add: hm_next_key_def keys)
  then have step: "rsc_delete del i k m = rsc_delete del (Suc i) x (hm_delete m x)"
    using assms by (simp add: rsc_delete.simps [of del i k])
  have "filter ((\<noteq>) x) xs = xs"
    using Cons.prems(1) by (auto simp: keys filter_id_conv)
  then have xs: "xs = hm_keys (hm_delete m x)"
    by (simp add: hm_keys_delete keys)
  have "x \<notin> set (hm_keys (hm_delete m x))" by (simp add: hm_keys_delete)
  then show ?case
    using Cons.hyps(1) [OF xs hm_ok_delete_keys [OF Cons.prems(1)]] by (simp add: step)
qed

subsection \<open>The report\<close>

lemma rsc_total_ok_step:
  "hm_ok (rsc_total s) \<Longrightarrow> hm_ok (rsc_total (rsc_finish_task_switch g kn s))"
  by (auto simp: rsc_defs Let_def hm_update_ok hm_poke_ok split: option.splits prod.splits)

interpretation rsc_total: tool "rsc_finish_task_switch g" "\<lambda>s. hm_ok (rsc_total s)" "\<lambda>e. True"
  by unfold_locales (rule rsc_total_ok_step)

lemma rsc_ctrl_run: "rsc_ctrl_map (run (rsc_finish_task_switch g) es s) = rsc_ctrl_map s"
  by (induction es arbitrary: s) simp_all

text \<open>
  C22. A resource report after the first, on what any history of task switches has left in the maps, when
  the look-up of the control block and of every entry and every deletion succeed: both
  of its loops end; if the map has an entry, the header is printed if it is due; every entry is
  come to once, in the order of the map, and has a line with the time since the last report exactly when it
  is plausible (it has had a CPU and neither share is above 100 percent), and then the map is
  empty, and the next report is about the time after this one.
\<close>

theorem resource_display:
  assumes "s = run (rsc_finish_task_switch g) es (rsc_maps\<lparr>rsc_ctrl_map := [c]\<rparr>)" and "rsc_func c"
    and "\<not> pv_first_rsc env" and "\<forall>i. \<not> rw_err w i <s 0" and "\<forall>i. \<not> rw_del w i <s 0"
    and "col = (rc_target_tgid c \<noteq> -1)" and "ks = hm_keys (rsc_total s)"
  shows "\<exists>s' env'. print_resource w s env = Some (0,
      (if ks = [] then [] else header_lines 1 (pv_rsc_prev_tgid env) col env) @
        rsc_lines w c (pv_prevtime env) (rsc_total s) 0 ks, s', env')
    \<and> hm_ents (rsc_total s') = [] \<and> rsc_start s' = rsc_start s
    \<and> pv_prevtime env' = rw_now w \<and> \<not> pv_output_resourse env'"
proof -
  have ctrl: "rsc_ctrl_map s = [c]" by (simp add: assms(1) rsc_ctrl_run)
  have "hm_ok (rsc_total (rsc_maps\<lparr>rsc_ctrl_map := [c]\<rparr>))" by (simp add: rsc_maps_def)
  from rsc_total.run_inv [OF TrueI this]
  have d: "distinct (hm_keys (rsc_total s))" by (simp add: assms(1) distinct_hm_keys)
  have absent: "hm_lookup (rsc_total s) start_key = None"
  proof (rule ccontr)
    assume "hm_lookup (rsc_total s) start_key \<noteq> None"
    then have "pd_pid start_key = 0 \<or> pd_cpu_id start_key = 0"
      using rsc_keys_normal [OF _ _ assms(1)] by (auto simp: rsc_maps_def)
    then show False by (simp add: start_key_def)
  qed
  obtain m' where m': "rsc_delete (rw_del w) 0 start_key (rsc_total s) = Some (0, m')" "hm_ents m' = []"
    using rsc_delete_all [OF assms(5) d] absent in_hm_keys [of start_key "rsc_total s"] by blast
  show ?thesis
    using assms(2-4) ctrl m' rsc_walk_lines [OF d assms(4,6)] keys_from_absent [OF absent] assms(7)
    by (simp add: print_resource_def rsc_cleared_def Let_def rsc_headed_def)
qed

definition rsc_quiet :: rsc_world where
  "rsc_quiet = \<lparr>rw_err = (\<lambda>_. 0), rw_clk = (\<lambda>_. (2, 0)), rw_mem = 1000, rw_at_most_100 = (\<lambda>n d. n \<le> d),
     rw_del = (\<lambda>_. 0), rw_fd_ok = False, rw_now = (2, 0)\<rparr>"

theorem resource_display_witness:
  "\<exists>s' env'. print_resource rsc_quiet (run (rsc_finish_task_switch 1) demo_run rsc_demo)
     (penv0\<lparr>pv_first_rsc := False\<rparr>) = Some (0, header_lines 1 (pv_rsc_prev_tgid penv0) False (penv0\<lparr>pv_first_rsc := False\<rparr>) @
       [Resource_line None 7 0 15 2000000000 6 40 8], s', env') \<and> hm_ents (rsc_total s') = []"
proof -
  let ?c = "\<lparr>rsc_func = True, rc_target_pid = -1, rc_target_cpu_id = -1, rc_enable_myproc = True, rc_target_tgid = -1\<rparr>"
  define s where "s = run (rsc_finish_task_switch 1) demo_run rsc_demo"
  have ents: "hm_ents (rsc_total s) = [(mk_proc_id 7 0, \<lparr>tr_pid = 7, tr_tgid = -1, tr_cpu_id = 0, tr_time = 15,
      tr_memused = 6, tr_readchar = 40, tr_writechar = 8\<rparr>)]"
    by (simp add: s_def rsc_demo_run_defs split del: if_split)
  then have keys: "hm_keys (rsc_total s) = [mk_proc_id 7 0]" by (simp add: hm_keys_def)
  have "rsc_lines rsc_quiet ?c (pv_prevtime (penv0\<lparr>pv_first_rsc := False\<rparr>)) (rsc_total s) 0 [mk_proc_id 7 0] =
      [Resource_line None 7 0 15 2000000000 6 40 8]"
    by (simp add: rsc_lines_def rsc_entries_def rsc_plausible_def rsc_shows_def rsc_quiet_def rsc_interval_def
        hm_lookup_def ents penv0_def)
  moreover have s: "s = run (rsc_finish_task_switch 1) demo_run (rsc_maps\<lparr>rsc_ctrl_map := [?c]\<rparr>)"
    by (simp only: s_def rsc_demo_def)
  moreover have "rsc_func ?c" "\<not> pv_first_rsc (penv0\<lparr>pv_first_rsc := False\<rparr>)" "\<forall>i. \<not> rw_err rsc_quiet i <s 0"
    "\<forall>i. \<not> rw_del rsc_quiet i <s 0" "False = (rc_target_tgid ?c \<noteq> -1)"
    by (simp_all add: rsc_quiet_def)
  note resource_display [OF s this keys [symmetric]]
  ultimately show ?thesis
    unfolding s_def [symmetric] by fastforce
qed

end
