(* ===== verification/ProcMain.thy ===== *)
theory ProcMain imports ProcReports Controller begin

text \<open>
  The display program as a process, \<open>eBPF_proc_image/proc_image.c\<close> lines 140-173 and 660-1094 with
  \<open>common_pin_map\<close> of \<open>include/helpers.h\<close>: its options, the loading of the five tools one after the
  other, the main loop, the helper thread that asks for the two reports once a second, and the
  cleanup.

  The results of libbpf's calls are inputs (\<open>pstart\<close> for a tool's loading, \<open>pround\<close> for a turn of the
  loop, with the records that polling a ring buffer hands to the callback).  Every control map has one
  file to be pinned at, which is named by the tool.
\<close>

subsection \<open>Options\<close>

definition proc_parse_arg :: "char \<Rightarrow> penv \<Rightarrow> penv argp" where
  "proc_parse_arg key env =
     (if key = CHR ''a'' then Arg_ok (env\<lparr>pv_enable_resource := True, pv_enable_syscall := True,
        pv_enable_lock := True, pv_enable_keytime := True, pv_enable_schedule := True\<rparr>)
      else if key = CHR ''r'' then Arg_ok (env\<lparr>pv_enable_resource := True\<rparr>)
      else if key = CHR ''s'' then Arg_ok (env\<lparr>pv_enable_syscall := True\<rparr>)
      else if key = CHR ''l'' then Arg_ok (env\<lparr>pv_enable_lock := True\<rparr>)
      else if key = CHR ''k'' then Arg_ok (env\<lparr>pv_enable_keytime := True\<rparr>)
      else if key = CHR ''S'' then Arg_ok (env\<lparr>pv_enable_schedule := True\<rparr>)
      else if key = CHR ''h'' then Arg_exit
      else Arg_unknown)"

fun proc_parse :: "char list \<Rightarrow> penv \<Rightarrow> penv argp" where
  "proc_parse [] env = Arg_ok env"
| "proc_parse (key # keys) env =
     (case proc_parse_arg key env of
        Arg_ok env \<Rightarrow> proc_parse keys env
      | Arg_unknown \<Rightarrow> Arg_unknown
      | Arg_exit \<Rightarrow> Arg_exit)"

subsection \<open>Loading a tool\<close>

datatype ptool = P_rsc | P_sc | P_lock | P_kt | P_sched

definition enabled :: "penv \<Rightarrow> ptool \<Rightarrow> bool" where
  "enabled env t = (case t of P_rsc \<Rightarrow> pv_enable_resource env | P_sc \<Rightarrow> pv_enable_syscall env
     | P_lock \<Rightarrow> pv_enable_lock env | P_kt \<Rightarrow> pv_enable_keytime env | P_sched \<Rightarrow> pv_enable_schedule env)"

record pstart =
  po_open :: bool
  po_load :: s32
  po_ksyms :: bool
  po_find :: bool
  po_pin :: s32
  po_upd :: s32
  po_uprobes :: "s32 list"
  po_attach :: s32
  po_rb :: bool

record pproc =
  pp_skel :: "ptool list"
  pp_map :: "ptool list"
  pp_pinned :: "ptool list"
  pp_rb :: "ptool list"
  pp_ksyms :: bool
  pp_kern :: image_st

text \<open>
  \<open>ATTACH_UPROBE_CHECKED\<close> and \<open>ATTACH_URETPROBE_CHECKED\<close>, one after the other: the errors with which
  they fail, 0 for an attached one.  The lock tool has 22 of them, the key-time tool 4; the other
  tools only attach their skeleton.
\<close>

fun attach_uprobes :: "s32 list \<Rightarrow> s32" where
  "attach_uprobes [] = 0"
| "attach_uprobes (errno # es) = (if errno \<noteq> 0 then - errno else attach_uprobes es)"

definition lock_attach :: "pstart \<Rightarrow> s32" where
  "lock_attach so =
     (let err = attach_uprobes (po_uprobes so)
      in if err \<noteq> 0 then err else if po_attach so \<noteq> 0 then -1 else 0)"

definition keytime_attach :: "pstart \<Rightarrow> s32" where
  "keytime_attach so =
     (let err = attach_uprobes (po_uprobes so)
      in if err \<noteq> 0 then err else if po_attach so \<noteq> 0 then -1 else 0)"

definition tool_attach :: "ptool \<Rightarrow> pstart \<Rightarrow> s32" where
  "tool_attach t so = (case t of P_lock \<Rightarrow> lock_attach so | P_kt \<Rightarrow> keytime_attach so | _ \<Rightarrow> po_attach so)"

text \<open>\<open>bpf_map__unpin\<close> does nothing for a map pointer that is still NULL.\<close>

definition punpin :: "ptool \<Rightarrow> pproc \<Rightarrow> pproc" where
  "punpin t w = (if t \<in> set (pp_map w) then w\<lparr>pp_pinned := removeAll t (pp_pinned w)\<rparr> else w)"

definition proc_pin_map :: "ptool \<Rightarrow> pstart \<Rightarrow> pproc \<Rightarrow> s32 \<times> pproc" where
  "proc_pin_map t so w =
     (if \<not> po_find so then (-1, w)
      else
        (let w = punpin t (w\<lparr>pp_map := List.insert t (pp_map w)\<rparr>)
         in if po_pin so \<noteq> 0 then (-1, w)
            else (0, w\<lparr>pp_pinned := List.insert t (pp_pinned w)\<rparr>)))"

text \<open>Loading gives a tool fresh maps; then \<open>init_value\<close> is written to its control map.\<close>

definition fresh_maps :: "ptool \<Rightarrow> image_st \<Rightarrow> image_st" where
  "fresh_maps t k = (case t of
       P_rsc \<Rightarrow> k\<lparr>im_rsc := rsc_maps\<rparr> | P_sc \<Rightarrow> k\<lparr>im_sc := sc_maps\<rparr> | P_lock \<Rightarrow> k\<lparr>im_lock := lock_maps\<rparr>
     | P_kt \<Rightarrow> k\<lparr>im_kt := kt_maps\<rparr> | P_sched \<Rightarrow> k\<lparr>im_sched := sched_maps\<rparr>)"

text \<open>
  The initialiser of \<open>struct sc_ctrl\<close> has five values for its six fields, so that the second \<open>-1\<close> is
  the target process and the first one becomes \<open>is_container\<close>.
\<close>

definition init_value :: "ptool \<Rightarrow> s32 \<Rightarrow> image_st \<Rightarrow> image_st" where
  "init_value t err k = (case t of
       P_rsc \<Rightarrow> k\<lparr>im_rsc := (im_rsc k)\<lparr>rsc_ctrl_map := snd (arr_update err (rsc_ctrl_map (im_rsc k)) 0
          \<lparr>rsc_func = False, rc_target_pid = -1, rc_target_cpu_id = -1, rc_enable_myproc = False, rc_target_tgid = -1\<rparr>)\<rparr>\<rparr>
     | P_sc \<Rightarrow> k\<lparr>im_sc := (im_sc k)\<lparr>sc_ctrl_map := snd (arr_update err (sc_ctrl_map (im_sc k)) 0
          \<lparr>sc_func = False, sc_enable_myproc = False, sc_is_container = True, sc_target_pid = -1,
            sc_target_tgid = 0, sc_syscalls = 0\<rparr>)\<rparr>\<rparr>
     | P_lock \<Rightarrow> k\<lparr>im_lock := (im_lock k)\<lparr>lock_ctrl_map := snd (arr_update err (lock_ctrl_map (im_lock k)) 0
          \<lparr>lock_func = False, lc_enable_myproc = False, lc_target_pid = -1, lc_target_tgid = -1\<rparr>)\<rparr>\<rparr>
     | P_kt \<Rightarrow> k\<lparr>im_kt := (im_kt k)\<lparr>kt_ctrl_map := snd (arr_update err (kt_ctrl_map (im_kt k)) 0
          \<lparr>kt_func = False, kt_cpu_func = False, kc_enable_myproc = False, kc_target_pid = -1, kc_target_tgid = -1\<rparr>)\<rparr>\<rparr>
     | P_sched \<Rightarrow> k\<lparr>im_sched := (im_sched k)\<lparr>sched_ctrl_map := snd (arr_update err (sched_ctrl_map (im_sched k)) 0
          \<lparr>sched_func = False, sd_target_pid = -1, sd_target_cpu_id = -1, sd_target_tgid = -1\<rparr>)\<rparr>\<rparr>)"

text \<open>
  One \<open>if(env.enable_..)\<close> block of \<open>main\<close>; the five differ where the conditions on the tool say so.
  \<open>Load_return\<close>: \<open>return 1\<close>; \<open>Load_cleanup\<close>: a jump to the cleanup with this \<open>err\<close>.  When the symbol
  table cannot be loaded, \<open>err\<close> still is the 0 of the successful loading.
\<close>

datatype loaded = Load_done pproc | Load_return pproc | Load_cleanup s32 pproc

definition has_rb :: "ptool \<Rightarrow> bool" where
  "has_rb t \<longleftrightarrow> t \<in> {P_sc, P_lock, P_kt}"

definition load_tool :: "ptool \<Rightarrow> pstart \<Rightarrow> pproc \<Rightarrow> loaded" where
  "load_tool t so w =
     (if \<not> po_open so then Load_return w
      else let w = w\<lparr>pp_skel := List.insert t (pp_skel w)\<rparr> in
      if po_load so \<noteq> 0 then Load_cleanup (po_load so) w
      else let w = w\<lparr>pp_kern := fresh_maps t (pp_kern w)\<rparr> in
      if t = P_kt \<and> \<not> po_ksyms so then Load_cleanup 0 w
      else let w = (if t = P_kt then w\<lparr>pp_ksyms := True\<rparr> else w); (err, w) = proc_pin_map t so w in
      if err <s 0 then Load_cleanup err w
      else let w = w\<lparr>pp_kern := init_value t (po_upd so) (pp_kern w)\<rparr> in
      if po_upd so <s 0 then Load_cleanup (po_upd so) w
      else if tool_attach t so \<noteq> 0 then Load_cleanup (tool_attach t so) w
      else if has_rb t \<and> \<not> po_rb so then Load_cleanup (-1) w
      else Load_done (if has_rb t then w\<lparr>pp_rb := List.insert t (pp_rb w)\<rparr> else w))"

definition all_tools :: "ptool list" where
  "all_tools = [P_rsc, P_sc, P_lock, P_kt, P_sched]"

fun load_tools :: "ptool list \<Rightarrow> (ptool \<Rightarrow> pstart) \<Rightarrow> pproc \<Rightarrow> loaded" where
  "load_tools [] so w = Load_done w"
| "load_tools (t # ts) so w =
     (case load_tool t (so t) w of Load_done w \<Rightarrow> load_tools ts so w | r \<Rightarrow> r)"

subsection \<open>Cleanup\<close>

definition release :: "ptool \<Rightarrow> pproc \<Rightarrow> pproc" where
  "release t w =
     (let w = punpin t w;
          w = (if t = P_kt then w\<lparr>pp_ksyms := False\<rparr> else w);
          w = (if has_rb t then w\<lparr>pp_rb := removeAll t (pp_rb w)\<rparr> else w)
      in w\<lparr>pp_skel := removeAll t (pp_skel w)\<rparr>)"

definition proc_cleanup :: "penv \<Rightarrow> s32 \<Rightarrow> pproc \<Rightarrow> s32 \<times> pproc" where
  "proc_cleanup env err w =
     (if err <s 0 then - err else 0, fold release (filter (enabled env) all_tools) w)"

subsection \<open>The helper thread\<close>

text \<open>\<open>enable_function\<close>: its first statement, and those after its \<open>sleep(1)\<close>.\<close>

definition thread_begins :: "penv \<Rightarrow> penv" where
  "thread_begins env = env\<lparr>pv_create_thread := True\<rparr>"

definition thread_ends :: "penv \<Rightarrow> penv" where
  "thread_ends env =
     (let env = (if pv_enable_resource env then env\<lparr>pv_output_resourse := True\<rparr> else env);
          env = (if pv_enable_schedule env then env\<lparr>pv_output_schedule := True\<rparr> else env)
      in env\<lparr>pv_create_thread := False, pv_exit_thread := True\<rparr>)"

text \<open>
  The threads that were created, in order: not yet running, asleep, ended.  The main loop joins the
  last one only, \<open>thread_enable\<close>, and waits until it has ended.
\<close>

datatype phase = New | Asleep | Ended

inductive thread_step :: "penv \<times> phase list \<Rightarrow> penv \<times> phase list \<Rightarrow> bool" where
  begins: "i < length ps \<Longrightarrow> ps ! i = New \<Longrightarrow> thread_step (env, ps) (thread_begins env, ps[i := Asleep])"
| ends: "i < length ps \<Longrightarrow> ps ! i = Asleep \<Longrightarrow> thread_step (env, ps) (thread_ends env, ps[i := Ended])"
| turn: "pv_enable_resource env \<or> pv_enable_schedule env \<Longrightarrow> \<not> pv_exit_thread env \<Longrightarrow>
    thread_step (env, ps) (env, if pv_create_thread env then ps else ps @ [New])"
| turn_join: "pv_enable_resource env \<or> pv_enable_schedule env \<Longrightarrow> pv_exit_thread env \<Longrightarrow>
    ps \<noteq> [] \<Longrightarrow> last ps = Ended \<Longrightarrow>
    thread_step (env, ps) (env\<lparr>pv_exit_thread := False\<rparr>, if pv_create_thread env then ps else ps @ [New])"

subsection \<open>The main loop\<close>

record pround =
  pr_exiting :: bool
  pr_join :: s32
  pr_create :: s32
  pr_ticks :: bool
  pr_rsc :: rsc_world
  pr_kern :: image_st
  pr_sc_err :: s32
  pr_sc :: "syscall_seq list"
  pr_sc_poll :: s32
  pr_lock :: "lock_event list"
  pr_lock_poll :: s32
  pr_can_open :: bool
  pr_kt :: "kt_report list"
  pr_kt_poll :: s32
  pr_sched :: "nat \<Rightarrow> s32"

text \<open>
  \<open>Go\<close>: on with the next part of the turn; \<open>Leave\<close>: the loop is left with this \<open>err\<close>; \<open>Exit\<close>:
  \<open>exit(EXIT_FAILURE)\<close>; \<open>Trap\<close>: undefined behaviour.
\<close>

datatype pturn = Go s32 penv | Leave s32 penv | Exit | Trap

abbreviation (input) EINTR :: s32 where "EINTR \<equiv> 4"

text \<open>\<open>if (err == -EINTR) { err = 0; break; } if (err < 0) break;\<close>\<close>

definition check_err :: "s32 \<Rightarrow> penv \<Rightarrow> pturn" where
  "check_err err env = (if err = - EINTR then Leave 0 env else if err <s 0 then Leave err env else Go err env)"

definition and_then :: "pturn \<Rightarrow> (s32 \<Rightarrow> penv \<Rightarrow> pturn) \<Rightarrow> pturn" where
  "and_then r f = (case r of Go err env \<Rightarrow> f err env | _ \<Rightarrow> r)"

text \<open>Polling: the callback sees the records in turn, until it returns an error.\<close>

fun feed :: "('r \<Rightarrow> penv \<Rightarrow> (s32 \<times> penv) option) \<Rightarrow> 'r list \<Rightarrow> penv \<Rightarrow> penv option" where
  "feed f [] env = Some env"
| "feed f (r # rs) env =
     (case f r env of None \<Rightarrow> None
      | Some (err, env) \<Rightarrow> if err <s 0 then Some env else feed f rs env)"

definition polled :: "('r \<Rightarrow> penv \<Rightarrow> (s32 \<times> penv) option) \<Rightarrow> 'r list \<Rightarrow> s32 \<Rightarrow> penv \<Rightarrow> pturn" where
  "polled f rs err env = (case feed f rs env of None \<Rightarrow> Trap | Some env \<Rightarrow> check_err err env)"

text \<open>
  The lines on the helper thread.  \<open>pr_ticks\<close>: since the last turn a thread has woken and ended.  A
  thread that is created runs its first statement at once here; what happens when it does not is
  the subject of \<open>thread_step\<close>.
\<close>

definition turn_threads :: "pround \<Rightarrow> s32 \<Rightarrow> penv \<Rightarrow> pturn" where
  "turn_threads rd err env =
     (let env = (if pr_ticks rd then thread_ends env else env) in
      if \<not> (pv_enable_resource env \<or> pv_enable_schedule env) then Go err env
      else if pv_exit_thread env \<and> pr_join rd \<noteq> 0 then Exit
      else
        (let env = env\<lparr>pv_exit_thread := False\<rparr> in
         if \<not> pv_create_thread env \<and> pr_create rd \<noteq> 0 then Exit
         else Go err (if pv_create_thread env then env else thread_begins env)))"

definition turn_rsc :: "pround \<Rightarrow> s32 \<Rightarrow> penv \<Rightarrow> pturn" where
  "turn_rsc rd err env =
     (if pv_enable_resource env \<and> pv_output_resourse env then
        (case print_resource (pr_rsc rd) (im_rsc (pr_kern rd)) env of
           None \<Rightarrow> Trap | Some (err, _, _, env) \<Rightarrow> check_err err env)
      else Go err env)"

definition turn_sc :: "pround \<Rightarrow> s32 \<Rightarrow> penv \<Rightarrow> pturn" where
  "turn_sc rd err env =
     (if pv_enable_syscall env then
        polled (\<lambda>e env. map_option (\<lambda>(err, _, env). (err, env))
           (print_syscall (pr_sc_err rd) (hd (sc_ctrl_map (im_sc (pr_kern rd)))) e env)) (pr_sc rd) (pr_sc_poll rd) env
      else Go err env)"

definition turn_lock :: "pround \<Rightarrow> s32 \<Rightarrow> penv \<Rightarrow> pturn" where
  "turn_lock rd err env =
     (if pv_enable_lock env then
        polled (\<lambda>e env. map_option (\<lambda>(err, _, env). (err, env)) (print_lock e env)) (pr_lock rd) (pr_lock_poll rd) env
      else Go err env)"

definition turn_kt :: "ksym list \<Rightarrow> pround \<Rightarrow> s32 \<Rightarrow> penv \<Rightarrow> pturn" where
  "turn_kt ksyms rd err env =
     (if pv_enable_keytime env then
        polled (\<lambda>e env. map_option (\<lambda>(err, _, _, env). (err, env)) (print_keytime (pr_can_open rd) ksyms e env))
          (pr_kt rd) (pr_kt_poll rd) env
      else Go err env)"

definition turn_sched :: "pround \<Rightarrow> s32 \<Rightarrow> penv \<Rightarrow> pturn" where
  "turn_sched rd err env =
     (if pv_enable_schedule env \<and> pv_output_schedule env then
        (case print_schedule (pr_sched rd) (im_sched (pr_kern rd)) env of
           None \<Rightarrow> Trap
         | Some (Sched_trap, _) \<Rightarrow> Trap
         | Some (Sched_ret err _, env) \<Rightarrow> check_err err env)
      else Go err env)"

definition proc_turn :: "ksym list \<Rightarrow> pround \<Rightarrow> s32 \<Rightarrow> penv \<Rightarrow> pturn" where
  "proc_turn ksyms rd err env =
     and_then (and_then (and_then (and_then (and_then
       (turn_threads rd err env) (turn_rsc rd)) (turn_sc rd)) (turn_lock rd)) (turn_kt ksyms rd)) (turn_sched rd)"

fun proc_loop :: "ksym list \<Rightarrow> pround list \<Rightarrow> s32 \<Rightarrow> penv \<Rightarrow> pturn" where
  "proc_loop ksyms [] err env = Go err env"
| "proc_loop ksyms (rd # rds) err env =
     (if pr_exiting rd then Leave err env
      else and_then (proc_turn ksyms rd err env) (proc_loop ksyms rds))"

text \<open>
  \<open>main\<close> after the options: it ends with an exit code, goes on, or dies (\<open>exit\<close> and a trap do not
  clean up).
\<close>

datatype proc_end = Proc_exits s32 pproc | Proc_runs penv pproc | Proc_dies pproc

definition proc_main :: "ksym list \<Rightarrow> (ptool \<Rightarrow> pstart) \<Rightarrow> pround list \<Rightarrow> penv \<Rightarrow> pproc \<Rightarrow> proc_end" where
  "proc_main ksyms so rds env w =
     (case load_tools (filter (enabled env) all_tools) so w of
        Load_return w \<Rightarrow> Proc_exits 1 w
      | Load_cleanup err w \<Rightarrow> (let (code, w) = proc_cleanup env err w in Proc_exits code w)
      | Load_done w \<Rightarrow>
          (case proc_loop ksyms rds 0 env of
             Leave err env' \<Rightarrow> (let (code, w) = proc_cleanup env err w in Proc_exits code w)
           | Go err env' \<Rightarrow> Proc_runs env' w
           | Exit \<Rightarrow> Proc_dies w
           | Trap \<Rightarrow> Proc_dies w))"

end
