(* ===== verification/ProcMainProps.thy ===== *)
theory ProcMainProps imports ProcMain begin

text \<open>
  The life of the display program: it releases what it has taken on every way out that goes through
  the cleanup (\<open>proc_exit_clean\<close>), which an open failure does not (\<open>late_open_failure\<close>); it is left
  when it is told to (\<open>proc_stops\<close>); and nothing limits the number of its helper threads until the
  first of them runs (\<open>helper_threads\<close>).
\<close>

subsection \<open>What loading takes\<close>

definition taken :: "ptool set \<Rightarrow> pproc \<Rightarrow> pproc \<Rightarrow> bool" where
  "taken T w0 w \<longleftrightarrow> set (pp_skel w) \<subseteq> set (pp_skel w0) \<union> T \<and> set (pp_map w) \<subseteq> set (pp_map w0) \<union> T \<and>
     set (pp_pinned w) \<subseteq> set (pp_pinned w0) \<union> (set (pp_map w) \<inter> T) \<and> set (pp_rb w) \<subseteq> set (pp_rb w0) \<union> (T \<inter> Collect has_rb) \<and>
     (pp_ksyms w \<longrightarrow> pp_ksyms w0 \<or> P_kt \<in> T)"

lemma taken_refl: "taken T w w"
  by (auto simp: taken_def)

lemma taken_pin:
  "proc_pin_map t so w = (err, v) \<Longrightarrow> t \<in> T \<Longrightarrow> taken T w0 w \<Longrightarrow> taken T w0 v"
  by (auto simp: proc_pin_map_def punpin_def taken_def Let_def split: if_splits)

lemma taken_fields:
  "taken T w0 w \<Longrightarrow> t \<in> T \<Longrightarrow> taken T w0 (w\<lparr>pp_skel := List.insert t (pp_skel w)\<rparr>)"
  "taken T w0 w \<Longrightarrow> taken T w0 (w\<lparr>pp_kern := k\<rparr>)"
  "taken T w0 w \<Longrightarrow> P_kt \<in> T \<Longrightarrow> taken T w0 (w\<lparr>pp_ksyms := True\<rparr>)"
  "taken T w0 w \<Longrightarrow> t \<in> T \<Longrightarrow> has_rb t \<Longrightarrow> taken T w0 (w\<lparr>pp_rb := List.insert t (pp_rb w)\<rparr>)"
  "taken T w0 w \<Longrightarrow> t \<in> T \<Longrightarrow> has_rb t \<Longrightarrow> taken T w0 (w\<lparr>pp_kern := k, pp_rb := List.insert t (pp_rb w)\<rparr>)"
  by (auto simp: taken_def)

fun loaded_state :: "loaded \<Rightarrow> pproc" where
  "loaded_state (Load_done w) = w"
| "loaded_state (Load_return w) = w"
| "loaded_state (Load_cleanup err w) = w"

lemma load_tool_taken:
  assumes "taken T w0 w" and "t \<in> T"
  shows "taken T w0 (loaded_state (load_tool t so w))"
proof -
  define w1 where "w1 = w\<lparr>pp_skel := List.insert t (pp_skel w)\<rparr>"
  define w2 where "w2 = w1\<lparr>pp_kern := fresh_maps t (pp_kern w1)\<rparr>"
  define w3 where "w3 = (if t = P_kt then w2\<lparr>pp_ksyms := True\<rparr> else w2)"
  obtain err w4 where w4: "proc_pin_map t so w3 = (err, w4)" by fastforce
  have w1: "taken T w0 w1" using assms by (simp add: w1_def taken_fields)
  then have w2: "taken T w0 w2" by (simp add: w2_def taken_fields)
  then have "taken T w0 w3" using assms(2) by (auto simp: w3_def taken_fields)
  with w4 assms(2) have w4': "taken T w0 w4" by (rule taken_pin)
  show ?thesis
    using assms w1 w2 w4' w4
    by (auto simp: load_tool_def Let_def w1_def [symmetric] w2_def [symmetric] w3_def [symmetric] taken_fields)
qed

lemma load_tools_taken:
  "taken T w0 w \<Longrightarrow> set ts \<subseteq> T \<Longrightarrow> taken T w0 (loaded_state (load_tools ts so w))"
proof (induction ts arbitrary: w)
  case (Cons t ts)
  then have "taken T w0 (loaded_state (load_tool t (so t) w))" by (simp add: load_tool_taken)
  with Cons show ?case by (auto split: loaded.split)
qed simp

lemma load_tools_open:
  "\<forall>t \<in> set ts. po_open (so t) \<Longrightarrow> load_tools ts so w \<noteq> Load_return v"
  by (induction ts arbitrary: w) (auto simp: load_tool_def Let_def split: loaded.splits prod.splits if_splits)

subsection \<open>What the cleanup gives back\<close>

lemma release_state:
  "pp_skel (release t w) = removeAll t (pp_skel w)" "pp_map (release t w) = pp_map w"
  "pp_pinned (release t w) = (if t \<in> set (pp_map w) then removeAll t (pp_pinned w) else pp_pinned w)"
  "pp_rb (release t w) = (if has_rb t then removeAll t (pp_rb w) else pp_rb w)"
  "pp_ksyms (release t w) = (pp_ksyms w \<and> t \<noteq> P_kt)"
  by (simp_all add: release_def punpin_def Let_def)

lemma releases_state:
  "set (pp_skel (fold release ts w)) = set (pp_skel w) - set ts"
  "pp_map (fold release ts w) = pp_map w"
  "set (pp_pinned (fold release ts w)) = set (pp_pinned w) - (set ts \<inter> set (pp_map w))"
  "set (pp_rb (fold release ts w)) = set (pp_rb w) - (set ts \<inter> Collect has_rb)"
  "pp_ksyms (fold release ts w) = (pp_ksyms w \<and> P_kt \<notin> set ts)"
  by (induction ts arbitrary: w) (auto simp: release_state)

text \<open>A process that has not loaded anything yet; what is pinned is left over from before.\<close>

definition untouched :: "pproc \<Rightarrow> bool" where
  "untouched w \<longleftrightarrow> pp_skel w = [] \<and> pp_map w = [] \<and> pp_rb w = [] \<and> \<not> pp_ksyms w"

lemma cleanup_clean:
  assumes "taken (Collect (enabled env)) w0 w" and "untouched w0" and "proc_cleanup env err w = (code, v)"
  shows "pp_skel v = [] \<and> pp_rb v = [] \<and> \<not> pp_ksyms v \<and> set (pp_pinned v) \<subseteq> set (pp_pinned w0)
    \<and> code = (if err <s 0 then - err else 0)"
proof -
  let ?ts = "filter (enabled env) all_tools"
  have ts: "set ?ts = Collect (enabled env)"
  proof -
    have "t \<in> set all_tools" for t by (cases t) (simp_all add: all_tools_def)
    then show ?thesis by auto
  qed
  have v: "v = fold release ?ts w" "code = (if err <s 0 then - err else 0)"
    using assms(3) by (simp_all add: proc_cleanup_def)
  have "set (pp_skel v) = {}" "set (pp_rb v) = {}" "\<not> pp_ksyms v" "set (pp_pinned v) \<subseteq> set (pp_pinned w0)"
    using assms(1,2) unfolding v(1) releases_state ts by (auto simp: taken_def untouched_def)
  with v(2) show ?thesis by simp
qed

text \<open>
  C29. When every selected tool's skeleton can be opened, the program ends through the cleanup: whatever
  fails in the loading of whichever tool, and whatever the main loop meets, when it exits no skeleton,
  ring buffer or symbol table is left, nothing is pinned that was not pinned before, and the exit code
  is an error with its sign changed, or 0.
\<close>

theorem proc_exit_clean:
  assumes "untouched w0" and "\<forall>t. enabled env t \<longrightarrow> po_open (so t)"
    and "proc_main ksyms so rds env w0 = Proc_exits code w"
  shows "pp_skel w = [] \<and> pp_rb w = [] \<and> \<not> pp_ksyms w \<and> set (pp_pinned w) \<subseteq> set (pp_pinned w0)
    \<and> (\<exists>err. code = (if err <s 0 then - err else 0))"
proof -
  let ?ts = "filter (enabled env) all_tools"
  have taken: "taken (Collect (enabled env)) w0 (loaded_state (load_tools ?ts so w0))"
    by (rule load_tools_taken [OF taken_refl]) auto
  have open_all: "load_tools ?ts so w0 \<noteq> Load_return v" for v
    using assms(2) by (intro load_tools_open) auto
  obtain err v where "taken (Collect (enabled env)) w0 v" "proc_cleanup env err v = (code, w)"
    using assms(3) taken open_all
    by (auto simp: proc_main_def split: loaded.splits pturn.splits prod.splits)
  from cleanup_clean [OF this(1) assms(1) this(2)] show ?thesis by blast
qed

definition pproc0 :: pproc where
  "pproc0 = \<lparr>pp_skel = [], pp_map = [], pp_pinned = [], pp_rb = [], pp_ksyms = False,
     pp_kern = \<lparr>im_rsc = rsc_maps, im_kt = kt_maps, im_lock = lock_maps, im_sc = sc_maps, im_sched = sched_maps\<rparr>\<rparr>"

definition pstart_ok :: pstart where
  "pstart_ok = \<lparr>po_open = True, po_load = 0, po_ksyms = True, po_find = True, po_pin = 0, po_upd = 0,
     po_uprobes = [], po_attach = 0, po_rb = True\<rparr>"

text \<open>The resource tool is loaded, then the lock tool cannot attach its second probe (error 2).\<close>

theorem proc_exit_clean_witness:
  "\<exists>w. proc_main [] (\<lambda>t. if t = P_lock then pstart_ok\<lparr>po_uprobes := [0, 2]\<rparr> else pstart_ok) []
     (penv0\<lparr>pv_enable_resource := True, pv_enable_lock := True\<rparr>) pproc0 = Proc_exits 2 w \<and> pp_pinned w = []"
proof -
  let ?so = "\<lambda>t. if t = P_lock then pstart_ok\<lparr>po_uprobes := [0, 2]\<rparr> else pstart_ok"
  let ?env = "penv0\<lparr>pv_enable_resource := True, pv_enable_lock := True\<rparr>"
  obtain w where w: "proc_main [] ?so [] ?env pproc0 = Proc_exits 2 w"
    by (simp add: proc_main_def all_tools_def enabled_def penv0_def load_tool_def proc_pin_map_def punpin_def
        pproc0_def pstart_ok_def tool_attach_def lock_attach_def Let_def has_rb_def proc_cleanup_def word_sless_alt)
  have "untouched pproc0" "\<forall>t. enabled ?env t \<longrightarrow> po_open (?so t)"
    by (simp_all add: untouched_def pproc0_def pstart_ok_def)
  from proc_exit_clean [OF this w] w show ?thesis by (simp add: pproc0_def)
qed

subsection \<open>A tool that cannot be opened\<close>

lemma load_tool_done:
  "load_tool t so w = Load_done v \<Longrightarrow> t \<in> set (pp_skel v) \<and> t \<in> set (pp_pinned v) \<and>
     set (pp_skel w) \<subseteq> set (pp_skel v) \<and> set (pp_pinned w) \<subseteq> set (pp_pinned v)"
  by (auto simp: load_tool_def proc_pin_map_def punpin_def Let_def split: if_splits)

lemma load_tools_done:
  "load_tools ts so w = Load_done v \<Longrightarrow> set ts \<subseteq> set (pp_skel v) \<and> set ts \<subseteq> set (pp_pinned v) \<and>
     set (pp_skel w) \<subseteq> set (pp_skel v) \<and> set (pp_pinned w) \<subseteq> set (pp_pinned v)"
proof (induction ts arbitrary: w)
  case (Cons t ts)
  then obtain u where "load_tool t (so t) w = Load_done u" "load_tools ts so u = Load_done v"
    by (auto split: loaded.splits)
  with Cons.IH [of u] load_tool_done [of t "so t" w u] show ?case by auto
qed simp

lemma load_tools_append:
  "load_tools (ts @ us) so w = (case load_tools ts so w of Load_done w \<Rightarrow> load_tools us so w | r \<Rightarrow> r)"
  by (induction ts arbitrary: w) (auto split: loaded.split)

text \<open>
  When a tool's skeleton cannot be opened, the program returns at once, without the cleanup: the
  tools that were loaded before it stay, and their control maps stay pinned after the process has ended.
\<close>

theorem late_open_failure:
  assumes "filter (enabled env) all_tools = ts @ t # us" and "load_tools ts so w0 = Load_done w"
    and "\<not> po_open (so t)"
  shows "proc_main ksyms so rds env w0 = Proc_exits 1 w \<and> set ts \<subseteq> set (pp_skel w) \<inter> set (pp_pinned w)"
proof -
  have "load_tools (ts @ t # us) so w0 = Load_return w"
    using assms(2,3) by (simp add: load_tools_append load_tool_def)
  then show ?thesis using load_tools_done [OF assms(2)] by (simp add: proc_main_def assms(1))
qed

theorem late_open_failure_witness:
  "\<exists>w. proc_main [] (\<lambda>t. pstart_ok\<lparr>po_open := (t = P_rsc)\<rparr>) []
     (penv0\<lparr>pv_enable_resource := True, pv_enable_lock := True\<rparr>) pproc0 = Proc_exits 1 w \<and> P_rsc \<in> set (pp_pinned w)"
proof -
  obtain w where "load_tools [P_rsc] (\<lambda>t. pstart_ok\<lparr>po_open := (t = P_rsc)\<rparr>) pproc0 = Load_done w"
    by (simp add: load_tool_def proc_pin_map_def punpin_def pproc0_def pstart_ok_def tool_attach_def Let_def has_rb_def)
  from late_open_failure [OF _ this, of "penv0\<lparr>pv_enable_resource := True, pv_enable_lock := True\<rparr>" P_lock "[]" "[]" "[]"]
  show ?thesis by (simp add: all_tools_def enabled_def penv0_def pstart_ok_def)
qed

subsection \<open>Leaving the loop\<close>

lemma proc_loop_append:
  "proc_loop ksyms (rds @ rds') err env = and_then (proc_loop ksyms rds err env) (proc_loop ksyms rds')"
  by (induction rds arbitrary: err env) (auto simp: and_then_def split: pturn.split)

lemma proc_stops:
  assumes "pr_exiting rd"
  shows "proc_loop ksyms (rds @ rd # rds') err env \<noteq> Go err' env'"
  using assms by (auto simp: proc_loop_append and_then_def split: pturn.splits)

subsection \<open>The helper threads\<close>

text \<open>
  The flag that a helper thread exists is set by the thread itself.  Until the first thread runs,
  every turn of the main loop, which does not sleep, creates another one: any number of threads that
  have not begun is reachable, of which the program will join one.
\<close>

theorem helper_threads:
  assumes "pv_enable_resource env \<or> pv_enable_schedule env" and "\<not> pv_create_thread env" and "\<not> pv_exit_thread env"
  shows "thread_step\<^sup>*\<^sup>* (env, []) (env, replicate n New)"
proof (induction n)
  case (Suc n)
  have "thread_step (env, replicate n New) (env, replicate n New @ [New])"
    using thread_step.turn [OF assms(1,3), of "replicate n New"] assms(2) by simp
  with Suc show ?case by (auto simp: replicate_append_same intro: rtranclp.rtrancl_into_rtrancl)
qed simp

theorem helper_threads_witness:
  "thread_step\<^sup>*\<^sup>* (penv0\<lparr>pv_enable_resource := True\<rparr>, []) (penv0\<lparr>pv_enable_resource := True\<rparr>, [New, New, New])"
  using helper_threads [of "penv0\<lparr>pv_enable_resource := True\<rparr>" 3]
  by (simp add: penv0_def numeral_3_eq_3)

end
