(* ===== verification/HashMap.thy ===== *)
theory HashMap imports Complex_Main Prelude begin

unbundle bit_operations_syntax

text \<open>
  The hash map of the process image's display program, \<open>include/hashmap.c\<close>: open addressing with
  Robin Hood probing, growing and shrinking by a rebuild.  The items are values of any type; the
  structure holds the hash and comparison callbacks.

  Sizes (\<open>size_t\<close>) are natural numbers: they are bounded by the memory that was granted for the
  buckets.  The 48-bit \<open>hash\<close> is a clipped 64-bit word, the 16-bit \<open>dib\<close> (distance to the initial
  bucket, 0 for an empty one) keeps its width and wraps.  The loops \<open>while(1)\<close> are partial
  functions: \<open>None\<close> is a loop that does not end.  A pointer to an item in the table is the number of
  its bucket; the scratch items \<open>spare\<close> and \<open>edata\<close> are values.
\<close>

record 'a bucket =
  bk_hash :: u64
  bk_dib :: u16
  bk_item :: 'a

text \<open>
  \<open>hm_zero\<close> is the item whose bytes are all 0, which is what \<open>memset\<close> leaves in a bucket;
  \<open>hm_compare\<close> and \<open>hm_elfree\<close> may be \<open>NULL\<close>.
\<close>

record 'a hashmap =
  hm_elsize :: nat
  hm_zero :: 'a
  hm_cap :: nat
  hm_seed0 :: u64
  hm_seed1 :: u64
  hm_hash :: "'a \<Rightarrow> u64 \<Rightarrow> u64 \<Rightarrow> u64"
  hm_compare :: "('a \<Rightarrow> 'a \<Rightarrow> s32) option"
  hm_elfree :: bool
  hm_bucketsz :: nat
  hm_nbuckets :: nat
  hm_count :: nat
  hm_mask :: nat
  hm_growat :: nat
  hm_shrinkat :: nat
  hm_loadfactor :: nat
  hm_growpower :: nat
  hm_oom :: bool
  hm_buckets :: "'a bucket list"

text \<open>\<open>!map->compare || map->compare(a, b, map->udata) == 0\<close>.\<close>

definition item_eq :: "('a \<Rightarrow> 'a \<Rightarrow> s32) option \<Rightarrow> 'a \<Rightarrow> 'a \<Rightarrow> bool" where
  "item_eq cmp a b = (case cmp of None \<Rightarrow> True | Some f \<Rightarrow> f a b = 0)"

definition clip_hash :: "u64 \<Rightarrow> u64" where
  "clip_hash hash = hash AND 0xFFFFFFFFFFFF"

definition get_hash :: "'a hashmap \<Rightarrow> 'a \<Rightarrow> u64" where
  "get_hash m k = clip_hash (hm_hash m k (hm_seed0 m) (hm_seed1 m))"

definition hashmap_set_grow_by_power :: "'a hashmap \<Rightarrow> nat \<Rightarrow> 'a hashmap" where
  "hashmap_set_grow_by_power m p =
     m\<lparr>hm_growpower := (if p < 1 then 1 else if p > 16 then 16 else p)\<rparr>"

subsection \<open>Creation\<close>

text \<open>\<open>while (ncap < cap) ncap *= 2\<close>, from \<open>ncap = 16\<close>, so that \<open>ncap\<close> is never 0.\<close>

function double_cap :: "nat \<Rightarrow> nat \<Rightarrow> nat" where
  "double_cap ncap cap = (if 0 < ncap \<and> ncap < cap then double_cap (ncap * 2) cap else ncap)"
  by pat_completeness auto
termination by (relation "measure (\<lambda>(ncap, cap). cap - ncap)") auto

declare double_cap.simps [simp del]

definition round_cap :: "nat \<Rightarrow> nat" where
  "round_cap cap = (if cap < 16 then 16 else double_cap 16 cap)"

text \<open>
  \<open>map->nbuckets * (map->loadfactor / 100.0)\<close> and \<open>map->nbuckets * SHRINK_AT\<close>, cut to integers.  The
  default \<open>clamp_load_factor(0.60, 0.60) * 100\<close> is 60.
\<close>

definition grow_limit :: "nat \<Rightarrow> nat \<Rightarrow> nat" where
  "grow_limit nbuckets loadfactor = nbuckets * loadfactor div 100"

definition shrink_limit :: "nat \<Rightarrow> nat" where
  "shrink_limit nbuckets = nbuckets div 10"

text \<open>
  The load factor a client asks for, between 50 and 95 percent.  A \<open>double\<close> is a real number here, or
  \<open>None\<close> for NaN: the rounding of the products is left out.
\<close>

definition clamp_load_factor :: "real option \<Rightarrow> real \<Rightarrow> real" where
  "clamp_load_factor factor default_factor =
     (case factor of None \<Rightarrow> default_factor
      | Some f \<Rightarrow> if f < 0.50 then 0.50 else if f > 0.95 then 0.95 else f)"

definition hashmap_set_load_factor :: "'a hashmap \<Rightarrow> real option \<Rightarrow> 'a hashmap" where
  "hashmap_set_load_factor m factor =
     (let factor = clamp_load_factor factor (real (hm_loadfactor m) / 100);
          loadfactor = nat \<lfloor>factor * 100\<rfloor>
      in m\<lparr>hm_loadfactor := loadfactor, hm_growat := grow_limit (hm_nbuckets m) loadfactor\<rparr>)"

text \<open>\<open>sizeof(struct bucket) + elsize\<close>, rounded up to a multiple of the size of a pointer.\<close>

definition bucket_size :: "nat \<Rightarrow> nat" where
  "bucket_size elsize = (8 + elsize + 7) div 8 * 8"

definition empty_bucket :: "'a \<Rightarrow> 'a bucket" where
  "empty_bucket zero = \<lparr>bk_hash = 0, bk_dib = 0, bk_item = zero\<rparr>"

text \<open>
  \<open>mem n\<close> says whether the allocator grants \<open>n\<close> bytes during the call.  \<open>struct hashmap\<close> has 168
  bytes; \<open>None\<close> is the \<open>NULL\<close> of a failed creation.
\<close>

definition hashmap_new_with_allocator ::
  "(nat \<Rightarrow> bool) \<Rightarrow> nat \<Rightarrow> 'a \<Rightarrow> nat \<Rightarrow> u64 \<Rightarrow> u64 \<Rightarrow> ('a \<Rightarrow> u64 \<Rightarrow> u64 \<Rightarrow> u64) \<Rightarrow>
   ('a \<Rightarrow> 'a \<Rightarrow> s32) option \<Rightarrow> bool \<Rightarrow> 'a hashmap option" where
  "hashmap_new_with_allocator mem elsize zero cap seed0 seed1 hash cmp elfree =
     (let cap = round_cap cap;
          bucketsz = bucket_size elsize in
      if \<not> mem (168 + bucketsz * 2) then None
      else if \<not> mem (bucketsz * cap) then None
      else Some
        \<lparr>hm_elsize = elsize, hm_zero = zero, hm_cap = cap, hm_seed0 = seed0, hm_seed1 = seed1,
         hm_hash = hash, hm_compare = cmp, hm_elfree = elfree, hm_bucketsz = bucketsz,
         hm_nbuckets = cap, hm_count = 0, hm_mask = cap - 1, hm_growat = grow_limit cap 60,
         hm_shrinkat = shrink_limit cap, hm_loadfactor = 60, hm_growpower = 1, hm_oom = False,
         hm_buckets = replicate cap (empty_bucket zero)\<rparr>)"

definition hashmap_new ::
  "(nat \<Rightarrow> bool) \<Rightarrow> nat \<Rightarrow> 'a \<Rightarrow> nat \<Rightarrow> u64 \<Rightarrow> u64 \<Rightarrow> ('a \<Rightarrow> u64 \<Rightarrow> u64 \<Rightarrow> u64) \<Rightarrow>
   ('a \<Rightarrow> 'a \<Rightarrow> s32) option \<Rightarrow> bool \<Rightarrow> 'a hashmap option" where
  "hashmap_new mem elsize zero cap seed0 seed1 hash cmp elfree =
     hashmap_new_with_allocator mem elsize zero cap seed0 seed1 hash cmp elfree"

subsection \<open>Rebuilding\<close>

text \<open>
  The loop of \<open>resize0\<close> for one entry: the entry goes on from bucket to bucket and changes places
  with the first that is nearer to its initial bucket.
\<close>

partial_function (option) place_loop :: "nat \<Rightarrow> 'a bucket list \<Rightarrow> 'a bucket \<Rightarrow> nat \<Rightarrow> 'a bucket list option" where
  "place_loop msk bs entry j =
     (let b = bs ! j in
      if bk_dib b = 0 then Some (bs[j := entry])
      else
        (let (bs, entry) = (if bk_dib b < bk_dib entry then (bs[j := entry], b) else (bs, entry))
         in place_loop msk bs (entry\<lparr>bk_dib := bk_dib entry + 1\<rparr>) ((j + 1) AND msk)))"

fun move_all :: "nat \<Rightarrow> 'a bucket list \<Rightarrow> 'a bucket list \<Rightarrow> 'a bucket list option" where
  "move_all msk [] bs = Some bs"
| "move_all msk (b # old) bs =
     (if bk_dib b = 0 then move_all msk old bs
      else
        (let entry = b\<lparr>bk_dib := 1\<rparr>
         in case place_loop msk bs entry (unat (bk_hash entry) AND msk) of
              None \<Rightarrow> None | Some bs \<Rightarrow> move_all msk old bs))"

text \<open>
  The old buckets are read once each, from the first to the last, and then freed, so that what the
  loop leaves in them does not matter.  The result is \<open>true\<close> with the new table or \<open>false\<close> with the
  old one.
\<close>

definition resize0 :: "(nat \<Rightarrow> bool) \<Rightarrow> 'a hashmap \<Rightarrow> nat \<Rightarrow> (bool \<times> 'a hashmap) option" where
  "resize0 mem m new_cap =
     (case hashmap_new_with_allocator mem (hm_elsize m) (hm_zero m) new_cap (hm_seed0 m) (hm_seed1 m)
             (hm_hash m) (hm_compare m) (hm_elfree m) of
        None \<Rightarrow> Some (False, m)
      | Some tmp \<Rightarrow>
          (case move_all (hm_mask tmp) (hm_buckets m) (hm_buckets tmp) of
             None \<Rightarrow> None
           | Some bs \<Rightarrow>
               Some (True, m\<lparr>hm_buckets := bs, hm_nbuckets := hm_nbuckets tmp, hm_mask := hm_mask tmp,
                             hm_growat := hm_growat tmp, hm_shrinkat := hm_shrinkat tmp\<rparr>)))"

definition resize :: "(nat \<Rightarrow> bool) \<Rightarrow> 'a hashmap \<Rightarrow> nat \<Rightarrow> (bool \<times> 'a hashmap) option" where
  "resize mem m new_cap = resize0 mem m new_cap"

subsection \<open>Insertion\<close>

text \<open>
  The loop of \<open>hashmap_set_with_hash\<close>: the item it replaced, if there was one, and the buckets.
\<close>

partial_function (option) set_loop ::
  "('a \<Rightarrow> 'a \<Rightarrow> s32) option \<Rightarrow> nat \<Rightarrow> 'a bucket list \<Rightarrow> 'a bucket \<Rightarrow> nat \<Rightarrow> ('a option \<times> 'a bucket list) option" where
  "set_loop cmp msk bs entry i =
     (let b = bs ! i in
      if bk_dib b = 0 then Some (None, bs[i := entry])
      else if bk_hash entry = bk_hash b \<and> item_eq cmp (bk_item entry) (bk_item b) then
        Some (Some (bk_item b), bs[i := b\<lparr>bk_item := bk_item entry\<rparr>])
      else
        (let (bs, entry) = (if bk_dib b < bk_dib entry then (bs[i := entry], b) else (bs, entry))
         in set_loop cmp msk bs (entry\<lparr>bk_dib := bk_dib entry + 1\<rparr>) ((i + 1) AND msk)))"

text \<open>The insertion proper, when there is room.\<close>

definition set_entry :: "'a hashmap \<Rightarrow> 'a \<Rightarrow> u64 \<Rightarrow> ('a option \<times> 'a hashmap) option" where
  "set_entry m item hash =
     (let entry = \<lparr>bk_hash = hash, bk_dib = 1, bk_item = item\<rparr>
      in case set_loop (hm_compare m) (hm_mask m) (hm_buckets m) entry (unat (bk_hash entry) AND hm_mask m) of
           None \<Rightarrow> None
         | Some (None, bs) \<Rightarrow> Some (None, m\<lparr>hm_buckets := bs, hm_count := hm_count m + 1\<rparr>)
         | Some (Some old, bs) \<Rightarrow> Some (Some old, m\<lparr>hm_buckets := bs\<rparr>))"

definition hashmap_set_with_hash :: "(nat \<Rightarrow> bool) \<Rightarrow> 'a hashmap \<Rightarrow> 'a \<Rightarrow> u64 \<Rightarrow> ('a option \<times> 'a hashmap) option" where
  "hashmap_set_with_hash mem m item hash =
     (let hash = clip_hash hash;
          m = m\<lparr>hm_oom := False\<rparr> in
      if hm_count m \<ge> hm_growat m then
        (case resize mem m (hm_nbuckets m * 2 ^ hm_growpower m) of
           None \<Rightarrow> None
         | Some (ok, m) \<Rightarrow> if \<not> ok then Some (None, m\<lparr>hm_oom := True\<rparr>) else set_entry m item hash)
      else set_entry m item hash)"

definition hashmap_set :: "(nat \<Rightarrow> bool) \<Rightarrow> 'a hashmap \<Rightarrow> 'a \<Rightarrow> ('a option \<times> 'a hashmap) option" where
  "hashmap_set mem m item = hashmap_set_with_hash mem m item (get_hash m item)"

subsection \<open>Lookup\<close>

text \<open>\<open>Some None\<close> is the answer \<open>NULL\<close>, \<open>Some (Some i)\<close> the item of bucket \<open>i\<close>.\<close>

partial_function (option) find_loop ::
  "('a \<Rightarrow> 'a \<Rightarrow> s32) option \<Rightarrow> nat \<Rightarrow> 'a bucket list \<Rightarrow> 'a \<Rightarrow> u64 \<Rightarrow> nat \<Rightarrow> nat option option" where
  "find_loop cmp msk bs k hash i =
     (let b = bs ! i in
      if bk_dib b = 0 then Some None
      else if bk_hash b = hash \<and> item_eq cmp k (bk_item b) then Some (Some i)
      else find_loop cmp msk bs k hash ((i + 1) AND msk))"

definition hashmap_get_with_hash :: "'a hashmap \<Rightarrow> 'a \<Rightarrow> u64 \<Rightarrow> nat option option" where
  "hashmap_get_with_hash m k hash =
     (let hash = clip_hash hash
      in find_loop (hm_compare m) (hm_mask m) (hm_buckets m) k hash (unat hash AND hm_mask m))"

definition hashmap_get :: "'a hashmap \<Rightarrow> 'a \<Rightarrow> nat option option" where
  "hashmap_get m k = hashmap_get_with_hash m k (get_hash m k)"

text \<open>Reading and writing the item a pointer into the table refers to.\<close>

definition hm_deref :: "'a hashmap \<Rightarrow> nat \<Rightarrow> 'a" where
  "hm_deref m i = bk_item (hm_buckets m ! i)"

definition hm_write :: "'a hashmap \<Rightarrow> nat \<Rightarrow> 'a \<Rightarrow> 'a hashmap" where
  "hm_write m i item =
     m\<lparr>hm_buckets := (hm_buckets m)[i := (hm_buckets m ! i)\<lparr>bk_item := item\<rparr>]\<rparr>"

definition hashmap_probe :: "'a hashmap \<Rightarrow> u64 \<Rightarrow> nat option" where
  "hashmap_probe m position =
     (let i = unat position AND hm_mask m
      in if bk_dib (hm_buckets m ! i) = 0 then None else Some i)"

subsection \<open>Deletion\<close>

text \<open>The inner loop of \<open>hashmap_del_with_hash\<close>, whose \<open>prev\<close> is bucket \<open>i\<close>.\<close>

partial_function (option) shift_loop :: "nat \<Rightarrow> 'a bucket list \<Rightarrow> nat \<Rightarrow> 'a bucket list option" where
  "shift_loop msk bs i =
     (let j = (i + 1) AND msk;
          b = bs ! j in
      if bk_dib b \<le> 1 then Some (bs[i := (bs ! i)\<lparr>bk_dib := 0\<rparr>])
      else shift_loop msk (bs[i := b\<lparr>bk_dib := bk_dib b - 1\<rparr>]) j)"

text \<open>
  The search is the one of the lookup.  The result of the shrinking resize is ignored; a search that
  finds nothing leaves only \<open>oom\<close> changed.
\<close>

definition hashmap_del_with_hash :: "(nat \<Rightarrow> bool) \<Rightarrow> 'a hashmap \<Rightarrow> 'a \<Rightarrow> u64 \<Rightarrow> ('a option \<times> 'a hashmap) option" where
  "hashmap_del_with_hash mem m k hash =
     (let hash = clip_hash hash;
          m = m\<lparr>hm_oom := False\<rparr> in
      case find_loop (hm_compare m) (hm_mask m) (hm_buckets m) k hash (unat hash AND hm_mask m) of
        None \<Rightarrow> None
      | Some None \<Rightarrow> Some (None, m)
      | Some (Some i) \<Rightarrow>
          (let bs = hm_buckets m;
               old = bk_item (bs ! i)
           in case shift_loop (hm_mask m) (bs[i := (bs ! i)\<lparr>bk_dib := 0\<rparr>]) i of
                None \<Rightarrow> None
              | Some bs \<Rightarrow>
                  (let m = m\<lparr>hm_buckets := bs, hm_count := hm_count m - 1\<rparr> in
                   if hm_nbuckets m > hm_cap m \<and> hm_count m \<le> hm_shrinkat m then
                     (case resize mem m (hm_nbuckets m div 2) of
                        None \<Rightarrow> None | Some (_, m) \<Rightarrow> Some (Some old, m))
                   else Some (Some old, m))))"

definition hashmap_del :: "(nat \<Rightarrow> bool) \<Rightarrow> 'a hashmap \<Rightarrow> 'a \<Rightarrow> ('a option \<times> 'a hashmap) option" where
  "hashmap_del mem m k = hashmap_del_with_hash mem m k (get_hash m k)"

subsection \<open>Clearing, counting, iterating\<close>

text \<open>The items of the occupied buckets, in order: what \<open>free_elements\<close> hands to \<open>elfree\<close>.\<close>

definition occupied :: "'a bucket list \<Rightarrow> 'a bucket list" where
  "occupied bs = filter (\<lambda>b. bk_dib b \<noteq> 0) bs"

definition free_elements :: "'a hashmap \<Rightarrow> 'a list" where
  "free_elements m = (if hm_elfree m then map bk_item (occupied (hm_buckets m)) else [])"

text \<open>
  \<open>hashmap_clear\<close>: the items freed, and the map.  When the table is not to keep its size, a new
  one of \<open>cap\<close> buckets is allocated; if that fails the old one goes on with its first \<open>cap\<close> buckets,
  of which there are at least as many, so that both are \<open>cap\<close> buckets of zeros.
\<close>

definition hashmap_clear :: "'a hashmap \<Rightarrow> bool \<Rightarrow> 'a list \<times> 'a hashmap" where
  "hashmap_clear m update_cap =
     (let freed = free_elements m;
          m = m\<lparr>hm_count := 0\<rparr>;
          m = (if update_cap then m\<lparr>hm_cap := hm_nbuckets m\<rparr> else m\<lparr>hm_nbuckets := hm_cap m\<rparr>);
          n = hm_nbuckets m
      in (freed, m\<lparr>hm_buckets := replicate n (empty_bucket (hm_zero m)), hm_mask := n - 1,
                   hm_growat := grow_limit n (hm_loadfactor m), hm_shrinkat := shrink_limit n\<rparr>))"

definition hashmap_count :: "'a hashmap \<Rightarrow> nat" where
  "hashmap_count m = hm_count m"

definition hashmap_oom :: "'a hashmap \<Rightarrow> bool" where
  "hashmap_oom m = hm_oom m"

text \<open>\<open>hashmap_free\<close> of a map or of \<open>NULL\<close>: the items handed to \<open>elfree\<close>.\<close>

definition hashmap_free :: "'a hashmap option \<Rightarrow> 'a list" where
  "hashmap_free mp = (case mp of None \<Rightarrow> [] | Some m \<Rightarrow> free_elements m)"

text \<open>\<open>hashmap_scan\<close> with a callback on a state; and one step of \<open>hashmap_iter\<close>.\<close>

fun scan_loop :: "('a \<Rightarrow> 's \<Rightarrow> bool \<times> 's) \<Rightarrow> 'a bucket list \<Rightarrow> 's \<Rightarrow> bool \<times> 's" where
  "scan_loop iter [] s = (True, s)"
| "scan_loop iter (b # bs) s =
     (if bk_dib b \<noteq> 0 then
        (case iter (bk_item b) s of (go, s) \<Rightarrow> if \<not> go then (False, s) else scan_loop iter bs s)
      else scan_loop iter bs s)"

definition hashmap_scan :: "'a hashmap \<Rightarrow> ('a \<Rightarrow> 's \<Rightarrow> bool \<times> 's) \<Rightarrow> 's \<Rightarrow> bool \<times> 's" where
  "hashmap_scan m iter s = scan_loop iter (hm_buckets m) s"

function iter_from :: "'a bucket list \<Rightarrow> nat \<Rightarrow> (nat \<times> nat) option" where
  "iter_from bs i =
     (if i \<ge> length bs then None
      else if bk_dib (bs ! i) = 0 then iter_from bs (i + 1)
      else Some (i, i + 1))"
  by pat_completeness auto
termination by (relation "measure (\<lambda>(bs, i). length bs - i)") auto

declare iter_from.simps [simp del]

text \<open>The bucket of the item and the new cursor; \<open>None\<close> is the end of the iteration.\<close>

definition hashmap_iter :: "'a hashmap \<Rightarrow> nat \<Rightarrow> (nat \<times> nat) option" where
  "hashmap_iter m i = iter_from (hm_buckets m) i"

end
