(* ===== verification/RobinHood.thy ===== *)
theory RobinHood imports HashMap "HOL-Library.Multiset" begin

text \<open>
  The table of \<open>hashmap.c\<close>: the invariant of Robin Hood probing, and that the four loops end and
  keep it.  Positions are modulo the number of buckets, a power of two.
\<close>

abbreviation dibn :: "'a bucket \<Rightarrow> nat" where
  "dibn b \<equiv> unat (bk_dib b)"

subsection \<open>Positions on the ring\<close>

definition ring_size :: "nat \<Rightarrow> bool" where
  "ring_size n \<longleftrightarrow> (\<exists>k. n = 2 ^ k) \<and> 16 \<le> n"

lemma and_ring:
  assumes "ring_size n"
  shows "i AND (n - 1) = i mod n"
proof -
  obtain k where n: "n = 2 ^ k" using assms by (auto simp: ring_size_def)
  have "i AND (n - 1) = i AND mask k" by (simp add: n mask_eq_exp_minus_1)
  also have "\<dots> = i mod n" by (simp add: n take_bit_eq_mask [symmetric] take_bit_eq_mod)
  finally show ?thesis .
qed

lemmas and_ring' = and_ring [unfolded One_nat_def]

lemma ring_size_ge [simp]: "ring_size n \<Longrightarrow> 16 \<le> n"
  by (simp add: ring_size_def)

lemma ring_size_pos [simp]: "ring_size n \<Longrightarrow> 0 < n"
  using ring_size_ge [of n] by linarith

lemma ring_size_ge2: "ring_size n \<Longrightarrow> 2 \<le> n"
  using ring_size_ge [of n] by linarith

lemma ring_size_nonempty: "ring_size (length bs) \<Longrightarrow> bs \<noteq> []"
  by (auto simp: ring_size_def)

lemma ring_inj:
  fixes h n :: nat
  assumes "s < n" and "t < n" and "(h + s) mod n = (h + t) mod n"
  shows "s = t"
proof -
  have le: "a = b" if "a \<le> b" "b < n" "(h + a) mod n = (h + b) mod n" for a b
  proof -
    have "n dvd (h + b) - (h + a)" using that(3) by (metis mod_eq_dvd_iff_nat add_le_cancel_left that(1))
    then have "n dvd b - a" by simp
    then show ?thesis using that(1,2) by (metis dvd_imp_le less_imp_diff_less linorder_not_le le_antisym diff_is_0_eq neq0_conv)
  qed
  show ?thesis using le [of s t] le [of t s] assms by (cases "s \<le> t") auto
qed

lemma ring_reach:
  fixes h i n :: nat
  assumes "i < n" and "h < n"
  shows "\<exists>t < n. (h + t) mod n = i"
proof -
  have "(h + (n + i - h) mod n) mod n = i" using assms by (simp add: mod_simps)
  then show ?thesis using assms by (metis mod_less_divisor gr_implies_not0 neq0_conv)
qed

lemma ring_Suc: "(((i::nat) + 1) mod n + t) mod n = (i + Suc t) mod n"
  by (simp add: mod_simps)

lemma ring_next_neq: "i < n \<Longrightarrow> 2 \<le> n \<Longrightarrow> (i + 1) mod n \<noteq> (i::nat)"
  by (cases "i + 1 = n") auto

subsection \<open>The entries of a table\<close>

definition bent :: "'a bucket \<Rightarrow> (u64 \<times> 'a) multiset" where
  "bent b = (if bk_dib b = 0 then {#} else {#(bk_hash b, bk_item b)#})"

definition entries :: "'a bucket list \<Rightarrow> (u64 \<times> 'a) multiset" where
  "entries bs = (\<Sum>b\<leftarrow>bs. bent b)"

lemma entries_update:
  assumes "i < length bs"
  shows "entries (bs[i := b]) + bent (bs ! i) = entries bs + bent b"
  using assms
proof (induction bs arbitrary: i)
  case (Cons a bs)
  show ?case
  proof (cases i)
    case 0
    then show ?thesis by (simp add: entries_def ac_simps)
  next
    case (Suc j)
    then have "entries (bs[j := b]) + bent (bs ! j) = entries bs + bent b"
      using Cons by simp
    then show ?thesis using Suc by (simp add: entries_def ac_simps)
  qed
qed simp

lemma entries_replicate: "bk_dib b = 0 \<Longrightarrow> entries (replicate n b) = {#}"
  by (induction n) (simp_all add: entries_def bent_def)

lemma entries_occupied: "entries bs = mset (map (\<lambda>b. (bk_hash b, bk_item b)) (occupied bs))"
  by (induction bs) (auto simp: entries_def occupied_def bent_def)

lemma size_entries: "size (entries bs) = card {i. i < length bs \<and> bk_dib (bs ! i) \<noteq> 0}"
  unfolding entries_occupied occupied_def by (simp only: size_mset length_map length_filter_conv_card)

lemma in_entries: "(h, x) \<in># entries bs \<longleftrightarrow>
    (\<exists>i < length bs. bk_dib (bs ! i) \<noteq> 0 \<and> bk_hash (bs ! i) = h \<and> bk_item (bs ! i) = x)"
  by (auto simp: entries_occupied occupied_def in_set_conv_nth)

lemma in_entriesI:
  "i < length bs \<Longrightarrow> bk_dib (bs ! i) \<noteq> 0 \<Longrightarrow> (bk_hash (bs ! i), bk_item (bs ! i)) \<in># entries bs"
  by (auto simp: in_entries)

lemma vacant_exists:
  assumes "size (entries bs) < length bs"
  shows "\<exists>i < length bs. bk_dib (bs ! i) = 0"
proof (rule ccontr)
  assume "\<not> ?thesis"
  then have "{i. i < length bs \<and> bk_dib (bs ! i) \<noteq> 0} = {..<length bs}" by auto
  then show False using assms by (simp add: size_entries)
qed

subsection \<open>The invariant\<close>

text \<open>
  An occupied bucket is \<open>dib - 1\<close> places after the initial one of its hash, and from one bucket to
  the next \<open>dib\<close> grows by at most one.
\<close>

definition placed :: "nat \<Rightarrow> 'a bucket \<Rightarrow> nat \<Rightarrow> bool" where
  "placed n b i \<longleftrightarrow> (unat (bk_hash b) + (dibn b - 1)) mod n = i"

definition rh_table :: "'a bucket list \<Rightarrow> bool" where
  "rh_table bs \<longleftrightarrow>
     (\<forall>i < length bs. bk_dib (bs ! i) \<noteq> 0 \<longrightarrow> placed (length bs) (bs ! i) i) \<and>
     (\<forall>i < length bs. dibn (bs ! ((i + 1) mod length bs)) \<le> dibn (bs ! i) + 1)"

lemma dibn_pos: "bk_dib b \<noteq> 0 \<longleftrightarrow> 0 < dibn b"
  by (simp add: unat_gt_0)

lemma rh_tableD:
  assumes "rh_table bs" and "i < length bs"
  shows "bk_dib (bs ! i) \<noteq> 0 \<Longrightarrow> placed (length bs) (bs ! i) i"
    and "dibn (bs ! ((i + 1) mod length bs)) \<le> dibn (bs ! i) + 1"
  using assms by (auto simp: rh_table_def)

lemma rh_table_empty: "bk_dib b = 0 \<Longrightarrow> rh_table (replicate n b)"
  by (cases "n = 0") (auto simp: rh_table_def)

lemma rh_table_update:
  assumes t: "rh_table bs" and n: "n = length bs" "2 \<le> n" and i: "i < n"
    and p: "bk_dib b \<noteq> 0 \<Longrightarrow> placed n b i"
    and left: "\<And>j. j < n \<Longrightarrow> (j + 1) mod n = i \<Longrightarrow> dibn b \<le> dibn (bs ! j) + 1"
    and right: "dibn (bs ! ((i + 1) mod n)) \<le> dibn b + 1"
  shows "rh_table (bs[i := b])"
proof -
  have "dibn (bs[i := b] ! ((j + 1) mod n)) \<le> dibn (bs[i := b] ! j) + 1" if "j < n" for j
  proof -
    have ne: "(j + 1) mod n \<noteq> j" using ring_next_neq that n(2) by blast
    have lt: "(j + 1) mod n < n" using n(2) by simp
    show ?thesis
      using rh_tableD(2) [OF t, of j] left [OF that] right ne lt that i n(1)
      by (cases "j = i"; cases "(j + 1) mod n = i") auto
  qed
  then show ?thesis
    using rh_tableD(1) [OF t] p i n(1) by (auto simp: rh_table_def nth_list_update)
qed

text \<open>All the buckets from the initial one of a hash up to an entry of that hash are occupied.\<close>

lemma rh_chain:
  assumes "rh_table bs" and "i < length bs" and "bk_dib (bs ! i) \<noteq> 0" and "s < dibn (bs ! i)"
  shows "s < dibn (bs ! ((unat (bk_hash (bs ! i)) + s) mod length bs))"
proof -
  let ?n = "length bs" and ?h = "unat (bk_hash (bs ! i))"
  have n0: "0 < ?n" using assms(2) by linarith
  have "d < dibn (bs ! i) \<Longrightarrow> dibn (bs ! i) - 1 - d < dibn (bs ! ((?h + (dibn (bs ! i) - 1 - d)) mod ?n))" for d
  proof (induction d)
    case 0
    have "(?h + (dibn (bs ! i) - 1)) mod ?n = i"
      using rh_tableD(1) [OF assms(1,2,3)] by (simp add: placed_def)
    then show ?case using assms(3) by (simp add: dibn_pos)
  next
    case (Suc d)
    let ?j = "(?h + (dibn (bs ! i) - 1 - Suc d)) mod ?n"
    have "(?j + 1) mod ?n = (?h + (dibn (bs ! i) - 1 - d)) mod ?n"
    proof -
      have "dibn (bs ! i) - 1 - Suc d + 1 = dibn (bs ! i) - 1 - d" using Suc.prems by linarith
      then show ?thesis by (metis add.assoc mod_add_left_eq)
    qed
    then show ?case using rh_tableD(2) [OF assms(1), of ?j] Suc n0 by simp
  qed
  from this [of "dibn (bs ! i) - 1 - s"] show ?thesis using assms(4) by simp
qed

text \<open>So that \<open>dib\<close> is at most the number of entries, as long as one bucket is vacant.\<close>

lemma dib_le_size:
  assumes t: "rh_table bs" and v: "size (entries bs) < length bs" and i: "i < length bs"
  shows "dibn (bs ! i) \<le> size (entries bs)"
proof (cases "bk_dib (bs ! i) = 0")
  case False
  let ?n = "length bs" and ?h = "unat (bk_hash (bs ! i))" and ?d = "dibn (bs ! i)"
  let ?O = "{i. i < length bs \<and> bk_dib (bs ! i) \<noteq> 0}"
  have n0: "0 < ?n" using i by linarith
  have occ: "(?h + s) mod ?n \<in> ?O" if "s < ?d" for s
    using rh_chain [OF t i False that] n0 by (auto simp: dibn_pos)
  have "?d \<le> ?n"
  proof (rule ccontr)
    assume a: "\<not> ?thesis"
    obtain e where e: "e < ?n" "bk_dib (bs ! e) = 0" using vacant_exists [OF v] by blast
    obtain s where "s < ?n" "(?h mod ?n + s) mod ?n = e"
      using ring_reach [OF e(1), of "?h mod ?n"] n0 by auto
    then show False using occ [of s] a e(2) by (simp add: mod_simps)
  qed
  then have "inj_on (\<lambda>s. (?h + s) mod ?n) {..<?d}"
    by (intro inj_onI) (rule ring_inj [where n = ?n and h = ?h]; simp)
  then have "card ((\<lambda>s. (?h + s) mod ?n) ` {..<?d}) = ?d" by (simp add: card_image)
  moreover have "card ((\<lambda>s. (?h + s) mod ?n) ` {..<?d}) \<le> card ?O"
    by (rule card_mono) (use occ in auto)
  ultimately show ?thesis by (simp add: size_entries)
qed simp

subsection \<open>Lookup\<close>

definition hit :: "('a \<Rightarrow> 'a \<Rightarrow> s32) option \<Rightarrow> 'a \<Rightarrow> u64 \<Rightarrow> 'a bucket \<Rightarrow> bool" where
  "hit cmp k hash b \<longleftrightarrow> bk_dib b \<noteq> 0 \<and> bk_hash b = hash \<and> item_eq cmp k (bk_item b)"

lemma find_loop_first:
  assumes n: "ring_size (length bs)" and i: "i < length bs"
    and stop: "bk_dib (bs ! ((i + t) mod length bs)) = 0 \<or> hit cmp k hash (bs ! ((i + t) mod length bs))"
    and go: "\<And>s. s < t \<Longrightarrow> bk_dib (bs ! ((i + s) mod length bs)) \<noteq> 0 \<and> \<not> hit cmp k hash (bs ! ((i + s) mod length bs))"
  shows "find_loop cmp (length bs - 1) bs k hash i =
    Some (if bk_dib (bs ! ((i + t) mod length bs)) = 0 then None else Some ((i + t) mod length bs))"
  using i stop go
proof (induction t arbitrary: i)
  case 0
  then show ?case by (subst find_loop.simps) (auto simp: hit_def)
next
  case (Suc t)
  have "find_loop cmp (length bs - 1) bs k hash i =
        find_loop cmp (length bs - 1) bs k hash ((i + 1) mod length bs)"
    using Suc.prems(3) [of 0] Suc.prems(1)
    by (subst find_loop.simps) (auto simp: Let_def hit_def and_ring' [OF n])
  also have "\<dots> = Some (if bk_dib (bs ! ((i + Suc t) mod length bs)) = 0 then None
                        else Some ((i + Suc t) mod length bs))"
    using Suc.IH [of "(i + 1) mod length bs"] Suc.prems(2) Suc.prems(3) [of "Suc _"] ring_size_pos [OF n]
    unfolding ring_Suc by simp
  finally show ?case .
qed

text \<open>The search ends, at an entry that matches if there is one on its way.\<close>

lemma find_loop_ends:
  assumes n: "ring_size (length bs)" and i: "i < length bs"
    and v: "size (entries bs) < length bs"
  shows "\<exists>t. find_loop cmp (length bs - 1) bs k hash i =
           Some (if bk_dib (bs ! ((i + t) mod length bs)) = 0 then None else Some ((i + t) mod length bs)) \<and>
         (bk_dib (bs ! ((i + t) mod length bs)) \<noteq> 0 \<longrightarrow> hit cmp k hash (bs ! ((i + t) mod length bs))) \<and>
         (\<forall>s < t. bk_dib (bs ! ((i + s) mod length bs)) \<noteq> 0 \<and> \<not> hit cmp k hash (bs ! ((i + s) mod length bs)))"
proof -
  let ?P = "\<lambda>t. bk_dib (bs ! ((i + t) mod length bs)) = 0 \<or> hit cmp k hash (bs ! ((i + t) mod length bs))"
  obtain e where e: "e < length bs" "bk_dib (bs ! e) = 0" using vacant_exists [OF v] by blast
  obtain u where "(i + u) mod length bs = e" using ring_reach [OF e(1) i] by blast
  then have ex: "\<exists>t. ?P t" using e(2) by auto
  define t where "t = (LEAST t. ?P t)"
  have t: "?P t" using LeastI_ex [OF ex] by (simp only: t_def)
  have less: "\<not> ?P s" if "s < t" for s using not_less_Least that by (simp only: t_def)
  have "find_loop cmp (length bs - 1) bs k hash i =
          Some (if bk_dib (bs ! ((i + t) mod length bs)) = 0 then None else Some ((i + t) mod length bs))"
    by (rule find_loop_first [OF n i t]) (use less in blast)
  then show ?thesis using t less by blast
qed

lemma find_loop_correct:
  assumes n: "ring_size (length bs)" and tab: "rh_table bs" and v: "size (entries bs) < length bs"
  obtains (absent) "find_loop cmp (length bs - 1) bs k hash (unat hash mod length bs) = Some None"
      "\<forall>i < length bs. \<not> hit cmp k hash (bs ! i)"
    | (present) i where "find_loop cmp (length bs - 1) bs k hash (unat hash mod length bs) = Some (Some i)"
      "i < length bs" "hit cmp k hash (bs ! i)"
proof -
  let ?n = "length bs" and ?h = "unat hash mod length bs"
  have n0: "0 < ?n" using ring_size_pos [OF n] .
  obtain t where t: "find_loop cmp (?n - 1) bs k hash ?h =
        Some (if bk_dib (bs ! ((?h + t) mod ?n)) = 0 then None else Some ((?h + t) mod ?n))"
      "bk_dib (bs ! ((?h + t) mod ?n)) \<noteq> 0 \<longrightarrow> hit cmp k hash (bs ! ((?h + t) mod ?n))"
      "\<forall>s < t. bk_dib (bs ! ((?h + s) mod ?n)) \<noteq> 0 \<and> \<not> hit cmp k hash (bs ! ((?h + s) mod ?n))"
    using find_loop_ends [OF n mod_less_divisor [OF n0] v, where cmp = cmp and k = k and hash = hash]
    by blast
  show thesis
  proof (cases "bk_dib (bs ! ((?h + t) mod ?n)) = 0")
    case True
    have "\<not> hit cmp k hash (bs ! i)" if i: "i < ?n" for i
    proof
      assume h: "hit cmp k hash (bs ! i)"
      then have d: "bk_dib (bs ! i) \<noteq> 0" "bk_hash (bs ! i) = hash" by (auto simp: hit_def)
      have at: "(?h + (dibn (bs ! i) - 1)) mod ?n = i"
        using rh_tableD(1) [OF tab i d(1)] d(2) by (simp add: placed_def mod_simps)
      have "\<not> dibn (bs ! i) - 1 < t" using t(3) at h by metis
      then have "t < dibn (bs ! i)" using d(1) by (simp add: dibn_pos)
      then show False using rh_chain [OF tab i d(1), of t] True d(2) by (simp add: mod_simps)
    qed
    then show thesis using absent t(1) True by simp
  next
    case False
    then show thesis using present [of "(?h + t) mod ?n"] t(1,2) mod_less_divisor [OF n0] by simp
  qed
qed

subsection \<open>Insertion\<close>

definition inc :: "'a bucket \<Rightarrow> 'a bucket" where
  "inc b = b\<lparr>bk_dib := bk_dib b + 1\<rparr>"

text \<open>An entry on its way, that can be put at the bucket it has come to.\<close>

definition carry_ok :: "'a bucket list \<Rightarrow> 'a bucket \<Rightarrow> nat \<Rightarrow> bool" where
  "carry_ok bs e i \<longleftrightarrow> ring_size (length bs) \<and> rh_table bs \<and> i < length bs \<and>
     size (entries bs) < length bs \<and> size (entries bs) < 65535 \<and>
     bk_dib e \<noteq> 0 \<and> placed (length bs) e i \<and>
     (\<forall>j < length bs. (j + 1) mod length bs = i \<longrightarrow> dibn e \<le> dibn (bs ! j) + 1)"

lemma carry_put:
  assumes "carry_ok bs e i" and "dibn (bs ! i) \<le> dibn e"
  shows "rh_table (bs[i := e])"
proof (rule rh_table_update [OF _ refl])
  show "rh_table bs" "i < length bs" "placed (length bs) e i"
    using assms(1) by (auto simp: carry_ok_def)
  then show "dibn (bs ! ((i + 1) mod length bs)) \<le> dibn e + 1"
    using rh_tableD(2) [of bs i] assms(2) by linarith
  show "2 \<le> length bs" using assms(1) by (intro ring_size_ge2) (simp add: carry_ok_def)
  show "dibn e \<le> dibn (bs ! j) + 1" if "j < length bs" "(j + 1) mod length bs = i" for j
    using assms(1) that by (auto simp: carry_ok_def)
qed

lemma dibn_inc: "dibn b < 65535 \<Longrightarrow> dibn (inc b) = dibn b + 1"
  by (simp add: inc_def unat_Suc_no_wrap)

lemma placed_inc:
  assumes "bk_dib b \<noteq> 0" and "dibn b < 65535" and "placed n b i"
  shows "placed n (inc b) ((i + 1) mod n)"
proof -
  have "(unat (bk_hash b) + (dibn b - 1) + 1) mod n = (i + 1) mod n"
    using assms(3) by (metis mod_add_left_eq placed_def)
  moreover have "dibn b - 1 + 1 = dibn b" using assms(1) by (simp add: dibn_pos)
  ultimately show ?thesis using dibn_inc [OF assms(2)] by (simp add: placed_def inc_def)
qed

lemma ring_pred: "i < n \<Longrightarrow> j < n \<Longrightarrow> (j + 1) mod n = (i + 1) mod n \<Longrightarrow> j = (i::nat)"
  using ring_inj [of j n i 1] by (simp add: add.commute)

lemma carry_pass:
  assumes c: "carry_ok bs e i" and le: "dibn e \<le> dibn (bs ! i)"
  shows "carry_ok bs (inc e) ((i + 1) mod length bs)"
proof -
  have "dibn (bs ! i) \<le> size (entries bs)"
    using c by (intro dib_le_size) (auto simp: carry_ok_def)
  then have lt: "dibn e < 65535" using c le by (auto simp: carry_ok_def)
  have e: "bk_dib e \<noteq> 0" "placed (length bs) e i" and i: "i < length bs" and n: "ring_size (length bs)"
    using c by (auto simp: carry_ok_def)
  have "bk_dib (inc e) \<noteq> 0" using dibn_inc [OF lt] by (simp add: dibn_pos)
  moreover have "placed (length bs) (inc e) ((i + 1) mod length bs)"
    using placed_inc [OF e(1) lt e(2)] .
  moreover have "dibn (inc e) \<le> dibn (bs ! j) + 1"
    if "j < length bs" "(j + 1) mod length bs = (i + 1) mod length bs" for j
    using ring_pred [OF i that] dibn_inc [OF lt] le by simp
  moreover have "(i + 1) mod length bs < length bs" using ring_size_pos [OF n] by simp
  ultimately show ?thesis using c by (auto simp: carry_ok_def)
qed

lemma carry_swap:
  assumes c: "carry_ok bs e i" and gt: "dibn (bs ! i) < dibn e" and o: "bk_dib (bs ! i) \<noteq> 0"
  shows "carry_ok (bs[i := e]) (inc (bs ! i)) ((i + 1) mod length bs)"
    and "entries (bs[i := e]) + bent (inc (bs ! i)) = entries bs + bent e"
proof -
  have i: "i < length bs" and n: "ring_size (length bs)" and e: "bk_dib e \<noteq> 0"
    using c by (auto simp: carry_ok_def)
  have "dibn (bs ! i) \<le> size (entries bs)"
    using c by (intro dib_le_size) (auto simp: carry_ok_def)
  then have lt: "dibn (bs ! i) < 65535" using c by (auto simp: carry_ok_def)
  have ne: "bk_dib (inc (bs ! i)) \<noteq> 0" using dibn_inc [OF lt] by (simp add: dibn_pos)
  then have "bent (inc (bs ! i)) = bent (bs ! i)" using o by (simp add: bent_def inc_def)
  then show m: "entries (bs[i := e]) + bent (inc (bs ! i)) = entries bs + bent e"
    using entries_update [OF i, of e] by simp
  have "size (entries (bs[i := e])) = size (entries bs)"
  proof -
    have "size (entries (bs[i := e])) + 1 = size (entries bs) + 1"
      using arg_cong [OF m, of size] ne e by (simp add: bent_def)
    then show ?thesis by simp
  qed
  moreover have "rh_table (bs[i := e])" using carry_put [OF c] gt by simp
  moreover have "placed (length bs) (inc (bs ! i)) ((i + 1) mod length bs)"
    using placed_inc [OF o lt] rh_tableD(1) [OF _ i o] c by (auto simp: carry_ok_def)
  moreover have "dibn (inc (bs ! i)) \<le> dibn (bs[i := e] ! j) + 1"
    if "j < length bs" "(j + 1) mod length bs = (i + 1) mod length bs" for j
    using ring_pred [OF i that] dibn_inc [OF lt] gt i by simp
  moreover have "(i + 1) mod length bs < length bs" using ring_size_pos [OF n] by simp
  ultimately show "carry_ok (bs[i := e]) (inc (bs ! i)) ((i + 1) mod length bs)"
    using c ne by (simp add: carry_ok_def)
qed

lemma place_step:
  assumes "ring_size (length bs)" and "bk_dib (bs ! i) \<noteq> 0"
  shows "place_loop (length bs - 1) bs e i =
    (if dibn (bs ! i) < dibn e then place_loop (length bs - 1) (bs[i := e]) (inc (bs ! i)) ((i + 1) mod length bs)
     else place_loop (length bs - 1) bs (inc e) ((i + 1) mod length bs))"
  by (subst place_loop.simps) (simp add: Let_def assms(2) word_less_nat_alt inc_def and_ring' [OF assms(1)])

lemma set_step:
  assumes "ring_size (length bs)" and "bk_dib (bs ! i) \<noteq> 0" and "\<not> hit cmp (bk_item e) (bk_hash e) (bs ! i)"
  shows "set_loop cmp (length bs - 1) bs e i =
    (if dibn (bs ! i) < dibn e then set_loop cmp (length bs - 1) (bs[i := e]) (inc (bs ! i)) ((i + 1) mod length bs)
     else set_loop cmp (length bs - 1) bs (inc e) ((i + 1) mod length bs))"
  using assms(2,3)
  by (subst set_loop.simps) (auto simp: Let_def hit_def word_less_nat_alt inc_def and_ring' [OF assms(1)])

lemma bent_inc: "bk_dib b \<noteq> 0 \<Longrightarrow> bk_dib (inc b) \<noteq> 0 \<Longrightarrow> bent (inc b) = bent b"
  by (simp add: bent_def inc_def)

lemma carry_dib: "carry_ok bs e i \<Longrightarrow> bk_dib e \<noteq> 0 \<and> ring_size (length bs) \<and> i < length bs"
  by (simp add: carry_ok_def)

text \<open>The loop of the rebuild puts the entry into the table, after which every entry is still there.\<close>

lemma place_ends:
  assumes "carry_ok bs e i" and "bk_dib (bs ! ((i + t) mod length bs)) = 0"
  shows "\<exists>bs'. place_loop (length bs - 1) bs e i = Some bs' \<and> length bs' = length bs \<and> rh_table bs' \<and>
           entries bs' = entries bs + bent e"
  using assms
proof (induction t arbitrary: bs e i)
  case 0
  then have c: "carry_ok bs e i" and i: "i < length bs" by (auto simp: carry_ok_def)
  then have z: "bk_dib (bs ! i) = 0" using 0 by simp
  then have "place_loop (length bs - 1) bs e i = Some (bs[i := e])"
    by (subst place_loop.simps) simp
  moreover have "rh_table (bs[i := e])" using carry_put [OF c] z by simp
  moreover have "entries (bs[i := e]) = entries bs + bent e"
    using entries_update [OF i, of e] z by (simp add: bent_def)
  ultimately show ?case by simp
next
  case (Suc t)
  note c = carry_dib [OF Suc.prems(1)]
  show ?case
  proof (cases "bk_dib (bs ! i) = 0")
    case True
    then have "place_loop (length bs - 1) bs e i = Some (bs[i := e])"
      by (subst place_loop.simps) simp
    moreover have "rh_table (bs[i := e])" using carry_put [OF Suc.prems(1)] True by simp
    moreover have "entries (bs[i := e]) = entries bs + bent e"
      using entries_update [of i bs e] c True by (simp add: bent_def)
    ultimately show ?thesis by simp
  next
    case occ: False
    let ?j = "(i + 1) mod length bs"
    have at: "(?j + t) mod length bs = (i + Suc t) mod length bs" by (rule ring_Suc)
    show ?thesis
    proof (cases "dibn (bs ! i) < dibn e")
      case True
      have "(i + Suc t) mod length bs \<noteq> i" using Suc.prems(2) occ by metis
      then have "bk_dib (bs[i := e] ! ((?j + t) mod length bs)) = 0" using Suc.prems(2) at by simp
      then have "\<exists>bs'. place_loop (length (bs[i := e]) - 1) (bs[i := e]) (inc (bs ! i)) ?j = Some bs' \<and>
            length bs' = length (bs[i := e]) \<and> rh_table bs' \<and> entries bs' = entries (bs[i := e]) + bent (inc (bs ! i))"
        using carry_swap(1) [OF Suc.prems(1) True occ] by (intro Suc.IH) simp_all
      then show ?thesis
        using place_step [of bs i e] occ True c carry_swap(2) [OF Suc.prems(1) True occ] by simp
    next
      case False
      have c2: "carry_ok bs (inc e) ?j" by (rule carry_pass [OF Suc.prems(1)]) (use False in simp)
      have "bent (inc e) = bent e" using c carry_dib [OF c2] by (simp add: bent_inc)
      then show ?thesis
        using place_step [of bs i e] occ False c Suc.IH [OF c2] Suc.prems(2) at by simp
    qed
  qed
qed

text \<open>No two of the entries have the same hash and the same key.\<close>

definition unmatched :: "('a \<Rightarrow> 'a \<Rightarrow> s32) option \<Rightarrow> (u64 \<times> 'a) multiset \<Rightarrow> bool" where
  "unmatched cmp M \<longleftrightarrow> (\<forall>x y. {#x, y#} \<subseteq># M \<longrightarrow> fst x = fst y \<longrightarrow> \<not> item_eq cmp (snd x) (snd y))"

lemma unmatched_hit:
  assumes "unmatched cmp (entries bs + bent e)" and "i < length bs" and "bk_dib e \<noteq> 0"
  shows "\<not> hit cmp (bk_item e) (bk_hash e) (bs ! i)"
proof
  assume h: "hit cmp (bk_item e) (bk_hash e) (bs ! i)"
  then have "(bk_hash (bs ! i), bk_item (bs ! i)) \<in># entries bs"
    using in_entriesI [OF assms(2)] by (simp add: hit_def)
  then have "{#(bk_hash e, bk_item e), (bk_hash (bs ! i), bk_item (bs ! i))#} \<subseteq># entries bs + bent e"
    using assms(3) by (simp add: bent_def)
  then show False using assms(1) h by (auto simp: unmatched_def hit_def)
qed

lemma set_absent:
  assumes "carry_ok bs e i" and "bk_dib (bs ! ((i + t) mod length bs)) = 0"
    and "unmatched cmp (entries bs + bent e)"
  shows "set_loop cmp (length bs - 1) bs e i = map_option (Pair None) (place_loop (length bs - 1) bs e i)"
  using assms
proof (induction t arbitrary: bs e i)
  case 0
  then have "i < length bs" by (simp add: carry_ok_def)
  then show ?case using 0 by (subst set_loop.simps, subst place_loop.simps) simp
next
  case (Suc t)
  note c = carry_dib [OF Suc.prems(1)]
  show ?case
  proof (cases "bk_dib (bs ! i) = 0")
    case True
    then show ?thesis by (subst set_loop.simps, subst place_loop.simps) simp
  next
    case occ: False
    let ?j = "(i + 1) mod length bs"
    have at: "(?j + t) mod length bs = (i + Suc t) mod length bs" by (rule ring_Suc)
    have miss: "\<not> hit cmp (bk_item e) (bk_hash e) (bs ! i)"
      using unmatched_hit [OF Suc.prems(3)] c by simp
    show ?thesis
    proof (cases "dibn (bs ! i) < dibn e")
      case True
      have "(i + Suc t) mod length bs \<noteq> i" using Suc.prems(2) occ by metis
      then have "bk_dib (bs[i := e] ! ((?j + t) mod length bs)) = 0" using Suc.prems(2) at by simp
      then have "set_loop cmp (length (bs[i := e]) - 1) (bs[i := e]) (inc (bs ! i)) ?j =
          map_option (Pair None) (place_loop (length (bs[i := e]) - 1) (bs[i := e]) (inc (bs ! i)) ?j)"
        using carry_swap [OF Suc.prems(1) True occ] Suc.prems(3) by (intro Suc.IH) simp_all
      then show ?thesis using place_step [of bs i e] set_step [of bs i cmp e] occ miss True c by simp
    next
      case False
      have c2: "carry_ok bs (inc e) ?j" by (rule carry_pass [OF Suc.prems(1)]) (use False in simp)
      have "bent (inc e) = bent e" using c carry_dib [OF c2] by (simp add: bent_inc)
      then show ?thesis
        using place_step [of bs i e] set_step [of bs i cmp e] occ miss False c Suc.IH [OF c2]
          Suc.prems(2,3) at by simp
    qed
  qed
qed

text \<open>An entry with the item's key is reached without a swap, and its item replaced.\<close>

lemma set_present:
  assumes "ring_size (length bs)" and "i < length bs"
    and "\<And>s. s \<le> t \<Longrightarrow> bk_dib (bs ! ((i + s) mod length bs)) \<noteq> 0 \<and> dibn e + s \<le> dibn (bs ! ((i + s) mod length bs))"
    and "\<And>s. s < t \<Longrightarrow> \<not> hit cmp (bk_item e) (bk_hash e) (bs ! ((i + s) mod length bs))"
    and "hit cmp (bk_item e) (bk_hash e) (bs ! ((i + t) mod length bs))"
  shows "set_loop cmp (length bs - 1) bs e i =
    (let j = (i + t) mod length bs in
     Some (Some (bk_item (bs ! j)), bs[j := (bs ! j)\<lparr>bk_item := bk_item e\<rparr>]))"
  using assms
proof (induction t arbitrary: e i)
  case 0
  then show ?case by (subst set_loop.simps) (auto simp: Let_def hit_def)
next
  case (Suc t)
  let ?j = "(i + 1) mod length bs"
  have z: "bk_dib (bs ! i) \<noteq> 0" "dibn e \<le> dibn (bs ! i)"
    using Suc.prems(3) [of 0] Suc.prems(2) by auto
  have miss: "\<not> hit cmp (bk_item e) (bk_hash e) (bs ! i)"
    using Suc.prems(4) [of 0] Suc.prems(2) by simp
  have "dibn e + 1 \<le> dibn (bs ! ((i + 1) mod length bs))" using Suc.prems(3) [of 1] by simp
  moreover have "dibn (bs ! ((i + 1) mod length bs)) < 2 ^ 16"
    using unsigned_less [of "bk_dib (bs ! ((i + 1) mod length bs))"] by simp
  ultimately have inc: "dibn (inc e) = dibn e + 1" by (intro dibn_inc) simp
  have same: "bk_item (inc e) = bk_item e" "bk_hash (inc e) = bk_hash e" by (simp_all add: inc_def)
  have "set_loop cmp (length bs - 1) bs e i = set_loop cmp (length bs - 1) bs (inc e) ?j"
    using set_step [OF Suc.prems(1) z(1) miss] z(2) by simp
  also have "\<dots> = (let j = (?j + t) mod length bs in
     Some (Some (bk_item (bs ! j)), bs[j := (bs ! j)\<lparr>bk_item := bk_item (inc e)\<rparr>]))"
  proof (rule Suc.IH [OF Suc.prems(1)])
    show "?j < length bs" using ring_size_pos [OF Suc.prems(1)] by simp
    show "bk_dib (bs ! ((?j + s) mod length bs)) \<noteq> 0 \<and> dibn (inc e) + s \<le> dibn (bs ! ((?j + s) mod length bs))"
      if "s \<le> t" for s
      using Suc.prems(3) [of "Suc s"] that inc unfolding ring_Suc by simp
    show "\<not> hit cmp (bk_item (inc e)) (bk_hash (inc e)) (bs ! ((?j + s) mod length bs))" if "s < t" for s
      using Suc.prems(4) [of "Suc s"] that unfolding ring_Suc same by simp
    show "hit cmp (bk_item (inc e)) (bk_hash (inc e)) (bs ! ((?j + t) mod length bs))"
      using Suc.prems(5) unfolding ring_Suc same .
  qed
  finally show ?case unfolding ring_Suc same .
qed

subsection \<open>Deletion\<close>

text \<open>
  The table while the gap moves: bucket \<open>i\<close> is free to be written, and the rest is as the invariant
  asks, but for the step across the gap.
\<close>

definition hole_ok :: "'a bucket list \<Rightarrow> nat \<Rightarrow> bool" where
  "hole_ok bs i \<longleftrightarrow> ring_size (length bs) \<and> i < length bs \<and>
     (\<forall>j < length bs. j \<noteq> i \<longrightarrow> bk_dib (bs ! j) \<noteq> 0 \<longrightarrow> placed (length bs) (bs ! j) j) \<and>
     (\<forall>j < length bs. j \<noteq> i \<longrightarrow> (j + 1) mod length bs \<noteq> i \<longrightarrow>
        dibn (bs ! ((j + 1) mod length bs)) \<le> dibn (bs ! j) + 1) \<and>
     (\<forall>j < length bs. (j + 1) mod length bs = i \<longrightarrow>
        dibn (bs ! ((i + 1) mod length bs)) \<le> dibn (bs ! j) + 2)"

definition cleared :: "'a bucket list \<Rightarrow> nat \<Rightarrow> 'a bucket list" where
  "cleared bs i = bs[i := (bs ! i)\<lparr>bk_dib := 0\<rparr>]"

lemma length_cleared [simp]: "length (cleared bs i) = length bs"
  by (simp add: cleared_def)

lemma entries_cleared:
  assumes "i < length bs"
  shows "entries (cleared bs i) + bent (bs ! i) = entries bs"
  using entries_update [OF assms, of "(bs ! i)\<lparr>bk_dib := 0\<rparr>"] by (simp add: cleared_def bent_def)

lemma hole_cleared:
  assumes h: "hole_ok bs i" and le: "dibn (bs ! ((i + 1) mod length bs)) \<le> 1"
  shows "rh_table (cleared bs i)"
proof -
  let ?n = "length bs"
  have i: "i < ?n" and n2: "2 \<le> ?n" using h ring_size_ge2 by (auto simp: hole_ok_def)
  have "dibn (cleared bs i ! ((j + 1) mod ?n)) \<le> dibn (cleared bs i ! j) + 1" if j: "j < ?n" for j
  proof (cases "(j + 1) mod ?n = i")
    case True
    then show ?thesis using i by (simp add: cleared_def)
  next
    case False
    then show ?thesis
      using h j le i n2 ring_next_neq [OF i n2] by (cases "j = i") (auto simp: cleared_def hole_ok_def)
  qed
  then show ?thesis
    using h i by (auto simp: rh_table_def cleared_def hole_ok_def nth_list_update)
qed

lemma hole_moves:
  assumes h: "hole_ok bs i" and gt: "1 < dibn (bs ! ((i + 1) mod length bs))"
  defines "j \<equiv> (i + 1) mod length bs"
  defines "bs1 \<equiv> bs[i := (bs ! j)\<lparr>bk_dib := bk_dib (bs ! j) - 1\<rparr>]"
  shows "hole_ok bs1 j" and "entries (cleared bs1 j) = entries (cleared bs i)"
proof -
  let ?n = "length bs"
  have n: "ring_size ?n" and i: "i < ?n" and n2: "2 \<le> ?n" using h ring_size_ge2 by (auto simp: hole_ok_def)
  have ji: "j \<noteq> i" and j: "j < ?n" using ring_next_neq [OF i n2] ring_size_pos [OF n] by (simp_all add: j_def)
  have d: "dibn ((bs ! j)\<lparr>bk_dib := bk_dib (bs ! j) - 1\<rparr>) = dibn (bs ! j) - 1"
    using gt by (simp add: j_def unat_sub word_le_nat_alt)
  have at_i: "bs1 ! i = (bs ! j)\<lparr>bk_dib := bk_dib (bs ! j) - 1\<rparr>" using i by (simp add: bs1_def)
  have other: "bs1 ! k = bs ! k" if "k \<noteq> i" for k using that by (simp add: bs1_def)
  have len [simp]: "length bs1 = ?n" by (simp add: bs1_def)
  have occ: "bk_dib (bs ! j) \<noteq> 0" using gt by (auto simp: j_def)
  have pl: "placed ?n (bs1 ! i) i"
  proof -
    have "(unat (bk_hash (bs ! j)) + (dibn (bs ! j) - 1)) mod ?n = j"
      using h j ji occ by (auto simp: hole_ok_def placed_def)
    moreover have "dibn (bs ! j) - 1 = (dibn (bs ! j) - 1 - 1) + 1" using gt by (simp add: j_def)
    ultimately have "((unat (bk_hash (bs ! j)) + (dibn (bs ! j) - 1 - 1)) mod ?n + 1) mod ?n = (i + 1) mod ?n"
      unfolding j_def by (metis add.assoc mod_add_left_eq)
    then have "(unat (bk_hash (bs ! j)) + (dibn (bs ! j) - 1 - 1)) mod ?n = i"
      using ring_pred [OF i, of "(unat (bk_hash (bs ! j)) + (dibn (bs ! j) - 1 - 1)) mod ?n"]
        ring_size_pos [OF n] by simp
    then show ?thesis using d by (simp add: placed_def at_i)
  qed
  have step: "dibn (bs1 ! ((k + 1) mod ?n)) \<le> dibn (bs1 ! k) + 1" if k: "k < ?n" "k \<noteq> j" "(k + 1) mod ?n \<noteq> j" for k
  proof -
    have ki: "k \<noteq> i" using k(3) by (auto simp: j_def)
    show ?thesis
    proof (cases "(k + 1) mod ?n = i")
      case True
      have "dibn (bs ! j) \<le> dibn (bs ! k) + 2" using h k(1) True by (auto simp: hole_ok_def j_def)
      moreover have "dibn (bs1 ! k) = dibn (bs ! k)" by (simp add: other [OF ki])
      moreover have "dibn (bs1 ! ((k + 1) mod ?n)) = dibn (bs ! j) - 1" using True d by (simp add: at_i)
      ultimately show ?thesis by linarith
    next
      case False
      then show ?thesis using h k(1) ki unfolding hole_ok_def other [OF ki] other [OF False] by blast
    qed
  qed
  have cross: "dibn (bs1 ! ((j + 1) mod ?n)) \<le> dibn (bs1 ! k) + 2" if k: "k < ?n" "(k + 1) mod ?n = j" for k
  proof -
    have ki: "k = i" using ring_pred [OF i k(1)] k(2) by (simp add: j_def)
    have j1: "(j + 1) mod ?n \<noteq> i"
    proof
      assume "(j + 1) mod ?n = i"
      then have "(i + 2) mod ?n = (i + 0) mod ?n" using i by (simp add: j_def mod_simps)
      moreover have "2 < ?n" using ring_size_ge [OF n] by linarith
      ultimately have "(2 :: nat) = 0" using ring_inj [of 2 ?n 0 i] ring_size_pos [OF n] by blast
      then show False by simp
    qed
    have "dibn (bs ! ((j + 1) mod ?n)) \<le> dibn (bs ! j) + 1"
      using h j ji j1 by (simp add: hole_ok_def)
    moreover have "dibn (bs1 ! k) = dibn (bs ! j) - 1" using ki d by (simp add: at_i)
    moreover have "1 < dibn (bs ! j)" using gt by (simp add: j_def)
    ultimately show ?thesis unfolding other [OF j1] by linarith
  qed
  show "hole_ok bs1 j"
    unfolding hole_ok_def len
  proof (intro conjI allI impI)
    show "placed ?n (bs1 ! k) k" if "k < ?n" "k \<noteq> j" "bk_dib (bs1 ! k) \<noteq> 0" for k
      using pl that h by (cases "k = i") (auto simp: other hole_ok_def)
  qed (use n j step cross in auto)
  have z: "dibn (bs1 ! i) \<noteq> 0" using d gt by (simp add: at_i j_def)
  have b: "bent (bs1 ! i) = bent (bs ! j)"
    using z occ by (auto simp: bent_def at_i dibn_pos)
  have e1: "entries bs1 + bent (bs ! i) = entries bs + bent (bs1 ! i)"
    using entries_update [OF i, of "bs1 ! i"] by (simp add: bs1_def i)
  have e2: "entries (cleared bs1 j) + bent (bs ! j) = entries bs1"
    using entries_cleared [of j bs1] j other [OF ji] by simp
  have "entries (cleared bs1 j) + bent (bs ! j) + bent (bs ! i) =
        entries (cleared bs i) + bent (bs ! i) + bent (bs ! j)"
    unfolding e2 e1 b entries_cleared [OF i] ..
  then have "entries (cleared bs1 j) + (bent (bs ! j) + bent (bs ! i)) =
             entries (cleared bs i) + (bent (bs ! j) + bent (bs ! i))"
    by (simp only: ac_simps)
  then show "entries (cleared bs1 j) = entries (cleared bs i)" by (rule add_right_imp_eq)
qed

lemma shift_ends:
  assumes "hole_ok bs i" and "bk_dib (bs ! ((i + Suc t) mod length bs)) = 0" and "Suc t < length bs"
  shows "\<exists>bs'. shift_loop (length bs - 1) bs i = Some bs' \<and> length bs' = length bs \<and> rh_table bs' \<and>
           entries bs' = entries (cleared bs i)"
  using assms
proof (induction t arbitrary: bs i)
  case 0
  have "shift_loop (length bs - 1) bs i = Some (cleared bs i)"
    using 0 by (subst shift_loop.simps) (auto simp: Let_def hole_ok_def cleared_def and_ring')
  moreover have "rh_table (cleared bs i)" by (rule hole_cleared [OF 0(1)]) (use 0(2) in simp)
  ultimately show ?case by simp
next
  case (Suc t)
  let ?j = "(i + 1) mod length bs"
  let ?bs1 = "bs[i := (bs ! ?j)\<lparr>bk_dib := bk_dib (bs ! ?j) - 1\<rparr>]"
  have n: "ring_size (length bs)" and i: "i < length bs" using Suc.prems(1) by (auto simp: hole_ok_def)
  show ?case
  proof (cases "dibn (bs ! ?j) \<le> 1")
    case True
    then have "shift_loop (length bs - 1) bs i = Some (cleared bs i)"
      by (subst shift_loop.simps) (simp add: Let_def cleared_def and_ring' [OF n] word_le_nat_alt)
    then show ?thesis using hole_cleared [OF Suc.prems(1) True] by simp
  next
    case False
    then have gt: "1 < dibn (bs ! ?j)" by simp
    have "(i + Suc (Suc t)) mod length bs \<noteq> i"
    proof
      assume "(i + Suc (Suc t)) mod length bs = i"
      then have "(i + Suc (Suc t)) mod length bs = (i + 0) mod length bs" using i by simp
      then show False using ring_inj [OF Suc.prems(3) ring_size_pos [OF n]] by blast
    qed
    then have "bk_dib (?bs1 ! ((?j + Suc t) mod length bs)) = 0"
      using Suc.prems(2) unfolding ring_Suc by simp
    then have "\<exists>bs'. shift_loop (length ?bs1 - 1) ?bs1 ?j = Some bs' \<and> length bs' = length ?bs1 \<and>
        rh_table bs' \<and> entries bs' = entries (cleared ?bs1 ?j)"
      using hole_moves(1) [OF Suc.prems(1) gt] Suc.prems(3) by (intro Suc.IH) simp_all
    moreover have "shift_loop (length bs - 1) bs i = shift_loop (length bs - 1) ?bs1 ?j"
      using gt by (subst shift_loop.simps) (simp add: Let_def and_ring' [OF n] word_le_nat_alt)
    ultimately show ?thesis using hole_moves(2) [OF Suc.prems(1) gt] by simp
  qed
qed

text \<open>Clearing any bucket of a table makes a gap.\<close>

lemma hole_start:
  assumes tab: "rh_table bs" and n: "ring_size (length bs)" and i: "i < length bs"
  shows "hole_ok (cleared bs i) i"
proof -
  let ?n = "length bs"
  have n2: "2 \<le> ?n" by (rule ring_size_ge2 [OF n])
  have other: "cleared bs i ! k = bs ! k" if "k \<noteq> i" for k using that by (simp add: cleared_def)
  have "dibn (cleared bs i ! ((i + 1) mod ?n)) \<le> dibn (cleared bs i ! j) + 2"
    if j: "j < ?n" "(j + 1) mod ?n = i" for j
  proof -
    have ji: "j \<noteq> i" using ring_next_neq [OF j(1) n2] j(2) by auto
    have "dibn (bs ! ((i + 1) mod ?n)) \<le> dibn (bs ! i) + 1" by (rule rh_tableD(2) [OF tab i])
    moreover have "dibn (bs ! i) \<le> dibn (bs ! j) + 1" using rh_tableD(2) [OF tab j(1)] j(2) by simp
    ultimately show ?thesis using other [OF ji] other [OF ring_next_neq [OF i n2]] by simp
  qed
  then show ?thesis
    using n i rh_tableD [OF tab] by (simp add: hole_ok_def other)
qed

lemma shift_table:
  assumes tab: "rh_table bs" and n: "ring_size (length bs)" and i: "i < length bs"
    and o: "bk_dib (bs ! i) \<noteq> 0" and v: "size (entries bs) < length bs"
  shows "\<exists>bs'. shift_loop (length bs - 1) (cleared bs i) i = Some bs' \<and> length bs' = length bs \<and>
           rh_table bs' \<and> entries bs' = entries bs - bent (bs ! i)"
proof -
  obtain e where e: "e < length bs" "bk_dib (bs ! e) = 0" using vacant_exists [OF v] by blast
  obtain u where u: "u < length bs" "(i + u) mod length bs = e" using ring_reach [OF e(1) i] by blast
  have "u \<noteq> 0"
  proof
    assume "u = 0"
    then have "e = i" using u(2) i by simp
    then show False using e(2) o by simp
  qed
  then obtain t where t: "u = Suc t" by (cases u) auto
  have ei: "e \<noteq> i" using e(2) o by auto
  have "\<exists>bs'. shift_loop (length (cleared bs i) - 1) (cleared bs i) i = Some bs' \<and>
      length bs' = length (cleared bs i) \<and> rh_table bs' \<and> entries bs' = entries (cleared (cleared bs i) i)"
    by (rule shift_ends [OF hole_start [OF tab n i]]) (use u t e ei in \<open>simp_all add: cleared_def\<close>)
  moreover have "cleared (cleared bs i) i = cleared bs i" using i by (simp add: cleared_def)
  moreover have "entries (cleared bs i) = entries bs - bent (bs ! i)"
    using entries_cleared [OF i] by (metis add_diff_cancel_right')
  ultimately show ?thesis by simp
qed

end
