(* ===== verification/HashMapProps.thy ===== *)
theory HashMapProps imports RobinHood begin

text \<open>
  The hash map of \<open>hashmap.c\<close> refines a finite map.  The table's items are told apart by the
  comparison callback; \<open>hashed_items\<close> is what the map needs of its callbacks.
\<close>

subsection \<open>Tables whose entries have different keys\<close>

definition keyed :: "('a \<Rightarrow> 'k) \<Rightarrow> (u64 \<times> 'a) multiset \<Rightarrow> bool" where
  "keyed key M \<longleftrightarrow> (\<forall>k. count (image_mset (\<lambda>e. key (snd e)) M) k \<le> 1)"

lemma keyed_empty [simp]: "keyed key {#}"
  by (simp add: keyed_def)

lemma count_add_le_one: "(\<forall>k. count (add_mset a N) k \<le> 1) \<longleftrightarrow> (\<forall>k. count N k \<le> 1) \<and> count N a = 0"
proof (intro iffI conjI allI)
  assume l: "\<forall>k. count (add_mset a N) k \<le> 1"
  show "count N a = 0" using l [rule_format, of a] by simp
  show "count N k \<le> 1" for k using l [rule_format, of k] by (cases "k = a") simp_all
next
  fix k assume "(\<forall>k. count N k \<le> 1) \<and> count N a = 0"
  then show "count (add_mset a N) k \<le> 1" by (cases "k = a") simp_all
qed

lemma keyed_add:
  "keyed key (add_mset a M) \<longleftrightarrow> keyed key M \<and> (\<forall>e \<in># M. key (snd e) \<noteq> key (snd a))"
proof -
  let ?N = "image_mset (\<lambda>e. key (snd e)) M"
  have "keyed key (add_mset a M) \<longleftrightarrow> (\<forall>k. count ?N k \<le> 1) \<and> count ?N (key (snd a)) = 0"
    unfolding keyed_def image_mset_add_mset by (rule count_add_le_one)
  also have "count ?N (key (snd a)) = 0 \<longleftrightarrow> (\<forall>e \<in># M. key (snd e) \<noteq> key (snd a))"
    by (fastforce simp: count_eq_zero_iff image_iff)
  finally show ?thesis by (simp add: keyed_def)
qed

lemma keyed_subset: "keyed key M \<Longrightarrow> N \<subseteq># M \<Longrightarrow> keyed key N"
  unfolding keyed_def by (meson image_mset_subseteq_mono mset_subset_eq_count le_trans)

lemma keyed_unique:
  assumes "keyed key M" and "x \<in># M" and "y \<in># M" and "key (snd x) = key (snd y)"
  shows "x = y"
proof (rule ccontr)
  assume "x \<noteq> y"
  then have "y \<in># M - {#x#}" using assms(3) by (simp add: in_diff_count)
  moreover have "M = add_mset x (M - {#x#})" using assms(2) by simp
  ultimately show False using assms(1,4) keyed_add by metis
qed

lemma keyed_unmatched:
  assumes "keyed key M" and "\<And>a b. item_eq cmp a b \<Longrightarrow> key a = key b"
  shows "unmatched cmp M"
  unfolding unmatched_def
proof (intro allI impI notI)
  fix x y assume s: "{#x, y#} \<subseteq># M" and "item_eq cmp (snd x) (snd y)"
  then have "key (snd x) = key (snd y)" using assms(2) by simp
  then show False using keyed_subset [OF assms(1) s] by (simp add: keyed_add)
qed

lemma keyed_mset: "keyed key (mset xs) \<longleftrightarrow> distinct (map (\<lambda>e. key (snd e)) xs)"
  by (induction xs) (fastforce simp: keyed_add image_iff)+

subsection \<open>The map it stands for\<close>

definition hm_map :: "('a \<Rightarrow> 'k) \<Rightarrow> 'a hashmap \<Rightarrow> 'k \<rightharpoonup> 'a" where
  "hm_map key m = map_of (map (\<lambda>b. (key (bk_item b), bk_item b)) (occupied (hm_buckets m)))"

lemma hm_map_iff:
  assumes "keyed key (entries (hm_buckets m))"
  shows "hm_map key m k = Some x \<longleftrightarrow> (\<exists>h. (h, x) \<in># entries (hm_buckets m)) \<and> key x = k"
proof -
  have "distinct (map fst (map (\<lambda>b. (key (bk_item b), bk_item b)) (occupied (hm_buckets m))))"
    using assms unfolding entries_occupied keyed_mset by (simp add: comp_def)
  then show ?thesis
    unfolding hm_map_def by (simp only: map_of_eq_Some_iff) (auto simp: entries_occupied)
qed

lemma hm_map_None:
  assumes "keyed key (entries (hm_buckets m))"
  shows "hm_map key m k = None \<longleftrightarrow> (\<forall>e \<in># entries (hm_buckets m). key (snd e) \<noteq> k)"
proof -
  have "hm_map key m k = None \<longleftrightarrow> \<not> (\<exists>x. hm_map key m k = Some x)" by auto
  then show ?thesis unfolding hm_map_iff [OF assms] by auto
qed

lemma map_eqI: "(\<And>k x. f k = Some x \<longleftrightarrow> g k = Some x) \<Longrightarrow> f = g"
  by (rule ext) (metis not_None_eq)

lemma hm_map_cong:
  assumes "entries (hm_buckets m') = entries (hm_buckets m)" and "keyed key (entries (hm_buckets m))"
  shows "hm_map key m' = hm_map key m"
  by (rule map_eqI) (use assms in \<open>simp add: hm_map_iff\<close>)

lemma hm_map_add:
  assumes "entries (hm_buckets m') = add_mset (h, x) (entries (hm_buckets m))"
    and "keyed key (entries (hm_buckets m'))"
  shows "hm_map key m' = (hm_map key m)(key x \<mapsto> x)"
proof (rule map_eqI)
  fix k y
  have k: "keyed key (entries (hm_buckets m))" "\<forall>e \<in># entries (hm_buckets m). key (snd e) \<noteq> key x"
    using assms(2) unfolding assms(1) keyed_add by auto
  show "hm_map key m' k = Some y \<longleftrightarrow> ((hm_map key m)(key x \<mapsto> x)) k = Some y"
    unfolding hm_map_iff [OF assms(2)] using k(2)
    by (auto simp: assms(1) hm_map_iff [OF k(1)])
qed

lemma hm_map_remove:
  assumes "entries (hm_buckets m) = add_mset (h, x) (entries (hm_buckets m'))"
    and "keyed key (entries (hm_buckets m))"
  shows "hm_map key m' = (hm_map key m)(key x := None)"
proof (rule map_eqI)
  fix k y
  have k: "keyed key (entries (hm_buckets m'))" "\<forall>e \<in># entries (hm_buckets m'). key (snd e) \<noteq> key x"
    using assms(2) unfolding assms(1) keyed_add by auto
  show "hm_map key m' k = Some y \<longleftrightarrow> ((hm_map key m)(key x := None)) k = Some y"
    unfolding hm_map_iff [OF k(1)] using k(2)
    by (auto simp: assms(1) hm_map_iff [OF assms(2)])
qed

lemma hm_map_replace:
  assumes "entries (hm_buckets m) = add_mset (h, old) E" and "entries (hm_buckets m') = add_mset (h', x) E"
    and "key old = key x" and "keyed key (entries (hm_buckets m))"
  shows "keyed key (entries (hm_buckets m'))" and "hm_map key m (key x) = Some old"
    and "hm_map key m' = (hm_map key m)(key x \<mapsto> x)"
proof -
  have E: "keyed key E" "\<forall>e \<in># E. key (snd e) \<noteq> key x"
    using assms(4) unfolding assms(1) keyed_add assms(3) [symmetric] by auto
  then show k': "keyed key (entries (hm_buckets m'))" unfolding assms(2) by (simp add: keyed_add)
  show "hm_map key m (key x) = Some old" unfolding hm_map_iff [OF assms(4)] assms(1) using assms(3) by auto
  show "hm_map key m' = (hm_map key m)(key x \<mapsto> x)"
  proof (rule map_eqI)
    fix k y
    show "hm_map key m' k = Some y \<longleftrightarrow> ((hm_map key m)(key x \<mapsto> x)) k = Some y"
      unfolding hm_map_iff [OF k'] using E(2) assms(3)
      by (auto simp: assms(1,2) hm_map_iff [OF assms(4)])
  qed
qed

subsection \<open>Capacities\<close>

lemma double_cap_power: "double_cap (2 ^ j) (2 ^ (j + d)) = 2 ^ (j + d)"
proof (induction d arbitrary: j)
  case 0
  then show ?case by (subst double_cap.simps) simp
next
  case (Suc d)
  have "(2 :: nat) ^ j < 2 ^ (j + Suc d)" by (rule power_strict_increasing) simp_all
  then have "double_cap (2 ^ j) (2 ^ (j + Suc d)) = double_cap (2 ^ Suc j) (2 ^ (Suc j + d))"
    by (subst double_cap.simps) (simp add: mult.commute)
  then show ?case using Suc.IH [of "Suc j"] by simp
qed

lemma double_cap_ring: "\<exists>k. n = 2 ^ k \<Longrightarrow> 0 < n \<Longrightarrow> (\<exists>k. double_cap n cap = 2 ^ k) \<and> n \<le> double_cap n cap \<and> cap \<le> double_cap n cap"
proof (induction n cap rule: double_cap.induct)
  case (1 n cap)
  show ?case
  proof (cases "n < cap")
    case True
    have "\<exists>k. n * 2 = 2 ^ k" using 1(2) by (metis mult.commute power_Suc)
    then show ?thesis using 1 True by (subst (1 2 3) double_cap.simps) auto
  next
    case False
    then show ?thesis using 1(2) by (subst (1 2 3) double_cap.simps) auto
  qed
qed

lemma round_cap_ring: "ring_size (round_cap cap) \<and> cap \<le> round_cap cap"
proof -
  have "\<exists>k. (16 :: nat) = 2 ^ k" by (rule exI [of _ 4]) simp
  then show ?thesis using double_cap_ring [of 16 cap] by (auto simp: round_cap_def ring_size_def)
qed

lemma round_cap_same:
  assumes "ring_size n"
  shows "round_cap n = n"
proof -
  obtain k where k: "n = 2 ^ k" "16 \<le> n" using assms by (auto simp: ring_size_def)
  have "(2 :: nat) ^ 4 \<le> 2 ^ k" using k by simp
  then have "4 \<le> k" by (subst (asm) power_increasing_iff) simp_all
  then show ?thesis using double_cap_power [of 4 "k - 4"] k by (simp add: round_cap_def)
qed

lemma ring_size_mult: "ring_size n \<Longrightarrow> ring_size (n * 2 ^ p)"
  unfolding ring_size_def
  by (metis power_add le_trans mult.right_neutral mult_le_mono2 one_le_numeral one_le_power)

lemma ring_size_half:
  assumes "ring_size n" and "ring_size c" and "c < n"
  shows "ring_size (n div 2) \<and> c \<le> n div 2"
proof -
  obtain j k where n: "n = 2 ^ k" and c: "c = 2 ^ j" "16 \<le> c" using assms(1,2) by (auto simp: ring_size_def)
  have "j < k" using assms(3) unfolding n c(1) by (subst (asm) power_strict_increasing_iff) simp_all
  then have "n div 2 = 2 ^ (k - 1)" "j \<le> k - 1" unfolding n by (cases k; simp)+
  moreover from this have "c \<le> 2 ^ (k - 1)" unfolding c(1) by (intro power_increasing) simp_all
  ultimately show ?thesis using c(2) by (auto simp: ring_size_def)
qed

subsection \<open>The operations on a table\<close>

lemma carry_start:
  assumes "ring_size (length bs)" and "rh_table bs" and "size (entries bs) < length bs"
    and "size (entries bs) < 65535" and "bk_dib e = 1"
  shows "carry_ok bs e (unat (bk_hash e) mod length bs)"
  using assms ring_size_pos [OF assms(1)] by (simp add: carry_ok_def placed_def)

lemma place_table:
  assumes n: "ring_size (length bs)" and tab: "rh_table bs" and v: "size (entries bs) < length bs"
    and b: "size (entries bs) < 65535" and e: "bk_dib e = 1"
  obtains bs' t where "place_loop (length bs - 1) bs e (unat (bk_hash e) mod length bs) = Some bs'"
    "length bs' = length bs" "rh_table bs'" "entries bs' = entries bs + bent e"
    "bk_dib (bs ! ((unat (bk_hash e) mod length bs + t) mod length bs)) = 0"
proof -
  obtain w where w: "w < length bs" "bk_dib (bs ! w) = 0" using vacant_exists [OF v] by blast
  obtain t where "(unat (bk_hash e) mod length bs + t) mod length bs = w"
    using ring_reach [OF w(1) mod_less_divisor [OF ring_size_pos [OF n]]] by blast
  then have t: "bk_dib (bs ! ((unat (bk_hash e) mod length bs + t) mod length bs)) = 0" using w(2) by simp
  show thesis using place_ends [OF carry_start [OF assms] t] that t by blast
qed

lemma move_all_ends:
  assumes "ring_size (length bs)" and "rh_table bs"
    and "size (entries bs) + size (entries old) < length bs" and "size (entries bs) + size (entries old) \<le> 65535"
  shows "\<exists>bs'. move_all (length bs - 1) old bs = Some bs' \<and> length bs' = length bs \<and> rh_table bs' \<and>
           entries bs' = entries bs + entries old"
  using assms
proof (induction old arbitrary: bs)
  case Nil
  then show ?case by (simp add: entries_def)
next
  case (Cons b old)
  note n = Cons.prems(1)
  show ?case
  proof (cases "bk_dib b = 0")
    case True
    then have "entries (b # old) = entries old" by (simp add: entries_def bent_def)
    then show ?thesis using Cons True by simp
  next
    case False
    let ?e = "b\<lparr>bk_dib := 1\<rparr>"
    have eb: "entries (b # old) = bent ?e + entries old" "size (bent ?e) = 1"
      using False by (simp_all add: entries_def bent_def)
    have "size (entries bs) < length bs" "size (entries bs) < 65535"
      using Cons.prems(3,4) eb by simp_all
    then obtain bs1 t where b1: "place_loop (length bs - 1) bs ?e (unat (bk_hash ?e) mod length bs) = Some bs1"
      "length bs1 = length bs" "rh_table bs1" "entries bs1 = entries bs + bent ?e"
      by (rule place_table [OF n Cons.prems(2), where e = ?e]) simp_all
    have "\<exists>bs'. move_all (length bs1 - 1) old bs1 = Some bs' \<and> length bs' = length bs1 \<and> rh_table bs' \<and>
           entries bs' = entries bs1 + entries old"
      using Cons.prems(1,3,4) b1 eb by (intro Cons.IH) (simp_all add: b1(2))
    then show ?thesis using b1 False eb by (simp add: Let_def and_ring' [OF n] ac_simps)
  qed
qed

lemma mset_exchange: "A + {#b#} = add_mset c B \<Longrightarrow> b \<in># B \<Longrightarrow> A = add_mset c (B - {#b#})"
  by (auto dest!: multi_member_split simp: add_mset_commute)

lemma rh_table_item:
  assumes "rh_table bs"
  shows "rh_table (bs[j := (bs ! j)\<lparr>bk_item := x\<rparr>])"
proof -
  have "bk_dib (bs[j := (bs ! j)\<lparr>bk_item := x\<rparr>] ! i) = bk_dib (bs ! i) \<and>
    bk_hash (bs[j := (bs ! j)\<lparr>bk_item := x\<rparr>] ! i) = bk_hash (bs ! i)" for i
  proof (cases "j < length bs")
    case True
    then show ?thesis by (cases "j = i") simp_all
  next
    case False
    then have "bs[j := (bs ! j)\<lparr>bk_item := x\<rparr>] = bs" by (simp only: list_update_beyond not_less)
    then show ?thesis by (simp only: simp_thms)
  qed
  then show ?thesis using assms by (simp add: rh_table_def placed_def)
qed

text \<open>An insertion puts the entry into the table or replaces the item that has its key.\<close>

lemma set_table:
  assumes n: "ring_size (length bs)" and tab: "rh_table bs" and v: "size (entries bs) < length bs"
    and b: "size (entries bs) < 65535" and e: "bk_dib e = 1"
    and k: "keyed key (entries bs)" and same: "\<And>a b. item_eq cmp a b \<longleftrightarrow> key a = key b"
    and hash: "\<And>h x. (h, x) \<in># entries bs \<Longrightarrow> key x = key (bk_item e) \<Longrightarrow> h = bk_hash e"
  obtains (added) bs' where
      "set_loop cmp (length bs - 1) bs e (unat (bk_hash e) mod length bs) = Some (None, bs')"
      "length bs' = length bs" "rh_table bs'" "entries bs' = add_mset (bk_hash e, bk_item e) (entries bs)"
      "keyed key (entries bs')"
    | (replaced) bs' old where
      "set_loop cmp (length bs - 1) bs e (unat (bk_hash e) mod length bs) = Some (Some old, bs')"
      "length bs' = length bs" "rh_table bs'" "(bk_hash e, old) \<in># entries bs" "key old = key (bk_item e)"
      "entries bs' = add_mset (bk_hash e, bk_item e) (entries bs - {#(bk_hash e, old)#})"
proof -
  let ?n = "length bs" and ?h = "unat (bk_hash e) mod length bs"
  have n0: "0 < ?n" by (rule ring_size_pos [OF n])
  have be: "bent e = {#(bk_hash e, bk_item e)#}" using e by (simp add: bent_def)
  show thesis
  proof (cases "\<forall>x \<in># entries bs. key (snd x) \<noteq> key (bk_item e)")
    case True
    then have k': "keyed key (entries bs + bent e)" using k by (simp add: be keyed_add)
    then have "unmatched cmp (entries bs + bent e)" by (rule keyed_unmatched) (simp add: same)
    moreover obtain bs' t where b': "place_loop (?n - 1) bs e ?h = Some bs'" "length bs' = ?n" "rh_table bs'"
        "entries bs' = entries bs + bent e" "bk_dib (bs ! ((?h + t) mod ?n)) = 0"
      by (rule place_table [OF n tab v b e])
    ultimately have "set_loop cmp (?n - 1) bs e ?h = Some (None, bs')"
      using set_absent [OF carry_start [OF n tab v b e]] by simp
    then show thesis using added b' k' by (simp add: be)
  next
    case False
    then obtain h x where x: "(h, x) \<in># entries bs" "key x = key (bk_item e)" by auto
    then obtain i where i: "i < ?n" "bk_dib (bs ! i) \<noteq> 0" "bk_hash (bs ! i) = bk_hash e" "bk_item (bs ! i) = x"
      using hash [OF x] by (auto simp: in_entries)
    have hit_i: "hit cmp (bk_item e) (bk_hash e) (bs ! i)" using i x(2) by (simp add: hit_def same)
    define u where "u = dibn (bs ! i) - 1"
    have at: "(?h + u) mod ?n = i"
      using rh_tableD(1) [OF tab i(1,2)] i(3) by (simp add: placed_def u_def mod_simps)
    define t where "t = (LEAST t. hit cmp (bk_item e) (bk_hash e) (bs ! ((?h + t) mod ?n)))"
    have hit_u: "hit cmp (bk_item e) (bk_hash e) (bs ! ((?h + u) mod ?n))" using hit_i at by simp
    have hit_t: "hit cmp (bk_item e) (bk_hash e) (bs ! ((?h + t) mod ?n))"
      unfolding t_def using hit_u by (rule LeastI)
    have tu: "t \<le> u" unfolding t_def using hit_u by (rule Least_le)
    let ?j = "(?h + t) mod ?n"
    have j: "?j < ?n" using n0 by simp
    have "set_loop cmp (?n - 1) bs e ?h =
      (let j = ?j in Some (Some (bk_item (bs ! j)), bs[j := (bs ! j)\<lparr>bk_item := bk_item e\<rparr>]))"
    proof (rule set_present [OF n mod_less_divisor [OF n0] _ _ hit_t])
      show "bk_dib (bs ! ((?h + s) mod ?n)) \<noteq> 0 \<and> dibn e + s \<le> dibn (bs ! ((?h + s) mod ?n))" if "s \<le> t" for s
      proof -
        have "s < dibn (bs ! i)" using that tu i(2) by (simp add: u_def dibn_pos)
        then have "s < dibn (bs ! ((?h + s) mod ?n))"
          using rh_chain [OF tab i(1,2), of s] i(3) by (simp add: mod_simps)
        then show ?thesis by (simp add: dibn_pos e)
      qed
      show "\<not> hit cmp (bk_item e) (bk_hash e) (bs ! ((?h + s) mod ?n))" if "s < t" for s
        using not_less_Least that unfolding t_def by blast
    qed
    moreover have "rh_table (bs[?j := (bs ! ?j)\<lparr>bk_item := bk_item e\<rparr>])"
      by (rule rh_table_item [OF tab])
    moreover have "entries (bs[?j := (bs ! ?j)\<lparr>bk_item := bk_item e\<rparr>]) =
        add_mset (bk_hash e, bk_item e) (entries bs - {#(bk_hash e, bk_item (bs ! ?j))#})"
    proof -
      have "entries (bs[?j := (bs ! ?j)\<lparr>bk_item := bk_item e\<rparr>]) + {#(bk_hash e, bk_item (bs ! ?j))#} =
            add_mset (bk_hash e, bk_item e) (entries bs)"
        using entries_update [OF j, of "(bs ! ?j)\<lparr>bk_item := bk_item e\<rparr>"] hit_t
        by (simp add: bent_def hit_def)
      moreover have "(bk_hash e, bk_item (bs ! ?j)) \<in># entries bs"
        using in_entriesI [OF j] hit_t by (simp add: hit_def)
      ultimately show ?thesis
        by (rule mset_exchange)
    qed
    ultimately show thesis
      using replaced [of "bk_item (bs ! ?j)" "bs[?j := (bs ! ?j)\<lparr>bk_item := bk_item e\<rparr>]"] hit_t
        in_entriesI [OF j] by (simp add: hit_def same Let_def)
  qed
qed

subsection \<open>The operations on the map\<close>

lemma clip_get_hash: "clip_hash (get_hash m k) = get_hash m k"
  unfolding get_hash_def clip_hash_def by (rule and.right_idem)

text \<open>The map of given callbacks, well formed.\<close>

definition hmap_ok :: "('a \<Rightarrow> u64 \<Rightarrow> u64 \<Rightarrow> u64) \<Rightarrow> ('a \<Rightarrow> 'a \<Rightarrow> s32) \<Rightarrow> ('a \<Rightarrow> 'k) \<Rightarrow> 'a hashmap \<Rightarrow> bool" where
  "hmap_ok hash cmp key m \<longleftrightarrow>
     hm_hash m = hash \<and> hm_compare m = Some cmp \<and>
     length (hm_buckets m) = hm_nbuckets m \<and> ring_size (hm_nbuckets m) \<and> hm_mask m = hm_nbuckets m - 1 \<and>
     hm_count m = size (entries (hm_buckets m)) \<and> hm_count m < hm_nbuckets m \<and>
     hm_growat m < hm_nbuckets m \<and> hm_shrinkat m = hm_nbuckets m div 10 \<and> hm_loadfactor m < 100 \<and>
     1 \<le> hm_growpower m \<and> ring_size (hm_cap m) \<and> hm_cap m \<le> hm_nbuckets m \<and>
     rh_table (hm_buckets m) \<and> keyed key (entries (hm_buckets m)) \<and>
     (\<forall>e \<in># entries (hm_buckets m). fst e = get_hash m (snd e))"

lemma grow_limit_less: "f < 100 \<Longrightarrow> 0 < n \<Longrightarrow> grow_limit n f < n"
  by (simp add: grow_limit_def div_less_iff_less_mult)

lemma hashmap_new_ok:
  assumes "hashmap_new_with_allocator mem elsize zero cap s0 s1 hash (Some cmp) elfree = Some m"
  shows "hmap_ok hash cmp key m" and "entries (hm_buckets m) = {#}" and "hm_map key m = Map.empty"
    and "hm_nbuckets m = round_cap cap" and "hm_seed0 m = s0" and "hm_seed1 m = s1" and "hm_oom m = False"
proof -
  let ?bs = "replicate (round_cap cap) (empty_bucket zero)"
  have z: "bk_dib (empty_bucket zero) = 0" by (simp add: empty_bucket_def)
  have m: "hm_hash m = hash" "hm_compare m = Some cmp" "hm_buckets m = ?bs" "hm_nbuckets m = round_cap cap"
    "hm_mask m = round_cap cap - 1" "hm_count m = 0" "hm_growat m = grow_limit (round_cap cap) 60"
    "hm_shrinkat m = round_cap cap div 10" "hm_loadfactor m = 60" "hm_growpower m = 1" "hm_cap m = round_cap cap"
    "hm_seed0 m = s0" "hm_seed1 m = s1" "hm_oom m = False"
    using assms by (auto simp: hashmap_new_with_allocator_def Let_def shrink_limit_def split: if_splits)
  show em: "entries (hm_buckets m) = {#}" unfolding m by (rule entries_replicate [OF z])
  have pos: "0 < round_cap cap" using round_cap_ring [of cap] by simp
  show "hmap_ok hash cmp key m"
    using em pos grow_limit_less [of 60 "round_cap cap"] rh_table_empty [OF z] round_cap_ring [of cap]
    by (simp add: hmap_ok_def m entries_replicate [OF z])
  show "hm_map key m = Map.empty" by (simp add: hm_map_def m occupied_def z)
  show "hm_nbuckets m = round_cap cap" "hm_seed0 m = s0" "hm_seed1 m = s1" "hm_oom m = False"
    by (simp_all add: m)
qed

text \<open>Every load factor leaves a bucket free, and a change of the power of growth lets the table grow.\<close>

lemma load_factor_ok:
  assumes "hmap_ok hash cmp key m"
  shows "hmap_ok hash cmp key (hashmap_set_load_factor m factor)"
    and "hm_map key (hashmap_set_load_factor m factor) = hm_map key m"
proof -
  let ?f = "clamp_load_factor factor (real (hm_loadfactor m) / 100)"
  have "?f * 100 < 100"
    using assms by (cases factor) (auto simp: clamp_load_factor_def hmap_ok_def)
  then have "nat \<lfloor>?f * 100\<rfloor> < 100" by linarith
  then show "hmap_ok hash cmp key (hashmap_set_load_factor m factor)"
    using assms grow_limit_less [of "nat \<lfloor>?f * 100\<rfloor>" "hm_nbuckets m"]
    by (auto simp: hmap_ok_def hashmap_set_load_factor_def Let_def get_hash_def)
  show "hm_map key (hashmap_set_load_factor m factor) = hm_map key m"
    by (simp add: hashmap_set_load_factor_def Let_def hm_map_def)
qed

lemma grow_power_ok:
  assumes "hmap_ok hash cmp key m"
  shows "hmap_ok hash cmp key (hashmap_set_grow_by_power m p)"
    and "hm_map key (hashmap_set_grow_by_power m p) = hm_map key m"
  using assms by (auto simp: hmap_ok_def hashmap_set_grow_by_power_def get_hash_def hm_map_def)

text \<open>A rebuild keeps the entries, whatever the allocator does.\<close>

lemma resize_ok:
  assumes ok: "hmap_ok hash cmp key m" and n: "ring_size n" and c: "hm_count m < n" "hm_count m \<le> 65535"
    and cap: "hm_cap m \<le> n"
  obtains (failed) "resize mem m n = Some (False, m)" "\<not> (mem (168 + bucket_size (hm_elsize m) * 2) \<and> mem (bucket_size (hm_elsize m) * n))"
    | (rebuilt) m' where "resize mem m n = Some (True, m')" "hmap_ok hash cmp key m'"
      "entries (hm_buckets m') = entries (hm_buckets m)" "hm_count m' = hm_count m" "hm_nbuckets m' = n"
      "hm_growpower m' = hm_growpower m" "hm_oom m' = hm_oom m"
      "hm_seed0 m' = hm_seed0 m" "hm_seed1 m' = hm_seed1 m" "hm_elsize m' = hm_elsize m"
proof -
  have cmp: "hm_compare m = Some cmp" and hash: "hm_hash m = hash" using ok by (simp_all add: hmap_ok_def)
  let ?new = "hashmap_new_with_allocator mem (hm_elsize m) (hm_zero m) n (hm_seed0 m) (hm_seed1 m) hash (Some cmp) (hm_elfree m)"
  show thesis
  proof (cases ?new)
    case None
    then show thesis
      using failed round_cap_same [OF n]
      by (auto simp: resize_def resize0_def cmp hash hashmap_new_with_allocator_def Let_def split: if_splits)
  next
    case (Some m2)
    note new_ok = hashmap_new_ok(1) [OF Some, where key = key] and new = hashmap_new_ok(2,4) [OF Some]
    have n2: "hm_nbuckets m2 = n" "length (hm_buckets m2) = n" "hm_mask m2 = n - 1" "hm_growat m2 < n"
      "hm_shrinkat m2 = n div 10" "rh_table (hm_buckets m2)"
      using new_ok new(2) round_cap_same [OF n] by (auto simp: hmap_ok_def)
    have "\<exists>bs'. move_all (length (hm_buckets m2) - 1) (hm_buckets m) (hm_buckets m2) = Some bs' \<and>
        length bs' = length (hm_buckets m2) \<and> rh_table bs' \<and> entries bs' = entries (hm_buckets m2) + entries (hm_buckets m)"
      using n n2 c ok by (intro move_all_ends) (simp_all add: new(1) hmap_ok_def)
    then obtain bs where bs: "move_all (n - 1) (hm_buckets m) (hm_buckets m2) = Some bs" "length bs = n"
        "rh_table bs" "entries bs = entries (hm_buckets m)"
      by (auto simp: n2 new(1))
    define m' where "m' = m\<lparr>hm_buckets := bs, hm_nbuckets := n, hm_mask := n - 1,
                            hm_growat := hm_growat m2, hm_shrinkat := n div 10\<rparr>"
    have "resize mem m n = Some (True, m')"
      using Some bs(1) by (simp add: resize_def resize0_def cmp hash n2 m'_def)
    moreover have "hmap_ok hash cmp key m'"
      using ok bs n n2 c cap by (simp add: hmap_ok_def m'_def get_hash_def)
    ultimately show thesis using rebuilt by (simp add: m'_def bs(4))
  qed
qed

subsection \<open>Refinement of a finite map\<close>

text \<open>
  What the map relies on: the comparison tells whether two items have the same key, and the hash
  depends on the key only.
\<close>

locale hashed_items =
  fixes hash :: "'a \<Rightarrow> u64 \<Rightarrow> u64 \<Rightarrow> u64"
    and cmp :: "'a \<Rightarrow> 'a \<Rightarrow> s32"
    and key :: "'a \<Rightarrow> 'k"
  assumes cmp_key: "cmp a b = 0 \<longleftrightarrow> key a = key b"
    and hash_key: "key a = key b \<Longrightarrow> hash a s t = hash b s t"
begin

lemma item_eq_key: "item_eq (Some cmp) a b \<longleftrightarrow> key a = key b"
  by (simp add: item_eq_def cmp_key)

lemma get_hash_key:
  assumes "hm_hash m = hash" and "key a = key b"
  shows "get_hash m a = get_hash m b"
  unfolding get_hash_def assms(1) by (simp only: hash_key [OF assms(2)])

text \<open>The search of a well-formed map: the entry of the key, if it has one.\<close>

lemma find_key:
  assumes ok: "hmap_ok hash cmp key m"
  obtains (absent) "find_loop (hm_compare m) (hm_mask m) (hm_buckets m) k (get_hash m k)
        (unat (get_hash m k) AND hm_mask m) = Some None" "hm_map key m (key k) = None"
    | (present) i where "find_loop (hm_compare m) (hm_mask m) (hm_buckets m) k (get_hash m k)
        (unat (get_hash m k) AND hm_mask m) = Some (Some i)"
      "i < hm_nbuckets m" "bk_dib (hm_buckets m ! i) \<noteq> 0" "bk_hash (hm_buckets m ! i) = get_hash m k"
      "key (bk_item (hm_buckets m ! i)) = key k" "hm_map key m (key k) = Some (bk_item (hm_buckets m ! i))"
proof -
  let ?bs = "hm_buckets m" and ?h = "get_hash m k"
  have len: "hm_nbuckets m = length ?bs" and n: "ring_size (length ?bs)" and msk: "hm_mask m = length ?bs - 1"
    and tab: "rh_table ?bs" and v: "size (entries ?bs) < length ?bs" and ky: "keyed key (entries ?bs)"
    and hs: "\<forall>e \<in># entries ?bs. fst e = get_hash m (snd e)" and cb: "hm_hash m = hash" "hm_compare m = Some cmp"
    using ok by (auto simp: hmap_ok_def)
  have F: "find_loop (hm_compare m) (hm_mask m) ?bs k ?h (unat ?h AND hm_mask m) =
           find_loop (Some cmp) (length ?bs - 1) ?bs k ?h (unat ?h mod length ?bs)"
    by (simp only: msk cb(2) and_ring [OF n])
  show thesis
  proof (cases rule: find_loop_correct [OF n tab v, where cmp = "Some cmp" and k = k and hash = ?h, case_names absent present])
    case absent
    have "key (snd e) \<noteq> key k" if e: "e \<in># entries ?bs" for e
    proof
      assume a: "key (snd e) = key k"
      obtain i where i: "i < length ?bs" "bk_dib (?bs ! i) \<noteq> 0" "bk_hash (?bs ! i) = fst e" "bk_item (?bs ! i) = snd e"
        using e in_entries [of "fst e" "snd e"] by auto
      have "fst e = ?h" using hs e get_hash_key [OF cb(1) a] by simp
      then have "hit (Some cmp) k ?h (?bs ! i)" using i a by (simp add: hit_def item_eq_key)
      then show False using absent(2) i(1) by blast
    qed
    then have "hm_map key m (key k) = None" unfolding hm_map_None [OF ky] by blast
    then show thesis by (intro that(1)) (simp_all only: F absent(1))
  next
    case (present i)
    then have h: "bk_dib (?bs ! i) \<noteq> 0" "bk_hash (?bs ! i) = ?h" "key (bk_item (?bs ! i)) = key k"
      by (auto simp: hit_def item_eq_key)
    have "hm_map key m (key k) = Some (bk_item (?bs ! i))"
      unfolding hm_map_iff [OF ky] using in_entriesI [OF present(2) h(1)] h(3) by blast
    then show thesis by (intro that(2) [of i]) (simp_all only: F present(1,2) h len not_False_eq_True)
  qed
qed

lemma get_refines:
  assumes "hmap_ok hash cmp key m"
  obtains "hashmap_get m k = Some None" "hm_map key m (key k) = None"
    | i where "hashmap_get m k = Some (Some i)" "hm_map key m (key k) = Some (hm_deref m i)"
      "i < hm_nbuckets m" "bk_dib (hm_buckets m ! i) \<noteq> 0" "key (hm_deref m i) = key k"
proof (cases rule: find_key [OF assms, of k, case_names absent present])
  case absent
  then show thesis using that(1) by (simp add: hashmap_get_def hashmap_get_with_hash_def clip_get_hash)
next
  case (present i)
  then show thesis
    using that(2) by (simp add: hashmap_get_def hashmap_get_with_hash_def clip_get_hash hm_deref_def)
qed

text \<open>Writing an item of the same key through a pointer into the table.\<close>

lemma write_refines:
  assumes ok: "hmap_ok hash cmp key m" and i: "i < hm_nbuckets m" "bk_dib (hm_buckets m ! i) \<noteq> 0"
    and k: "key (hm_deref m i) = key x"
  shows "hmap_ok hash cmp key (hm_write m i x)" and "hm_map key (hm_write m i x) = (hm_map key m)(key x \<mapsto> x)"
    and "hm_count (hm_write m i x) = hm_count m"
proof -
  let ?bs = "hm_buckets m" and ?b = "hm_buckets m ! i"
  have il: "i < length ?bs" and ky: "keyed key (entries ?bs)" and cb: "hm_hash m = hash"
    and hs: "\<forall>e \<in># entries ?bs. fst e = get_hash m (snd e)"
    using ok i by (auto simp: hmap_ok_def)
  obtain E where E: "entries ?bs = add_mset (bk_hash ?b, bk_item ?b) E"
    using in_entriesI [OF il i(2)] by (meson multi_member_split)
  have E': "entries (hm_buckets (hm_write m i x)) = add_mset (bk_hash ?b, x) E"
  proof -
    have "entries (?bs[i := ?b\<lparr>bk_item := x\<rparr>]) + {#(bk_hash ?b, bk_item ?b)#} = add_mset (bk_hash ?b, x) (entries ?bs)"
      using entries_update [OF il, of "?b\<lparr>bk_item := x\<rparr>"] i(2) by (simp add: bent_def)
    then show ?thesis unfolding E by (auto simp: hm_write_def dest!: mset_exchange)
  qed
  have k': "key (bk_item ?b) = key x" using k by (simp add: hm_deref_def)
  note rep = hm_map_replace [OF E E' k' ky]
  have "bk_hash ?b = get_hash m x"
    using hs E get_hash_key [OF cb, of "bk_item ?b" x] k by (simp add: hm_deref_def)
  then show "hmap_ok hash cmp key (hm_write m i x)"
    using ok rep(1) E E' rh_table_item [of ?bs i x] by (auto simp: hmap_ok_def hm_write_def get_hash_def)
  show "hm_map key (hm_write m i x) = (hm_map key m)(key x \<mapsto> x)" by (rule rep(3))
  show "hm_count (hm_write m i x) = hm_count m" by (simp add: hm_write_def)
qed

lemma set_entry_refines:
  assumes ok: "hmap_ok hash cmp key m" and room: "hm_count m + 1 < hm_nbuckets m" and b: "hm_count m < 65535"
  shows "\<exists>m'. set_entry m x (get_hash m x) = Some (hm_map key m (key x), m') \<and> hmap_ok hash cmp key m' \<and>
    hm_map key m' = (hm_map key m)(key x \<mapsto> x) \<and> hm_count m' \<le> hm_count m + 1 \<and> hm_oom m' = hm_oom m"
proof -
  let ?bs = "hm_buckets m" and ?e = "\<lparr>bk_hash = get_hash m x, bk_dib = 1, bk_item = x\<rparr>"
  have n: "ring_size (length ?bs)" and msk: "hm_mask m = length ?bs - 1" and len: "hm_nbuckets m = length ?bs"
    and tab: "rh_table ?bs" and v: "size (entries ?bs) < length ?bs" and ky: "keyed key (entries ?bs)"
    and hs: "\<forall>e \<in># entries ?bs. fst e = get_hash m (snd e)" and cb: "hm_hash m = hash" "hm_compare m = Some cmp"
    and cnt: "hm_count m = size (entries ?bs)"
    using ok by (auto simp: hmap_ok_def)
  have S: "set_loop (hm_compare m) (hm_mask m) ?bs ?e (unat (bk_hash ?e) AND hm_mask m) =
           set_loop (Some cmp) (length ?bs - 1) ?bs ?e (unat (bk_hash ?e) mod length ?bs)"
    by (simp only: msk cb(2) and_ring [OF n])
  have h: "h = bk_hash ?e" if "(h, y) \<in># entries ?bs" "key y = key (bk_item ?e)" for h y
    using that hs get_hash_key [OF cb(1), of y x] by fastforce
  show ?thesis
  proof (rule set_table [where e = ?e and cmp = "Some cmp" and key = key, OF n tab v])
    show "h = bk_hash ?e" if "(h, y) \<in># entries ?bs" "key y = key (bk_item ?e)" for h y using h that .
  next
    fix bs' assume added: "set_loop (Some cmp) (length ?bs - 1) ?bs ?e (unat (bk_hash ?e) mod length ?bs) = Some (None, bs')"
      "length bs' = length ?bs" "rh_table bs'" "entries bs' = add_mset (bk_hash ?e, bk_item ?e) (entries ?bs)"
      "keyed key (entries bs')"
    let ?m = "m\<lparr>hm_buckets := bs', hm_count := hm_count m + 1\<rparr>"
    have "hm_map key ?m = (hm_map key m)(key x \<mapsto> x)"
      by (rule hm_map_add) (use added in simp_all)
    moreover have "hm_map key m (key x) = None"
      unfolding hm_map_None [OF ky] using added(4,5) by (simp add: keyed_add)
    moreover have "hmap_ok hash cmp key ?m"
      using ok added room by (auto simp: hmap_ok_def get_hash_def)
    moreover have "set_entry m x (get_hash m x) = Some (None, ?m)"
      using added(1) unfolding set_entry_def Let_def S by simp
    ultimately show ?thesis by simp
  next
    fix bs' old assume replaced:
      "set_loop (Some cmp) (length ?bs - 1) ?bs ?e (unat (bk_hash ?e) mod length ?bs) = Some (Some old, bs')"
      "length bs' = length ?bs" "rh_table bs'" "(bk_hash ?e, old) \<in># entries ?bs" "key old = key (bk_item ?e)"
      "entries bs' = add_mset (bk_hash ?e, bk_item ?e) (entries ?bs - {#(bk_hash ?e, old)#})"
    let ?m = "m\<lparr>hm_buckets := bs'\<rparr>"
    obtain E where E: "entries ?bs = add_mset (get_hash m x, old) E"
      using replaced(4) by (auto dest!: multi_member_split)
    then have E': "entries bs' = add_mset (get_hash m x, x) E" using replaced(6) by simp
    have Em: "entries (hm_buckets ?m) = add_mset (get_hash m x, x) E" using E' by simp
    have old: "key old = key x" using replaced(5) by simp
    note rep = hm_map_replace [OF E Em old ky]
    have ky': "keyed key (entries bs')" using rep(1) by simp
    note rep(2,3)
    moreover have "hmap_ok hash cmp key ?m"
      using ok replaced ky' E E' by (auto simp: hmap_ok_def get_hash_def)
    moreover have "set_entry m x (get_hash m x) = Some (Some old, ?m)"
      using replaced(1) unfolding set_entry_def Let_def S by simp
    ultimately show ?thesis by simp
  qed (use b cnt ky in \<open>simp_all add: item_eq_key\<close>)
qed

end

subsection \<open>Where the map loses something\<close>

text \<open>
  A rebuild sets the limit of growth by the default load factor, so that one chosen with
  \<open>hashmap_set_load_factor\<close> is in force only until the next rebuild.
\<close>

lemma resize_default_limit:
  assumes "resize mem m n = Some (True, m')"
  shows "hm_growat m' = grow_limit (round_cap n) 60" and "hm_loadfactor m' = hm_loadfactor m"
  using assms
  by (auto simp: resize_def resize0_def hashmap_new_with_allocator_def Let_def split: option.splits if_splits)

text \<open>
  The distance of an entry has 16 bits.  An entry that has come 65535 buckets far and still meets one as far
  as itself gets the distance 0, which marks an empty bucket: it is counted and lost.
\<close>

lemma far_entry_lost:
  assumes n: "ring_size (length bs)" and i: "i < length bs" and far: "dibn e = 65535" "dibn (bs ! i) = 65535"
    and miss: "\<not> hit cmp (bk_item e) (bk_hash e) (bs ! i)"
    and free: "bk_dib (bs ! ((i + 1) mod length bs)) = 0"
  shows "\<exists>bs'. set_loop cmp (length bs - 1) bs e i = Some (None, bs') \<and> entries bs' = entries bs"
proof -
  let ?j = "(i + 1) mod length bs"
  have occ: "bk_dib (bs ! i) \<noteq> 0" using far(2) by auto
  have "bk_dib e = 65535"
    using far(1) by (simp add: word_unat_eq_iff)
  then have z: "bk_dib (inc e) = 0" by (simp add: inc_def)
  have "set_loop cmp (length bs - 1) bs e i = set_loop cmp (length bs - 1) bs (inc e) ?j"
    using set_step [OF n occ miss] far by simp
  also have "\<dots> = Some (None, bs[?j := inc e])" by (subst set_loop.simps) (simp only: free Let_def if_True simp_thms)
  finally have "set_loop cmp (length bs - 1) bs e i = Some (None, bs[?j := inc e])" .
  moreover have "entries (bs[?j := inc e]) = entries bs"
    using entries_update [of ?j bs "inc e"] ring_size_pos [OF n] free z by (simp add: bent_def)
  ultimately show ?thesis by blast
qed

end
