(* ===== verification/HashMapRefine.thy ===== *)
theory HashMapRefine imports HashMapProps begin

text \<open>
  Every operation of the hash map, and every sequence of operations, is one of a finite map: the
  locale \<open>hashed_items\<close> continued.
\<close>

subsection \<open>Sequences of operations\<close>

text \<open>
  The calls of a client: \<open>Hwrite x\<close> looks the key of \<open>x\<close> up and writes \<open>x\<close> through the pointer it
  got, if it got one.  Each comes with what the allocator grants during it.  The outcome is the item
  returned, or found, and what \<open>hashmap_oom\<close> says afterwards.
\<close>

datatype 'a hop = Hset 'a | Hget 'a | Hwrite 'a | Hdel 'a | Hclear bool

fun hop_step :: "(nat \<Rightarrow> bool) \<Rightarrow> 'a hop \<Rightarrow> 'a hashmap \<Rightarrow> (('a option \<times> bool) \<times> 'a hashmap) option" where
  "hop_step mem (Hset x) m =
     (case hashmap_set mem m x of None \<Rightarrow> None | Some (r, m) \<Rightarrow> Some ((r, hashmap_oom m), m))"
| "hop_step mem (Hget x) m =
     (case hashmap_get m x of None \<Rightarrow> None
      | Some p \<Rightarrow> Some ((map_option (hm_deref m) p, hashmap_oom m), m))"
| "hop_step mem (Hwrite x) m =
     (case hashmap_get m x of None \<Rightarrow> None
      | Some None \<Rightarrow> Some ((None, hashmap_oom m), m)
      | Some (Some i) \<Rightarrow> Some ((Some (hm_deref m i), hashmap_oom m), hm_write m i x))"
| "hop_step mem (Hdel x) m =
     (case hashmap_del mem m x of None \<Rightarrow> None | Some (r, m) \<Rightarrow> Some ((r, hashmap_oom m), m))"
| "hop_step mem (Hclear upd) m = (let m = snd (hashmap_clear m upd) in Some ((None, hashmap_oom m), m))"

fun hop_run :: "((nat \<Rightarrow> bool) \<times> 'a hop) list \<Rightarrow> 'a hashmap \<Rightarrow> (('a option \<times> bool) list \<times> 'a hashmap) option" where
  "hop_run [] m = Some ([], m)"
| "hop_run ((mem, op) # ops) m =
     (case hop_step mem op m of None \<Rightarrow> None
      | Some (r, m) \<Rightarrow> (case hop_run ops m of None \<Rightarrow> None | Some (rs, m) \<Rightarrow> Some (r # rs, m)))"

text \<open>
  The same on a finite map; the flags of the outcomes are given, since only the memory decides them: a
  \<open>Hset\<close> that ran out of memory changes nothing and returns nothing.
\<close>

fun map_step :: "('a \<Rightarrow> 'k) \<Rightarrow> 'a hop \<Rightarrow> bool \<Rightarrow> ('k \<rightharpoonup> 'a) \<Rightarrow> 'a option \<times> ('k \<rightharpoonup> 'a)" where
  "map_step key (Hset x) oom A = (if oom then (None, A) else (A (key x), A(key x \<mapsto> x)))"
| "map_step key (Hget x) oom A = (A (key x), A)"
| "map_step key (Hwrite x) oom A = (A (key x), if A (key x) = None then A else A(key x \<mapsto> x))"
| "map_step key (Hdel x) oom A = (A (key x), A(key x := None))"
| "map_step key (Hclear upd) oom A = (None, Map.empty)"

fun map_run :: "('a \<Rightarrow> 'k) \<Rightarrow> 'a hop list \<Rightarrow> bool list \<Rightarrow> ('k \<rightharpoonup> 'a) \<Rightarrow> 'a option list \<times> ('k \<rightharpoonup> 'a)" where
  "map_run key (op # ops) (oom # ooms) A =
     (case map_step key op oom A of (r, A) \<Rightarrow> (case map_run key ops ooms A of (rs, A) \<Rightarrow> (r # rs, A)))"
| "map_run key _ _ A = ([], A)"

context hashed_items begin

lemma hmap_ok_oom: "hmap_ok hash cmp key (m\<lparr>hm_oom := b\<rparr>) \<longleftrightarrow> hmap_ok hash cmp key m"
  by (simp add: hmap_ok_def get_hash_def)

lemma hm_map_oom: "hm_map key (m\<lparr>hm_oom := b\<rparr>) = hm_map key m"
  by (simp add: hm_map_def)

lemma get_hash_oom: "get_hash (m\<lparr>hm_oom := b\<rparr>) x = get_hash m x"
  by (simp add: get_hash_def)

text \<open>Insertion, with the growth that may come before it.\<close>

lemma set_refines:
  assumes ok: "hmap_ok hash cmp key m" and b: "hm_count m < 65535"
  obtains (stored) m' where "hashmap_set mem m x = Some (hm_map key m (key x), m')" "hm_oom m' = False"
      "hmap_ok hash cmp key m'" "hm_map key m' = (hm_map key m)(key x \<mapsto> x)" "hm_count m' \<le> hm_count m + 1"
    | (refused) m' where "hashmap_set mem m x = Some (None, m')" "hm_oom m' = True"
      "hmap_ok hash cmp key m'" "hm_map key m' = hm_map key m" "hm_count m' = hm_count m" "\<exists>n. \<not> mem n"
proof -
  let ?m = "m\<lparr>hm_oom := False\<rparr>" and ?n = "hm_nbuckets m * 2 ^ hm_growpower m"
  have okm: "hmap_ok hash cmp key ?m" using ok by (simp add: hmap_ok_oom)
  have n: "ring_size (hm_nbuckets m)" "hm_count m < hm_nbuckets m" "hm_growat m < hm_nbuckets m" "1 \<le> hm_growpower m"
    "hm_cap m \<le> hm_nbuckets m"
    using ok by (auto simp: hmap_ok_def)
  show thesis
  proof (cases "hm_growat m \<le> hm_count m")
    case False
    have "hm_count ?m + 1 < hm_nbuckets ?m" using False n(3) by simp
    then obtain m' where "set_entry ?m x (get_hash ?m x) = Some (hm_map key ?m (key x), m')"
      "hmap_ok hash cmp key m'" "hm_map key m' = (hm_map key ?m)(key x \<mapsto> x)" "hm_count m' \<le> hm_count ?m + 1"
      "hm_oom m' = hm_oom ?m"
      using set_entry_refines [OF okm, of x] b by auto
    then show thesis
      using stored False
      by (simp add: hashmap_set_def hashmap_set_with_hash_def clip_get_hash Let_def get_hash_oom hm_map_oom)
  next
    case True
    have g: "hm_nbuckets m + 1 \<le> ?n"
    proof -
      have "(2 :: nat) ^ 1 \<le> 2 ^ hm_growpower m" using n(4) by (intro power_increasing) simp_all
      then have "hm_nbuckets m * 2 \<le> ?n" by (intro mult_le_mono2) simp
      then show ?thesis using ring_size_pos [OF n(1)] by linarith
    qed
    have rn: "ring_size ?n" by (rule ring_size_mult [OF n(1)])
    show thesis
    proof (rule resize_ok [OF okm rn, of mem])
      assume "resize mem ?m ?n = Some (False, ?m)"
        "\<not> (mem (168 + bucket_size (hm_elsize ?m) * 2) \<and> mem (bucket_size (hm_elsize ?m) * ?n))"
      then show thesis
        using refused [of "?m\<lparr>hm_oom := True\<rparr>"] True ok
        by (auto simp: hashmap_set_def hashmap_set_with_hash_def Let_def hmap_ok_oom hm_map_oom)
    next
      fix m2 assume m2: "resize mem ?m ?n = Some (True, m2)" "hmap_ok hash cmp key m2"
        "entries (hm_buckets m2) = entries (hm_buckets ?m)" "hm_count m2 = hm_count ?m" "hm_nbuckets m2 = ?n"
        "hm_oom m2 = hm_oom ?m" "hm_seed0 m2 = hm_seed0 ?m" "hm_seed1 m2 = hm_seed1 ?m"
      have "get_hash m2 x = get_hash m x"
        using m2(2,7,8) ok by (simp add: get_hash_def hmap_ok_def)
      moreover have "hm_map key m2 = hm_map key m"
        by (rule hm_map_cong) (use m2(3) ok in \<open>auto simp: hmap_ok_def\<close>)
      moreover have "hm_count m2 + 1 < hm_nbuckets m2" using m2(4,5) g n(2) by simp
      ultimately obtain m' where "set_entry m2 x (get_hash m x) = Some (hm_map key m (key x), m')"
        "hmap_ok hash cmp key m'" "hm_map key m' = (hm_map key m)(key x \<mapsto> x)" "hm_count m' \<le> hm_count m2 + 1"
        "hm_oom m' = hm_oom m2"
        using set_entry_refines [OF m2(2), of x] b m2(4) by auto
      then show thesis
        using stored True m2(1,4,6)
        by (simp add: hashmap_set_def hashmap_set_with_hash_def clip_get_hash Let_def)
    qed (use n g b in simp_all)
  qed
qed

text \<open>Deletion, with the shrinking that may come after it.\<close>

lemma del_refines:
  assumes ok: "hmap_ok hash cmp key m" and b: "hm_count m \<le> 65535"
  shows "\<exists>m'. hashmap_del mem m x = Some (hm_map key m (key x), m') \<and> hm_oom m' = False \<and>
    hmap_ok hash cmp key m' \<and> hm_map key m' = (hm_map key m)(key x := None) \<and> hm_count m' \<le> hm_count m"
proof -
  let ?m = "m\<lparr>hm_oom := False\<rparr>" and ?bs = "hm_buckets m"
  have okm: "hmap_ok hash cmp key ?m" using ok by (simp add: hmap_ok_oom)
  have n: "ring_size (length ?bs)" and len: "hm_nbuckets m = length ?bs" and msk: "hm_mask m = length ?bs - 1"
    and tab: "rh_table ?bs" and v: "size (entries ?bs) < length ?bs" and ky: "keyed key (entries ?bs)"
    and cnt: "hm_count m = size (entries ?bs)" and cap: "ring_size (hm_cap m)" "hm_shrinkat m = length ?bs div 10"
    using ok by (auto simp: hmap_ok_def)
  have del: "hashmap_del mem m x = hashmap_del_with_hash mem m x (get_hash ?m x)"
    by (simp add: hashmap_del_def get_hash_oom)
  show ?thesis
  proof (cases rule: find_key [OF okm, of x, case_names absent present])
    case absent
    then have "hashmap_del mem m x = Some (None, ?m)"
      by (simp add: del hashmap_del_with_hash_def clip_get_hash Let_def)
    moreover have "hm_map key m (key x) = None" using absent(2) by (simp add: hm_map_oom)
    moreover from this have "(hm_map key m)(key x := None) = hm_map key m" by (simp add: fun_upd_idem)
    ultimately show ?thesis using okm by (simp add: hm_map_oom)
  next
    case (present i)
    let ?old = "bk_item (?bs ! i)"
    have i: "i < length ?bs" "bk_dib (?bs ! i) \<noteq> 0" and kx: "key ?old = key x"
      and mx: "hm_map key m (key x) = Some ?old"
      using present(2,3,5,6) by (simp_all add: len hm_map_oom)
    obtain bs where bs: "shift_loop (length ?bs - 1) (cleared ?bs i) i = Some bs" "length bs = length ?bs"
      "rh_table bs" "entries bs = entries ?bs - bent (?bs ! i)"
      using shift_table [OF tab n i v] by blast
    let ?m1 = "?m\<lparr>hm_buckets := bs, hm_count := hm_count m - 1\<rparr>"
    have E: "entries ?bs = add_mset (bk_hash (?bs ! i), ?old) (entries bs)"
      using in_entriesI [OF i] bs(4) i(2) by (simp add: bent_def)
    have map1: "hm_map key ?m1 = (hm_map key m)(key x := None)"
      using hm_map_remove [of m "bk_hash (?bs ! i)" ?old ?m1 key] E ky kx by simp
    have cnt1: "hm_count m - 1 = size (entries bs)" "size (entries bs) < length bs"
      using cnt v bs(2) E by simp_all
    have kb: "keyed key (entries bs)" using ky unfolding E keyed_add by simp
    have ok1: "hmap_ok hash cmp key ?m1"
      using ok bs(2,3) cnt1 kb E by (simp add: hmap_ok_def get_hash_def)
    have found: "hashmap_del mem m x =
        (if hm_nbuckets ?m1 > hm_cap ?m1 \<and> hm_count ?m1 \<le> hm_shrinkat ?m1 then
           (case resize mem ?m1 (hm_nbuckets ?m1 div 2) of
              None \<Rightarrow> None | Some (_, m) \<Rightarrow> Some (Some ?old, m))
         else Some (Some ?old, ?m1))"
      using present(1) bs(1)
      by (simp add: del hashmap_del_with_hash_def clip_get_hash Let_def msk cleared_def)
    show ?thesis
    proof (cases "hm_nbuckets ?m1 > hm_cap ?m1 \<and> hm_count ?m1 \<le> hm_shrinkat ?m1")
      case False
      then show ?thesis using found mx map1 ok1 cnt1 cnt by auto
    next
      case True
      have half: "ring_size (length ?bs div 2)" "hm_cap m \<le> length ?bs div 2"
        using ring_size_half [OF n cap(1)] True by (simp_all add: len)
      have "hm_count ?m1 \<le> length ?bs div 10" using True cap(2) by simp
      then have few: "hm_count ?m1 < length ?bs div 2" using ring_size_ge [OF n] by linarith
      have conds: "hm_count ?m1 < hm_nbuckets ?m1 div 2" "hm_count ?m1 \<le> 65535" "hm_cap ?m1 \<le> hm_nbuckets ?m1 div 2"
        "ring_size (hm_nbuckets ?m1 div 2)"
        using half few b by (simp_all add: len)
      obtain r m' where m': "resize mem ?m1 (hm_nbuckets ?m1 div 2) = Some (r, m')" "hmap_ok hash cmp key m'"
        "entries (hm_buckets m') = entries (hm_buckets ?m1)" "hm_count m' = hm_count ?m1" "hm_oom m' = hm_oom ?m1"
      proof (rule resize_ok [OF ok1 conds(4,1,2,3), of mem])
        assume "resize mem ?m1 (hm_nbuckets ?m1 div 2) = Some (False, ?m1)"
        then show thesis using that [of False ?m1] ok1 by simp
      next
        fix m2 assume "resize mem ?m1 (hm_nbuckets ?m1 div 2) = Some (True, m2)" "hmap_ok hash cmp key m2"
          "entries (hm_buckets m2) = entries (hm_buckets ?m1)" "hm_count m2 = hm_count ?m1" "hm_oom m2 = hm_oom ?m1"
        then show thesis by (rule that)
      qed
      have "hm_map key m' = hm_map key ?m1"
        by (rule hm_map_cong) (use m'(3) ok1 in \<open>auto simp: hmap_ok_def\<close>)
      then show ?thesis using found True m' mx map1 by simp
    qed
  qed
qed

text \<open>Clearing.\<close>

lemma clear_refines:
  assumes ok: "hmap_ok hash cmp key m"
  shows "hmap_ok hash cmp key (snd (hashmap_clear m upd))" and "hm_map key (snd (hashmap_clear m upd)) = Map.empty"
    and "hm_count (snd (hashmap_clear m upd)) = 0" and "hm_oom (snd (hashmap_clear m upd)) = hm_oom m"
    and "fst (hashmap_clear m upd) = (if hm_elfree m then map bk_item (occupied (hm_buckets m)) else [])"
proof -
  have z: "bk_dib (empty_bucket (hm_zero m)) = 0" by (simp add: empty_bucket_def)
  have n: "ring_size (hm_nbuckets m)" "ring_size (hm_cap m)" using ok by (auto simp: hmap_ok_def)
  show "hmap_ok hash cmp key (snd (hashmap_clear m upd))"
    using ok n ring_size_pos [OF n(1)] ring_size_pos [OF n(2)]
    by (auto simp: hmap_ok_def hashmap_clear_def Let_def entries_replicate [OF z] rh_table_empty [OF z]
          grow_limit_less shrink_limit_def)
  show "hm_map key (snd (hashmap_clear m upd)) = Map.empty"
    by (simp add: hashmap_clear_def Let_def hm_map_def occupied_def z)
qed (simp_all add: hashmap_clear_def Let_def free_elements_def)

text \<open>One call: it returns, keeps the map well formed, and does what the call does to the finite map.\<close>

lemma step_refines:
  assumes ok: "hmap_ok hash cmp key m" and b: "hm_count m < 65535"
  shows "\<exists>r oom m'. hop_step mem op m = Some ((r, oom), m') \<and> hmap_ok hash cmp key m' \<and>
    map_step key op oom (hm_map key m) = (r, hm_map key m') \<and> hm_count m' \<le> hm_count m + 1"
proof (cases op)
  case (Hset x)
  show ?thesis
    by (rule set_refines [OF ok b, of mem x]) (use Hset in \<open>auto simp: hashmap_oom_def\<close>)
next
  case (Hget x)
  show ?thesis
    by (rule get_refines [OF ok, of x]) (use Hget ok in auto)
next
  case (Hwrite x)
  show ?thesis
  proof (rule get_refines [OF ok, of x])
    fix i assume i: "hashmap_get m x = Some (Some i)" "hm_map key m (key x) = Some (hm_deref m i)"
      "i < hm_nbuckets m" "bk_dib (hm_buckets m ! i) \<noteq> 0" "key (hm_deref m i) = key x"
    then show ?thesis using write_refines [OF ok i(3,4,5)] Hwrite by simp
  qed (use Hwrite ok in simp)
next
  case (Hdel x)
  obtain m' where "hashmap_del mem m x = Some (hm_map key m (key x), m')" "hmap_ok hash cmp key m'"
    "hm_map key m' = (hm_map key m)(key x := None)" "hm_count m' \<le> hm_count m"
    using del_refines [OF ok, of mem x] b by auto
  then show ?thesis using Hdel by simp
next
  case (Hclear upd)
  then show ?thesis using clear_refines [OF ok, of upd] by (simp add: Let_def)
qed

lemma run_refines:
  assumes "hmap_ok hash cmp key m" and "hm_count m + length ops \<le> 65535"
  shows "\<exists>rs ooms m'. hop_run ops m = Some (zip rs ooms, m') \<and> length rs = length ops \<and> length ooms = length ops \<and>
    hmap_ok hash cmp key m' \<and> map_run key (map snd ops) ooms (hm_map key m) = (rs, hm_map key m')"
  using assms
proof (induction ops arbitrary: m)
  case Nil
  then show ?case by simp
next
  case (Cons a ops)
  obtain mem op where a: "a = (mem, op)" by (cases a)
  have "hm_count m < 65535" using Cons.prems(2) by simp
  then obtain r oom m1 where s: "hop_step mem op m = Some ((r, oom), m1)" "hmap_ok hash cmp key m1"
      "map_step key op oom (hm_map key m) = (r, hm_map key m1)" "hm_count m1 \<le> hm_count m + 1"
    using step_refines [OF Cons.prems(1)] by blast
  moreover obtain rs ooms m' where "hop_run ops m1 = Some (zip rs ooms, m')" "length rs = length ops"
      "length ooms = length ops" "hmap_ok hash cmp key m'"
      "map_run key (map snd ops) ooms (hm_map key m1) = (rs, hm_map key m')"
    using Cons.IH [OF s(2)] s(4) Cons.prems(2) by auto
  ultimately show ?case
    by (intro exI [of _ "r # rs"] exI [of _ "oom # ooms"] exI [of _ m']) (simp add: a)
qed

end

subsection \<open>Iteration\<close>

text \<open>The client's loop \<open>while (hashmap_iter(map, &i, &item))\<close>, which collects the items.\<close>

function iter_items :: "'a hashmap \<Rightarrow> nat \<Rightarrow> 'a list" where
  "iter_items m i =
     (case hashmap_iter m i of None \<Rightarrow> [] | Some (b, j) \<Rightarrow> hm_deref m b # iter_items m j)"
  by pat_completeness auto

lemma iter_from_bounds: "iter_from bs i = Some (b, j) \<Longrightarrow> i \<le> b \<and> b < length bs \<and> j = b + 1"
proof (induction bs i rule: iter_from.induct)
  case (1 bs i)
  then show ?case by (subst (asm) (2) iter_from.simps) (fastforce split: if_splits)
qed

termination iter_items
proof (relation "measure (\<lambda>(m, i). length (hm_buckets m) - i)")
  fix m :: "'a hashmap" and i b j x
  assume "hashmap_iter m i = Some x" "(b, j) = x"
  then show "((m, j), m, i) \<in> measure (\<lambda>(m, i). length (hm_buckets m) - i)"
    using iter_from_bounds [of "hm_buckets m" i b j] by (auto simp: hashmap_iter_def)
qed simp

declare iter_items.simps [simp del]

lemma iter_from_skip:
  "i < length bs \<Longrightarrow> bk_dib (bs ! i) = 0 \<Longrightarrow> iter_from bs i = iter_from bs (Suc i)"
  by (subst iter_from.simps) simp

lemma iter_items_drop: "iter_items m i = map bk_item (occupied (drop i (hm_buckets m)))"
proof (induction "length (hm_buckets m) - i" arbitrary: i)
  case 0
  then show ?case by (subst iter_items.simps, subst hashmap_iter_def, subst iter_from.simps) (simp add: occupied_def)
next
  case (Suc n)
  then have i: "i < length (hm_buckets m)" by linarith
  have d: "drop i (hm_buckets m) = hm_buckets m ! i # drop (Suc i) (hm_buckets m)"
    using i by (rule Cons_nth_drop_Suc [symmetric])
  have IH: "iter_items m (Suc i) = map bk_item (occupied (drop (Suc i) (hm_buckets m)))"
    using Suc by (intro Suc.hyps(1)) linarith
  show ?case
  proof (cases "bk_dib (hm_buckets m ! i) = 0")
    case True
    have "iter_items m i = iter_items m (Suc i)"
      by (subst (1 2) iter_items.simps) (simp add: hashmap_iter_def iter_from_skip [OF i True])
    then show ?thesis using IH True by (simp add: d occupied_def)
  next
    case False
    have "iter_from (hm_buckets m) i = Some (i, Suc i)"
      using i False by (subst iter_from.simps) simp
    then show ?thesis using IH False
      by (subst iter_items.simps) (simp add: hashmap_iter_def d occupied_def hm_deref_def)
  qed
qed

context hashed_items begin

text \<open>Every item of the map is seen exactly once.\<close>

lemma iter_complete:
  assumes "hmap_ok hash cmp key m"
  shows "distinct (map key (iter_items m 0))" and "set (iter_items m 0) = ran (hm_map key m)"
proof -
  have ky: "keyed key (entries (hm_buckets m))" using assms by (simp add: hmap_ok_def)
  then show "distinct (map key (iter_items m 0))"
    unfolding entries_occupied keyed_mset by (simp add: iter_items_drop comp_def)
  have "x \<in> set (iter_items m 0) \<longleftrightarrow> (\<exists>h. (h, x) \<in># entries (hm_buckets m))" for x
    by (auto simp: iter_items_drop entries_occupied)
  then show "set (iter_items m 0) = ran (hm_map key m)"
    by (auto simp: ran_def hm_map_iff [OF ky])
qed

end

end
