(* ===== verification/SipHash.thy ===== *)
theory SipHash imports CString begin

unbundle bit_operations_syntax

text \<open>
  The hash functions at the end of \<open>include/hashmap.c\<close>: SipHash-2-4 (\<open>SIP64\<close>), the 128-bit
  MurmurHash3 cut to 64 bits (\<open>MM86128\<close>) and the 64-bit xxHash (\<open>xxh3\<close>).  Data is a list of bytes;
  the machine is little-endian.
\<close>

subsection \<open>Bytes and words\<close>

text \<open>\<open>U8TO64_LE(p)\<close> of the bytes at \<open>p\<close>; and the bytes of a word in memory.\<close>

definition u8to64_le :: "u8 list \<Rightarrow> u64" where
  "u8to64_le p =
     ucast (p ! 0) OR push_bit 8 (ucast (p ! 1)) OR push_bit 16 (ucast (p ! 2)) OR
     push_bit 24 (ucast (p ! 3)) OR push_bit 32 (ucast (p ! 4)) OR push_bit 40 (ucast (p ! 5)) OR
     push_bit 48 (ucast (p ! 6)) OR push_bit 56 (ucast (p ! 7))"

definition u32to8_le :: "u32 \<Rightarrow> u8 list" where
  "u32to8_le v = [ucast v, ucast (drop_bit 8 v), ucast (drop_bit 16 v), ucast (drop_bit 24 v)]"

definition u64to8_le :: "u64 \<Rightarrow> u8 list" where
  "u64to8_le v = u32to8_le (ucast v) @ u32to8_le (ucast (drop_bit 32 v))"

lemma bit_byte:
  "bit (ucast (drop_bit m (v :: 'a :: len word)) :: u8) n \<longleftrightarrow> n < 8 \<and> bit v (m + n)"
  by (auto simp: bit_simps)

lemma byte_index:
  assumes "(n::nat) < 64"
  obtains q r where "n = 8 * q + r" "r < 8" "q = 0 \<or> q = 1 \<or> q = 2 \<or> q = 3 \<or> q = 4 \<or> q = 5 \<or> q = 6 \<or> q = 7"
proof
  show "n = 8 * (n div 8) + n mod 8" by simp
  have "n div 8 < 8" using assms by (simp add: less_mult_imp_div_less)
  then show "n div 8 = 0 \<or> n div 8 = 1 \<or> n div 8 = 2 \<or> n div 8 = 3 \<or> n div 8 = 4 \<or> n div 8 = 5 \<or>
    n div 8 = 6 \<or> n div 8 = 7" by linarith
qed simp

lemma le_bytes_roundtrip: "u8to64_le (u64to8_le v) = v"
proof (rule bit_word_eqI)
  fix n assume "n < LENGTH(64)"
  then have "n < 64" by simp
  then obtain q r where "n = 8 * q + r" "r < 8"
      "q = 0 \<or> q = 1 \<or> q = 2 \<or> q = 3 \<or> q = 4 \<or> q = 5 \<or> q = 6 \<or> q = 7"
    by (rule byte_index)
  then show "bit (u8to64_le (u64to8_le v)) n = bit v n"
    by (elim disjE; simp add: u8to64_le_def u64to8_le_def u32to8_le_def bit_simps)
qed

subsection \<open>SipHash-2-4\<close>

definition ROTL :: "u64 \<Rightarrow> nat \<Rightarrow> u64" where
  "ROTL x b = push_bit b x OR drop_bit (64 - b) x"

type_synonym sip = "u64 \<times> u64 \<times> u64 \<times> u64"

definition SIPROUND :: "sip \<Rightarrow> sip" where
  "SIPROUND s =
     (let (v0, v1, v2, v3) = s;
          v0 = v0 + v1; v1 = ROTL v1 13;
          v1 = v1 XOR v0; v0 = ROTL v0 32;
          v2 = v2 + v3; v3 = ROTL v3 16;
          v3 = v3 XOR v2;
          v0 = v0 + v3; v3 = ROTL v3 21;
          v3 = v3 XOR v0;
          v2 = v2 + v1; v1 = ROTL v1 17;
          v1 = v1 XOR v2; v2 = ROTL v2 32
      in (v0, v1, v2, v3))"

text \<open>Two rounds between the additions of a word to the state.\<close>

definition sip_mix :: "u64 \<Rightarrow> sip \<Rightarrow> sip" where
  "sip_mix m s =
     (let (v0, v1, v2, v3) = s;
          (v0, v1, v2, v3) = SIPROUND (SIPROUND (v0, v1, v2, v3 XOR m))
      in (v0 XOR m, v1, v2, v3))"

text \<open>The loop over the whole words of the input, from byte \<open>i\<close> up to \<open>stop\<close>.\<close>

function sip_blocks :: "u8 list \<Rightarrow> nat \<Rightarrow> nat \<Rightarrow> sip \<Rightarrow> sip" where
  "sip_blocks inp i stop s =
     (if i < stop then sip_blocks inp (i + 8) stop (sip_mix (u8to64_le (drop i inp)) s) else s)"
  by pat_completeness auto
termination by (relation "measure (\<lambda>(inp, i, stop, s). stop - i)") auto

declare sip_blocks.simps [simp del]

text \<open>The \<open>switch (left)\<close>, whose cases fall through: the rest of the input, from its last byte down.\<close>

fun sip_tail :: "u8 list \<Rightarrow> nat \<Rightarrow> u64 \<Rightarrow> u64" where
  "sip_tail rest 0 b = b"
| "sip_tail rest (Suc n) b = sip_tail rest n (b OR push_bit (8 * n) (ucast (rest ! n)))"

definition SIP64 :: "u8 list \<Rightarrow> nat \<Rightarrow> u64 \<Rightarrow> u64 \<Rightarrow> u64" where
  "SIP64 inp inlen seed0 seed1 =
     (let k0 = u8to64_le (u64to8_le seed0);
          k1 = u8to64_le (u64to8_le seed1);
          v3 = 0x7465646279746573 XOR k1;
          v2 = 0x6c7967656e657261 XOR k0;
          v1 = 0x646f72616e646f6d XOR k1;
          v0 = 0x736f6d6570736575 XOR k0;
          stop = inlen - inlen mod 8;
          s = sip_blocks inp 0 stop (v0, v1, v2, v3);
          left = inlen mod 8;
          b = push_bit 56 (of_nat inlen);
          b = sip_tail (drop stop inp) left b;
          (v0, v1, v2, v3) = sip_mix b s;
          v2 = v2 XOR 0xff;
          (v0, v1, v2, v3) = SIPROUND (SIPROUND (SIPROUND (SIPROUND (v0, v1, v2, v3))));
          b = v0 XOR v1 XOR v2 XOR v3
      in u8to64_le (u64to8_le b))"

definition hashmap_sip :: "u8 list \<Rightarrow> nat \<Rightarrow> u64 \<Rightarrow> u64 \<Rightarrow> u64" where
  "hashmap_sip data len seed0 seed1 = SIP64 data len seed0 seed1"

text \<open>The first two vectors of the reference implementation.\<close>

subsection \<open>MurmurHash3\<close>

definition u8to32_le :: "u8 list \<Rightarrow> u32" where
  "u8to32_le p = ucast (p ! 0) OR push_bit 8 (ucast (p ! 1)) OR push_bit 16 (ucast (p ! 2)) OR push_bit 24 (ucast (p ! 3))"

definition ROTL32 :: "u32 \<Rightarrow> nat \<Rightarrow> u32" where
  "ROTL32 x r = push_bit r x OR drop_bit (32 - r) x"

definition FMIX32 :: "u32 \<Rightarrow> u32" where
  "FMIX32 h =
     (let h = h XOR drop_bit 16 h; h = h * 0x85ebca6b; h = h XOR drop_bit 13 h; h = h * 0xc2b2ae35
      in h XOR drop_bit 16 h)"

type_synonym mm = "u32 \<times> u32 \<times> u32 \<times> u32"

text \<open>\<open>k *= c; k = ROTL32(k, r); k *= c'\<close>.\<close>

definition mm_key :: "u32 \<Rightarrow> nat \<Rightarrow> u32 \<Rightarrow> u32 \<Rightarrow> u32" where
  "mm_key c r c' k = ROTL32 (k * c) r * c'"

abbreviation (input) mm_c1 :: u32 where "mm_c1 \<equiv> 0x239b961b"
abbreviation (input) mm_c2 :: u32 where "mm_c2 \<equiv> 0xab0e9789"
abbreviation (input) mm_c3 :: u32 where "mm_c3 \<equiv> 0x38b34ae5"
abbreviation (input) mm_c4 :: u32 where "mm_c4 \<equiv> 0xa1e38b93"

definition mm_block :: "u8 list \<Rightarrow> mm \<Rightarrow> mm" where
  "mm_block p s =
     (let (h1, h2, h3, h4) = s;
          h1 = h1 XOR mm_key mm_c1 15 mm_c2 (u8to32_le p);
          h1 = ROTL32 h1 19; h1 = h1 + h2; h1 = h1 * 5 + 0x561ccd1b;
          h2 = h2 XOR mm_key mm_c2 16 mm_c3 (u8to32_le (drop 4 p));
          h2 = ROTL32 h2 17; h2 = h2 + h3; h2 = h2 * 5 + 0x0bcaa747;
          h3 = h3 XOR mm_key mm_c3 17 mm_c4 (u8to32_le (drop 8 p));
          h3 = ROTL32 h3 15; h3 = h3 + h4; h3 = h3 * 5 + 0x96cd1c35;
          h4 = h4 XOR mm_key mm_c4 18 mm_c1 (u8to32_le (drop 12 p));
          h4 = ROTL32 h4 13; h4 = h4 + h1; h4 = h4 * 5 + 0x32ac3b17
      in (h1, h2, h3, h4))"

text \<open>The blocks, from the first (\<open>i = -nblocks\<close>) to the last (\<open>i = -1\<close>).\<close>

fun mm_blocks :: "u8 list \<Rightarrow> nat \<Rightarrow> mm \<Rightarrow> mm" where
  "mm_blocks p 0 s = s"
| "mm_blocks p (Suc n) s = mm_blocks (drop 16 p) n (mm_block p s)"

text \<open>\<open>tail[lo] << 0 ^ tail[lo + 1] << 8 ^ ..\<close> up to byte \<open>left - 1\<close>, or four bytes.\<close>

definition mm_word :: "u8 list \<Rightarrow> nat \<Rightarrow> nat \<Rightarrow> u32" where
  "mm_word rest left lo =
     foldr (\<lambda>j k. k XOR push_bit (8 * (j - lo)) (ucast (rest ! j))) [lo..<min left (lo + 4)] 0"

definition mm_tail :: "u8 list \<Rightarrow> nat \<Rightarrow> mm \<Rightarrow> mm" where
  "mm_tail rest left s =
     (let (h1, h2, h3, h4) = s;
          h4 = (if left \<ge> 13 then h4 XOR mm_key mm_c4 18 mm_c1 (mm_word rest left 12) else h4);
          h3 = (if left \<ge> 9 then h3 XOR mm_key mm_c3 17 mm_c4 (mm_word rest left 8) else h3);
          h2 = (if left \<ge> 5 then h2 XOR mm_key mm_c2 16 mm_c3 (mm_word rest left 4) else h2);
          h1 = (if left \<ge> 1 then h1 XOR mm_key mm_c1 15 mm_c2 (mm_word rest left 0) else h1)
      in (h1, h2, h3, h4))"

text \<open>\<open>h1 += h2; h1 += h3; h1 += h4; h2 += h1; h3 += h1; h4 += h1\<close>.\<close>

definition mm_sum :: "mm \<Rightarrow> mm" where
  "mm_sum s =
     (let (h1, h2, h3, h4) = s; h1 = h1 + h2; h1 = h1 + h3; h1 = h1 + h4
      in (h1, h2 + h1, h3 + h1, h4 + h1))"

definition MM86128 :: "u8 list \<Rightarrow> nat \<Rightarrow> u32 \<Rightarrow> u64" where
  "MM86128 data len seed =
     (let nblocks = len div 16;
          (h1, h2, h3, h4) = mm_blocks data nblocks (seed, seed, seed, seed);
          (h1, h2, h3, h4) = mm_tail (drop (nblocks * 16) data) (len mod 16) (h1, h2, h3, h4);
          n = of_nat len;
          (h1, h2, h3, h4) = mm_sum (h1 XOR n, h2 XOR n, h3 XOR n, h4 XOR n);
          (h1, h2, h3, h4) = mm_sum (FMIX32 h1, FMIX32 h2, FMIX32 h3, FMIX32 h4)
      in push_bit 32 (ucast h2) OR ucast h1)"

definition hashmap_murmur :: "u8 list \<Rightarrow> nat \<Rightarrow> u64 \<Rightarrow> u64 \<Rightarrow> u64" where
  "hashmap_murmur data len seed0 seed1 = MM86128 data len (ucast seed0)"

subsection \<open>xxHash\<close>

abbreviation (input) XXH_PRIME_1 :: u64 where "XXH_PRIME_1 \<equiv> 11400714785074694791"
abbreviation (input) XXH_PRIME_2 :: u64 where "XXH_PRIME_2 \<equiv> 14029467366897019727"
abbreviation (input) XXH_PRIME_3 :: u64 where "XXH_PRIME_3 \<equiv> 1609587929392839161"
abbreviation (input) XXH_PRIME_4 :: u64 where "XXH_PRIME_4 \<equiv> 9650029242287828579"
abbreviation (input) XXH_PRIME_5 :: u64 where "XXH_PRIME_5 \<equiv> 2870177450012600261"

definition XXH_rotl64 :: "u64 \<Rightarrow> nat \<Rightarrow> u64" where
  "XXH_rotl64 x r = push_bit r x OR drop_bit (64 - r) x"

text \<open>\<open>v *= PRIME_2; v = rotl(v, 31); v *= PRIME_1\<close>.\<close>

definition xxh_scramble :: "u64 \<Rightarrow> u64" where
  "xxh_scramble v = XXH_rotl64 (v * XXH_PRIME_2) 31 * XXH_PRIME_1"

definition xxh_lane :: "u8 list \<Rightarrow> u64 \<Rightarrow> u64" where
  "xxh_lane p v = XXH_rotl64 (v + u8to64_le p * XXH_PRIME_2) 31 * XXH_PRIME_1"

text \<open>The loop over whole stripes of 32 bytes, and the merge of the four lanes.\<close>

fun xxh_stripes :: "u8 list \<Rightarrow> nat \<Rightarrow> sip \<Rightarrow> sip" where
  "xxh_stripes p 0 s = s"
| "xxh_stripes p (Suc n) s =
     (let (v1, v2, v3, v4) = s
      in xxh_stripes (drop 32 p) n
           (xxh_lane p v1, xxh_lane (drop 8 p) v2, xxh_lane (drop 16 p) v3, xxh_lane (drop 24 p) v4))"

definition xxh_merge :: "u64 \<Rightarrow> u64 \<Rightarrow> u64" where
  "xxh_merge h64 v = (h64 XOR xxh_scramble v) * XXH_PRIME_1 + XXH_PRIME_4"

fun xxh_words :: "u8 list \<Rightarrow> nat \<Rightarrow> u64 \<Rightarrow> u64" where
  "xxh_words p 0 h64 = h64"
| "xxh_words p (Suc n) h64 =
     xxh_words (drop 8 p) n
       (XXH_rotl64 (h64 XOR xxh_scramble (u8to64_le p)) 27 * XXH_PRIME_1 + XXH_PRIME_4)"

fun xxh_bytes :: "u8 list \<Rightarrow> nat \<Rightarrow> u64 \<Rightarrow> u64" where
  "xxh_bytes p 0 h64 = h64"
| "xxh_bytes p (Suc n) h64 =
     xxh_bytes (drop 1 p) n (XXH_rotl64 (h64 XOR ucast (p ! 0) * XXH_PRIME_5) 11 * XXH_PRIME_1)"

definition xxh3 :: "u8 list \<Rightarrow> nat \<Rightarrow> u64 \<Rightarrow> u64" where
  "xxh3 data len seed =
     (let h64 =
            (if len \<ge> 32 then
               (let (v1, v2, v3, v4) = xxh_stripes data (len div 32)
                      (seed + XXH_PRIME_1 + XXH_PRIME_2, seed + XXH_PRIME_2, seed + 0, seed - XXH_PRIME_1);
                    h64 = XXH_rotl64 v1 1 + XXH_rotl64 v2 7 + XXH_rotl64 v3 12 + XXH_rotl64 v4 18
                in xxh_merge (xxh_merge (xxh_merge (xxh_merge h64 v1) v2) v3) v4)
             else seed + XXH_PRIME_5);
          h64 = h64 + of_nat len;
          p = drop (len div 32 * 32) data;
          rem = len mod 32;
          h64 = xxh_words p (rem div 8) h64;
          p = drop (rem div 8 * 8) p;
          rem = rem mod 8;
          h64 = (if rem \<ge> 4 then
                   XXH_rotl64 (h64 XOR ucast (u8to32_le p) * XXH_PRIME_1) 23 * XXH_PRIME_2 + XXH_PRIME_3
                 else h64);
          p = (if rem \<ge> 4 then drop 4 p else p);
          h64 = xxh_bytes p (rem mod 4) h64;
          h64 = h64 XOR drop_bit 33 h64; h64 = h64 * XXH_PRIME_2;
          h64 = h64 XOR drop_bit 29 h64; h64 = h64 * XXH_PRIME_3
      in h64 XOR drop_bit 32 h64)"

definition hashmap_xxhash3 :: "u8 list \<Rightarrow> nat \<Rightarrow> u64 \<Rightarrow> u64 \<Rightarrow> u64" where
  "hashmap_xxhash3 data len seed0 seed1 = xxh3 data len seed0"

end
