(* ===== verification/SyscallMap.thy ===== *)
theory SyscallMap imports HashMapRefine SipHash ProcImage begin

text \<open>
  The hash map of the syscall tool: its items and callbacks (\<open>syscall_hash\<close>, \<open>user_compare\<close>,
  \<open>user_hash\<close> of \<open>include/helpers.h\<close>) and its use in \<open>print_syscall\<close> of \<open>proc_image.c\<close>, with the
  allocation failures the program does not look for.
\<close>

subsection \<open>Items and callbacks\<close>

record syscall_hash =
  sh_key :: s32
  sh_value :: proc_syscall_info

definition zero_item :: syscall_hash where
  "zero_item = \<lparr>sh_key = 0, sh_value = zero_info\<rparr>"

text \<open>The difference of two \<open>int\<close>s, which wraps where C leaves the overflow undefined.\<close>

definition user_compare :: "syscall_hash \<Rightarrow> syscall_hash \<Rightarrow> s32" where
  "user_compare ua ub = sh_key ua - sh_key ub"

text \<open>\<open>char key_str[20]\<close> holds the text of every \<open>int\<close> (\<open>key_str_fits\<close>).\<close>

definition user_hash :: "syscall_hash \<Rightarrow> u64 \<Rightarrow> u64 \<Rightarrow> u64" where
  "user_hash user seed0 seed1 =
     (let key_str = sprintf_d (sh_key user)
      in hashmap_sip (map of_char key_str) (length key_str) seed0 seed1)"

lemma length_dec_of_nat: "n < 10 ^ d \<Longrightarrow> 0 < d \<Longrightarrow> length (dec_of_nat n) \<le> d"
proof (induction d arbitrary: n)
  case (Suc d)
  show ?case
  proof (cases "n < 10")
    case True
    then show ?thesis by (subst dec_of_nat.simps) simp
  next
    case False
    have "n div 10 < 10 ^ d" using Suc.prems(1) by (simp add: less_mult_imp_div_less mult.commute)
    moreover have "0 < d" using Suc.prems(1) False by (cases d) simp_all
    ultimately have "length (dec_of_nat (n div 10)) \<le> d" by (rule Suc.IH)
    then show ?thesis using False by (subst dec_of_nat.simps) simp
  qed
qed simp

lemma key_str_fits: "length (sprintf_d key) < 20"
proof -
  have b: "- (2 ^ 31) \<le> sint key" "sint key < 2 ^ 31"
    using sint_ge [of key] sint_lt [of key] by simp_all
  have "length (dec_of_nat (nat (sint key))) \<le> 10" "length (dec_of_nat (nat (- sint key))) \<le> 10"
    using b by (intro length_dec_of_nat; simp)+
  then show ?thesis by (simp add: sprintf_d_def)
qed

interpretation sysmap: hashed_items user_hash user_compare sh_key
  by unfold_locales (simp_all add: user_compare_def user_hash_def)

subsection \<open>The use in the report\<close>

text \<open>
  \<open>hashmap_new(sizeof(struct syscall_hash), 0, 0, 0, user_hash, user_compare, NULL, NULL)\<close>: an item
  is a key, three numbers and 500 counters of 4 bytes.
\<close>

definition syscall_map_new :: "(nat \<Rightarrow> bool) \<Rightarrow> syscall_hash hashmap option" where
  "syscall_map_new mem = hashmap_new mem 2016 zero_item 0 0 0 user_hash (Some user_compare) False"

text \<open>
  Lookup, update of the value in place, or insertion of a new item: the value that is printed and
  the map.
\<close>

definition map_update_syscalls ::
  "(nat \<Rightarrow> bool) \<Rightarrow> syscall_seq \<Rightarrow> syscall_hash hashmap \<Rightarrow> (proc_syscall_info \<times> syscall_hash hashmap) option" where
  "map_update_syscalls mem e m =
     (case hashmap_get m (zero_item\<lparr>sh_key := sq_pid e\<rparr>) of
        None \<Rightarrow> None
      | Some (Some i) \<Rightarrow>
          (case update_syscalls e (sh_value (hm_deref m i)) of None \<Rightarrow> None
           | Some p \<Rightarrow> Some (p, hm_write m i ((hm_deref m i)\<lparr>sh_value := p\<rparr>)))
      | Some None \<Rightarrow>
          (case update_syscalls e zero_info of None \<Rightarrow> None
           | Some p \<Rightarrow>
               (case hashmap_set mem m \<lparr>sh_key = sq_pid e, sh_value = p\<rparr> of
                  None \<Rightarrow> None | Some (_, m) \<Rightarrow> Some (p, m))))"

text \<open>
  \<open>print_syscall\<close> with the pointer \<open>map\<close>, \<open>None\<close> for \<open>NULL\<close>, which \<open>hashmap_get\<close> dereferences; the
  field \<open>pv_map\<close>, the finite map of \<open>ProcImage\<close>, is not used.
\<close>

definition print_syscall_hm ::
  "(nat \<Rightarrow> bool) \<Rightarrow> s32 \<Rightarrow> sc_ctrl \<Rightarrow> syscall_seq \<Rightarrow> penv \<Rightarrow> syscall_hash hashmap option \<Rightarrow>
   (s32 \<times> shown_line list \<times> penv \<times> syscall_hash hashmap option) option" where
  "print_syscall_hm mem err c e env mp =
     (if err <s 0 then Some (-1, [], env, mp)
      else if \<not> sc_func c then Some (0, [], env, mp)
      else
        (let column = (sc_target_tgid c \<noteq> -1);
             head = header_lines 2 (pv_sc_prev_tgid env) column env;
             env = env\<lparr>pv_sc_prev_tgid := tgid_mode column, pv_prev_image := 2\<rparr>;
             env = sc_sums e env in
         if pv_sum_count env = 0 then None
         else
           (let avg_delay = pv_sum_delay env div pv_sum_count env;
                mp = (if \<not> pv_enable_hashmap env then syscall_map_new mem else mp);
                env = env\<lparr>pv_enable_hashmap := True\<rparr> in
            if sc_shown c e then
              (case mp of None \<Rightarrow> None
               | Some m \<Rightarrow>
                   (case map_update_syscalls mem e m of None \<Rightarrow> None
                    | Some (p, m) \<Rightarrow>
                        if sq_proc_count e = 0 \<or> length (sq_record e) < unat (sq_count e) then None
                        else Some
                          (0, head @ [Syscall_line (if sc_target_tgid c \<noteq> -1 then Some (sq_tgid e) else None)
                             (sq_pid e) (ranked p) (sq_proc_sd e div ucast (sq_proc_count e)) avg_delay
                             (sq_max_delay e) (pv_max_delay env) (sq_min_delay e) (pv_min_delay env)
                             (take (unat (sq_count e)) (sq_record e))],
                           env, Some m)))
            else Some (0, head, env, mp))))"

subsection \<open>It is the report on a finite map\<close>

definition sc_values :: "syscall_hash hashmap \<Rightarrow> s32 \<Rightarrow> proc_syscall_info option" where
  "sc_values m k = map_option sh_value (hm_map sh_key m k)"

abbreviation sc_map_ok :: "syscall_hash hashmap \<Rightarrow> bool" where
  "sc_map_ok \<equiv> hmap_ok user_hash user_compare sh_key"

text \<open>
  The states of the two programs: the map does not exist before the first record, and afterwards its
  values are those of \<open>pv_map\<close>.
\<close>

definition map_shows :: "penv \<Rightarrow> penv \<Rightarrow> syscall_hash hashmap option \<Rightarrow> bool" where
  "map_shows env envc mp \<longleftrightarrow> envc = env\<lparr>pv_map := Map.empty\<rparr> \<and>
     (if pv_enable_hashmap env then \<exists>m. mp = Some m \<and> sc_map_ok m \<and> sc_values m = pv_map env
      else pv_map env = Map.empty \<and> mp = None)"

definition map_items :: "syscall_hash hashmap option \<Rightarrow> nat" where
  "map_items mp = (case mp of None \<Rightarrow> 0 | Some m \<Rightarrow> hm_count m)"

lemma syscall_map_new_ok:
  assumes "syscall_map_new mem = Some m"
  shows "sc_map_ok m" and "sc_values m = Map.empty" and "hm_count m = 0"
  using hashmap_new_ok(1,3) [OF assms [unfolded syscall_map_new_def hashmap_new_def], where key = sh_key]
    hashmap_new_ok(2) [OF assms [unfolded syscall_map_new_def hashmap_new_def]]
  by (auto simp: sc_values_def hmap_ok_def)

lemma syscall_map_new_granted: "\<forall>n. mem n \<Longrightarrow> \<exists>m. syscall_map_new mem = Some m"
  by (simp add: syscall_map_new_def hashmap_new_def hashmap_new_with_allocator_def Let_def)

text \<open>The update of one process's value, when the memory suffices and when it does not.\<close>

lemma map_update_refines:
  assumes ok: "sc_map_ok m" and b: "hm_count m < 65535"
    and u: "update_syscalls e (case sc_values m (sq_pid e) of Some p \<Rightarrow> p | None \<Rightarrow> zero_info) = Some p"
  shows "\<exists>m'. map_update_syscalls mem e m = Some (p, m') \<and> sc_map_ok m' \<and> hm_count m' \<le> hm_count m + 1 \<and>
    (sc_values m' = (sc_values m)(sq_pid e \<mapsto> p) \<or>
     sc_values m' = sc_values m \<and> sc_values m (sq_pid e) = None \<and> (\<exists>n. \<not> mem n))"
proof (rule sysmap.get_refines [OF ok, of "zero_item\<lparr>sh_key := sq_pid e\<rparr>"])
  assume g: "hashmap_get m (zero_item\<lparr>sh_key := sq_pid e\<rparr>) = Some None"
    "hm_map sh_key m (sh_key (zero_item\<lparr>sh_key := sq_pid e\<rparr>)) = None"
  then have n: "sc_values m (sq_pid e) = None" by (simp add: sc_values_def)
  let ?x = "\<lparr>sh_key = sq_pid e, sh_value = p\<rparr>"
  show ?thesis
  proof (rule sysmap.set_refines [OF ok b, of mem ?x])
    fix m' assume "hashmap_set mem m ?x = Some (hm_map sh_key m (sh_key ?x), m')" "sc_map_ok m'"
      "hm_map sh_key m' = (hm_map sh_key m)(sh_key ?x \<mapsto> ?x)" "hm_count m' \<le> hm_count m + 1"
    moreover from this(3) have "sc_values m' = (sc_values m)(sq_pid e \<mapsto> p)"
      by (simp add: sc_values_def fun_eq_iff)
    ultimately show ?thesis using g(1) n u by (simp add: map_update_syscalls_def)
  next
    fix m' assume "hashmap_set mem m ?x = Some (None, m')" "sc_map_ok m'"
      "hm_map sh_key m' = hm_map sh_key m" "hm_count m' = hm_count m" "\<exists>n. \<not> mem n"
    moreover from this(3) have "sc_values m' = sc_values m" by (simp add: sc_values_def fun_eq_iff)
    ultimately show ?thesis using g(1) n u by (simp add: map_update_syscalls_def)
  qed
next
  fix i assume g: "hashmap_get m (zero_item\<lparr>sh_key := sq_pid e\<rparr>) = Some (Some i)"
    "hm_map sh_key m (sh_key (zero_item\<lparr>sh_key := sq_pid e\<rparr>)) = Some (hm_deref m i)"
    "i < hm_nbuckets m" "bk_dib (hm_buckets m ! i) \<noteq> 0"
    "sh_key (hm_deref m i) = sh_key (zero_item\<lparr>sh_key := sq_pid e\<rparr>)"
  let ?x = "(hm_deref m i)\<lparr>sh_value := p\<rparr>"
  have k: "sh_key (hm_deref m i) = sh_key ?x" by simp
  have "sc_values m (sq_pid e) = Some (sh_value (hm_deref m i))" using g(2) by (simp add: sc_values_def)
  then have "map_update_syscalls mem e m = Some (p, hm_write m i ?x)"
    using g(1) u by (simp add: map_update_syscalls_def)
  moreover have "sc_values (hm_write m i ?x) = (sc_values m)(sq_pid e \<mapsto> p)"
    using sysmap.write_refines(2) [OF ok g(3,4) k] g(5) by (simp add: sc_values_def fun_eq_iff)
  ultimately show ?thesis using sysmap.write_refines(1,3) [OF ok g(3,4) k] by simp
qed

lemma map_update_undefined:
  assumes ok: "sc_map_ok m"
    and u: "update_syscalls e (case sc_values m (sq_pid e) of Some p \<Rightarrow> p | None \<Rightarrow> zero_info) = None"
  shows "map_update_syscalls mem e m = None"
  by (rule sysmap.get_refines [OF ok, of "zero_item\<lparr>sh_key := sq_pid e\<rparr>"])
    (use u in \<open>simp_all add: map_update_syscalls_def sc_values_def\<close>)

text \<open>The map a record is entered into, when the memory suffices.\<close>

lemma map_opened:
  assumes "map_shows env envc mp" and "\<forall>n. mem n"
  obtains m where "(if \<not> pv_enable_hashmap env then syscall_map_new mem else mp) = Some m" "sc_map_ok m"
    "sc_values m = pv_map env" "hm_count m \<le> map_items mp"
proof (cases "pv_enable_hashmap env")
  case True
  then show thesis using assms(1) that by (auto simp: map_shows_def map_items_def)
next
  case False
  then obtain m where "syscall_map_new mem = Some m" using syscall_map_new_granted [OF assms(2)] by blast
  then show thesis using False assms(1) that syscall_map_new_ok [of mem m] by (auto simp: map_shows_def)
qed

lemma print_refines:
  assumes sh: "map_shows env envc mp" and mem: "\<forall>n. mem n" and b: "map_items mp < 65535"
  shows "case print_syscall err c e env of
      None \<Rightarrow> print_syscall_hm mem err c e envc mp = None
    | Some (r, out, env') \<Rightarrow> \<exists>envc' mp'. print_syscall_hm mem err c e envc mp = Some (r, out, envc', mp') \<and>
        map_shows env' envc' mp' \<and> map_items mp' \<le> map_items mp + 1"
proof -
  have envc: "envc = env\<lparr>pv_map := Map.empty\<rparr>" using sh by (simp add: map_shows_def)
  let ?column = "sc_target_tgid c \<noteq> -1"
  let ?env = "(sc_sums e (env\<lparr>pv_sc_prev_tgid := tgid_mode ?column, pv_prev_image := 2\<rparr>))\<lparr>pv_enable_hashmap := True\<rparr>"
  let ?envc = "(sc_sums e (env\<lparr>pv_sc_prev_tgid := tgid_mode ?column, pv_prev_image := 2\<rparr>))\<lparr>pv_map := Map.empty, pv_enable_hashmap := True\<rparr>"
  have same: "sc_sums e (envc\<lparr>pv_sc_prev_tgid := tgid_mode ?column, pv_prev_image := 2\<rparr>) =
      (sc_sums e (env\<lparr>pv_sc_prev_tgid := tgid_mode ?column, pv_prev_image := 2\<rparr>))\<lparr>pv_map := Map.empty\<rparr>"
    by (simp add: envc sc_sums_def)
  have head: "header_lines 2 (pv_sc_prev_tgid envc) ?column envc = header_lines 2 (pv_sc_prev_tgid env) ?column env"
    by (simp add: envc header_lines_def header_due_def)
  obtain m where m: "(if \<not> pv_enable_hashmap env then syscall_map_new mem else mp) = Some m" "sc_map_ok m"
    "sc_values m = pv_map env" "hm_count m \<le> map_items mp"
    by (rule map_opened [OF sh mem])
  have mp: "pv_map ?env = pv_map env" "pv_enable_hashmap (sc_sums e (env\<lparr>pv_sc_prev_tgid := tgid_mode ?column, pv_prev_image := 2\<rparr>)) = pv_enable_hashmap env"
    by (simp_all add: sc_sums_def)
  consider "err <s 0 \<or> \<not> sc_func c" | "\<not> err <s 0" "sc_func c" "pv_sum_count ?env = 0"
    | "\<not> err <s 0" "sc_func c" "pv_sum_count ?env \<noteq> 0" "\<not> sc_shown c e"
    | "\<not> err <s 0" "sc_func c" "pv_sum_count ?env \<noteq> 0" "sc_shown c e" by blast
  then show ?thesis
  proof cases
    case 1
    then show ?thesis using sh by (auto simp: print_syscall_def print_syscall_hm_def)
  next
    case 2
    then show ?thesis by (simp add: print_syscall_def print_syscall_hm_def Let_def same)
  next
    case 3
    have "map_shows ?env ?envc (Some m)"
      using m(2,3) mp(1) by (simp add: map_shows_def)
    then show ?thesis using 3 m(1,4) mp(2)
      by (simp add: print_syscall_def print_syscall_hm_def Let_def same head map_items_def)
  next
    case 4
    let ?u = "update_syscalls e (case sc_values m (sq_pid e) of Some p \<Rightarrow> p | None \<Rightarrow> zero_info)"
    show ?thesis
    proof (cases ?u)
      case None
      then have "map_update_syscalls mem e m = None" by (rule map_update_undefined [OF m(2)])
      moreover have "print_syscall err c e env = None"
        using 4 None m(3) mp by (simp add: print_syscall_def sc_line_def Let_def)
      ultimately show ?thesis using 4 m(1) mp(2)
        by (simp add: print_syscall_hm_def Let_def same)
    next
      case (Some p)
      have "hm_count m < 65535" using m(4) b by simp
      then obtain m' where m': "map_update_syscalls mem e m = Some (p, m')" "sc_map_ok m'" "hm_count m' \<le> hm_count m + 1"
        "sc_values m' = (sc_values m)(sq_pid e \<mapsto> p)"
        using map_update_refines [OF m(2) _ Some, of mem] mem by blast
      have "map_shows (?env\<lparr>pv_map := (pv_map ?env)(sq_pid e \<mapsto> p)\<rparr>) ?envc (Some m')"
        using m'(2,4) m(3) mp(1) by (simp add: map_shows_def)
      then show ?thesis using 4 m(1,3,4) mp Some m'(1,3)
        by (auto simp: print_syscall_def print_syscall_hm_def sc_line_def Let_def same head map_items_def)
    qed
  qed
qed

end
