(* ===== verification/SyscallMapProps.thy ===== *)
theory SyscallMapProps imports SyscallMap ProcSyscallProps begin

text \<open>
  The hash map of the syscall tool over any run: it refines a finite map (\<open>hashmap_refines\<close>), stays
  well formed (\<open>hashmap_wellformed\<close>), and the reports printed with it are those printed with a finite
  map (\<open>syscall_map_display\<close>), as long as there are at most 65535 processes in it and memory suffices.
\<close>

subsection \<open>Any operations\<close>

text \<open>
  C4. Refinement: on a map that was just created, with any capacity and seeds, every sequence of at most
  65535 insertions, lookups, writes through a found pointer, deletions and clearings returns from every
  one of them, whatever the allocator refuses.  Growing, shrinking, displacing and shifting back
  entries do not show: the items returned and the final contents are those of the same operations on
  a finite map from pids to items, where an insertion that ran out of memory did nothing.
\<close>

theorem hashmap_refines:
  assumes "hashmap_new mem elsize zero cap s0 s1 user_hash (Some user_compare) elfree = Some m"
    and "length ops \<le> 65535"
  shows "\<exists>rs ooms m'. hop_run ops m = Some (zip rs ooms, m') \<and>
           length rs = length ops \<and> length ooms = length ops \<and>
           map_run sh_key (map snd ops) ooms Map.empty = (rs, hm_map sh_key m')"
proof -
  note new = hashmap_new_ok [OF assms(1) [unfolded hashmap_new_def]]
  have "hm_count m = 0" using new(1) [where key = sh_key] new(2) by (simp add: hmap_ok_def)
  then show ?thesis
    using sysmap.run_refines [OF new(1) [where key = sh_key], of ops] assms(2) new(3) [where key = sh_key] by auto
qed

theorem hashmap_refines_witness:
  "\<exists>m rs ooms m'. hashmap_new (\<lambda>_. True) 2016 zero_item 20 1 2 user_hash (Some user_compare) False = Some m \<and>
     hop_run [(\<lambda>_. True, Hset zero_item), (\<lambda>n. n < 5000, Hset (zero_item\<lparr>sh_key := 9\<rparr>)), (\<lambda>_. True, Hdel zero_item)] m =
       Some (zip rs ooms, m') \<and>
     map_run sh_key [Hset zero_item, Hset (zero_item\<lparr>sh_key := 9\<rparr>), Hdel zero_item] ooms Map.empty = (rs, hm_map sh_key m')"
proof -
  obtain m where m: "hashmap_new (\<lambda>_. True) 2016 zero_item 20 1 2 user_hash (Some user_compare) False = Some m"
    by (simp add: hashmap_new_def hashmap_new_with_allocator_def Let_def)
  show ?thesis
    using hashmap_refines [OF m, of "[(\<lambda>_. True, Hset zero_item), (\<lambda>n. n < 5000, Hset (zero_item\<lparr>sh_key := 9\<rparr>)),
      (\<lambda>_. True, Hdel zero_item)]"] m by auto
qed

text \<open>
  C11. The representation stays well formed: after any sequence of at most 65535 operations on a new map,
  whatever the allocator refused, the number of buckets is a power of two and larger than the count,
  the count is that of the occupied buckets, every entry is \<open>dib - 1\<close> places after the bucket its hash
  asks for, distances grow by at most one from bucket to bucket and are never larger than the count
  (so that their 16 bits do not overflow), and no two entries have the same pid.
\<close>

theorem hashmap_wellformed:
  assumes "hashmap_new mem elsize zero cap s0 s1 user_hash (Some user_compare) elfree = Some m"
    and "length ops \<le> 65535" and "hop_run ops m = Some (outs, m')"
  shows "ring_size (hm_nbuckets m') \<and> length (hm_buckets m') = hm_nbuckets m' \<and> hm_count m' < hm_nbuckets m' \<and>
    hm_count m' = length (occupied (hm_buckets m')) \<and>
    (\<forall>i < hm_nbuckets m'. bk_dib (hm_buckets m' ! i) \<noteq> 0 \<longrightarrow>
       (unat (get_hash m' (bk_item (hm_buckets m' ! i))) + (dibn (hm_buckets m' ! i) - 1)) mod hm_nbuckets m' = i) \<and>
    (\<forall>i < hm_nbuckets m'. dibn (hm_buckets m' ! ((i + 1) mod hm_nbuckets m')) \<le> dibn (hm_buckets m' ! i) + 1 \<and>
       dibn (hm_buckets m' ! i) \<le> hm_count m') \<and>
    distinct (map (\<lambda>b. sh_key (bk_item b)) (occupied (hm_buckets m')))"
proof -
  note new = hashmap_new_ok [OF assms(1) [unfolded hashmap_new_def]]
  have "hm_count m = 0" using new(1) [where key = sh_key] new(2) by (simp add: hmap_ok_def)
  then have ok: "sc_map_ok m'"
    using sysmap.run_refines [OF new(1) [where key = sh_key], of ops] assms(2,3) by auto
  then have t: "rh_table (hm_buckets m')" "length (hm_buckets m') = hm_nbuckets m'"
    "size (entries (hm_buckets m')) < length (hm_buckets m')" "hm_count m' = size (entries (hm_buckets m'))"
    "keyed sh_key (entries (hm_buckets m'))" "ring_size (hm_nbuckets m')"
    and h: "\<forall>e \<in># entries (hm_buckets m'). fst e = get_hash m' (snd e)"
    by (auto simp: hmap_ok_def)
  have "get_hash m' (bk_item (hm_buckets m' ! i)) = bk_hash (hm_buckets m' ! i)"
    if "i < hm_nbuckets m'" "bk_dib (hm_buckets m' ! i) \<noteq> 0" for i
    using h in_entriesI [of i "hm_buckets m'"] that t(2) by fastforce
  moreover have "distinct (map (\<lambda>b. sh_key (bk_item b)) (occupied (hm_buckets m')))"
    using t(5) unfolding entries_occupied keyed_mset by (simp add: comp_def)
  ultimately show ?thesis
    using t rh_tableD [OF t(1)] dib_le_size [OF t(1,3)]
    by (simp add: placed_def entries_occupied)
qed

theorem hashmap_wellformed_witness:
  "\<exists>m m'. hashmap_new (\<lambda>_. True) 2016 zero_item 0 0 0 user_hash (Some user_compare) False = Some m \<and>
     hop_run [(\<lambda>_. True, Hclear True)] m = Some ([(None, False)], m') \<and> hm_count m' < hm_nbuckets m'"
proof -
  obtain m where m: "hashmap_new (\<lambda>_. True) 2016 zero_item 0 0 0 user_hash (Some user_compare) False = Some m"
    by (simp add: hashmap_new_def hashmap_new_with_allocator_def Let_def)
  moreover have "hm_oom m = False"
    using hashmap_new_ok(7) [OF m [unfolded hashmap_new_def]] .
  then have r: "hop_run [(\<lambda>_. True, Hclear True)] m = Some ([(None, False)], snd (hashmap_clear m True))"
    by (simp add: Let_def hashmap_oom_def hashmap_clear_def)
  ultimately show ?thesis using hashmap_wellformed [OF m _ r] by auto
qed

subsection \<open>The display program\<close>

fun print_syscalls_hm ::
  "sc_ctrl \<Rightarrow> ((nat \<Rightarrow> bool) \<times> syscall_seq) list \<Rightarrow> penv \<Rightarrow> syscall_hash hashmap option \<Rightarrow>
   (shown_line list \<times> penv \<times> syscall_hash hashmap option) option" where
  "print_syscalls_hm c [] env mp = Some ([], env, mp)"
| "print_syscalls_hm c ((mem, e) # es) env mp =
     (case print_syscall_hm mem 0 c e env mp of None \<Rightarrow> None
      | Some (_, out, env, mp) \<Rightarrow>
          (case print_syscalls_hm c es env mp of None \<Rightarrow> None
           | Some (out', env, mp) \<Rightarrow> Some (out @ out', env, mp)))"

lemma print_syscalls_refines:
  assumes "map_shows env envc mp" and "\<forall>(mem, e) \<in> set es. \<forall>n. mem n" and "map_items mp + length es \<le> 65535"
  shows "map_option fst (print_syscalls_hm c es envc mp) = map_option fst (print_syscalls c (map snd es) env)"
  using assms
proof (induction es arbitrary: env envc mp)
  case Nil
  then show ?case by simp
next
  case (Cons a es)
  obtain mem e where a: "a = (mem, e)" by (cases a)
  have mem: "\<forall>n. mem n" using Cons.prems(2) a by simp
  have b: "map_items mp < 65535" using Cons.prems(3) by simp
  note step = print_refines [OF Cons.prems(1) mem b, of 0 c e]
  show ?case
  proof (cases "print_syscall 0 c e env")
    case None
    then show ?thesis using step by (simp add: a)
  next
    case (Some res)
    obtain r out env' where res: "res = (r, out, env')" by (cases res)
    obtain envc' mp' where p: "print_syscall_hm mem 0 c e envc mp = Some (r, out, envc', mp')"
      "map_shows env' envc' mp'" "map_items mp' \<le> map_items mp + 1"
      using step unfolding Some res by auto
    have "map_option fst (print_syscalls_hm c es envc' mp') = map_option fst (print_syscalls c (map snd es) env')"
      using Cons.prems(2,3) p(3) by (intro Cons.IH [OF p(2)]) auto
    then show ?thesis using p(1) Some res
      by (cases "print_syscalls_hm c es envc' mp'"; cases "print_syscalls c (map snd es) env'") (auto simp: a)
  qed
qed

text \<open>
  C7. Equivalence: as long as the allocator grants what is asked for and at most 65535 records come in, the
  display program on its hash map prints for any records what it would print on a finite map, and it
  meets undefined behaviour exactly when that would.
\<close>

theorem syscall_map_display:
  assumes "length es \<le> 65535" and "\<forall>(mem, e) \<in> set es. \<forall>n. mem n"
  shows "map_option fst (print_syscalls_hm c es penv0 None) = map_option fst (print_syscalls c (map snd es) penv0)"
proof -
  have "map_shows penv0 penv0 None" by (simp add: map_shows_def penv0_def)
  then show ?thesis by (rule print_syscalls_refines) (use assms in \<open>simp_all add: map_items_def\<close>)
qed

text \<open>Two calls number \<open>nr\<close> of process \<open>p\<close>, of \<open>d\<close> nanoseconds together.\<close>

definition two_calls :: "s32 \<Rightarrow> s32 \<Rightarrow> u64 \<Rightarrow> syscall_seq" where
  "two_calls p nr d = zero_seq\<lparr>sq_pid := p, sq_count := 2, sq_record := nr # nr # replicate 48 0, sq_sum_delay := d,
     sq_max_delay := d, sq_min_delay := 1, sq_proc_count := 2, sq_proc_sd := d\<rparr>"

theorem syscall_map_display_witness:
  "map_option fst (print_syscalls_hm sc_demo_ctrl
     [(\<lambda>_. True, two_calls 5 3 10), (\<lambda>_. True, two_calls 6 4 20), (\<lambda>_. True, two_calls 5 1 30)] penv0 None) =
   Some [Header 2 False,
     Syscall_line None 5 [(3, 2), (0, 0), (0, 0)] 5 5 10 10 1 1 [3, 3],
     Syscall_line None 6 [(4, 2), (0, 0), (0, 0)] 10 7 20 20 1 1 [4, 4],
     Syscall_line None 5 [(3, 2), (1, 2), (0, 0)] 15 10 30 30 1 1 [1, 1]]"
proof -
  have "map_option fst (print_syscalls sc_demo_ctrl [two_calls 5 3 10, two_calls 6 4 20, two_calls 5 1 30] penv0) =
    Some [Header 2 False,
     Syscall_line None 5 [(3, 2), (0, 0), (0, 0)] 5 5 10 10 1 1 [3, 3],
     Syscall_line None 6 [(4, 2), (0, 0), (0, 0)] 10 7 20 20 1 1 [4, 4],
     Syscall_line None 5 [(3, 2), (1, 2), (0, 0)] 15 10 30 30 1 1 [1, 1]]"
    by code_simp
  then show ?thesis
    using syscall_map_display [of "[(\<lambda>_. True, two_calls 5 3 10), (\<lambda>_. True, two_calls 6 4 20),
        (\<lambda>_. True, two_calls 5 1 30)]" sc_demo_ctrl]
    by simp
qed

text \<open>Without memory for the map, the first record that is to be shown makes the program follow \<open>NULL\<close>.\<close>

lemma refused_map_crashes:
  assumes "\<not> err <s 0" and "sc_func c" and "sc_shown c e" and "\<not> pv_enable_hashmap env"
    and "syscall_map_new mem = None"
  shows "print_syscall_hm mem err c e env mp = None"
  using assms by (simp add: print_syscall_hm_def Let_def sc_sums_def)

text \<open>
  And when a later allocation is refused, the values of a new process are printed but not kept: its
  next record starts from zero.
\<close>

lemma refused_growth_forgets:
  assumes "sc_map_ok m" and "hm_count m < 65535" and "hm_growat m \<le> hm_count m" and "\<forall>n. \<not> mem n"
    and "sc_values m (sq_pid e) = None" and "update_syscalls e zero_info = Some p"
  shows "\<exists>m'. map_update_syscalls mem e m = Some (p, m') \<and> sc_values m' = sc_values m"
proof (rule sysmap.get_refines [OF assms(1), of "zero_item\<lparr>sh_key := sq_pid e\<rparr>"])
  assume g: "hashmap_get m (zero_item\<lparr>sh_key := sq_pid e\<rparr>) = Some None"
  let ?x = "\<lparr>sh_key = sq_pid e, sh_value = p\<rparr>" and ?m = "m\<lparr>hm_oom := False\<rparr>"
  have "resize mem ?m n = Some (False, ?m)" for n
    using assms(4) by (simp add: resize_def resize0_def hashmap_new_with_allocator_def Let_def)
  then have "hashmap_set mem m ?x = Some (None, ?m\<lparr>hm_oom := True\<rparr>)"
    using assms(3) by (simp add: hashmap_set_def hashmap_set_with_hash_def Let_def)
  then show ?thesis
    using g assms(6) by (simp add: map_update_syscalls_def sc_values_def hm_map_def fun_eq_iff)
qed (use assms(5) in \<open>simp add: sc_values_def\<close>)

end
