(* ===== verification/LifecycleImage.thy ===== *)
theory LifecycleImage imports Bpf Ksyms CString begin

text \<open>
  The life-cycle tool, \<open>tools/lifecycle_image.bpf.c\<close> and \<open>tools/lifecycle_image.c\<close>: a probe at task
  switches reports the intervals that a process, or the idle process of one CPU, spends on and off the
  CPU, and the display program prints them with the kernel stack the process left the CPU from.
\<close>

subsection \<open>Structures and maps\<close>

type_synonym comm = "u8 list"

record proc_id =
  pi_pid :: s32
  pi_cpu_id :: s32

record proc_oncpu =
  po_oncpu_id :: s32
  po_oncpu_time :: u64

record proc_offcpu =
  pf_offcpu_id :: s32
  pf_offcpu_time :: u64

record cpu_event =
  ce_flag :: s32
  ce_pid :: s32
  ce_n_pid :: s32
  ce_comm :: comm
  ce_n_comm :: comm
  ce_prio :: s32
  ce_n_prio :: s32
  ce_oncpu_id :: s32
  ce_oncpu_time :: u64
  ce_offcpu_id :: s32
  ce_offcpu_time :: u64
  ce_kstack_sz :: s32
  ce_kstack :: "u64 list"

record life_st =
  oncpu :: "(proc_id, proc_oncpu) hmap"
  offcpu :: "(proc_id, proc_offcpu) hmap"
  cpu_rb :: "cpu_event list"

definition life_maps :: life_st where
  "life_maps = \<lparr>oncpu = hm_new 1, offcpu = hm_new 1, cpu_rb = []\<rparr>"

text \<open>The constants that the display program sets before loading.\<close>

record life_ro =
  lr_target_pid :: pid_t
  lr_target_cpu_id :: s32

subsection \<open>The probe\<close>

text \<open>
  The fields of the two tasks, the name of the current one (the kernel pads it with 0), and what
  \<open>bpf_get_stack\<close> returns and leaves in the buffer.
\<close>

record life_kern = "cpu_event kern" +
  lk_prev_pid :: pid_t
  lk_next_pid :: pid_t
  lk_prev_prio :: s32
  lk_next_prio :: s32
  lk_next_comm :: comm
  lk_cur_comm :: comm
  lk_stack_sz :: s32
  lk_stack :: "u64 list"

text \<open>The copy of a name: up to its 0, so that the bytes behind it stay those of the reserved record.\<close>

fun copy_comm :: "comm \<Rightarrow> comm \<Rightarrow> comm" where
  "copy_comm (c # cs) (d # ds) = c # (if c = 0 then ds else copy_comm cs ds)"
| "copy_comm cs ds = ds"

definition life_arrives :: "life_ro \<Rightarrow> life_kern \<Rightarrow> bool" where
  "life_arrives ro kn \<longleftrightarrow>
     (let t = lr_target_pid ro in
      (t \<noteq> 0 \<and> lk_prev_pid kn \<noteq> t \<and> lk_next_pid kn = t) \<or>
      (t = 0 \<and> lk_prev_pid kn \<noteq> t \<and> lk_next_pid kn = t \<and> kn_cpu kn = lr_target_cpu_id ro))"

definition life_departs :: "life_ro \<Rightarrow> life_kern \<Rightarrow> bool" where
  "life_departs ro kn \<longleftrightarrow>
     (let t = lr_target_pid ro in
      (t \<noteq> 0 \<and> lk_prev_pid kn = t \<and> lk_next_pid kn \<noteq> t) \<or>
      (t = 0 \<and> lk_prev_pid kn = t \<and> lk_next_pid kn \<noteq> t \<and> kn_cpu kn = lr_target_cpu_id ro))"

definition life_id :: "life_ro \<Rightarrow> proc_id" where
  "life_id ro = \<lparr>pi_pid = lr_target_pid ro, pi_cpu_id = lr_target_cpu_id ro\<rparr>"

definition life_arrival :: "life_ro \<Rightarrow> life_kern \<Rightarrow> life_st \<Rightarrow> life_st" where
  "life_arrival ro kn s =
     (let oncpu_time = kn_ktime kn 0;
          record_on = (\<lambda>s. s\<lparr>oncpu := snd (hm_update (kn_upd kn 0) (oncpu s) (life_id ro)
                             \<lparr>po_oncpu_id = kn_cpu kn, po_oncpu_time = oncpu_time\<rparr>)\<rparr>)
      in case hm_lookup (offcpu s) (life_id ro) of
           None \<Rightarrow> record_on s
         | Some off \<Rightarrow>
             (case kn_rsv kn 0 of
                None \<Rightarrow> s
              | Some slot \<Rightarrow>
                  record_on (s\<lparr>cpu_rb := cpu_rb s @ [slot\<lparr>ce_flag := 0, ce_pid := lr_target_pid ro,
                      ce_n_pid := lk_prev_pid kn, ce_comm := copy_comm (lk_next_comm kn) (ce_comm slot),
                      ce_n_comm := lk_cur_comm kn, ce_prio := lk_next_prio kn, ce_n_prio := lk_prev_prio kn,
                      ce_oncpu_id := kn_cpu kn, ce_oncpu_time := oncpu_time,
                      ce_offcpu_id := pf_offcpu_id off, ce_offcpu_time := pf_offcpu_time off\<rparr>],
                    offcpu := hm_delete (offcpu s) (life_id ro)\<rparr>)))"

definition life_departure :: "life_ro \<Rightarrow> life_kern \<Rightarrow> life_st \<Rightarrow> life_st" where
  "life_departure ro kn s =
     (let offcpu_time = kn_ktime kn 1;
          record_off = (\<lambda>s. s\<lparr>offcpu := snd (hm_update (kn_upd kn 1) (offcpu s) (life_id ro)
                              \<lparr>pf_offcpu_id = kn_cpu kn, pf_offcpu_time = offcpu_time\<rparr>)\<rparr>)
      in case hm_lookup (oncpu s) (life_id ro) of
           None \<Rightarrow> record_off s
         | Some on \<Rightarrow>
             (case kn_rsv kn 1 of
                None \<Rightarrow> s
              | Some slot \<Rightarrow>
                  record_off (s\<lparr>cpu_rb := cpu_rb s @ [slot\<lparr>ce_flag := 1, ce_pid := lr_target_pid ro,
                      ce_n_pid := lk_next_pid kn, ce_comm := lk_cur_comm kn,
                      ce_n_comm := copy_comm (lk_next_comm kn) (ce_n_comm slot),
                      ce_prio := lk_prev_prio kn, ce_n_prio := lk_next_prio kn,
                      ce_oncpu_id := po_oncpu_id on, ce_oncpu_time := po_oncpu_time on,
                      ce_offcpu_id := kn_cpu kn, ce_offcpu_time := offcpu_time,
                      ce_kstack_sz := lk_stack_sz kn, ce_kstack := lk_stack kn\<rparr>],
                    oncpu := hm_delete (oncpu s) (life_id ro)\<rparr>)))"

definition life_sched_switch :: "life_ro \<Rightarrow> life_kern \<Rightarrow> life_st \<Rightarrow> life_st" where
  "life_sched_switch ro kn s =
     (if life_arrives ro kn then life_arrival ro kn s
      else if life_departs ro kn then life_departure ro kn s
      else s)"

subsection \<open>Options\<close>

record life_env =
  le_pid :: s32
  le_time :: s32
  le_cpu_id :: s32
  le_stack_count :: s32
  le_set_stack :: bool
  le_enable_cs :: bool

definition life_env0 :: life_env where
  "life_env0 = \<lparr>le_pid = 0, le_time = 0, le_cpu_id = 0, le_stack_count = 0, le_set_stack = False, le_enable_cs = False\<rparr>"

definition life_parse_arg :: "char \<Rightarrow> string \<Rightarrow> life_env \<Rightarrow> life_env argp" where
  "life_parse_arg key arg env =
     (if key = CHR ''p'' then
        (let (pid, errno) = strtol arg in
         if errno \<or> pid < 0 then Arg_exit else Arg_ok (env\<lparr>le_pid := word_of_int pid\<rparr>))
      else if key = CHR ''C'' then
        (let (cpu_id, _) = strtol arg in
         if cpu_id < 0 then Arg_exit else Arg_ok (env\<lparr>le_cpu_id := word_of_int cpu_id\<rparr>))
      else if key = CHR ''t'' then Arg_ok (env\<lparr>le_time := word_of_int (fst (strtol arg))\<rparr>)
      else if key = CHR ''r'' then Arg_ok (env\<lparr>le_enable_cs := True\<rparr>)
      else if key = CHR ''s'' then
        (let (stack, _) = strtol arg in
         if stack < 0 then Arg_exit
         else Arg_ok (env\<lparr>le_stack_count := word_of_int stack, le_set_stack := True\<rparr>))
      else if key = CHR ''h'' then Arg_exit
      else Arg_unknown)"

fun life_parse :: "(char \<times> string) list \<Rightarrow> life_env \<Rightarrow> life_env argp" where
  "life_parse [] env = Arg_ok env"
| "life_parse ((key, arg) # opts) env =
     (case life_parse_arg key arg env of
        Arg_ok env \<Rightarrow> life_parse opts env
      | Arg_unknown \<Rightarrow> Arg_unknown
      | Arg_exit \<Rightarrow> Arg_exit)"

text \<open>What \<open>main\<close> writes to the read-only data of the probe.\<close>

definition life_rodata :: "life_env \<Rightarrow> life_ro" where
  "life_rodata env = \<lparr>lr_target_pid = le_pid env, lr_target_cpu_id = le_cpu_id env\<rparr>"

subsection \<open>The display\<close>

text \<open>
  The line of a record with the length of the interval in nanoseconds (it is printed in seconds), the
  line on the switch (pid, name and priority of both tasks), and the stack.
\<close>

datatype life_line =
    Life_time cpu_event u64
  | Life_switch "s32 \<times> comm \<times> s32" "s32 \<times> comm \<times> s32"
  | Life_stack_head
  | Life_stack u64 "(u8 list \<times> u64) option"

definition life_print_stack :: "ksym list \<Rightarrow> u64 \<Rightarrow> life_line" where
  "life_print_stack ksyms address =
     (case ksyms_map_addr ksyms address of
        Some ksym \<Rightarrow> Life_stack address (Some (ks_name ksym, address - ks_addr ksym))
      | None \<Rightarrow> Life_stack address None)"

text \<open>The loop over the stack from index \<open>i\<close>, \<open>n\<close> turns left; \<open>None\<close>: it reads behind the array.\<close>

fun life_stack_loop :: "ksym list \<Rightarrow> u64 list \<Rightarrow> nat \<Rightarrow> nat \<Rightarrow> life_line list option" where
  "life_stack_loop ksyms kstack i 0 = Some []"
| "life_stack_loop ksyms kstack i (Suc n) =
     (if i < length kstack then
        (case life_stack_loop ksyms kstack (Suc i) n of
           None \<Rightarrow> None
         | Some ls \<Rightarrow> Some (life_print_stack ksyms (kstack ! i) # ls))
      else None)"

text \<open>The division of \<open>e->kstack_sz\<close> by a \<open>sizeof\<close> is one of 64-bit unsigned numbers.\<close>

definition stack_entries :: "s32 \<Rightarrow> s32" where
  "stack_entries sz = ucast ((scast sz :: u64) div 8)"

definition life_handle_event :: "ksym list \<Rightarrow> life_env \<Rightarrow> cpu_event \<Rightarrow> (life_line list \<times> life_env) option" where
  "life_handle_event ksyms env e =
     (if ce_flag e = 1 then
        (let ls = [Life_time e (ce_offcpu_time e - ce_oncpu_time e)] in
         if \<not> le_enable_cs env then Some (ls, env)
         else
           (let ls = ls @ [Life_switch (ce_pid e, ce_comm e, ce_prio e) (ce_n_pid e, ce_n_comm e, ce_n_prio e)];
                count = stack_entries (ce_kstack_sz e);
                env = (if \<not> le_set_stack env then env\<lparr>le_stack_count := count\<rparr> else env)
            in if 0 <s ce_kstack_sz e \<and> le_stack_count env \<noteq> 0 then
                 (let t_count = (if count <s le_stack_count env then count else le_stack_count env) in
                  case life_stack_loop ksyms (ce_kstack e) 0 (nat (sint t_count)) of
                    None \<Rightarrow> None
                  | Some st \<Rightarrow> Some (ls @ [Life_stack_head] @ st, env))
               else Some (ls, env)))
      else if ce_flag e = 0 then
        (let ls = [Life_time e (ce_oncpu_time e - ce_offcpu_time e)] in
         if \<not> le_enable_cs env then Some (ls, env)
         else Some (ls @ [Life_switch (ce_n_pid e, ce_n_comm e, ce_n_prio e) (ce_pid e, ce_comm e, ce_prio e)], env))
      else Some ([], env))"

fun life_show :: "ksym list \<Rightarrow> life_env \<Rightarrow> cpu_event list \<Rightarrow> (life_line list \<times> life_env) option" where
  "life_show ksyms env [] = Some ([], env)"
| "life_show ksyms env (e # es) =
     (case life_handle_event ksyms env e of
        None \<Rightarrow> None
      | Some (ls, env) \<Rightarrow>
          (case life_show ksyms env es of None \<Rightarrow> None | Some (ls', env) \<Rightarrow> Some (ls @ ls', env)))"

end
