(* ===== verification/NewlifeImage.thy ===== *)
theory NewlifeImage imports Bpf CString begin

text \<open>
  The new-life tool, \<open>tools/newlife_image.bpf.c\<close> and \<open>tools/newlife_image.c\<close>: it reports the start and
  the end of the children and threads that a process makes with \<open>fork\<close>, \<open>vfork\<close> and \<open>pthread_create\<close>.
\<close>

subsection \<open>Structures and maps\<close>

record bind_pid =
  bp_pid :: s32
  bp_newlife_pid :: s32

record newlife_start =
  ns_flag :: s32
  ns_start :: u64

record newlife_event =
  nv_flag :: s32
  nv_newlife_pid :: s32
  nv_start :: u64
  nv_exit :: u64

record newlife_st =
  newstart :: "(bind_pid, newlife_start) hmap"
  newlife_rb :: "newlife_event list"

definition newlife_maps :: newlife_st where
  "newlife_maps = \<lparr>newstart = hm_new 1024, newlife_rb = []\<rparr>"

record newlife_ro =
  nr_target_pid :: pid_t
  nr_enable_fork :: bool
  nr_enable_vfork :: bool
  nr_enable_newthread :: bool

subsection \<open>The probes\<close>

definition newlife_create :: "newlife_ro \<Rightarrow> newlife_event kern \<Rightarrow> s32 \<Rightarrow> pid_t \<Rightarrow> newlife_st \<Rightarrow> newlife_st" where
  "newlife_create ro kn flag newlife_pid s =
     (let bind_pid = \<lparr>bp_pid = nr_target_pid ro, bp_newlife_pid = newlife_pid\<rparr>;
          start = kn_ktime kn 0;
          (err, m) = hm_update (kn_upd kn 0) (newstart s) bind_pid \<lparr>ns_flag = flag, ns_start = start\<rparr>;
          s = s\<lparr>newstart := m\<rparr>
      in if err \<noteq> 0 then s
         else case kn_rsv kn 0 of
           None \<Rightarrow> s
         | Some e \<Rightarrow> s\<lparr>newlife_rb := newlife_rb s @
                      [e\<lparr>nv_flag := flag, nv_newlife_pid := newlife_pid, nv_start := start\<rparr>]\<rparr>)"

definition newlife_exit :: "newlife_ro \<Rightarrow> newlife_event kern \<Rightarrow> newlife_st \<Rightarrow> newlife_st" where
  "newlife_exit ro kn s =
     (let bind_pid = \<lparr>bp_pid = nr_target_pid ro, bp_newlife_pid = cur_pid kn\<rparr> in
      case hm_lookup (newstart s) bind_pid of
        None \<Rightarrow> s
      | Some st \<Rightarrow>
          (case kn_rsv kn 1 of
             None \<Rightarrow> s
           | Some e \<Rightarrow> s\<lparr>newlife_rb := newlife_rb s @
                 [e\<lparr>nv_flag := ns_flag st, nv_newlife_pid := cur_pid kn, nv_start := ns_start st,
                    nv_exit := kn_ktime kn 1\<rparr>],
                newstart := hm_delete (newstart s) bind_pid\<rparr>))"

definition newlife_fork_exit :: "newlife_ro \<Rightarrow> newlife_event kern \<Rightarrow> s32 \<Rightarrow> newlife_st \<Rightarrow> newlife_st" where
  "newlife_fork_exit ro kn ret s =
     (if nr_enable_fork ro then (if ret \<noteq> 0 then s else newlife_create ro kn 1 (cur_pid kn) s) else s)"

definition newlife_vfork_exit :: "newlife_ro \<Rightarrow> newlife_event kern \<Rightarrow> s32 \<Rightarrow> newlife_st \<Rightarrow> newlife_st" where
  "newlife_vfork_exit ro kn ret s =
     (if nr_enable_vfork ro then (if ret \<noteq> 0 then s else newlife_create ro kn 2 (cur_pid kn) s) else s)"

definition newlife_exit_group :: "newlife_ro \<Rightarrow> newlife_event kern \<Rightarrow> newlife_st \<Rightarrow> newlife_st" where
  "newlife_exit_group ro kn s =
     (if nr_enable_fork ro \<or> nr_enable_vfork ro then newlife_exit ro kn s else s)"

text \<open>\<open>ctx->ret\<close> is a \<open>long\<close>; the pid is its low half.\<close>

definition newlife_clone3_exit :: "newlife_ro \<Rightarrow> newlife_event kern \<Rightarrow> u64 \<Rightarrow> newlife_st \<Rightarrow> newlife_st" where
  "newlife_clone3_exit ro kn ret s =
     (if nr_enable_newthread ro then
        (if cur_pid kn = nr_target_pid ro then
           (let new_thread = (ucast ret :: pid_t) in
            if new_thread \<le>s 0 then s else newlife_create ro kn 3 new_thread s)
         else s)
      else s)"

definition newlife_enter_exit :: "newlife_ro \<Rightarrow> newlife_event kern \<Rightarrow> newlife_st \<Rightarrow> newlife_st" where
  "newlife_enter_exit ro kn s = (if nr_enable_newthread ro then newlife_exit ro kn s else s)"

datatype newlife_probe = Nl_fork s32 | Nl_vfork s32 | Nl_exit_group | Nl_clone3 u64 | Nl_exit

fun newlife_step :: "newlife_ro \<Rightarrow> newlife_event kern \<times> newlife_probe \<Rightarrow> newlife_st \<Rightarrow> newlife_st" where
  "newlife_step ro (kn, Nl_fork ret) s = newlife_fork_exit ro kn ret s"
| "newlife_step ro (kn, Nl_vfork ret) s = newlife_vfork_exit ro kn ret s"
| "newlife_step ro (kn, Nl_exit_group) s = newlife_exit_group ro kn s"
| "newlife_step ro (kn, Nl_clone3 ret) s = newlife_clone3_exit ro kn ret s"
| "newlife_step ro (kn, Nl_exit) s = newlife_enter_exit ro kn s"

subsection \<open>Options\<close>

record newlife_env =
  ne_pid :: s32
  ne_time :: s32
  ne_enable_fork :: bool
  ne_enable_vfork :: bool
  ne_enable_newthread :: bool

definition newlife_env0 :: newlife_env where
  "newlife_env0 = \<lparr>ne_pid = 0, ne_time = 0, ne_enable_fork = False, ne_enable_vfork = False, ne_enable_newthread = False\<rparr>"

definition newlife_parse_arg :: "char \<Rightarrow> string \<Rightarrow> newlife_env \<Rightarrow> newlife_env argp" where
  "newlife_parse_arg key arg env =
     (if key = CHR ''p'' then
        (let (pid, errno) = strtol arg in
         if errno \<or> pid \<le> 0 then Arg_exit else Arg_ok (env\<lparr>ne_pid := word_of_int pid\<rparr>))
      else if key = CHR ''t'' then Arg_ok (env\<lparr>ne_time := word_of_int (fst (strtol arg))\<rparr>)
      else if key = CHR ''f'' then Arg_ok (env\<lparr>ne_enable_fork := True\<rparr>)
      else if key = CHR ''F'' then Arg_ok (env\<lparr>ne_enable_vfork := True\<rparr>)
      else if key = CHR ''T'' then Arg_ok (env\<lparr>ne_enable_newthread := True\<rparr>)
      else if key = CHR ''h'' then Arg_exit
      else Arg_unknown)"

fun newlife_parse :: "(char \<times> string) list \<Rightarrow> newlife_env \<Rightarrow> newlife_env argp" where
  "newlife_parse [] env = Arg_ok env"
| "newlife_parse ((key, arg) # opts) env =
     (case newlife_parse_arg key arg env of
        Arg_ok env \<Rightarrow> newlife_parse opts env
      | Arg_unknown \<Rightarrow> Arg_unknown
      | Arg_exit \<Rightarrow> Arg_exit)"

text \<open>No kind asked for means all of them; the result is the read-only data of the probes.\<close>

definition newlife_rodata :: "newlife_env \<Rightarrow> newlife_ro" where
  "newlife_rodata env =
     (let env = (if \<not> ne_enable_fork env \<and> \<not> ne_enable_vfork env \<and> \<not> ne_enable_newthread env
                 then env\<lparr>ne_enable_fork := True, ne_enable_vfork := True, ne_enable_newthread := True\<rparr> else env)
      in \<lparr>nr_target_pid = ne_pid env, nr_enable_fork = ne_enable_fork env, nr_enable_vfork = ne_enable_vfork env,
          nr_enable_newthread = ne_enable_newthread env\<rparr>)"

subsection \<open>The display\<close>

text \<open>A start, or an end with the length of the life in nanoseconds (it is printed in microseconds).\<close>

datatype newlife_line = New_start string s32 u64 | New_end string s32 u64 u64 u64

definition newlife_kind :: "s32 \<Rightarrow> string option" where
  "newlife_kind flag =
     (if flag = 1 then Some ''fork'' else if flag = 2 then Some ''vfork''
      else if flag = 3 then Some ''newthread'' else None)"

definition newlife_handle_event :: "newlife_event \<Rightarrow> newlife_line list" where
  "newlife_handle_event e =
     (case newlife_kind (nv_flag e) of
        None \<Rightarrow> []
      | Some c \<Rightarrow>
          (if nv_exit e = 0 then [New_start c (nv_newlife_pid e) (nv_start e)]
           else [New_end c (nv_newlife_pid e) (nv_start e) (nv_exit e) (nv_exit e - nv_start e)]))"

definition newlife_show :: "newlife_event list \<Rightarrow> newlife_line list" where
  "newlife_show es = concat (map newlife_handle_event es)"

end
