(* ===== verification/MigrateImage.thy ===== *)
theory MigrateImage imports MapWalk begin

text \<open>
  The migration tool, \<open>tools/migrate_image.bpf.c\<close> and \<open>tools/migrate_image.c\<close>: a probe counts the
  migrations of every task between CPUs and stores a record of each, and once a second the display
  program prints the records it has not printed yet and deletes them.

  What the probe reads is an input: the arguments of the tracepoint and the load, memory and I/O
  counters, which it takes from the current task and not from the one that migrates.
\<close>

subsection \<open>Structures and maps\<close>

record minfo_key =
  mk_pid :: pid_t
  mk_count :: s32

record per_migrate =
  pm_time :: u64
  pm_orig_cpu :: u32
  pm_dest_cpu :: u32
  pm_orig_cpu_load :: u64
  pm_dest_cpu_load :: u64
  pm_cpu_capacity :: s32
  pm_cpu_capacity_orig :: s32
  pm_cpu_load_avg :: u64
  pm_pload_avg :: u64
  pm_putil_avg :: u64
  pm_on_cpu :: s32
  pm_mem_usage :: u64
  pm_read_bytes :: u64
  pm_write_bytes :: u64
  pm_context_switches :: u64
  pm_runtime :: u64

record migrate_event =
  me_erro :: s32
  me_pid :: pid_t
  me_prio :: s32
  me_count :: s32
  me_rear :: s32

record mig_st =
  migrate :: "(pid_t, migrate_event) hmap"
  migrate_info :: "(minfo_key, per_migrate) hmap"

definition mig_maps :: mig_st where
  "mig_maps = \<lparr>migrate = hm_new 1024, migrate_info = hm_new 1024\<rparr>"

abbreviation (input) MAX_MIGRATE :: s32 where "MAX_MIGRATE \<equiv> 1024"
abbreviation (input) PAGE_SHIFT :: nat where "PAGE_SHIFT \<equiv> 13"

subsection \<open>The probe\<close>

record mig_kern = "unit kern" +
  mg_pid :: pid_t
  mg_prio :: s32
  mg_orig_cpu :: u32
  mg_dest_cpu :: u32
  mg_cpu_capacity :: s32
  mg_cpu_capacity_orig :: s32
  mg_runnable_avg :: u64
  mg_load_avg :: u64
  mg_util_avg :: u64
  mg_total_vm :: u64
  mg_read_bytes :: u64
  mg_write_bytes :: u64
  mg_nvcsw :: u64
  mg_nivcsw :: u64

text \<open>The record both branches fill in; the fields that are not written are 0.\<close>

definition mig_record :: "mig_kern \<Rightarrow> per_migrate" where
  "mig_record kn =
     \<lparr>pm_time = kn_ktime kn 0, pm_orig_cpu = mg_orig_cpu kn, pm_dest_cpu = mg_dest_cpu kn,
      pm_orig_cpu_load = 0, pm_dest_cpu_load = 0,
      pm_cpu_capacity = mg_cpu_capacity kn, pm_cpu_capacity_orig = mg_cpu_capacity_orig kn,
      pm_cpu_load_avg = mg_runnable_avg kn, pm_pload_avg = mg_load_avg kn, pm_putil_avg = mg_util_avg kn,
      pm_on_cpu = 0, pm_mem_usage = push_bit PAGE_SHIFT (mg_total_vm kn),
      pm_read_bytes = mg_read_bytes kn, pm_write_bytes = mg_write_bytes kn,
      pm_context_switches = mg_nvcsw kn + mg_nivcsw kn, pm_runtime = 0\<rparr>"

definition sched_migrate_task :: "mig_kern \<Rightarrow> mig_st \<Rightarrow> mig_st" where
  "sched_migrate_task kn s =
     (let pid = mg_pid kn in
      case hm_lookup (migrate s) pid of
        None \<Rightarrow>
          (let info = snd (hm_update (kn_upd kn 0) (migrate_info s) \<lparr>mk_pid = pid, mk_count = 1\<rparr> (mig_record kn));
               m = snd (hm_update (kn_upd kn 1) (migrate s) pid
                     \<lparr>me_erro = 0, me_pid = pid, me_prio = mg_prio kn, me_count = 1, me_rear = 1\<rparr>)
           in s\<lparr>migrate_info := info, migrate := m\<rparr>)
      | Some ev \<Rightarrow>
          (if 0 <s me_count ev \<and> me_count ev <s MAX_MIGRATE then
             (let ev = ev\<lparr>me_count := me_count ev + 1\<rparr>;
                  m = hm_poke (migrate s) pid ev;
                  info = snd (hm_update (kn_upd kn 2) (migrate_info s)
                           \<lparr>mk_pid = pid, mk_count = me_count ev\<rparr> (mig_record kn))
              in s\<lparr>migrate := m, migrate_info := info\<rparr>)
           else s))"

subsection \<open>The report\<close>

text \<open>
  A heading with the entry of a task, and a line with a record and the time since the one before it
  (\<open>None\<close> for \<open>delay: /\<close>).
\<close>

datatype mig_line = Mig_head migrate_event | Mig_line per_migrate "u64 option"

text \<open>
  The loop over the records \<open>i\<close> to \<open>count\<close> of a task.  \<open>err i\<close> is the error of the lookup of record \<open>i\<close>;
  a record that is not there is an error too, and is passed over.
\<close>

function mig_records ::
  "(int \<Rightarrow> s32) \<Rightarrow> migrate_event \<Rightarrow> int \<Rightarrow> u64 \<Rightarrow> (minfo_key, per_migrate) hmap \<Rightarrow> mig_line list \<Rightarrow>
   mig_line list \<times> (minfo_key, per_migrate) hmap" where
  "mig_records err ev i last_time_stamp info out =
     (if i \<le> sint (me_count ev) then
        (let mkey = \<lparr>mk_pid = me_pid ev, mk_count = word_of_int i\<rparr> in
         case (if err i <s 0 then None else hm_lookup info mkey) of
           None \<Rightarrow> mig_records err ev (i + 1) last_time_stamp info out
         | Some r \<Rightarrow>
             (let delay = (if i = sint (me_rear ev) \<and> last_time_stamp = 0 then None
                           else Some ((pm_time r - last_time_stamp) div 1000))
              in mig_records err ev (i + 1) (pm_time r) (hm_delete info mkey) (out @ [Mig_line r delay])))
      else (out, info))"
  by pat_completeness auto
termination by (relation "measure (\<lambda>(err, ev, i, _). nat (sint (me_count ev) + 1 - i))") auto

declare mig_records.simps [simp del]

text \<open>
  The body of the walk for one task, from the copy \<open>ev\<close> of its entry: the records are printed and
  deleted, and the copy is written back with the number of the next record to print.
\<close>

definition mig_task :: "(int \<Rightarrow> s32) \<Rightarrow> s32 \<Rightarrow> pid_t \<Rightarrow> migrate_event \<Rightarrow> mig_st \<Rightarrow> mig_line list \<times> mig_st" where
  "mig_task err fault next_key ev s =
     (if me_count ev \<le>s me_rear ev then ([], s)
      else
        (let (out, info) = mig_records err ev (sint (me_rear ev)) 0 (migrate_info s) [Mig_head ev];
             ev = ev\<lparr>me_rear := me_count ev + 1\<rparr>
         in (out, s\<lparr>migrate_info := info, migrate := snd (hm_update fault (migrate s) next_key ev)\<rparr>)))"

text \<open>What the kernel answers to the display program: errors of lookups and of the update, by the turn.\<close>

record mig_world =
  mw_err :: "nat \<Rightarrow> s32"
  mw_info_err :: "nat \<Rightarrow> int \<Rightarrow> s32"
  mw_upd :: "nat \<Rightarrow> s32"

partial_function (option) mig_walk ::
  "mig_world \<Rightarrow> nat \<Rightarrow> pid_t \<Rightarrow> mig_line list \<Rightarrow> mig_st \<Rightarrow> (s32 \<times> mig_line list \<times> mig_st) option" where
  "mig_walk w i lookup_key out s =
     (case hm_next_key (migrate s) lookup_key of
        None \<Rightarrow> Some (0, out, s)
      | Some next_key \<Rightarrow>
          (if mw_err w i <s 0 then Some (-1, out, s)
           else case hm_lookup (migrate s) next_key of
             None \<Rightarrow> Some (-1, out, s)
           | Some ev \<Rightarrow>
               (case mig_task (mw_info_err w i) (mw_upd w i) next_key ev s of
                  (lines, s) \<Rightarrow> mig_walk w (Suc i) next_key (out @ lines) s)))"

declare mig_walk.simps [simp del]

definition migrate_print :: "mig_world \<Rightarrow> mig_st \<Rightarrow> (s32 \<times> mig_line list \<times> mig_st) option" where
  "migrate_print w s = mig_walk w 0 (-1) [] s"

end
