(* ===== verification/ToolLock.thy ===== *)
theory ToolLock imports Bpf CString begin

text \<open>
  The stand-alone lock tool, \<open>tools/lock_image.bpf.c\<close> and \<open>tools/lock_image.c\<close>, which the lock tool of the
  process image has replaced: probes on the pthread locks and on the mutexes of the kernel report for one
  thread when it asks for a lock, when it has got it and when it has given it back.
\<close>

subsection \<open>Structures and maps\<close>

type_synonym comm = "u8 list"

record proc_lockptr =
  tk_pid :: s32
  tk_lock_ptr :: u64

record tl_event =
  tv_type :: s32
  tv_pid :: s32
  tv_comm :: comm
  tv_lock_ptr :: u64
  tv_lock_acq_time :: u64
  tv_lock_time :: u64
  tv_unlock_time :: u64

record tl_st =
  tl_proc_lock :: "(pid_t, u64) hmap"
  tl_proc_unlock :: "(pid_t, u64) hmap"
  tl_lock :: "(proc_lockptr, tl_event) hmap"
  tl_rb :: "tl_event list"

definition tl_maps :: tl_st where
  "tl_maps = \<lparr>tl_proc_lock = hm_new 1024, tl_proc_unlock = hm_new 1024, tl_lock = hm_new 1024, tl_rb = []\<rparr>"

record tl_ro =
  tr_target_pid :: pid_t
  tr_enable_u_mutex :: bool
  tr_enable_k_mutex :: bool
  tr_enable_u_rwlock_rd :: bool
  tr_enable_u_rwlock_wr :: bool

record tl_kern = "tl_event kern" +
  lt_comm :: comm

subsection \<open>The recorders\<close>

definition tl_lock_enter :: "tl_ro \<Rightarrow> tl_kern \<Rightarrow> u64 \<Rightarrow> s32 \<Rightarrow> tl_st \<Rightarrow> tl_st" where
  "tl_lock_enter ro kn lock_ptr type s =
     (let pid = tr_target_pid ro in
      if cur_pid kn \<noteq> pid then s
      else
        (let (err, m) = hm_update (kn_upd kn 0) (tl_proc_lock s) pid lock_ptr;
             s = s\<lparr>tl_proc_lock := m\<rparr>
         in if err \<noteq> 0 then s
            else
              (let ev = \<lparr>tv_type = type, tv_pid = pid, tv_comm = lt_comm kn, tv_lock_ptr = lock_ptr,
                         tv_lock_acq_time = kn_ktime kn 0, tv_lock_time = 0, tv_unlock_time = 0\<rparr>;
                   (err, m) = hm_update (kn_upd kn 1) (tl_lock s) \<lparr>tk_pid = pid, tk_lock_ptr = lock_ptr\<rparr> ev;
                   s = s\<lparr>tl_lock := m\<rparr>
               in if err \<noteq> 0 then s
                  else case kn_rsv kn 0 of
                    None \<Rightarrow> s
                  | Some e \<Rightarrow> s\<lparr>tl_rb := tl_rb s @ [e\<lparr>tv_type := type, tv_pid := pid, tv_comm := lt_comm kn,
                        tv_lock_ptr := lock_ptr, tv_lock_acq_time := kn_ktime kn 0\<rparr>]\<rparr>)))"

definition tl_lock_exit :: "tl_ro \<Rightarrow> tl_kern \<Rightarrow> tl_st \<Rightarrow> tl_st" where
  "tl_lock_exit ro kn s =
     (let pid = tr_target_pid ro in
      if cur_pid kn \<noteq> pid then s
      else case hm_lookup (tl_proc_lock s) pid of
        None \<Rightarrow> s
      | Some lock_ptr \<Rightarrow>
          (let key = \<lparr>tk_pid = pid, tk_lock_ptr = lock_ptr\<rparr> in
           case hm_lookup (tl_lock s) key of
             None \<Rightarrow> s
           | Some ev \<Rightarrow>
               (let ev = ev\<lparr>tv_lock_time := kn_ktime kn 1\<rparr>;
                    s = s\<lparr>tl_lock := hm_poke (tl_lock s) key ev\<rparr>
                in case kn_rsv kn 1 of
                     None \<Rightarrow> s
                   | Some e \<Rightarrow> s\<lparr>tl_rb := tl_rb s @ [e\<lparr>tv_type := tv_type ev, tv_pid := pid,
                         tv_comm := lt_comm kn, tv_lock_ptr := lock_ptr,
                         tv_lock_acq_time := tv_lock_acq_time ev, tv_lock_time := tv_lock_time ev\<rparr>],
                       tl_proc_lock := hm_delete (tl_proc_lock s) pid\<rparr>)))"

definition tl_unlock_enter :: "tl_ro \<Rightarrow> tl_kern \<Rightarrow> u64 \<Rightarrow> tl_st \<Rightarrow> tl_st" where
  "tl_unlock_enter ro kn lock_ptr s =
     (let pid = tr_target_pid ro in
      if cur_pid kn \<noteq> pid then s
      else s\<lparr>tl_proc_unlock := snd (hm_update (kn_upd kn 2) (tl_proc_unlock s) pid lock_ptr)\<rparr>)"

definition tl_unlock_exit :: "tl_ro \<Rightarrow> tl_kern \<Rightarrow> tl_st \<Rightarrow> tl_st" where
  "tl_unlock_exit ro kn s =
     (let pid = tr_target_pid ro in
      if cur_pid kn \<noteq> pid then s
      else case hm_lookup (tl_proc_unlock s) pid of
        None \<Rightarrow> s
      | Some lock_ptr \<Rightarrow>
          (let key = \<lparr>tk_pid = pid, tk_lock_ptr = lock_ptr\<rparr> in
           case hm_lookup (tl_lock s) key of
             None \<Rightarrow> s
           | Some ev \<Rightarrow>
               (let ev = ev\<lparr>tv_unlock_time := kn_ktime kn 2\<rparr>;
                    s = s\<lparr>tl_lock := hm_poke (tl_lock s) key ev\<rparr>
                in case kn_rsv kn 2 of
                     None \<Rightarrow> s
                   | Some e \<Rightarrow> s\<lparr>tl_rb := tl_rb s @ [e\<lparr>tv_type := tv_type ev, tv_pid := pid,
                         tv_comm := lt_comm kn, tv_lock_ptr := lock_ptr,
                         tv_lock_acq_time := tv_lock_acq_time ev, tv_lock_time := tv_lock_time ev,
                         tv_unlock_time := tv_unlock_time ev\<rparr>],
                       tl_proc_unlock := hm_delete (tl_proc_unlock s) pid,
                       tl_lock := hm_delete (tl_lock s) key\<rparr>)))"

subsection \<open>The probes\<close>

definition tl_mutex_lock_enter :: "tl_ro \<Rightarrow> tl_kern \<Rightarrow> u64 \<Rightarrow> tl_st \<Rightarrow> tl_st" where
  "tl_mutex_lock_enter ro kn lock_ptr s = (if tr_enable_u_mutex ro then tl_lock_enter ro kn lock_ptr 1 s else s)"

definition tl_mutex_lock_exit :: "tl_ro \<Rightarrow> tl_kern \<Rightarrow> tl_st \<Rightarrow> tl_st" where
  "tl_mutex_lock_exit ro kn s = (if tr_enable_u_mutex ro then tl_lock_exit ro kn s else s)"

definition tl_mutex_trylock_enter :: "tl_ro \<Rightarrow> tl_kern \<Rightarrow> u64 \<Rightarrow> tl_st \<Rightarrow> tl_st" where
  "tl_mutex_trylock_enter ro kn lock_ptr s = (if tr_enable_u_mutex ro then tl_lock_enter ro kn lock_ptr 1 s else s)"

definition tl_mutex_trylock_exit :: "tl_ro \<Rightarrow> tl_kern \<Rightarrow> tl_st \<Rightarrow> tl_st" where
  "tl_mutex_trylock_exit ro kn s = (if tr_enable_u_mutex ro then tl_lock_exit ro kn s else s)"

definition tl_mutex_unlock_enter :: "tl_ro \<Rightarrow> tl_kern \<Rightarrow> u64 \<Rightarrow> tl_st \<Rightarrow> tl_st" where
  "tl_mutex_unlock_enter ro kn lock_ptr s = (if tr_enable_u_mutex ro then tl_unlock_enter ro kn lock_ptr s else s)"

definition tl_mutex_unlock_exit :: "tl_ro \<Rightarrow> tl_kern \<Rightarrow> tl_st \<Rightarrow> tl_st" where
  "tl_mutex_unlock_exit ro kn s = (if tr_enable_u_mutex ro then tl_unlock_exit ro kn s else s)"

definition tl_kmutex_lock_enter :: "tl_ro \<Rightarrow> tl_kern \<Rightarrow> u64 \<Rightarrow> tl_st \<Rightarrow> tl_st" where
  "tl_kmutex_lock_enter ro kn lock_ptr s = (if tr_enable_k_mutex ro then tl_lock_enter ro kn lock_ptr 2 s else s)"

definition tl_kmutex_lock_exit :: "tl_ro \<Rightarrow> tl_kern \<Rightarrow> tl_st \<Rightarrow> tl_st" where
  "tl_kmutex_lock_exit ro kn s = (if tr_enable_k_mutex ro then tl_lock_exit ro kn s else s)"

definition tl_kmutex_trylock_enter :: "tl_ro \<Rightarrow> tl_kern \<Rightarrow> u64 \<Rightarrow> tl_st \<Rightarrow> tl_st" where
  "tl_kmutex_trylock_enter ro kn lock_ptr s = (if tr_enable_k_mutex ro then tl_lock_enter ro kn lock_ptr 2 s else s)"

definition tl_kmutex_trylock_exit :: "tl_ro \<Rightarrow> tl_kern \<Rightarrow> tl_st \<Rightarrow> tl_st" where
  "tl_kmutex_trylock_exit ro kn s = (if tr_enable_k_mutex ro then tl_lock_exit ro kn s else s)"

definition tl_kmutex_unlock_enter :: "tl_ro \<Rightarrow> tl_kern \<Rightarrow> u64 \<Rightarrow> tl_st \<Rightarrow> tl_st" where
  "tl_kmutex_unlock_enter ro kn lock_ptr s = (if tr_enable_k_mutex ro then tl_unlock_enter ro kn lock_ptr s else s)"

definition tl_kmutex_unlock_exit :: "tl_ro \<Rightarrow> tl_kern \<Rightarrow> tl_st \<Rightarrow> tl_st" where
  "tl_kmutex_unlock_exit ro kn s = (if tr_enable_k_mutex ro then tl_unlock_exit ro kn s else s)"

definition tl_rdlock_enter :: "tl_ro \<Rightarrow> tl_kern \<Rightarrow> u64 \<Rightarrow> tl_st \<Rightarrow> tl_st" where
  "tl_rdlock_enter ro kn lock_ptr s = (if tr_enable_u_rwlock_rd ro then tl_lock_enter ro kn lock_ptr 3 s else s)"

definition tl_rdlock_exit :: "tl_ro \<Rightarrow> tl_kern \<Rightarrow> tl_st \<Rightarrow> tl_st" where
  "tl_rdlock_exit ro kn s = (if tr_enable_u_rwlock_rd ro then tl_lock_exit ro kn s else s)"

definition tl_tryrdlock_enter :: "tl_ro \<Rightarrow> tl_kern \<Rightarrow> u64 \<Rightarrow> tl_st \<Rightarrow> tl_st" where
  "tl_tryrdlock_enter ro kn lock_ptr s = (if tr_enable_u_rwlock_rd ro then tl_lock_enter ro kn lock_ptr 3 s else s)"

definition tl_tryrdlock_exit :: "tl_ro \<Rightarrow> tl_kern \<Rightarrow> tl_st \<Rightarrow> tl_st" where
  "tl_tryrdlock_exit ro kn s = (if tr_enable_u_rwlock_rd ro then tl_lock_exit ro kn s else s)"

definition tl_wrlock_enter :: "tl_ro \<Rightarrow> tl_kern \<Rightarrow> u64 \<Rightarrow> tl_st \<Rightarrow> tl_st" where
  "tl_wrlock_enter ro kn lock_ptr s = (if tr_enable_u_rwlock_wr ro then tl_lock_enter ro kn lock_ptr 4 s else s)"

definition tl_wrlock_exit :: "tl_ro \<Rightarrow> tl_kern \<Rightarrow> tl_st \<Rightarrow> tl_st" where
  "tl_wrlock_exit ro kn s = (if tr_enable_u_rwlock_wr ro then tl_lock_exit ro kn s else s)"

definition tl_trywrlock_enter :: "tl_ro \<Rightarrow> tl_kern \<Rightarrow> u64 \<Rightarrow> tl_st \<Rightarrow> tl_st" where
  "tl_trywrlock_enter ro kn lock_ptr s = (if tr_enable_u_rwlock_wr ro then tl_lock_enter ro kn lock_ptr 4 s else s)"

definition tl_trywrlock_exit :: "tl_ro \<Rightarrow> tl_kern \<Rightarrow> tl_st \<Rightarrow> tl_st" where
  "tl_trywrlock_exit ro kn s = (if tr_enable_u_rwlock_wr ro then tl_lock_exit ro kn s else s)"

definition tl_rwunlock_enter :: "tl_ro \<Rightarrow> tl_kern \<Rightarrow> u64 \<Rightarrow> tl_st \<Rightarrow> tl_st" where
  "tl_rwunlock_enter ro kn lock_ptr s = (if tr_enable_u_rwlock_rd ro \<or> tr_enable_u_rwlock_wr ro then tl_unlock_enter ro kn lock_ptr s else s)"

definition tl_rwunlock_exit :: "tl_ro \<Rightarrow> tl_kern \<Rightarrow> tl_st \<Rightarrow> tl_st" where
  "tl_rwunlock_exit ro kn s = (if tr_enable_u_rwlock_rd ro \<or> tr_enable_u_rwlock_wr ro then tl_unlock_exit ro kn s else s)"

datatype tl_probe =
    Tl_mutex_lock_enter u64 | Tl_mutex_lock_exit | Tl_mutex_trylock_enter u64 | Tl_mutex_trylock_exit
  | Tl_mutex_unlock_enter u64 | Tl_mutex_unlock_exit | Tl_kmutex_lock_enter u64 | Tl_kmutex_lock_exit
  | Tl_kmutex_trylock_enter u64 | Tl_kmutex_trylock_exit | Tl_kmutex_unlock_enter u64 | Tl_kmutex_unlock_exit
  | Tl_rdlock_enter u64 | Tl_rdlock_exit | Tl_tryrdlock_enter u64 | Tl_tryrdlock_exit
  | Tl_wrlock_enter u64 | Tl_wrlock_exit | Tl_trywrlock_enter u64 | Tl_trywrlock_exit
  | Tl_rwunlock_enter u64 | Tl_rwunlock_exit

fun tl_step :: "tl_ro \<Rightarrow> tl_kern \<times> tl_probe \<Rightarrow> tl_st \<Rightarrow> tl_st" where
  "tl_step ro (kn, Tl_mutex_lock_enter lock_ptr) s = tl_mutex_lock_enter ro kn lock_ptr s"
| "tl_step ro (kn, Tl_mutex_lock_exit) s = tl_mutex_lock_exit ro kn s"
| "tl_step ro (kn, Tl_mutex_trylock_enter lock_ptr) s = tl_mutex_trylock_enter ro kn lock_ptr s"
| "tl_step ro (kn, Tl_mutex_trylock_exit) s = tl_mutex_trylock_exit ro kn s"
| "tl_step ro (kn, Tl_mutex_unlock_enter lock_ptr) s = tl_mutex_unlock_enter ro kn lock_ptr s"
| "tl_step ro (kn, Tl_mutex_unlock_exit) s = tl_mutex_unlock_exit ro kn s"
| "tl_step ro (kn, Tl_kmutex_lock_enter lock_ptr) s = tl_kmutex_lock_enter ro kn lock_ptr s"
| "tl_step ro (kn, Tl_kmutex_lock_exit) s = tl_kmutex_lock_exit ro kn s"
| "tl_step ro (kn, Tl_kmutex_trylock_enter lock_ptr) s = tl_kmutex_trylock_enter ro kn lock_ptr s"
| "tl_step ro (kn, Tl_kmutex_trylock_exit) s = tl_kmutex_trylock_exit ro kn s"
| "tl_step ro (kn, Tl_kmutex_unlock_enter lock_ptr) s = tl_kmutex_unlock_enter ro kn lock_ptr s"
| "tl_step ro (kn, Tl_kmutex_unlock_exit) s = tl_kmutex_unlock_exit ro kn s"
| "tl_step ro (kn, Tl_rdlock_enter lock_ptr) s = tl_rdlock_enter ro kn lock_ptr s"
| "tl_step ro (kn, Tl_rdlock_exit) s = tl_rdlock_exit ro kn s"
| "tl_step ro (kn, Tl_tryrdlock_enter lock_ptr) s = tl_tryrdlock_enter ro kn lock_ptr s"
| "tl_step ro (kn, Tl_tryrdlock_exit) s = tl_tryrdlock_exit ro kn s"
| "tl_step ro (kn, Tl_wrlock_enter lock_ptr) s = tl_wrlock_enter ro kn lock_ptr s"
| "tl_step ro (kn, Tl_wrlock_exit) s = tl_wrlock_exit ro kn s"
| "tl_step ro (kn, Tl_trywrlock_enter lock_ptr) s = tl_trywrlock_enter ro kn lock_ptr s"
| "tl_step ro (kn, Tl_trywrlock_exit) s = tl_trywrlock_exit ro kn s"
| "tl_step ro (kn, Tl_rwunlock_enter lock_ptr) s = tl_rwunlock_enter ro kn lock_ptr s"
| "tl_step ro (kn, Tl_rwunlock_exit) s = tl_rwunlock_exit ro kn s"

subsection \<open>Options\<close>

record tl_env =
  te_pid :: s32
  te_time :: s32
  te_enable_u_mutex :: bool
  te_enable_k_mutex :: bool
  te_enable_u_rwlock_rd :: bool
  te_enable_u_rwlock_wr :: bool

definition tl_env0 :: tl_env where
  "tl_env0 = \<lparr>te_pid = 0, te_time = 0, te_enable_u_mutex = False, te_enable_k_mutex = False,
     te_enable_u_rwlock_rd = False, te_enable_u_rwlock_wr = False\<rparr>"

definition tl_parse_arg :: "char \<Rightarrow> string \<Rightarrow> tl_env \<Rightarrow> tl_env argp" where
  "tl_parse_arg key arg env =
     (if key = CHR ''p'' then
        (let (pid, errno) = strtol arg in
         if errno \<or> pid < 0 then Arg_exit else Arg_ok (env\<lparr>te_pid := word_of_int pid\<rparr>))
      else if key = CHR ''t'' then Arg_ok (env\<lparr>te_time := word_of_int (fst (strtol arg))\<rparr>)
      else if key = CHR ''m'' then Arg_ok (env\<lparr>te_enable_u_mutex := True\<rparr>)
      else if key = CHR ''M'' then Arg_ok (env\<lparr>te_enable_k_mutex := True\<rparr>)
      else if key = CHR ''r'' then Arg_ok (env\<lparr>te_enable_u_rwlock_rd := True\<rparr>)
      else if key = CHR ''w'' then Arg_ok (env\<lparr>te_enable_u_rwlock_wr := True\<rparr>)
      else if key = CHR ''h'' then Arg_exit
      else Arg_unknown)"

fun tl_parse :: "(char \<times> string) list \<Rightarrow> tl_env \<Rightarrow> tl_env argp" where
  "tl_parse [] env = Arg_ok env"
| "tl_parse ((key, arg) # opts) env =
     (case tl_parse_arg key arg env of
        Arg_ok env \<Rightarrow> tl_parse opts env
      | Arg_unknown \<Rightarrow> Arg_unknown
      | Arg_exit \<Rightarrow> Arg_exit)"

definition tl_rodata :: "tl_env \<Rightarrow> tl_ro" where
  "tl_rodata env =
     (let env = (if \<not> te_enable_u_mutex env \<and> \<not> te_enable_k_mutex env \<and> \<not> te_enable_u_rwlock_rd env \<and>
                    \<not> te_enable_u_rwlock_wr env
                 then env\<lparr>te_enable_u_mutex := True, te_enable_k_mutex := True, te_enable_u_rwlock_rd := True,
                          te_enable_u_rwlock_wr := True\<rparr>
                 else env)
      in \<lparr>tr_target_pid = te_pid env, tr_enable_u_mutex = te_enable_u_mutex env,
          tr_enable_k_mutex = te_enable_k_mutex env, tr_enable_u_rwlock_rd = te_enable_u_rwlock_rd env,
          tr_enable_u_rwlock_wr = te_enable_u_rwlock_wr env\<rparr>)"

subsection \<open>The display\<close>

text \<open>
  The record, the name of its kind, and the times of waiting and of holding in nanoseconds (they are
  printed in microseconds).
\<close>

datatype tl_line = Tl_line tl_event string u64 u64

definition tl_kind :: "s32 \<Rightarrow> string option" where
  "tl_kind type =
     (if type = 1 then Some ''u_mutex'' else if type = 2 then Some ''k_mutex''
      else if type = 3 then Some ''u_rwlock_rd'' else if type = 4 then Some ''u_rwlock_wr'' else None)"

definition tl_handle_event :: "tl_event \<Rightarrow> tl_line list" where
  "tl_handle_event e =
     (case tl_kind (tv_type e) of
        None \<Rightarrow> []
      | Some c \<Rightarrow>
          (let (acq_time, hold_time) =
             (if tv_unlock_time e \<noteq> 0 then
                (tv_lock_time e - tv_lock_acq_time e, tv_unlock_time e - tv_lock_time e)
              else if tv_lock_time e \<noteq> 0 then (tv_lock_time e - tv_lock_acq_time e, 0)
              else (0, 0))
           in [Tl_line e c acq_time hold_time]))"

end
