(* ===== verification/ToolKeytime.thy ===== *)
theory ToolKeytime imports KeytimeImage CString begin

text \<open>
  The stand-alone key-time tool, \<open>tools/keytime_image.bpf.c\<close> and \<open>tools/keytime_image.c\<close>, which the
  key-time tool of the process image has replaced: it reports the \<open>execve\<close> calls of one thread, with their
  arguments when they begin and with their duration when they have succeeded, and its exits.
\<close>

abbreviation (input) FULL_MAX_ARGS_ARR :: nat where "FULL_MAX_ARGS_ARR \<equiv> 7680"
abbreviation (input) XK_LAST_ARG :: u32 where "XK_LAST_ARG \<equiv> 7680 - 128"
abbreviation (input) EEXIST :: s32 where "EEXIST \<equiv> 17"

subsection \<open>Structures and maps\<close>

record xk_event =
  xe_flag :: s32
  xe_pid :: pid_t
  xe_ppid :: pid_t
  xe_comm :: "u8 list"
  xe_start :: u64
  xe_exit :: u64
  xe_retval :: s32
  xe_enable_char_args :: bool
  xe_args_count :: s32
  xe_ctx_args :: "u64 list"
  xe_args_size :: u32
  xe_args :: "u8 list"

definition empty_event :: xk_event where
  "empty_event = \<lparr>xe_flag = 0, xe_pid = 0, xe_ppid = 0, xe_comm = replicate 16 0, xe_start = 0, xe_exit = 0,
     xe_retval = 0, xe_enable_char_args = False, xe_args_count = 0, xe_ctx_args = replicate 6 0, xe_args_size = 0,
     xe_args = replicate 7680 0\<rparr>"

text \<open>\<open>xk_events\<close>: what the perf buffers have taken for user space.\<close>

record xk_st =
  xk_keytime :: "(pid_t, xk_event) hmap"
  xk_events :: "xk_event list"

definition xk_maps :: xk_st where
  "xk_maps = \<lparr>xk_keytime = hm_new 10240, xk_events = []\<rparr>"

record xk_ro =
  xr_target_pid :: pid_t
  xr_enable_execve :: bool
  xr_enable_exit :: bool
  xr_max_args :: s32

text \<open>\<open>xn_fits\<close>: whether the perf buffer of the CPU has room.\<close>

record xk_kern = "unit kern" +
  xn_ppid :: pid_t
  xn_comm :: "u8 list"
  xn_fits :: bool

text \<open>\<open>bpf_map_update_elem(.., BPF_NOEXIST)\<close>.\<close>

definition hm_insert :: "s32 \<Rightarrow> ('k, 'v) hmap \<Rightarrow> 'k \<Rightarrow> 'v \<Rightarrow> s32 \<times> ('k, 'v) hmap" where
  "hm_insert fault m k v = (if hm_lookup m k \<noteq> None then (- EEXIST, m) else hm_update fault m k v)"

subsection \<open>The probes\<close>

text \<open>
  Of the array of arguments only the part in use is sent.  The structure has 116 bytes before the array
  and 4 of padding behind it, so the test allows 7684 bytes.
\<close>

definition xk_output :: "xk_kern \<Rightarrow> xk_event \<Rightarrow> xk_st \<Rightarrow> xk_st" where
  "xk_output kn ev s =
     (if unat (xe_args_size ev) \<le> FULL_MAX_ARGS_ARR + 4 \<and> xn_fits kn
      then s\<lparr>xk_events := xk_events s @ [ev\<lparr>xe_args := take (unat (xe_args_size ev)) (xe_args ev)\<rparr>]\<rparr> else s)"

definition xk_record_exitsys :: "xk_ro \<Rightarrow> xk_kern \<Rightarrow> u64 \<Rightarrow> xk_st \<Rightarrow> xk_st" where
  "xk_record_exitsys ro kn arg0 s =
     (if xr_enable_exit ro then
        (let pid = cur_pid kn in
         if pid = xr_target_pid ro then
           (let (err, m) = hm_insert (kn_upd kn 0) (xk_keytime s) pid empty_event in
            if err \<noteq> 0 then s
            else case hm_lookup m pid of
              None \<Rightarrow> s\<lparr>xk_keytime := m\<rparr>
            | Some event \<Rightarrow>
                (let event = event\<lparr>xe_flag := 3, xe_pid := pid, xe_ppid := xn_ppid kn, xe_comm := xn_comm kn,
                       xe_start := kn_ktime kn 0, xe_enable_char_args := False, xe_args_count := 1,
                       xe_ctx_args := (xe_ctx_args event)[0 := arg0]\<rparr>;
                     s = xk_output kn event (s\<lparr>xk_keytime := hm_poke m pid event\<rparr>)
                 in s\<lparr>xk_keytime := hm_delete (xk_keytime s) pid\<rparr>))
         else s)
      else s)"

text \<open>The loop over the arguments; \<open>False\<close>: it was left with a return.\<close>

function xk_exec_loop :: "s32 \<Rightarrow> exec_args \<Rightarrow> nat \<Rightarrow> xk_event \<Rightarrow> bool \<times> xk_event" where
  "xk_exec_loop max_args xa i ev =
     (if i < TOTAL_MAX_ARGS \<and> int i < sint max_args then
        (if xa_ptr xa i <s 0 then (False, ev)
         else if xe_args_size ev > XK_LAST_ARG then (False, ev)
         else
           (let r = xa_str xa i;
                ev = ev\<lparr>xe_args := put_bytes (unat (xe_args_size ev)) (ur_bytes r) (xe_args ev)\<rparr>
            in if ur_ret r <s 0 then (False, ev)
               else xk_exec_loop max_args xa (Suc i)
                      (ev\<lparr>xe_args_count := xe_args_count ev + 1, xe_args_size := xe_args_size ev + ur_ret r\<rparr>)))
      else (True, ev))"
  by pat_completeness auto
termination by (relation "measure (\<lambda>(_, _, i, _). TOTAL_MAX_ARGS - i)") auto

declare xk_exec_loop.simps [simp del]

text \<open>What the entry holds when it is sent: every way through the probe ends with that.\<close>

definition xk_exec_event :: "s32 \<Rightarrow> exec_args \<Rightarrow> xk_kern \<Rightarrow> xk_event \<Rightarrow> xk_event" where
  "xk_exec_event max_args xa kn event =
     (let ev = event\<lparr>xe_flag := 1, xe_pid := cur_pid kn, xe_ppid := xn_ppid kn, xe_comm := xn_comm kn,
                 xe_start := kn_ktime kn 1, xe_exit := 0, xe_args_count := 0, xe_args_size := 0,
                 xe_enable_char_args := True\<rparr>;
          r = xa_file xa;
          ev = ev\<lparr>xe_args := put_bytes 0 (ur_bytes r) (xe_args ev)\<rparr>
      in if ur_ret r <s 0 then ev
         else
           (let ev = (if ur_ret r \<le>s of_nat ARGSIZE then ev\<lparr>xe_args_size := xe_args_size ev + ur_ret r\<rparr>
                      else ev\<lparr>xe_args := (xe_args ev)[0 := 0], xe_args_size := xe_args_size ev + 1\<rparr>);
                ev = ev\<lparr>xe_args_count := xe_args_count ev + 1\<rparr>;
                (ended, ev) = xk_exec_loop max_args xa 1 ev
            in if \<not> ended then ev
               else if xa_ptr xa (unat max_args) <s 0 then ev
               else ev\<lparr>xe_args_count := xe_args_count ev + 1\<rparr>))"

definition xk_enter_execve :: "xk_ro \<Rightarrow> xk_kern \<Rightarrow> exec_args \<Rightarrow> xk_st \<Rightarrow> xk_st" where
  "xk_enter_execve ro kn xa s =
     (if xr_enable_execve ro then
        (let pid = cur_pid kn in
         if pid = xr_target_pid ro then
           (let (err, m) = hm_insert (kn_upd kn 1) (xk_keytime s) pid empty_event in
            if err \<noteq> 0 then s
            else case hm_lookup m pid of
              None \<Rightarrow> s\<lparr>xk_keytime := m\<rparr>
            | Some event \<Rightarrow>
                (let event = xk_exec_event (xr_max_args ro) xa kn event
                 in xk_output kn event (s\<lparr>xk_keytime := hm_poke m pid event\<rparr>)))
         else s)
      else s)"

text \<open>\<open>ctx->ret\<close> is a \<open>long\<close> that is stored in an \<open>int\<close>.\<close>

definition xk_exit_execve :: "xk_ro \<Rightarrow> xk_kern \<Rightarrow> u64 \<Rightarrow> xk_st \<Rightarrow> xk_st" where
  "xk_exit_execve ro kn ctx_ret s =
     (if xr_enable_execve ro then
        (let pid = cur_pid kn in
         if pid = xr_target_pid ro then
           (let ret = (ucast ctx_ret :: s32);
                cleanup = (\<lambda>s. s\<lparr>xk_keytime := hm_delete (xk_keytime s) pid\<rparr>);
                send = (\<lambda>m event. cleanup (xk_output kn event (s\<lparr>xk_keytime := hm_poke m pid event\<rparr>)))
            in if ret <s 0 then cleanup s
               else case hm_lookup (xk_keytime s) pid of
                 None \<Rightarrow>
                   (let (err, m) = hm_insert (kn_upd kn 2) (xk_keytime s) pid empty_event in
                    if err \<noteq> 0 then s
                    else case hm_lookup m pid of
                      None \<Rightarrow> s\<lparr>xk_keytime := m\<rparr>
                    | Some event \<Rightarrow> send m (event\<lparr>xe_flag := 2, xe_pid := pid, xe_ppid := xn_ppid kn,
                          xe_comm := xn_comm kn, xe_exit := kn_ktime kn 2, xe_retval := ret\<rparr>))
               | Some event \<Rightarrow>
                   send (xk_keytime s) (event\<lparr>xe_flag := 2, xe_exit := kn_ktime kn 3, xe_retval := ret\<rparr>))
         else s)
      else s)"

datatype xk_probe = Xk_enter exec_args | Xk_exit u64 | Xk_exit_group u64 | Xk_thread_exit u64

fun xk_step :: "xk_ro \<Rightarrow> xk_kern \<times> xk_probe \<Rightarrow> xk_st \<Rightarrow> xk_st" where
  "xk_step ro (kn, Xk_enter xa) s = xk_enter_execve ro kn xa s"
| "xk_step ro (kn, Xk_exit ret) s = xk_exit_execve ro kn ret s"
| "xk_step ro (kn, Xk_exit_group arg0) s = xk_record_exitsys ro kn arg0 s"
| "xk_step ro (kn, Xk_thread_exit arg0) s = xk_record_exitsys ro kn arg0 s"

subsection \<open>Options\<close>

record xk_env =
  xv_pid :: s32
  xv_time :: s32
  xv_enable_execve :: bool
  xv_enable_exit :: bool
  xv_quote :: bool
  xv_max_args :: s32

definition xk_env0 :: xk_env where
  "xk_env0 = \<lparr>xv_pid = 0, xv_time = 0, xv_enable_execve = False, xv_enable_exit = False, xv_quote = False, xv_max_args = 20\<rparr>"

definition xk_parse_arg :: "char \<Rightarrow> string \<Rightarrow> xk_env \<Rightarrow> xk_env argp" where
  "xk_parse_arg key arg env =
     (if key = CHR ''p'' then
        (let (pid, errno) = strtol arg in
         if errno \<or> pid < 0 then Arg_exit else Arg_ok (env\<lparr>xv_pid := word_of_int pid\<rparr>))
      else if key = CHR ''t'' then Arg_ok (env\<lparr>xv_time := word_of_int (fst (strtol arg))\<rparr>)
      else if key = CHR ''e'' then Arg_ok (env\<lparr>xv_enable_execve := True\<rparr>)
      else if key = CHR ''E'' then Arg_ok (env\<lparr>xv_enable_exit := True\<rparr>)
      else if key = CHR ''q'' then Arg_ok (env\<lparr>xv_quote := True\<rparr>)
      else if key = CHR ''h'' then Arg_exit
      else Arg_unknown)"

fun xk_parse :: "(char \<times> string) list \<Rightarrow> xk_env \<Rightarrow> xk_env argp" where
  "xk_parse [] env = Arg_ok env"
| "xk_parse ((key, arg) # opts) env =
     (case xk_parse_arg key arg env of
        Arg_ok env \<Rightarrow> xk_parse opts env
      | Arg_unknown \<Rightarrow> Arg_unknown
      | Arg_exit \<Rightarrow> Arg_exit)"

text \<open>\<open>max_args\<close> of the probes keeps its default.\<close>

definition xk_rodata :: "xk_env \<Rightarrow> xk_ro" where
  "xk_rodata env = \<lparr>xr_target_pid = xv_pid env, xr_enable_execve = xv_enable_execve env,
     xr_enable_exit = xv_enable_exit env, xr_max_args = 20\<rparr>"

subsection \<open>The display\<close>

definition quoted_symbol :: "u8 \<Rightarrow> u8 list" where
  "quoted_symbol c =
     (if c = 34 then [92, 34] else if c = 9 then [92, 116] else if c = 10 then [92, 110] else [c])"

text \<open>The loop of \<open>print_args\<close> from index \<open>i\<close>; \<open>None\<close>: it reads behind what was received.\<close>

function xk_print_loop :: "bool \<Rightarrow> xk_event \<Rightarrow> nat \<Rightarrow> s32 \<Rightarrow> u8 list option" where
  "xk_print_loop quote e i args_counter =
     (if i < unat (xe_args_size e) \<and> args_counter <s xe_args_count e then
        (if length (xe_args e) \<le> i then None
         else
           (let c = xe_args e ! i;
                args_counter' = (if c = 0 then args_counter + 1 else args_counter);
                out = (if quote then
                         (if c = 0 then [34, 32] @ (if args_counter' <s xe_args_count e then [34] else [])
                          else quoted_symbol c)
                       else if c = 0 then [32] else [c])
            in case xk_print_loop quote e (Suc i) args_counter' of None \<Rightarrow> None | Some cs \<Rightarrow> Some (out @ cs)))
      else Some [])"
  by pat_completeness auto
termination by (relation "measure (\<lambda>(_, e, i, _). unat (xe_args_size e) - i)") auto

declare xk_print_loop.simps [simp del]

definition xk_print_args :: "xk_env \<Rightarrow> xk_event \<Rightarrow> u8 list option" where
  "xk_print_args env e =
     (case xk_print_loop (xv_quote env) e 0 0 of
        None \<Rightarrow> None
      | Some cs \<Rightarrow> Some ((if xv_quote env then [34] else []) @ cs @
          (if xe_args_count e = xv_max_args env + 1 then [32, 46, 46, 46] else [])))"

text \<open>
  The lines: time stamp, name of the event, the process, for a call that has returned the duration in
  nanoseconds (it is printed in microseconds) and the result, and the arguments as text or as numbers.
\<close>

datatype xk_args = Xk_text "u8 list" | Xk_nums bool "u64 list"

datatype xk_line =
    Xk_done u64 string "u8 list" s32 s32 u64 s32 xk_args
  | Xk_miss u64 string "u8 list" s32 s32 s32
  | Xk_began u64 string "u8 list" s32 s32 xk_args

definition xk_name :: "s32 \<Rightarrow> string" where
  "xk_name flag =
     (if flag = 1 then ''execve_enter'' else if flag = 2 then ''execve_exit'' else if flag = 3 then ''exit'' else ''?'')"

definition xk_show_args :: "xk_env \<Rightarrow> xk_event \<Rightarrow> xk_args option" where
  "xk_show_args env e =
     (if xe_enable_char_args e then map_option Xk_text (xk_print_args env e)
      else if sint (xe_args_count e) \<le> int (length (xe_ctx_args e))
      then Some (Xk_nums (xv_quote env) (take (nat (sint (xe_args_count e))) (xe_ctx_args e)))
      else None)"

definition xk_handle_event :: "xk_env \<Rightarrow> xk_event \<Rightarrow> xk_line option" where
  "xk_handle_event env e =
     (let c = xk_name (xe_flag e) in
      if xe_start e \<noteq> 0 \<and> xe_exit e \<noteq> 0 then
        map_option (Xk_done (xe_exit e) c (xe_comm e) (xe_pid e) (xe_ppid e) (xe_exit e - xe_start e) (xe_retval e))
          (xk_show_args env e)
      else if xe_start e = 0 \<and> xe_exit e \<noteq> 0 then
        Some (Xk_miss (xe_exit e) c (xe_comm e) (xe_pid e) (xe_ppid e) (xe_retval e))
      else map_option (Xk_began (xe_start e) c (xe_comm e) (xe_pid e) (xe_ppid e)) (xk_show_args env e))"

end
