(* ===== verification/ToolMain.thy ===== *)
theory ToolMain imports LifecycleImage NewlifeImage MigrateImage ToolLock ToolKeytime begin

text \<open>
  \<open>main\<close> of the stand-alone tools \<open>tools/lifecycle_image.c\<close>, \<open>tools/newlife_image.c\<close>,
  \<open>tools/lock_image.c\<close>, \<open>tools/keytime_image.c\<close> and \<open>tools/migrate_image.c\<close>: options, loading, the loop and
  the cleanup, with the resources that the process has taken and not given back.
\<close>

subsection \<open>What the kernel answers\<close>

datatype tool_resource = R_skel | R_ksyms | R_rb

record tool_start =
  ts_open :: bool
  ts_load :: s32
  ts_ksyms :: "ksym list option"
  ts_uprobe :: "nat \<Rightarrow> s32"
  ts_attach :: s32
  ts_rb :: bool

text \<open>
  \<open>ts_uprobe i\<close>: 0, or the \<open>errno\<close> with which the \<open>i\<close>-th probe on a function of the C library is refused.
  A turn of a loop: whether a signal has come before, and the result of the poll.
\<close>

record tool_turn =
  tt_exiting :: bool
  tt_poll :: s32

text \<open>The end of a program: its code and the resources it has kept, or it is still running.\<close>

datatype tool_end = Tool_exits s32 "tool_resource list" | Tool_usage | Tool_runs

abbreviation (input) EINTR :: s32 where "EINTR \<equiv> 4"

definition tool_code :: "s32 \<Rightarrow> s32" where
  "tool_code err = (if err <s 0 then - err else 0)"

text \<open>\<open>None\<close>: the given turns are over and the loop goes on.\<close>

fun poll_loop :: "tool_turn list \<Rightarrow> s32 \<Rightarrow> s32 option" where
  "poll_loop [] err = None"
| "poll_loop (t # ts) err =
     (if tt_exiting t then Some err
      else (let err = tt_poll t in
        if err = - EINTR then Some 0
        else if err <s 0 then Some err
        else poll_loop ts err))"

subsection \<open>The life-cycle tool\<close>

definition lifecycle_cleanup :: "s32 \<Rightarrow> tool_resource list \<Rightarrow> tool_end" where
  "lifecycle_cleanup err held =
     (let held = removeAll R_rb held; held = removeAll R_skel held; held = removeAll R_ksyms held
      in Tool_exits (tool_code err) held)"

definition lifecycle_run :: "tool_start \<Rightarrow> tool_turn list \<Rightarrow> tool_end" where
  "lifecycle_run so ts =
     (if \<not> ts_open so then Tool_exits 1 []
      else
        (let held = [R_skel]; err = ts_load so in
         if err \<noteq> 0 then lifecycle_cleanup err held
         else if ts_ksyms so = None then lifecycle_cleanup err held
         else
           (let held = R_ksyms # held; err = ts_attach so in
            if err \<noteq> 0 then lifecycle_cleanup err held
            else if \<not> ts_rb so then lifecycle_cleanup (-1) held
            else
              (let held = R_rb # held in
               case poll_loop ts err of None \<Rightarrow> Tool_runs | Some err \<Rightarrow> lifecycle_cleanup err held))))"

definition lifecycle_main :: "(char \<times> string) list \<Rightarrow> tool_start \<Rightarrow> tool_turn list \<Rightarrow> tool_end" where
  "lifecycle_main opts so ts =
     (case life_parse opts life_env0 of
        Arg_exit \<Rightarrow> Tool_usage
      | Arg_unknown \<Rightarrow> Tool_exits EINVAL []
      | Arg_ok env \<Rightarrow> lifecycle_run so ts)"

subsection \<open>The new-life tool\<close>

text \<open>The first \<open>n\<close> probes on functions, one after the other.\<close>

definition tool_uprobes :: "(nat \<Rightarrow> s32) \<Rightarrow> nat \<Rightarrow> s32" where
  "tool_uprobes errs n = (case find (\<lambda>i. errs i \<noteq> 0) [0..<n] of None \<Rightarrow> 0 | Some i \<Rightarrow> - errs i)"

definition newlife_attach :: "tool_start \<Rightarrow> s32" where
  "newlife_attach so =
     (let err = tool_uprobes (ts_uprobe so) 2 in
      if err \<noteq> 0 then err
      else if ts_attach so \<noteq> 0 then -1
      else 0)"

definition newlife_cleanup :: "s32 \<Rightarrow> tool_resource list \<Rightarrow> tool_end" where
  "newlife_cleanup err held =
     (let held = removeAll R_rb held; held = removeAll R_skel held in Tool_exits (tool_code err) held)"

definition newlife_run :: "tool_start \<Rightarrow> tool_turn list \<Rightarrow> tool_end" where
  "newlife_run so ts =
     (if \<not> ts_open so then Tool_exits 1 []
      else
        (let held = [R_skel]; err = ts_load so in
         if err \<noteq> 0 then newlife_cleanup err held
         else
           (let err = newlife_attach so in
            if err \<noteq> 0 then newlife_cleanup err held
            else if \<not> ts_rb so then newlife_cleanup (-1) held
            else
              (let held = R_rb # held in
               case poll_loop ts err of None \<Rightarrow> Tool_runs | Some err \<Rightarrow> newlife_cleanup err held))))"

definition newlife_main :: "(char \<times> string) list \<Rightarrow> tool_start \<Rightarrow> tool_turn list \<Rightarrow> tool_end" where
  "newlife_main opts so ts =
     (case newlife_parse opts newlife_env0 of
        Arg_exit \<Rightarrow> Tool_usage
      | Arg_unknown \<Rightarrow> Tool_exits EINVAL []
      | Arg_ok env \<Rightarrow> newlife_run so ts)"

subsection \<open>The lock tool\<close>

definition tl_attach :: "tool_start \<Rightarrow> s32" where
  "tl_attach so =
     (let err = tool_uprobes (ts_uprobe so) 16 in
      if err \<noteq> 0 then err
      else if ts_attach so \<noteq> 0 then -1
      else 0)"

definition tl_cleanup :: "s32 \<Rightarrow> tool_resource list \<Rightarrow> tool_end" where
  "tl_cleanup err held =
     (let held = removeAll R_rb held; held = removeAll R_skel held in Tool_exits (tool_code err) held)"

definition tl_run :: "tool_start \<Rightarrow> tool_turn list \<Rightarrow> tool_end" where
  "tl_run so ts =
     (if \<not> ts_open so then Tool_exits 1 []
      else
        (let held = [R_skel]; err = ts_load so in
         if err \<noteq> 0 then tl_cleanup err held
         else
           (let err = tl_attach so in
            if err \<noteq> 0 then tl_cleanup err held
            else if \<not> ts_rb so then tl_cleanup (-1) held
            else
              (let held = R_rb # held in
               case poll_loop ts err of None \<Rightarrow> Tool_runs | Some err \<Rightarrow> tl_cleanup err held))))"

definition tl_main :: "(char \<times> string) list \<Rightarrow> tool_start \<Rightarrow> tool_turn list \<Rightarrow> tool_end" where
  "tl_main opts so ts =
     (case tl_parse opts tl_env0 of
        Arg_exit \<Rightarrow> Tool_usage
      | Arg_unknown \<Rightarrow> Tool_exits EINVAL []
      | Arg_ok env \<Rightarrow> tl_run so ts)"

subsection \<open>The key-time tool\<close>

text \<open>Its loop forgets interruptions; \<open>ts_rb\<close> stands for its perf buffer and \<open>errno\<close> for why there is none.\<close>

fun xk_loop :: "tool_turn list \<Rightarrow> s32 \<Rightarrow> s32 option" where
  "xk_loop [] err = None"
| "xk_loop (t # ts) err =
     (if tt_exiting t then Some err
      else (let err = tt_poll t in
        if err <s 0 \<and> err \<noteq> - EINTR then Some err else xk_loop ts 0))"

definition xk_cleanup :: "s32 \<Rightarrow> tool_resource list \<Rightarrow> tool_end" where
  "xk_cleanup err held =
     (let held = removeAll R_rb held; held = removeAll R_skel held
      in Tool_exits (if err \<noteq> 0 then 1 else 0) held)"

definition xk_run :: "s32 \<Rightarrow> tool_start \<Rightarrow> tool_turn list \<Rightarrow> tool_end" where
  "xk_run errno so ts =
     (if \<not> ts_open so then Tool_exits 1 []
      else
        (let held = [R_skel]; err = ts_load so in
         if err \<noteq> 0 then xk_cleanup err held
         else
           (let err = ts_attach so in
            if err \<noteq> 0 then xk_cleanup err held
            else if \<not> ts_rb so then xk_cleanup (- errno) held
            else
              (let held = R_rb # held in
               case xk_loop ts err of None \<Rightarrow> Tool_runs | Some err \<Rightarrow> xk_cleanup err held))))"

definition xk_main :: "(char \<times> string) list \<Rightarrow> s32 \<Rightarrow> tool_start \<Rightarrow> tool_turn list \<Rightarrow> tool_end" where
  "xk_main opts errno so ts =
     (case xk_parse opts xk_env0 of
        Arg_exit \<Rightarrow> Tool_usage
      | Arg_unknown \<Rightarrow> Tool_exits EINVAL []
      | Arg_ok env \<Rightarrow> xk_run errno so ts)"

subsection \<open>The migration tool\<close>

text \<open>
  Its loop sleeps a second, in which migrations happen, and prints.  The outer \<open>None\<close>: a report does
  not end; \<open>Mig_goes_on\<close>: the given turns are over.
\<close>

record mig_turn =
  gt_exiting :: bool
  gt_second :: "mig_kern list"
  gt_world :: mig_world

datatype mig_loop_end = Mig_left s32 "mig_line list" mig_st | Mig_goes_on "mig_line list" mig_st

fun migrate_loop :: "mig_turn list \<Rightarrow> s32 \<Rightarrow> mig_line list \<Rightarrow> mig_st \<Rightarrow> mig_loop_end option" where
  "migrate_loop [] err out s = Some (Mig_goes_on out s)"
| "migrate_loop (t # ts) err out s =
     (if gt_exiting t then Some (Mig_left err out s)
      else
        (let s = fold sched_migrate_task (gt_second t) s in
         case migrate_print (gt_world t) s of
           None \<Rightarrow> None
         | Some (err, lines, s) \<Rightarrow>
             (let out = out @ lines in
              if err = - EINTR then Some (Mig_left 0 out s)
              else if err <s 0 then Some (Mig_left err out s)
              else migrate_loop ts err out s)))"

definition migrate_cleanup :: "s32 \<Rightarrow> tool_resource list \<Rightarrow> tool_end" where
  "migrate_cleanup err held = Tool_exits (tool_code err) (removeAll R_skel held)"

text \<open>\<open>None\<close>: a report does not end.\<close>

definition migrate_main :: "tool_start \<Rightarrow> mig_turn list \<Rightarrow> (tool_end \<times> mig_line list) option" where
  "migrate_main so ts =
     (if \<not> ts_open so then Some (Tool_exits 1 [], [])
      else
        (let held = [R_skel]; err = ts_load so in
         if err \<noteq> 0 then Some (migrate_cleanup err held, [])
         else if ts_ksyms so = None then Some (migrate_cleanup err held, [])
         else
           (let held = R_ksyms # held; err = ts_attach so in
            if err \<noteq> 0 then Some (migrate_cleanup err held, [])
            else
              (case migrate_loop ts err [] mig_maps of
                 None \<Rightarrow> None
               | Some (Mig_goes_on out s) \<Rightarrow> Some (Tool_runs, out)
               | Some (Mig_left err out s) \<Rightarrow> Some (migrate_cleanup err held, out)))))"

subsection \<open>How they end\<close>

text \<open>
  All but the last give back what they have taken, however they end; the migration tool keeps the symbol
  table.  Without symbols the life-cycle tool and the migration tool end with the code of success.
\<close>

lemma tool_ends_clean:
  "lifecycle_main opts so ts = Tool_exits code held \<Longrightarrow> held = []"
  "newlife_main opts so ts = Tool_exits code held \<Longrightarrow> held = []"
  "tl_main opts so ts = Tool_exits code held \<Longrightarrow> held = []"
  "xk_main opts errno so ts = Tool_exits code held \<Longrightarrow> held = []"
  "migrate_main so gs = Some (Tool_exits code held, out) \<Longrightarrow> set held \<subseteq> {R_ksyms}"
  by (auto simp: lifecycle_main_def lifecycle_run_def lifecycle_cleanup_def newlife_main_def newlife_run_def
      newlife_cleanup_def tl_main_def tl_run_def tl_cleanup_def xk_main_def xk_run_def
      xk_cleanup_def migrate_main_def migrate_cleanup_def Let_def
      split: argp.splits if_splits option.splits mig_loop_end.splits)

lemma no_symbols_no_error:
  assumes "ts_open so" and "ts_load so = 0" and "ts_ksyms so = None"
  shows "lifecycle_run so ts = Tool_exits 0 []" and "migrate_main so gs = Some (Tool_exits 0 [], [])"
  using assms by (simp_all add: lifecycle_run_def lifecycle_cleanup_def migrate_main_def migrate_cleanup_def tool_code_def)

text \<open>The loop ends at the first signal, interruption or error, with the code that belongs to it.\<close>

lemma EINTR_negative: "(- EINTR :: s32) <s 0"
  by (simp add: word_sless_alt)

lemma poll_loop_ends:
  "(\<exists>t \<in> set ts. tt_exiting t \<or> tt_poll t <s 0) \<longleftrightarrow> poll_loop ts err \<noteq> None"
  using EINTR_negative by (induction ts arbitrary: err) (auto simp: Let_def)

lemma poll_loop_code:
  "poll_loop ts err = Some err' \<Longrightarrow> \<not> err <s 0 \<Longrightarrow>
   err' <s 0 \<Longrightarrow> err' \<noteq> - EINTR \<and> (\<exists>t \<in> set ts. tt_poll t = err')"
  by (induction ts arbitrary: err) (auto simp: Let_def split: if_splits)

end
