(* ===== verification/MigrateProps.thy ===== *)
theory MigrateProps imports ToolMain begin

text \<open>
  The migration tool over any history of migrations and reports: what is printed for a task are its
  migrations, each once and in their order, and a report leaves at most the last one for later
  (\<open>migrations_shown_once\<close>).
\<close>

subsection \<open>Histories\<close>

datatype mig_ev = Mig_happens mig_kern | Mig_report mig_world

fun mig_run :: "mig_ev list \<Rightarrow> mig_st \<Rightarrow> (mig_line list \<times> mig_st) option" where
  "mig_run [] s = Some ([], s)"
| "mig_run (Mig_happens kn # es) s = mig_run es (sched_migrate_task kn s)"
| "mig_run (Mig_report w # es) s =
     (case migrate_print w s of None \<Rightarrow> None
      | Some (_, out, s) \<Rightarrow>
          (case mig_run es s of None \<Rightarrow> None | Some (out', s) \<Rightarrow> Some (out @ out', s)))"

fun mig_calm :: "mig_ev \<Rightarrow> bool" where
  "mig_calm (Mig_happens kn) = ((\<forall>i. kn_upd kn i = 0) \<and> mg_pid kn \<noteq> -1)"
| "mig_calm (Mig_report w) =
     ((\<forall>i. \<not> mw_err w i <s 0) \<and> (\<forall>i j. \<not> mw_info_err w i j <s 0) \<and> (\<forall>i. mw_upd w i = 0))"

definition happened :: "mig_ev list \<Rightarrow> mig_kern list" where
  "happened es = concat (map (\<lambda>e. case e of Mig_happens kn \<Rightarrow> [kn] | Mig_report _ \<Rightarrow> []) es)"

text \<open>The records of a task's migrations, and those printed below its headings.\<close>

definition migrations :: "pid_t \<Rightarrow> mig_ev list \<Rightarrow> per_migrate list" where
  "migrations p es = map mig_record (filter (\<lambda>kn. mg_pid kn = p) (happened es))"

fun printed :: "pid_t \<Rightarrow> bool \<Rightarrow> mig_line list \<Rightarrow> per_migrate list" where
  "printed p own [] = []"
| "printed p own (Mig_head ev # ls) = printed p (me_pid ev = p) ls"
| "printed p own (Mig_line r d # ls) = (if own then r # printed p own ls else printed p own ls)"

definition headed :: "mig_line list \<Rightarrow> bool" where
  "headed ls \<longleftrightarrow> (case ls of Mig_line _ _ # _ \<Rightarrow> False | _ \<Rightarrow> True)"

lemma printed_headed: "headed ls \<Longrightarrow> printed p b ls = printed p c ls"
  by (cases ls; cases "hd ls") (auto simp: headed_def)

lemma printed_append: "headed ys \<Longrightarrow> printed p b (xs @ ys) = printed p b xs @ printed p False ys"
  by (induction p b xs rule: printed.induct) (auto intro: printed_headed)

lemma headed_append: "headed xs \<Longrightarrow> headed ys \<Longrightarrow> headed (xs @ ys)"
  by (cases xs) (auto simp: headed_def split: mig_line.splits)

lemma printed_lines: "printed p own (map (\<lambda>(r, d). Mig_line r d) zs) = (if own then map fst zs else [])"
  by (induction zs) auto

subsection \<open>The invariant\<close>

text \<open>
  \<open>A\<close>: the records of the migrations so far, \<open>P\<close>: of them those that have been printed.  What the
  second map holds for a task are the records from \<open>rear\<close> on.
\<close>

definition mig_entry :: "(pid_t \<Rightarrow> per_migrate list) \<Rightarrow> (pid_t \<Rightarrow> per_migrate list) \<Rightarrow> mig_st \<Rightarrow> pid_t \<Rightarrow> bool" where
  "mig_entry A P s p =
     (case hm_lookup (migrate s) p of
        None \<Rightarrow> A p = [] \<and> P p = [] \<and> (\<forall>j. hm_lookup (migrate_info s) \<lparr>mk_pid = p, mk_count = j\<rparr> = None)
      | Some ev \<Rightarrow>
          p \<noteq> -1 \<and> me_pid ev = p \<and> sint (me_count ev) = int (length (A p)) \<and> A p \<noteq> [] \<and>
          sint (me_rear ev) = int (length (P p)) + 1 \<and> length (P p) \<le> length (A p) \<and>
          P p = take (length (P p)) (A p) \<and>
          (\<forall>j. hm_lookup (migrate_info s) \<lparr>mk_pid = p, mk_count = j\<rparr> =
             (if int (length (P p)) < sint j \<and> sint j \<le> int (length (A p))
              then Some (A p ! nat (sint j - 1)) else None)))"

definition mig_inv :: "nat \<Rightarrow> (pid_t \<Rightarrow> per_migrate list) \<Rightarrow> (pid_t \<Rightarrow> per_migrate list) \<Rightarrow> mig_st \<Rightarrow> bool" where
  "mig_inv n A P s \<longleftrightarrow>
     hm_ok (migrate s) \<and> hm_ok (migrate_info s) \<and> hm_max (migrate s) = 1024 \<and> hm_max (migrate_info s) = 1024 \<and>
     length (hm_ents (migrate s)) \<le> n \<and> length (hm_ents (migrate_info s)) \<le> n \<and>
     (\<forall>p. length (A p) \<le> n \<and> mig_entry A P s p)"

lemma mig_inv_start: "mig_inv 0 (\<lambda>_. []) (\<lambda>_. []) mig_maps"
  by (simp add: mig_inv_def mig_entry_def mig_maps_def hm_new_def hm_lookup_def hm_ok_def)

lemma length_hm_update: "length (hm_ents m) \<le> n \<Longrightarrow> length (hm_ents (snd (hm_update f m k v))) \<le> Suc n"
  by (simp add: hm_update_def length_AList_update)

lemma length_hm_poke: "length (hm_ents (hm_poke m k v)) = length (hm_ents m)"
  by (auto simp: hm_poke_def length_AList_update hm_lookup_None)

lemma length_hm_delete: "length (hm_ents (hm_delete m k)) \<le> length (hm_ents m)"
  by (simp add: hm_delete_def length_AList_delete_le)

lemma sless_small:
  fixes a b :: s32
  shows "a <s b \<longleftrightarrow> sint a < sint b" "a \<le>s b \<longleftrightarrow> sint a \<le> sint b"
  by (simp_all add: word_sless_alt word_sle_eq)

lemma sint_Suc_small:
  fixes a :: s32
  assumes "0 \<le> sint a" and "sint a \<le> 1024"
  shows "sint (a + 1) = sint a + 1"
proof -
  have "a + 1 = word_of_int (sint a + 1)" by simp
  then show ?thesis using sint_word_of_int_small [of "sint a + 1"] assms by simp
qed

lemma sint_key: "sint (1 :: s32) = 1" "sint (1024 :: s32) = 1024" "sint (0 :: s32) = 0"
  by simp_all

lemma sint_eq: "(a :: s32) = b \<longleftrightarrow> sint a = sint b"
  by (auto intro: signed_word_eqI)

subsection \<open>The probe\<close>

lemma accepted_lookup:
  "hm_max m = 1024 \<Longrightarrow> length (hm_ents m) < 1024 \<Longrightarrow>
   hm_lookup (snd (hm_update 0 m k v)) = (hm_lookup m)(k \<mapsto> v)"
  by (simp add: hm_update_def hm_lookup_def map_of_AList_update fun_eq_iff)

lemma entry_other:
  assumes "mig_entry A P s p" and "p \<noteq> q"
    and "hm_lookup (migrate s') p = hm_lookup (migrate s) p"
    and "\<And>j. hm_lookup (migrate_info s') \<lparr>mk_pid = p, mk_count = j\<rparr> = hm_lookup (migrate_info s) \<lparr>mk_pid = p, mk_count = j\<rparr>"
    and "A' p = A p" and "P' p = P p"
  shows "mig_entry A' P' s' p"
  using assms(1) unfolding mig_entry_def assms(3-6) .

lemma mig_step_inv:
  assumes inv: "mig_inv n A P s" and n: "n < 1024" and calm: "\<forall>i. kn_upd kn i = 0" "mg_pid kn \<noteq> -1"
  shows "mig_inv (Suc n) (A(mg_pid kn := A (mg_pid kn) @ [mig_record kn])) P (sched_migrate_task kn s)"
proof -
  let ?p = "mg_pid kn" and ?s = "sched_migrate_task kn s" and ?r = "mig_record kn"
  let ?A = "A(?p := A ?p @ [?r])"
  have m: "hm_max (migrate s) = 1024" "length (hm_ents (migrate s)) \<le> n" "hm_ok (migrate s)"
    and i: "hm_max (migrate_info s) = 1024" "length (hm_ents (migrate_info s)) \<le> n" "hm_ok (migrate_info s)"
    and e: "\<And>p. length (A p) \<le> n \<and> mig_entry A P s p"
    using inv by (auto simp: mig_inv_def)
  have room: "length (hm_ents (migrate s)) < 1024" "length (hm_ents (migrate_info s)) < 1024"
    using m(2) i(2) n by simp_all
  note lk = accepted_lookup [OF m(1) room(1)] accepted_lookup [OF i(1) room(2)]
  show ?thesis
  proof (cases "hm_lookup (migrate s) ?p")
    case None
    then have own: "A ?p = []" "P ?p = []" "\<And>j. hm_lookup (migrate_info s) \<lparr>mk_pid = ?p, mk_count = j\<rparr> = None"
      using e [of ?p] by (auto simp: mig_entry_def)
    let ?ev = "\<lparr>me_erro = 0, me_pid = ?p, me_prio = mg_prio kn, me_count = 1, me_rear = 1\<rparr>"
    have st: "?s = s\<lparr>migrate := snd (hm_update 0 (migrate s) ?p ?ev),
        migrate_info := snd (hm_update 0 (migrate_info s) \<lparr>mk_pid = ?p, mk_count = 1\<rparr> ?r)\<rparr>"
      using None calm by (simp add: sched_migrate_task_def Let_def)
    have "mig_entry ?A P ?s p" for p
    proof (cases "p = ?p")
      case True
      have one: "0 < sint j \<and> sint j \<le> 1 \<longleftrightarrow> j = 1" for j :: s32
      proof -
        have "j = 1 \<longleftrightarrow> sint j = sint (1 :: s32)" by (rule sint_eq)
        then show ?thesis by auto
      qed
      then show ?thesis
        using True own calm(2) by (simp add: mig_entry_def st lk)
    next
      case False
      show ?thesis
        by (rule entry_other [where q = ?p and A = A and P = P and s = s]) (use False e in \<open>simp_all add: st lk\<close>)
    qed
    moreover have "length (?A p) \<le> Suc n" for p using e [of p] by auto
    ultimately show ?thesis
      using m i unfolding mig_inv_def st by (simp add: hm_update_ok length_hm_update)
  next
    case (Some ev)
    then have own: "me_pid ev = ?p" "sint (me_count ev) = int (length (A ?p))" "A ?p \<noteq> []"
        "sint (me_rear ev) = int (length (P ?p)) + 1" "length (P ?p) \<le> length (A ?p)" "P ?p = take (length (P ?p)) (A ?p)"
        "\<And>j. hm_lookup (migrate_info s) \<lparr>mk_pid = ?p, mk_count = j\<rparr> =
          (if int (length (P ?p)) < sint j \<and> sint j \<le> int (length (A ?p)) then Some (A ?p ! nat (sint j - 1)) else None)"
      using e [of ?p] by (auto simp: mig_entry_def)
    have len: "length (A ?p) < 1024" "0 < length (A ?p)" using e [of ?p] n own(3) by auto
    have cnt: "sint (me_count ev + 1) = int (length (A ?p)) + 1"
      using sint_Suc_small [of "me_count ev"] own(2) len by simp
    let ?ev = "ev\<lparr>me_count := me_count ev + 1\<rparr>" and ?k = "\<lparr>mk_pid = ?p, mk_count = me_count ev + 1\<rparr>"
    have "0 <s me_count ev \<and> me_count ev <s 1024" unfolding sless_small using own(2) len by simp
    then have st: "?s = s\<lparr>migrate := hm_poke (migrate s) ?p ?ev, migrate_info := snd (hm_update 0 (migrate_info s) ?k ?r)\<rparr>"
      using Some calm by (simp add: sched_migrate_task_def Let_def)
    have "mig_entry ?A P ?s p" for p
    proof (cases "p = ?p")
      case True
      have k: "j = me_count ev + 1 \<longleftrightarrow> sint j = int (length (A ?p)) + 1" for j
        unfolding cnt [symmetric] by (rule sint_eq)
      have "hm_lookup (migrate_info ?s) \<lparr>mk_pid = ?p, mk_count = j\<rparr> =
         (if int (length (P ?p)) < sint j \<and> sint j \<le> int (length (A ?p @ [?r]))
          then Some ((A ?p @ [?r]) ! nat (sint j - 1)) else None)" for j
        using own(5) own(7) [of j] by (auto simp: st lk k nth_append)
      then show ?thesis
        using True own calm(2) cnt Some by (simp add: mig_entry_def st hm_lookup_poke)
    next
      case False
      show ?thesis
        by (rule entry_other [where q = ?p and A = A and P = P and s = s]) (use False e in \<open>simp_all add: st lk hm_lookup_poke\<close>)
    qed
    moreover have "length (?A p) \<le> Suc n" for p using e [of p] by auto
    ultimately show ?thesis
      using m i unfolding mig_inv_def st by (simp add: hm_update_ok hm_poke_ok length_hm_update length_hm_poke le_SucI)
  qed
qed

subsection \<open>The report\<close>

lemma mig_records_rest:
  assumes "\<forall>j. \<not> err j <s 0" and "sint (me_count ev) = int (length A)" and "length A \<le> 1024" and "k \<le> length A"
    and "\<forall>j. hm_lookup info \<lparr>mk_pid = me_pid ev, mk_count = j\<rparr> =
      (if int k < sint j \<and> sint j \<le> int (length A) then Some (A ! nat (sint j - 1)) else None)"
    and "hm_ok info"
  shows "\<exists>zs info'. mig_records err ev (int k + 1) last_time info out = (out @ map (\<lambda>(r, d). Mig_line r d) zs, info') \<and>
    map fst zs = drop k A \<and> (\<forall>j. hm_lookup info' \<lparr>mk_pid = me_pid ev, mk_count = j\<rparr> = None) \<and>
    (\<forall>q j. q \<noteq> me_pid ev \<longrightarrow>
       hm_lookup info' \<lparr>mk_pid = q, mk_count = j\<rparr> = hm_lookup info \<lparr>mk_pid = q, mk_count = j\<rparr>) \<and>
    hm_ok info' \<and> hm_max info' = hm_max info \<and> length (hm_ents info') \<le> length (hm_ents info)"
  using assms(4-6)
proof (induction "length A - k" arbitrary: k last_time info out)
  case 0
  then show ?case using assms(2) by (intro exI [of _ "[]"] exI [of _ info]) (auto simp: mig_records.simps)
next
  case (Suc d)
  define c :: s32 where "c = word_of_int (int k + 1)"
  let ?key = "\<lparr>mk_pid = me_pid ev, mk_count = c\<rparr>" and ?r = "A ! k"
  have i: "sint c = int k + 1" and k: "k < length A"
    using sint_word_of_int_small [of "int k + 1"] Suc.hyps(2) assms(3) by (simp_all add: c_def)
  have found: "hm_lookup info ?key = Some ?r"
    using Suc.prems(2) k by (simp add: i)
  have next_key: "j = c \<longleftrightarrow> sint j = int k + 1" for j :: s32
    by (simp add: sint_eq i)
  define delay where "delay = (if int k + 1 = sint (me_rear ev) \<and> last_time = 0 then None
    else Some ((pm_time ?r - last_time) div 1000))"
  have rest: "\<forall>j. hm_lookup (hm_delete info ?key) \<lparr>mk_pid = me_pid ev, mk_count = j\<rparr> =
      (if int (Suc k) < sint j \<and> sint j \<le> int (length A) then Some (A ! nat (sint j - 1)) else None)"
    using Suc.prems(2) by (auto simp: hm_lookup_delete next_key)
  have d: "d = length A - Suc k" using Suc.hyps(2) by simp
  obtain zs info' where ih: "mig_records err ev (int (Suc k) + 1) (pm_time ?r) (hm_delete info ?key) (out @ [Mig_line ?r delay]) =
      ((out @ [Mig_line ?r delay]) @ map (\<lambda>(r, d). Mig_line r d) zs, info')" "map fst zs = drop (Suc k) A"
      "\<forall>j. hm_lookup info' \<lparr>mk_pid = me_pid ev, mk_count = j\<rparr> = None"
      "\<forall>q j. q \<noteq> me_pid ev \<longrightarrow>
         hm_lookup info' \<lparr>mk_pid = q, mk_count = j\<rparr> = hm_lookup (hm_delete info ?key) \<lparr>mk_pid = q, mk_count = j\<rparr>"
      "hm_ok info'" "hm_max info' = hm_max (hm_delete info ?key)"
      "length (hm_ents info') \<le> length (hm_ents (hm_delete info ?key))"
    using Suc.hyps(1) [where k = "Suc k" and info = "hm_delete info ?key" and out = "out @ [Mig_line ?r delay]"
        and last_time = "pm_time ?r", OF d _ rest hm_delete_ok]
      Suc.prems(3) Suc_leI [OF k] by blast
  have "mig_records err ev (int k + 1) last_time info out =
      mig_records err ev (int (Suc k) + 1) (pm_time ?r) (hm_delete info ?key) (out @ [Mig_line ?r delay])"
    using assms(1,2) k found
    by (subst mig_records.simps) (simp add: c_def Let_def delay_def add.commute add.left_commute)
  then show ?case
    using ih length_hm_delete [of info ?key] Cons_nth_drop_Suc [OF k]
    by (intro exI [of _ "(?r, delay) # zs"] exI [of _ info']) (auto simp: hm_lookup_delete)
qed

text \<open>How far a report gets with a task: to its last record, unless there is at most one to print.\<close>

definition caught_up :: "'a list \<Rightarrow> 'a list \<Rightarrow> 'a list" where
  "caught_up xs ys = (if length xs \<le> Suc (length ys) then ys else xs)"

lemma mig_task_inv:
  assumes inv: "mig_inv n A P s" and n: "n \<le> 1024" and ev: "hm_lookup (migrate s) p = Some ev"
    and calm: "\<forall>j. \<not> err j <s 0"
  shows "\<exists>out s'. mig_task err 0 p ev s = (out, s') \<and> headed out \<and>
    (\<forall>q. P q @ printed q False out = (P(p := caught_up (A p) (P p))) q) \<and>
    mig_inv n A (P(p := caught_up (A p) (P p))) s' \<and> hm_keys (migrate s') = hm_keys (migrate s)"
proof -
  have m: "hm_max (migrate s) = 1024" "length (hm_ents (migrate s)) \<le> n" "hm_ok (migrate s)"
    and i: "hm_max (migrate_info s) = 1024" "length (hm_ents (migrate_info s)) \<le> n" "hm_ok (migrate_info s)"
    and e: "\<And>p. length (A p) \<le> n \<and> mig_entry A P s p"
    using inv by (auto simp: mig_inv_def)
  have own: "p \<noteq> -1" "me_pid ev = p" "sint (me_count ev) = int (length (A p))" "A p \<noteq> []"
      "sint (me_rear ev) = int (length (P p)) + 1" "length (P p) \<le> length (A p)" "P p = take (length (P p)) (A p)"
      "\<forall>j. hm_lookup (migrate_info s) \<lparr>mk_pid = p, mk_count = j\<rparr> =
        (if int (length (P p)) < sint j \<and> sint j \<le> int (length (A p)) then Some (A p ! nat (sint j - 1)) else None)"
    using e [of p] ev by (auto simp: mig_entry_def)
  show ?thesis
  proof (cases "length (A p) \<le> Suc (length (P p))")
    case True
    then have "me_count ev \<le>s me_rear ev" unfolding sless_small own(3,5) by simp
    then show ?thesis using inv True by (simp add: mig_task_def caught_up_def headed_def)
  next
    case False
    then have more: "\<not> me_count ev \<le>s me_rear ev" unfolding sless_small own(3,5) by simp
    have len: "length (A p) \<le> 1024" using e [of p] n by simp
    obtain zs info' where rec: "mig_records err ev (int (length (P p)) + 1) 0 (migrate_info s) [Mig_head ev] =
        ([Mig_head ev] @ map (\<lambda>(r, d). Mig_line r d) zs, info')" "map fst zs = drop (length (P p)) (A p)"
        "\<forall>j. hm_lookup info' \<lparr>mk_pid = p, mk_count = j\<rparr> = None"
        "\<forall>q j. q \<noteq> p \<longrightarrow> hm_lookup info' \<lparr>mk_pid = q, mk_count = j\<rparr> = hm_lookup (migrate_info s) \<lparr>mk_pid = q, mk_count = j\<rparr>"
        "hm_ok info'" "hm_max info' = 1024" "length (hm_ents info') \<le> n"
      using mig_records_rest [of err ev "A p" "length (P p)" "migrate_info s" 0 "[Mig_head ev]"] calm own len i
      by (auto intro: order_trans)
    let ?ev = "ev\<lparr>me_rear := me_count ev + 1\<rparr>"
    let ?out = "Mig_head ev # map (\<lambda>(r, d). Mig_line r d) zs" and ?m = "snd (hm_update 0 (migrate s) p ?ev)"
    have st: "mig_task err 0 p ev s = (?out, s\<lparr>migrate_info := info', migrate := ?m\<rparr>)"
      using more rec(1) by (simp add: mig_task_def Let_def own(5))
    have upd: "?m = hm_poke (migrate s) p ?ev" using ev by (simp add: hm_update_def hm_poke_def)
    have keys: "hm_keys ?m = hm_keys (migrate s)"
      using ev in_hm_keys [of p "migrate s"] by (simp add: upd hm_poke_def hm_keys_def AList.update_keys)
    have P': "caught_up (A p) (P p) = A p" using False by (simp add: caught_up_def)
    have "mig_entry A (P(p := A p)) (s\<lparr>migrate_info := info', migrate := ?m\<rparr>) q" for q
    proof (cases "q = p")
      case True
      then show ?thesis
        using own(1-4) rec(3) ev sint_Suc_small [of "me_count ev"] len
        by (simp add: mig_entry_def upd hm_lookup_poke)
    next
      case False
      show ?thesis
        by (rule entry_other [where q = p and A = A and P = P and s = s]) (use False e rec(4) in \<open>simp_all add: upd hm_lookup_poke\<close>)
    qed
    then have "mig_inv n A (P(p := A p)) (s\<lparr>migrate_info := info', migrate := ?m\<rparr>)"
      using m i e rec(5-7) by (simp add: mig_inv_def upd hm_poke_ok length_hm_poke)
    moreover have "P q @ printed q False ?out = (P(p := A p)) q" for q
      using own(2,7) rec(2) by (auto simp: printed_lines) (metis append_take_drop_id)
    ultimately show ?thesis
      using keys by (simp only: st P') (auto simp: headed_def)
  qed
qed


lemma mig_walk_inv:
  assumes "mig_inv n A P s" and "n \<le> 1024" and "mig_calm (Mig_report w)" and "keys_from (migrate s) k = ks"
  shows "\<exists>out' s' P'. mig_walk w i k out s = Some (0, out @ out', s') \<and> headed out' \<and>
    (\<forall>q. P q @ printed q False out' = P' q) \<and> mig_inv n A P' s' \<and>
    (\<forall>q. P' q = P q \<or> P' q = caught_up (A q) (P q)) \<and> (\<forall>q \<in> set ks. P' q = caught_up (A q) (P q))"
  using assms
proof (induction ks arbitrary: i k out s P)
  case Nil
  then show ?case
    by (intro exI [of _ "[]"] exI [of _ s] exI [of _ P])
      (simp add: mig_walk.simps hm_next_key_from headed_def)
next
  case (Cons x ks)
  have d: "distinct (hm_keys (migrate s))" using Cons.prems(1) by (auto simp: mig_inv_def distinct_hm_keys)
  note kx = keys_from_Cons [OF d Cons.prems(4)]
  then obtain ev where ev: "hm_lookup (migrate s) x = Some ev" by (auto simp: in_hm_keys)
  have calm: "\<not> mw_err w i <s 0" "\<forall>j. \<not> mw_info_err w i j <s 0" "mw_upd w i = 0" using Cons.prems(3) by simp_all
  let ?P = "P(x := caught_up (A x) (P x))"
  obtain out1 s1 where one: "mig_task (mw_info_err w i) 0 x ev s = (out1, s1)" "headed out1"
      "\<forall>q. P q @ printed q False out1 = ?P q" "mig_inv n A ?P s1" "hm_keys (migrate s1) = hm_keys (migrate s)"
    using mig_task_inv [OF Cons.prems(1,2) ev calm(2)] by blast
  have "keys_from (migrate s1) x = ks" using kx(1) unfolding keys_from_def one(5) .
  then obtain out2 s2 P2 where two: "mig_walk w (Suc i) x (out @ out1) s1 = Some (0, (out @ out1) @ out2, s2)"
      "headed out2" "\<forall>q. ?P q @ printed q False out2 = P2 q" "mig_inv n A P2 s2"
      "\<forall>q. P2 q = ?P q \<or> P2 q = caught_up (A q) (?P q)" "\<forall>q \<in> set ks. P2 q = caught_up (A q) (?P q)"
    using Cons.IH [OF one(4) Cons.prems(2,3)] by blast
  have idem: "caught_up (A x) (caught_up (A x) (P x)) = caught_up (A x) (P x)" by (simp add: caught_up_def)
  have walk: "mig_walk w i k out s = Some (0, out @ (out1 @ out2), s2)"
    using ev calm one(1) two(1) Cons.prems(4) by (subst mig_walk.simps) (simp add: hm_next_key_from)
  have "P q @ printed q False (out1 @ out2) = P2 q" for q
    using one(3) two(3) by (simp add: printed_append [OF two(2)] flip: append_assoc)
  moreover have "P2 q = P q \<or> P2 q = caught_up (A q) (P q)" for q
    using two(5) [rule_format, of q] idem by (cases "q = x") auto
  moreover have "P2 q = caught_up (A q) (P q)" if "q \<in> set (x # ks)" for q
    using that two(5) [rule_format, of q] two(6) idem by (cases "q = x") auto
  ultimately show ?case
    using walk headed_append [OF one(2) two(2)] two(4)
    by (intro exI [of _ "out1 @ out2"] exI [of _ s2] exI [of _ P2]) blast
qed

lemma migrate_print_inv:
  assumes inv: "mig_inv n A P s" and "n \<le> 1024" and "mig_calm (Mig_report w)"
  shows "\<exists>out s' P'. migrate_print w s = Some (0, out, s') \<and> headed out \<and>
    (\<forall>q. P q @ printed q False out = P' q) \<and> mig_inv n A P' s' \<and> (\<forall>q. length (A q) \<le> Suc (length (P' q)))"
proof -
  have "hm_lookup (migrate s) (-1) = None"
    using inv by (auto simp: mig_inv_def mig_entry_def split: option.splits)
  then have keys: "keys_from (migrate s) (-1) = hm_keys (migrate s)" by (rule keys_from_absent)
  obtain out s' P' where w: "mig_walk w 0 (-1) [] s = Some (0, [] @ out, s')" "headed out"
      "\<forall>q. P q @ printed q False out = P' q" "mig_inv n A P' s'" "\<forall>q. P' q = P q \<or> P' q = caught_up (A q) (P q)"
      "\<forall>q \<in> set (hm_keys (migrate s)). P' q = caught_up (A q) (P q)"
    using mig_walk_inv [OF assms keys] by blast
  have "length (A q) \<le> Suc (length (P' q))" for q
  proof (cases "q \<in> set (hm_keys (migrate s))")
    case True
    then show ?thesis using w(6) by (simp add: caught_up_def)
  next
    case False
    then have "hm_lookup (migrate s) q = None" by (simp add: in_hm_keys)
    moreover have "mig_entry A P s q" using inv by (simp add: mig_inv_def)
    ultimately show ?thesis by (simp add: mig_entry_def)
  qed
  then show ?thesis using w by (auto simp: migrate_print_def)
qed

subsection \<open>Histories of both\<close>

lemma headed_Nil [simp]: "headed []"
  by (simp add: headed_def)

lemma migrations_simps [simp]:
  "migrations p [] = []"
  "migrations p (Mig_happens kn # es) = (if mg_pid kn = p then [mig_record kn] else []) @ migrations p es"
  "migrations p (Mig_report w # es) = migrations p es"
  "happened [] = []" "happened (Mig_happens kn # es) = kn # happened es" "happened (Mig_report w # es) = happened es"
  by (simp_all add: migrations_def happened_def)

lemma mig_run_inv:
  assumes "mig_inv n A P s" and "list_all mig_calm es" and "n + length (happened es) \<le> 1024"
  shows "\<exists>out s' P'. mig_run es s = Some (out, s') \<and> headed out \<and> (\<forall>p. P p @ printed p False out = P' p) \<and>
    mig_inv (n + length (happened es)) (\<lambda>p. A p @ migrations p es) P' s' \<and>
    (es \<noteq> [] \<longrightarrow> (\<exists>w. last es = Mig_report w) \<longrightarrow> (\<forall>p. length (A p @ migrations p es) \<le> Suc (length (P' p))))"
  using assms
proof (induction es arbitrary: n A P s)
  case Nil
  then show ?case by (intro exI [of _ "[]"] exI [of _ s] exI [of _ P]) simp
next
  case (Cons e es)
  show ?case
  proof (cases e)
    case (Mig_happens kn)
    let ?A = "A(mg_pid kn := A (mg_pid kn) @ [mig_record kn])"
    have A: "(\<lambda>p. ?A p @ migrations p es) = (\<lambda>p. A p @ migrations p (e # es))" by (auto simp: Mig_happens)
    have "mig_inv (Suc n) ?A P (sched_migrate_task kn s)"
      by (rule mig_step_inv) (use Cons.prems Mig_happens in auto)
    moreover have "list_all mig_calm es" "Suc n + length (happened es) \<le> 1024" using Cons.prems(2,3) Mig_happens by simp_all
    ultimately obtain out s' P' where r: "mig_run es (sched_migrate_task kn s) = Some (out, s')" "headed out"
        "\<forall>p. P p @ printed p False out = P' p" "mig_inv (Suc n + length (happened es)) (\<lambda>p. A p @ migrations p (e # es)) P' s'"
        "es \<noteq> [] \<longrightarrow> (\<exists>w. last es = Mig_report w) \<longrightarrow> (\<forall>p. length (A p @ migrations p (e # es)) \<le> Suc (length (P' p)))"
      using Cons.IH [of "Suc n" ?A P "sched_migrate_task kn s"] unfolding fun_cong [OF A] A by blast
    then show ?thesis
      using Mig_happens by (intro exI [of _ out] exI [of _ s'] exI [of _ P']) (simp del: migrations_simps(2) length_append)
  next
    case (Mig_report w)
    then obtain out1 s1 P1 where one: "migrate_print w s = Some (0, out1, s1)" "headed out1"
        "\<forall>q. P q @ printed q False out1 = P1 q" "mig_inv n A P1 s1" "\<forall>q. length (A q) \<le> Suc (length (P1 q))"
      using migrate_print_inv [OF Cons.prems(1), of w] Cons.prems(2,3) by auto
    obtain out2 s2 P2 where two: "mig_run es s1 = Some (out2, s2)" "headed out2"
        "\<forall>p. P1 p @ printed p False out2 = P2 p"
        "mig_inv (n + length (happened es)) (\<lambda>p. A p @ migrations p es) P2 s2"
        "es \<noteq> [] \<longrightarrow> (\<exists>w. last es = Mig_report w) \<longrightarrow> (\<forall>p. length (A p @ migrations p es) \<le> Suc (length (P2 p)))"
      using Cons.IH [OF one(4)] Cons.prems(2,3) Mig_report by auto
    have "P p @ printed p False (out1 @ out2) = P2 p" for p
      using one(3) two(3) by (simp add: printed_append [OF two(2)] flip: append_assoc)
    moreover have "\<forall>p. length (A p @ migrations p es) \<le> Suc (length (P2 p))"
      if "es = [] \<or> (\<exists>w. last es = Mig_report w)"
      using that one(5) two by (cases "es = []") auto
    ultimately show ?thesis
      using one(1,2) two headed_append [OF one(2) two(2)] Mig_report
      by (intro exI [of _ "out1 @ out2"] exI [of _ s2] exI [of _ P2]) auto
  qed
qed

text \<open>The loop of the program is such a history: the migrations of a second and a report, in turns.\<close>

definition turn_events :: "mig_turn \<Rightarrow> mig_ev list" where
  "turn_events t = map Mig_happens (gt_second t) @ [Mig_report (gt_world t)]"

lemma mig_run_append:
  "mig_run (map Mig_happens kns @ es) s = mig_run es (fold sched_migrate_task kns s)"
  by (induction kns arbitrary: s) simp_all

lemma migrate_loop_run:
  assumes "mig_inv n A P s" and "\<forall>t \<in> set ts. \<not> gt_exiting t" and "list_all mig_calm (concat (map turn_events ts))"
    and "n + length (happened (concat (map turn_events ts))) \<le> 1024"
  shows "migrate_loop ts err out s =
    (case mig_run (concat (map turn_events ts)) s of None \<Rightarrow> None
     | Some (out', s') \<Rightarrow> Some (Mig_goes_on (out @ out') s'))"
  using assms
proof (induction ts arbitrary: n A P s err out)
  case (Cons t ts)
  have hap: "happened (turn_events t @ es) = gt_second t @ happened es" for es
    by (simp add: happened_def turn_events_def comp_def)
  have calm: "list_all mig_calm (map Mig_happens (gt_second t))" "mig_calm (Mig_report (gt_world t))"
      "list_all mig_calm (concat (map turn_events ts))"
    using Cons.prems(3) by (simp_all add: turn_events_def [of t] del: mig_calm.simps)
  have len: "n + length (gt_second t) \<le> 1024" using Cons.prems(4) by (simp add: hap)
  have happens: "length (happened (map Mig_happens (gt_second t))) = length (gt_second t)"
    by (simp add: happened_def comp_def)
  have "mig_run (map Mig_happens (gt_second t)) s = Some ([], fold sched_migrate_task (gt_second t) s)"
    using mig_run_append [of "gt_second t" "[]"] by simp
  then obtain A1 P1 where inv: "mig_inv (n + length (gt_second t)) A1 P1 (fold sched_migrate_task (gt_second t) s)"
    using mig_run_inv [OF Cons.prems(1) calm(1)] len happens by auto
  obtain out1 s1 P2 where one: "migrate_print (gt_world t) (fold sched_migrate_task (gt_second t) s) = Some (0, out1, s1)"
      "mig_inv (n + length (gt_second t)) A1 P2 s1"
    using migrate_print_inv [OF inv len calm(2)] by blast
  have "migrate_loop ts 0 (out @ out1) s1 = (case mig_run (concat (map turn_events ts)) s1 of None \<Rightarrow> None
      | Some (out', s') \<Rightarrow> Some (Mig_goes_on ((out @ out1) @ out') s'))"
    using Cons.prems(2,4) calm(3) by (intro Cons.IH [OF one(2)]) (simp_all add: hap)
  then show ?case
    using Cons.prems(2) one(1) by (simp add: turn_events_def [of t] mig_run_append split: option.splits prod.splits)
qed simp

text \<open>
  C13. What the migration tool prints for a task are its migrations, each once and in the order in
  which they happened: over any history of migrations and reports in which the kernel's calls
  succeed and at most 1024 migrations happen, the lines below a task's headings are the first of its
  migrations, and after a report at most the last of them has not been printed.
\<close>

theorem migrations_shown_once:
  assumes "list_all mig_calm es" and "length (happened es) \<le> 1024"
  shows "\<exists>out s rest. mig_run es mig_maps = Some (out, s) \<and> printed p False out @ rest = migrations p es \<and>
    (es \<noteq> [] \<longrightarrow> (\<exists>w. last es = Mig_report w) \<longrightarrow> length rest \<le> 1)"
proof -
  obtain out s P' where r: "mig_run es mig_maps = Some (out, s)" "\<forall>p. [] @ printed p False out = P' p"
      "mig_inv (0 + length (happened es)) (\<lambda>p. [] @ migrations p es) P' s"
      "es \<noteq> [] \<longrightarrow> (\<exists>w. last es = Mig_report w) \<longrightarrow> (\<forall>p. length ([] @ migrations p es) \<le> Suc (length (P' p)))"
    using mig_run_inv [OF mig_inv_start assms(1)] assms(2) by auto
  have "mig_entry (\<lambda>p. [] @ migrations p es) P' s p" using r(3) by (simp only: mig_inv_def)
  then have "P' p = take (length (P' p)) (migrations p es)"
    by (cases "hm_lookup (migrate s) p") (simp_all add: mig_entry_def)
  then have "P' p @ drop (length (P' p)) (migrations p es) = migrations p es" by (metis append_take_drop_id)
  then show ?thesis using r(1,2,4)
    by (intro exI [of _ out] exI [of _ s] exI [of _ "drop (length (P' p)) (migrations p es)"])
      (auto dest: spec [where x = p])
qed

text \<open>Task 7 migrates twice, its migrations are shown, and it migrates once more.\<close>

definition mig_example :: "u32 \<Rightarrow> u32 \<Rightarrow> u64 \<Rightarrow> mig_kern" where
  "mig_example orig dest t = kern.extend (calm 3 3 t ())
     \<lparr>mg_pid = 7, mg_prio = 120, mg_orig_cpu = orig, mg_dest_cpu = dest, mg_cpu_capacity = 1024,
      mg_cpu_capacity_orig = 1024, mg_runnable_avg = 5, mg_load_avg = 6, mg_util_avg = 7, mg_total_vm = 100,
      mg_read_bytes = 0, mg_write_bytes = 0, mg_nvcsw = 1, mg_nivcsw = 2\<rparr>"

definition mig_calm_world :: mig_world where
  "mig_calm_world = \<lparr>mw_err = (\<lambda>_. 0), mw_info_err = (\<lambda>_ _. 0), mw_upd = (\<lambda>_. 0)\<rparr>"

theorem migrations_shown_once_witness:
  "\<exists>out s rest. mig_run [Mig_happens (mig_example 0 1 10), Mig_happens (mig_example 1 2 20), Mig_report mig_calm_world,
      Mig_happens (mig_example 2 0 30), Mig_report mig_calm_world] mig_maps = Some (out, s) \<and>
    printed 7 False out @ rest = [mig_record (mig_example 0 1 10), mig_record (mig_example 1 2 20), mig_record (mig_example 2 0 30)] \<and>
    length rest \<le> 1"
  using migrations_shown_once [of "[Mig_happens (mig_example 0 1 10), Mig_happens (mig_example 1 2 20), Mig_report mig_calm_world,
      Mig_happens (mig_example 2 0 30), Mig_report mig_calm_world]" 7]
  by (simp add: mig_calm_world_def mig_example_def kern.defs calm_def)

end
