(* ===== verification/LifecycleProps.thy ===== *)
theory LifecycleProps imports LifecycleImage begin

text \<open>
  The life-cycle tool over any history of task switches: the intervals it shows are those between
  consecutive arrivals and departures of the process, and the display never reads behind the stack
  (\<open>lifecycle_intervals\<close>).
\<close>

subsection \<open>Moves and intervals\<close>

definition life_moves :: "life_ro \<Rightarrow> life_kern list \<Rightarrow> life_kern list" where
  "life_moves ro es = filter (\<lambda>kn. life_arrives ro kn \<or> life_departs ro kn) es"

text \<open>
  What an interval comes down to: whether the process was on the CPU, where and when it came onto the
  CPU and left it.
\<close>

type_synonym interval = "bool \<times> (s32 \<times> u64) \<times> (s32 \<times> u64)"

definition life_between :: "life_ro \<Rightarrow> life_kern \<times> life_kern \<Rightarrow> interval list" where
  "life_between ro = (\<lambda>(a, b).
     if life_arrives ro a \<and> life_departs ro b then [(True, (kn_cpu a, kn_ktime a 0), (kn_cpu b, kn_ktime b 1))]
     else if life_departs ro a \<and> life_arrives ro b then [(False, (kn_cpu b, kn_ktime b 0), (kn_cpu a, kn_ktime a 1))]
     else [])"

definition life_pairs :: "life_ro \<Rightarrow> life_kern list \<Rightarrow> interval list" where
  "life_pairs ro ms = concat (map (life_between ro) (zip ms (tl ms)))"

definition life_intervals :: "life_ro \<Rightarrow> life_kern list \<Rightarrow> interval list" where
  "life_intervals ro es = life_pairs ro (life_moves ro es)"

definition ev_interval :: "cpu_event \<Rightarrow> interval" where
  "ev_interval e = (ce_flag e = 1, (ce_oncpu_id e, ce_oncpu_time e), (ce_offcpu_id e, ce_offcpu_time e))"

text \<open>The intervals on the screen with their lengths.\<close>

fun interval_length :: "interval \<Rightarrow> u64" where
  "interval_length (True, on, off) = snd off - snd on"
| "interval_length (False, on, off) = snd on - snd off"

definition life_times :: "life_line list \<Rightarrow> (interval \<times> u64) list" where
  "life_times ls = concat (map (\<lambda>l. case l of Life_time e d \<Rightarrow> [(ev_interval e, d)] | _ \<Rightarrow> []) ls)"

subsection \<open>The probe\<close>

definition life_calm :: "life_kern \<Rightarrow> bool" where
  "life_calm kn \<longleftrightarrow> (\<forall>i. kn_rsv kn i \<noteq> None) \<and> (\<forall>i. kn_upd kn i = 0) \<and>
     length (lk_stack kn) = 128 \<and> sint (lk_stack_sz kn) \<le> 1024"

text \<open>The two maps remember the last move, and the buffer holds the intervals so far.\<close>

definition ev_ok :: "cpu_event \<Rightarrow> bool" where
  "ev_ok e \<longleftrightarrow> (ce_flag e = 0 \<or> ce_flag e = 1) \<and>
     (ce_flag e = 1 \<longrightarrow> length (ce_kstack e) = 128 \<and> sint (ce_kstack_sz e) \<le> 1024)"

definition life_inv :: "life_ro \<Rightarrow> life_kern list \<Rightarrow> life_st \<Rightarrow> bool" where
  "life_inv ro ms s \<longleftrightarrow>
     hm_ents (oncpu s) = (if ms \<noteq> [] \<and> life_arrives ro (last ms)
       then [(life_id ro, \<lparr>po_oncpu_id = kn_cpu (last ms), po_oncpu_time = kn_ktime (last ms) 0\<rparr>)] else []) \<and>
     hm_ents (offcpu s) = (if ms \<noteq> [] \<and> life_departs ro (last ms)
       then [(life_id ro, \<lparr>pf_offcpu_id = kn_cpu (last ms), pf_offcpu_time = kn_ktime (last ms) 1\<rparr>)] else []) \<and>
     hm_max (oncpu s) = 1 \<and> hm_max (offcpu s) = 1 \<and>
     map ev_interval (cpu_rb s) = life_pairs ro ms \<and> list_all ev_ok (cpu_rb s)"

lemma arrives_not_departs: "life_arrives ro kn \<Longrightarrow> \<not> life_departs ro kn"
  by (auto simp: life_arrives_def life_departs_def Let_def)

lemma life_pairs_simps:
  "life_pairs ro [] = []" "life_pairs ro [m] = []"
  "ms \<noteq> [] \<Longrightarrow> life_pairs ro (ms @ [m]) = life_pairs ro ms @ life_between ro (last ms, m)"
  by (induction ms) (auto simp: life_pairs_def neq_Nil_conv)

lemma life_step_inv:
  assumes inv: "life_inv ro ms s" and calm: "life_calm kn"
    and ms: "\<forall>m \<in> set ms. life_arrives ro m \<or> life_departs ro m"
  shows "life_inv ro (ms @ life_moves ro [kn]) (life_sched_switch ro kn s)"
proof -
  have upd: "kn_upd kn i = 0" for i using calm by (simp add: life_calm_def)
  obtain slot0 slot1 where slots: "kn_rsv kn 0 = Some slot0" "kn_rsv kn (Suc 0) = Some slot1"
    using calm unfolding life_calm_def by (metis not_None_eq)
  have last: "ms \<noteq> [] \<Longrightarrow> life_arrives ro (last ms) \<longleftrightarrow> \<not> life_departs ro (last ms)"
    using ms arrives_not_departs by (metis last_in_set)
  note simps = life_inv_def life_moves_def life_sched_switch_def Let_def hm_lookup_def hm_delete_def hm_update_def
    life_pairs_simps life_between_def ev_interval_def ev_ok_def upd slots
  consider (on) "life_arrives ro kn" "\<not> life_departs ro kn" | (off) "\<not> life_arrives ro kn" "life_departs ro kn"
    | (same) "\<not> life_arrives ro kn" "\<not> life_departs ro kn"
    using arrives_not_departs by blast
  then show ?thesis
  proof cases
    case on
    then show ?thesis
      using inv last by (cases "ms = []"; cases "life_departs ro (last ms)") (simp_all add: life_arrival_def simps)
  next
    case off
    then show ?thesis
      using inv last calm by (cases "ms = []"; cases "life_departs ro (last ms)") (simp_all add: life_departure_def simps life_calm_def)
  next
    case same
    then show ?thesis using inv by (simp add: life_moves_def life_sched_switch_def)
  qed
qed

lemma life_run_inv:
  "\<forall>kn \<in> set es. life_calm kn \<Longrightarrow> life_inv ro (life_moves ro es) (run (life_sched_switch ro) es life_maps)"
proof (induction es rule: rev_induct)
  case Nil
  then show ?case by (simp add: life_inv_def life_moves_def life_maps_def hm_new_def life_pairs_simps)
next
  case (snoc kn es)
  then have "life_inv ro (life_moves ro es @ life_moves ro [kn])
      (life_sched_switch ro kn (run (life_sched_switch ro) es life_maps))"
    by (intro life_step_inv) (auto simp: life_moves_def)
  then show ?case by (simp add: life_moves_def)
qed

subsection \<open>The display\<close>

lemma life_times_simps [simp]:
  "life_times [] = []" "life_times (Life_time e d # ls) = (ev_interval e, d) # life_times ls"
  "life_times (Life_switch p q # ls) = life_times ls" "life_times (Life_stack_head # ls) = life_times ls"
  "life_times (Life_stack a k # ls) = life_times ls" "life_times (ls @ ls') = life_times ls @ life_times ls'"
  by (simp_all add: life_times_def)

lemma life_stack_loop_ok:
  "i + n \<le> length st \<Longrightarrow> \<exists>ls. life_stack_loop ksyms st i n = Some ls \<and> life_times ls = []"
proof (induction n arbitrary: i)
  case (Suc n)
  then have "Suc i + n \<le> length st" by simp
  then obtain ls where "life_stack_loop ksyms st (Suc i) n = Some ls" "life_times ls = []"
    using Suc.IH by blast
  then show ?case using Suc.prems by (simp add: life_print_stack_def split: option.splits)
qed simp

lemma stack_entries_bound:
  assumes "0 <s sz" and "sint sz \<le> 1024"
  shows "sint (stack_entries sz) \<le> 128"
proof -
  define n where "n = nat (sint sz)"
  have n: "sint sz = int n" "n \<le> 1024" using assms by (auto simp: n_def word_sless_alt)
  have "scast sz = (of_nat n :: u64)" by (simp add: scast_eq n(1))
  then have "unat ((scast sz :: u64) div 8) = n div 8"
    using n(2) by (simp add: unat_div unat_of_nat)
  then have "unat (stack_entries sz) = n div 8"
    using n(2) by (simp add: stack_entries_def unsigned_ucast_eq take_bit_nat_eq_self)
  then show ?thesis using n(2) sint_small [of "stack_entries sz"] by simp
qed

lemma life_handle_ok:
  assumes "ev_ok e"
  shows "\<exists>ls env'. life_handle_event ksyms env e = Some (ls, env') \<and>
    life_times ls = [(ev_interval e, interval_length (ev_interval e))]"
proof (cases "ce_flag e = 1")
  case False
  then show ?thesis using assms by (auto simp: life_handle_event_def Let_def ev_ok_def ev_interval_def)
next
  case True
  then have e: "length (ce_kstack e) = 128" "sint (ce_kstack_sz e) \<le> 1024" using assms by (simp_all add: ev_ok_def)
  define c where "c = (if \<not> le_set_stack env then stack_entries (ce_kstack_sz e) else le_stack_count env)"
  define t where "t = (if stack_entries (ce_kstack_sz e) <s c then stack_entries (ce_kstack_sz e) else c)"
  have "nat (sint t) \<le> 128" if "0 <s ce_kstack_sz e"
    using stack_entries_bound [OF that e(2)] by (auto simp: t_def word_sless_alt)
  then obtain st where "0 <s ce_kstack_sz e \<longrightarrow>
      life_stack_loop ksyms (ce_kstack e) 0 (nat (sint t)) = Some st \<and> life_times st = []"
    using life_stack_loop_ok [of 0 "nat (sint t)" "ce_kstack e" ksyms] e(1) by auto
  then show ?thesis
    using True by (auto simp: life_handle_event_def Let_def ev_interval_def t_def c_def split: if_splits)
qed

lemma life_show_ok:
  "list_all ev_ok evs \<Longrightarrow> \<exists>ls env'. life_show ksyms env evs = Some (ls, env') \<and>
    life_times ls = map (\<lambda>i. (i, interval_length i)) (map ev_interval evs)"
proof (induction evs arbitrary: env)
  case (Cons e evs)
  then obtain ls env' where one: "life_handle_event ksyms env e = Some (ls, env')"
      "life_times ls = [(ev_interval e, interval_length (ev_interval e))]"
    using life_handle_ok by force
  moreover obtain ls' env'' where "life_show ksyms env' evs = Some (ls', env'')"
      "life_times ls' = map (\<lambda>i. (i, interval_length i)) (map ev_interval evs)"
    using Cons by fastforce
  ultimately show ?case by simp
qed simp

text \<open>
  C14. The life-cycle tool shows the life of its process: whatever tasks switch in between, as long as
  the kernel refuses nothing and returns at most 1024 bytes of stack, the lines are the intervals
  between each arrival of the process on the CPU and its next departure, and between each departure
  and the next arrival, in their order and each with its length; the display of the stacks stays
  inside the array of the record, whatever the options.
\<close>

theorem lifecycle_intervals:
  assumes "\<forall>kn \<in> set es. life_calm kn"
  shows "\<exists>ls env'. life_show ksyms env (cpu_rb (run (life_sched_switch ro) es life_maps)) = Some (ls, env') \<and>
    life_times ls = map (\<lambda>i. (i, interval_length i)) (life_intervals ro es)"
proof -
  have inv: "life_inv ro (life_moves ro es) (run (life_sched_switch ro) es life_maps)"
    by (rule life_run_inv [OF assms])
  then show ?thesis
    using life_show_ok [of "cpu_rb (run (life_sched_switch ro) es life_maps)" ksyms env]
    unfolding life_inv_def life_intervals_def by metis
qed

text \<open>Process 7 runs on CPU 0 from 10 to 25, waits, and goes on at 40; other tasks switch meanwhile.\<close>

definition life_slot :: cpu_event where
  "life_slot = \<lparr>ce_flag = 0, ce_pid = 0, ce_n_pid = 0, ce_comm = replicate 16 0, ce_n_comm = replicate 16 0,
     ce_prio = 0, ce_n_prio = 0, ce_oncpu_id = 0, ce_oncpu_time = 0, ce_offcpu_id = 0, ce_offcpu_time = 0,
     ce_kstack_sz = 0, ce_kstack = replicate 128 0\<rparr>"

definition life_example :: "pid_t \<Rightarrow> pid_t \<Rightarrow> u64 \<Rightarrow> life_kern" where
  "life_example prev succ t = kern.extend (calm prev prev t life_slot)
     \<lparr>lk_prev_pid = prev, lk_next_pid = succ, lk_prev_prio = 120, lk_next_prio = 120,
      lk_next_comm = replicate 16 0, lk_cur_comm = replicate 16 0, lk_stack_sz = 16, lk_stack = replicate 128 5\<rparr>"

theorem lifecycle_intervals_witness:
  "\<exists>ls env'. life_show [] life_env0 (cpu_rb (run (life_sched_switch \<lparr>lr_target_pid = 7, lr_target_cpu_id = 0\<rparr>)
      [life_example 3 7 10, life_example 7 4 25, life_example 4 5 30, life_example 5 7 40] life_maps)) = Some (ls, env') \<and>
    life_times ls = [((True, (0, 10), (0, 25)), 15), ((False, (0, 40), (0, 25)), 15)]"
  using lifecycle_intervals [of "[life_example 3 7 10, life_example 7 4 25, life_example 4 5 30, life_example 5 7 40]"
    "[]" life_env0 "\<lparr>lr_target_pid = 7, lr_target_cpu_id = 0\<rparr>"]
  by (simp add: life_example_def kern.defs calm_def life_calm_def life_intervals_def life_pairs_def life_moves_def life_arrives_def
      life_departs_def life_between_def Let_def)

end
