(* ===== verification/NewlifeProps.thy ===== *)
theory NewlifeProps imports NewlifeImage begin

text \<open>
  The new-life tool over any interleaving of the births and deaths of up to 1024 children and threads:
  what is shown of each is its own life (\<open>newlife_lives\<close>), with one reservation that the machine of
  a child spells out (\<open>birth_line\<close>).  The probe for a start does not write the time of the end, and
  the ring buffer hands out its records as it has them, so what an earlier use of the memory left in that
  field decides whether the birth is shown as a start or as an end.
\<close>

subsection \<open>The life of one child\<close>

fun newlife_born :: "newlife_ro \<Rightarrow> newlife_event kern \<times> newlife_probe \<Rightarrow> (string \<times> pid_t) option" where
  "newlife_born ro (kn, Nl_fork ret) = (if nr_enable_fork ro \<and> ret = 0 then Some (''fork'', cur_pid kn) else None)"
| "newlife_born ro (kn, Nl_vfork ret) = (if nr_enable_vfork ro \<and> ret = 0 then Some (''vfork'', cur_pid kn) else None)"
| "newlife_born ro (kn, Nl_clone3 ret) =
     (if nr_enable_newthread ro \<and> cur_pid kn = nr_target_pid ro \<and> 0 <s (ucast ret :: pid_t)
      then Some (''newthread'', ucast ret) else None)"
| "newlife_born ro (kn, _) = None"

fun newlife_dies :: "newlife_ro \<Rightarrow> newlife_event kern \<times> newlife_probe \<Rightarrow> pid_t option" where
  "newlife_dies ro (kn, Nl_exit_group) = (if nr_enable_fork ro \<or> nr_enable_vfork ro then Some (cur_pid kn) else None)"
| "newlife_dies ro (kn, Nl_exit) = (if nr_enable_newthread ro then Some (cur_pid kn) else None)"
| "newlife_dies ro (kn, _) = None"

definition newlife_touches :: "newlife_ro \<Rightarrow> newlife_event kern \<times> newlife_probe \<Rightarrow> pid_t \<Rightarrow> bool" where
  "newlife_touches ro e p \<longleftrightarrow> (case newlife_born ro e of Some (_, q) \<Rightarrow> q = p | None \<Rightarrow> newlife_dies ro e = Some p)"

text \<open>
  The line about a birth at \<open>t\<close>.  The field \<open>x\<close> for the time of the end is the one of the
  reserved record, which the probe does not write, and any other value than 0 is taken for an end.
\<close>

definition birth_line :: "string \<Rightarrow> pid_t \<Rightarrow> u64 \<Rightarrow> u64 \<Rightarrow> newlife_line" where
  "birth_line c p t x = (if x = 0 then New_start c p t else New_end c p t x (x - t))"

definition left_exit :: "newlife_event kern \<Rightarrow> u64" where
  "left_exit kn = (case kn_rsv kn 0 of Some r \<Rightarrow> nv_exit r | None \<Rightarrow> 0)"

text \<open>The machine of one child: its kind and start while it lives, and the lines about it so far.\<close>

fun newlife_own ::
  "newlife_ro \<Rightarrow> pid_t \<Rightarrow> newlife_event kern \<times> newlife_probe \<Rightarrow> (string \<times> u64) option \<times> newlife_line list \<Rightarrow>
   (string \<times> u64) option \<times> newlife_line list" where
  "newlife_own ro p (kn, e) (alive, ls) =
     (case newlife_born ro (kn, e) of
        Some (c, _) \<Rightarrow> (Some (c, kn_ktime kn 0), ls @ [birth_line c p (kn_ktime kn 0) (left_exit kn)])
      | None \<Rightarrow>
          (case alive of
             None \<Rightarrow> (None, ls)
           | Some (c, t) \<Rightarrow> (None, ls @ [New_end c p t (kn_ktime kn 1) (kn_ktime kn 1 - t)])))"

subsection \<open>The probes run it\<close>

fun newlife_valid :: "newlife_ro \<Rightarrow> pid_t set \<Rightarrow> newlife_event kern \<times> newlife_probe \<Rightarrow> bool" where
  "newlife_valid ro K (kn, e) \<longleftrightarrow>
     (\<forall>i. kn_upd kn i = 0) \<and> (\<forall>i. kn_rsv kn i \<noteq> None) \<and> kn_ktime kn 1 \<noteq> 0 \<and>
     (\<forall>p. newlife_touches ro (kn, e) p \<longrightarrow> p \<in> K)"

definition nl_key :: "newlife_ro \<Rightarrow> pid_t \<Rightarrow> bind_pid" where
  "nl_key ro p = \<lparr>bp_pid = nr_target_pid ro, bp_newlife_pid = p\<rparr>"

definition newlife_inv :: "newlife_ro \<Rightarrow> pid_t set \<Rightarrow> newlife_st \<Rightarrow> bool" where
  "newlife_inv ro K s \<longleftrightarrow>
     finite K \<and> card K \<le> 1024 \<and> hm_within (nl_key ro ` K) (newstart s) \<and> hm_max (newstart s) = 1024 \<and>
     (\<forall>k st. hm_lookup (newstart s) k = Some st \<longrightarrow> newlife_kind (ns_flag st) \<noteq> None)"

fun line_pid :: "newlife_line \<Rightarrow> s32" where
  "line_pid (New_start c p t) = p"
| "line_pid (New_end c p t x d) = p"

definition newlife_view :: "newlife_ro \<Rightarrow> pid_t \<Rightarrow> newlife_st \<Rightarrow> (string \<times> u64) option \<times> newlife_line list" where
  "newlife_view ro p s =
     (map_option (\<lambda>st. (the (newlife_kind (ns_flag st)), ns_start st)) (hm_lookup (newstart s) (nl_key ro p)),
      filter (\<lambda>l. line_pid l = p) (newlife_show (newlife_rb s)))"

lemma nl_key_eq [simp]: "nl_key ro p = nl_key ro q \<longleftrightarrow> p = q"
  by (simp add: nl_key_def)

lemma newlife_room:
  assumes "newlife_inv ro K s" and "p \<in> K"
  shows "hm_room (newstart s) (nl_key ro p)"
proof -
  have "card (nl_key ro ` K) \<le> 1024" using assms(1) card_image_le [of K "nl_key ro"] by (simp add: newlife_inv_def)
  then show ?thesis
    using assms by (intro hm_within_room [where K = "nl_key ro ` K"]) (simp_all add: newlife_inv_def)
qed

lemma newlife_create_spec:
  assumes "newlife_inv ro K s" and "q \<in> K" and "\<forall>i. kn_upd kn i = 0" and "\<forall>i. kn_rsv kn i \<noteq> None"
    and "newlife_kind flag = Some c"
  shows "newlife_inv ro K (newlife_create ro kn flag q s)"
    and "newlife_view ro p (newlife_create ro kn flag q s) =
      (if p = q then (Some (c, kn_ktime kn 0), snd (newlife_view ro p s) @ [birth_line c p (kn_ktime kn 0) (left_exit kn)])
       else newlife_view ro p s)"
proof -
  let ?st = "\<lparr>ns_flag = flag, ns_start = kn_ktime kn 0\<rparr>"
  let ?m = "snd (hm_update 0 (newstart s) (nl_key ro q) ?st)"
  obtain r where r: "kn_rsv kn 0 = Some r" using assms(4) by blast
  have room: "hm_room (newstart s) (nl_key ro q)" by (rule newlife_room [OF assms(1,2)])
  then have "fst (hm_update 0 (newstart s) (nl_key ro q) ?st) = 0" by (simp add: hm_update_accepted)
  then have st: "newlife_create ro kn flag q s = s\<lparr>newstart := ?m,
      newlife_rb := newlife_rb s @ [r\<lparr>nv_flag := flag, nv_newlife_pid := q, nv_start := kn_ktime kn 0\<rparr>]\<rparr>"
    using assms(3) r by (simp add: newlife_create_def Let_def nl_key_def split_beta)
  have lk: "hm_lookup ?m = (hm_lookup (newstart s))(nl_key ro q \<mapsto> ?st)"
    using room by (simp add: hm_update_done hm_update_accepted)
  show "newlife_inv ro K (newlife_create ro kn flag q s)"
    using assms(1,2,5) by (auto simp: newlife_inv_def st lk intro: hm_within_rules split: if_splits)
  show "newlife_view ro p (newlife_create ro kn flag q s) =
      (if p = q then (Some (c, kn_ktime kn 0), snd (newlife_view ro p s) @ [birth_line c p (kn_ktime kn 0) (left_exit kn)])
       else newlife_view ro p s)"
    using assms(5) r
    by (simp add: newlife_view_def st lk newlife_show_def newlife_handle_event_def birth_line_def left_exit_def)
qed

lemma newlife_exit_spec:
  assumes "newlife_inv ro K s" and "\<forall>i. kn_rsv kn i \<noteq> None" and "kn_ktime kn 1 \<noteq> 0"
  shows "newlife_inv ro K (newlife_exit ro kn s)"
    and "newlife_view ro p (newlife_exit ro kn s) =
      (if p = cur_pid kn then
         (None, snd (newlife_view ro p s) @ (case fst (newlife_view ro p s) of None \<Rightarrow> []
            | Some (c, t) \<Rightarrow> [New_end c p t (kn_ktime kn 1) (kn_ktime kn 1 - t)]))
       else newlife_view ro p s)"
proof -
  let ?q = "cur_pid kn"
  have key: "\<lparr>bp_pid = nr_target_pid ro, bp_newlife_pid = ?q\<rparr> = nl_key ro ?q" by (simp add: nl_key_def)
  obtain r where r: "kn_rsv kn 1 = Some r" using assms(2) by blast
  have "newlife_inv ro K (newlife_exit ro kn s) \<and> newlife_view ro p (newlife_exit ro kn s) =
      (if p = ?q then
         (None, snd (newlife_view ro p s) @ (case fst (newlife_view ro p s) of None \<Rightarrow> []
            | Some (c, t) \<Rightarrow> [New_end c p t (kn_ktime kn 1) (kn_ktime kn 1 - t)]))
       else newlife_view ro p s)"
  proof (cases "hm_lookup (newstart s) (nl_key ro ?q)")
    case None
    then show ?thesis using assms(1) by (simp add: newlife_exit_def key newlife_view_def)
  next
    case (Some st)
    then obtain c where c: "newlife_kind (ns_flag st) = Some c" using assms(1) by (auto simp: newlife_inv_def)
    have s': "newlife_exit ro kn s = s\<lparr>newlife_rb := newlife_rb s @
          [r\<lparr>nv_flag := ns_flag st, nv_newlife_pid := ?q, nv_start := ns_start st, nv_exit := kn_ktime kn 1\<rparr>],
        newstart := hm_delete (newstart s) (nl_key ro ?q)\<rparr>"
      using Some r by (simp add: newlife_exit_def key)
    have "newlife_inv ro K (newlife_exit ro kn s)"
      using assms(1) by (auto simp: newlife_inv_def s' hm_lookup_delete intro: hm_within_rules split: if_splits)
    then show ?thesis
      using assms(3) Some c
      by (simp add: newlife_view_def s' hm_lookup_delete newlife_show_def newlife_handle_event_def)
  qed
  then show "newlife_inv ro K (newlife_exit ro kn s)" and "newlife_view ro p (newlife_exit ro kn s) =
      (if p = cur_pid kn then
         (None, snd (newlife_view ro p s) @ (case fst (newlife_view ro p s) of None \<Rightarrow> []
            | Some (c, t) \<Rightarrow> [New_end c p t (kn_ktime kn 1) (kn_ktime kn 1 - t)]))
       else newlife_view ro p s)"
    by simp_all
qed

text \<open>Every step is a birth, a death or nothing.\<close>

lemma newlife_step_cases:
  obtains (born) kn flag c q where "fst e = kn" "newlife_step ro e s = newlife_create ro kn flag q s"
      "newlife_born ro e = Some (c, q)" "newlife_kind flag = Some c"
    | (dies) kn where "fst e = kn" "newlife_step ro e s = newlife_exit ro kn s" "newlife_born ro e = None"
      "newlife_dies ro e = Some (cur_pid kn)"
    | (none) "newlife_step ro e s = s" "newlife_born ro e = None" "newlife_dies ro e = None"
proof -
  obtain kn pr where e: "e = (kn, pr)" by (cases e)
  show thesis
  proof (cases pr)
    case (Nl_fork ret)
    then show thesis
      using born [of kn 1 "cur_pid kn" "''fork''"] none
      by (cases "nr_enable_fork ro \<and> ret = 0") (auto simp: e newlife_fork_exit_def newlife_kind_def)
  next
    case (Nl_vfork ret)
    then show thesis
      using born [of kn 2 "cur_pid kn" "''vfork''"] none
      by (cases "nr_enable_vfork ro \<and> ret = 0") (auto simp: e newlife_vfork_exit_def newlife_kind_def)
  next
    case Nl_exit_group
    then show thesis
      using dies [of kn] none
      by (cases "nr_enable_fork ro \<or> nr_enable_vfork ro") (auto simp: e newlife_exit_group_def)
  next
    case (Nl_clone3 ret)
    then show thesis
      using born [of kn 3 "ucast ret" "''newthread''"] none
      by (cases "nr_enable_newthread ro \<and> cur_pid kn = nr_target_pid ro \<and> 0 <s (ucast ret :: pid_t)")
        (auto simp: e newlife_clone3_exit_def newlife_kind_def Let_def word_sle_eq word_sless_alt)
  next
    case Nl_exit
    then show thesis
      using dies [of kn] none by (cases "nr_enable_newthread ro") (auto simp: e newlife_enter_exit_def)
  qed
qed

interpretation newlives: sliced_tool "newlife_step ro" "newlife_inv ro K" "newlife_valid ro K"
  "newlife_touches ro" "newlife_view ro" "newlife_own ro" for ro K
proof unfold_locales
  fix e s p
  assume v: "newlife_valid ro K e" and inv: "newlife_inv ro K s"
  obtain kn pr where e: "e = (kn, pr)" by (cases e)
  show "newlife_inv ro K (newlife_step ro e s)"
  proof (cases rule: newlife_step_cases [of e ro s])
    case (born kn' flag c q)
    then show ?thesis using v inv e by (auto simp: newlife_touches_def intro!: newlife_create_spec(1))
  next
    case (dies kn')
    then show ?thesis using v inv e by (auto intro!: newlife_exit_spec(1))
  next
    case none
    then show ?thesis using inv by simp
  qed
  have view: "newlife_view ro p (newlife_step ro e s) =
      (if newlife_touches ro e p then newlife_own ro p e (newlife_view ro p s) else newlife_view ro p s)"
  proof (cases rule: newlife_step_cases [of e ro s])
    case (born kn' flag c q)
    then have "q \<in> K" using v e by (auto simp: newlife_touches_def)
    then show ?thesis
      using born v inv e newlife_create_spec(2) [where ro = ro and K = K and s = s and q = q and kn = kn and flag = flag and c = c and p = p]
      by (cases "newlife_view ro p s") (auto simp: newlife_touches_def)
  next
    case (dies kn')
    then show ?thesis
      using v inv e newlife_exit_spec(2) [where ro = ro and K = K and s = s and kn = kn and p = p]
      by (cases "newlife_view ro p s") (auto simp: newlife_touches_def split: option.splits)
  next
    case none
    then show ?thesis by (simp add: newlife_touches_def)
  qed
  then show "newlife_touches ro e p \<Longrightarrow> newlife_view ro p (newlife_step ro e s) = newlife_own ro p e (newlife_view ro p s)"
    and "\<not> newlife_touches ro e p \<Longrightarrow> newlife_view ro p (newlife_step ro e s) = newlife_view ro p s"
    by simp_all
qed

subsection \<open>What is shown\<close>

text \<open>
  C15. The new-life tool shows the life of every child: however the births and deaths of at most 1024
  children and threads interleave, as long as the kernel refuses no insertion and no reservation and the
  clock is not 0 at a death, the lines about each child are those of its own machine, one line
  for each birth and one for the next death with the length of the life.  Nothing is assumed of what
  the reserved records contain: the line for a birth is a start exactly when the field for the time of the
  end, which the probe does not write, is found to be 0, and otherwise the end line that the
  machine states (a defect of the probe).
\<close>

theorem newlife_lives:
  assumes "\<forall>e \<in> set es. newlife_valid ro K e" and "finite K" and "card K \<le> 1024"
  shows "filter (\<lambda>l. line_pid l = p) (newlife_show (newlife_rb (run (newlife_step ro) es newlife_maps))) =
    snd (run (newlife_own ro p) (filter (\<lambda>e. newlife_touches ro e p) es) (None, []))"
proof -
  have "newlife_inv ro K newlife_maps" using assms(2,3) by (simp add: newlife_inv_def newlife_maps_def)
  moreover have "newlife_view ro p newlife_maps = (None, [])"
    by (simp add: newlife_view_def newlife_maps_def newlife_show_def)
  ultimately have "newlife_view ro p (run (newlife_step ro) es newlife_maps) =
      run (newlife_own ro p) (filter (\<lambda>e. newlife_touches ro e p) es) (None, [])"
    using newlives.run_slice [OF _ assms(1), of newlife_maps p] by simp
  moreover have "snd (newlife_view ro p s) = filter (\<lambda>l. line_pid l = p) (newlife_show (newlife_rb s))" for s
    by (simp add: newlife_view_def)
  ultimately show ?thesis by metis
qed

text \<open>
  Process 7 forks 8, makes the thread 9 with \<open>clone3\<close>, and 8 ends.  The record reserved for the birth of
  9 still has the time 5 from an earlier use.
\<close>

definition newlife_slot :: "u64 \<Rightarrow> newlife_event" where
  "newlife_slot x = \<lparr>nv_flag = 0, nv_newlife_pid = 0, nv_start = 0, nv_exit = x\<rparr>"

definition newlife_all :: newlife_ro where
  "newlife_all = \<lparr>nr_target_pid = 7, nr_enable_fork = True, nr_enable_vfork = True, nr_enable_newthread = True\<rparr>"

definition newlife_example :: "(newlife_event kern \<times> newlife_probe) list" where
  "newlife_example =
     [(calm 8 8 10 (newlife_slot 0), Nl_fork 0), (calm 7 7 11 (newlife_slot 0), Nl_fork 8),
      (calm 7 7 20 (newlife_slot 5), Nl_clone3 9), (calm 8 8 50 (newlife_slot 5), Nl_exit_group)]"

lemma newlife_example_born:
  "map (newlife_born newlife_all) newlife_example = [Some (''fork'', 8), None, Some (''newthread'', 9), None]"
  "map (newlife_dies newlife_all) newlife_example = [None, None, None, Some 8]"
  by (simp_all add: newlife_example_def newlife_all_def word_sless_alt)

theorem newlife_lives_witness:
  "(let ls = newlife_show (newlife_rb (run (newlife_step newlife_all) newlife_example newlife_maps)) in
    filter (\<lambda>l. line_pid l = 8) ls = [New_start ''fork'' 8 10, New_end ''fork'' 8 10 50 40] \<and>
    filter (\<lambda>l. line_pid l = 9) ls = [New_end ''newthread'' 9 20 5 (- 15)])"
proof -
  have valid: "\<forall>e \<in> set newlife_example. newlife_valid newlife_all {8, 9} e"
    using newlife_example_born by (simp add: newlife_example_def newlife_touches_def)
  have "snd (run (newlife_own newlife_all 8) (filter (\<lambda>e. newlife_touches newlife_all e 8) newlife_example) (None, [])) =
      [New_start ''fork'' 8 10, New_end ''fork'' 8 10 50 40]"
    using newlife_example_born
    by (simp add: newlife_example_def newlife_touches_def birth_line_def left_exit_def newlife_slot_def)
  moreover have "snd (run (newlife_own newlife_all 9) (filter (\<lambda>e. newlife_touches newlife_all e 9) newlife_example) (None, [])) =
      [New_end ''newthread'' 9 20 5 (- 15)]"
    using newlife_example_born
    by (simp add: newlife_example_def newlife_touches_def birth_line_def left_exit_def newlife_slot_def)
  ultimately show ?thesis
    unfolding Let_def
    using newlife_lives [OF valid, of 8] newlife_lives [OF valid, of 9] by simp
qed

end
