(* ===== verification/ToolLockProps.thy ===== *)
theory ToolLockProps imports ToolLock begin

text \<open>
  The stand-alone lock tool over any history in which the calls of the target thread do not overlap:
  what is shown are its sessions with each lock (\<open>tool_lock_sessions\<close>).  Calls do overlap where a pthread
  function enters a mutex of the kernel; then the outer call is lost (\<open>nested_lock_lost\<close>).  The two
  probes of a taking call leave times of the reserved records unwritten which the display looks at;
  the sessions say what is shown for every content of those fields.
\<close>

subsection \<open>What the probes do\<close>

datatype lock_action = A_enter u64 s32 | A_exit | A_unlock u64 | A_unlocked

fun tl_action :: "tl_ro \<Rightarrow> tl_probe \<Rightarrow> lock_action option" where
  "tl_action ro (Tl_mutex_lock_enter lock_ptr) = (if tr_enable_u_mutex ro then Some (A_enter lock_ptr 1) else None)"
| "tl_action ro Tl_mutex_lock_exit = (if tr_enable_u_mutex ro then Some A_exit else None)"
| "tl_action ro (Tl_mutex_trylock_enter lock_ptr) = (if tr_enable_u_mutex ro then Some (A_enter lock_ptr 1) else None)"
| "tl_action ro Tl_mutex_trylock_exit = (if tr_enable_u_mutex ro then Some A_exit else None)"
| "tl_action ro (Tl_mutex_unlock_enter lock_ptr) = (if tr_enable_u_mutex ro then Some (A_unlock lock_ptr) else None)"
| "tl_action ro Tl_mutex_unlock_exit = (if tr_enable_u_mutex ro then Some A_unlocked else None)"
| "tl_action ro (Tl_kmutex_lock_enter lock_ptr) = (if tr_enable_k_mutex ro then Some (A_enter lock_ptr 2) else None)"
| "tl_action ro Tl_kmutex_lock_exit = (if tr_enable_k_mutex ro then Some A_exit else None)"
| "tl_action ro (Tl_kmutex_trylock_enter lock_ptr) = (if tr_enable_k_mutex ro then Some (A_enter lock_ptr 2) else None)"
| "tl_action ro Tl_kmutex_trylock_exit = (if tr_enable_k_mutex ro then Some A_exit else None)"
| "tl_action ro (Tl_kmutex_unlock_enter lock_ptr) = (if tr_enable_k_mutex ro then Some (A_unlock lock_ptr) else None)"
| "tl_action ro Tl_kmutex_unlock_exit = (if tr_enable_k_mutex ro then Some A_unlocked else None)"
| "tl_action ro (Tl_rdlock_enter lock_ptr) = (if tr_enable_u_rwlock_rd ro then Some (A_enter lock_ptr 3) else None)"
| "tl_action ro Tl_rdlock_exit = (if tr_enable_u_rwlock_rd ro then Some A_exit else None)"
| "tl_action ro (Tl_tryrdlock_enter lock_ptr) = (if tr_enable_u_rwlock_rd ro then Some (A_enter lock_ptr 3) else None)"
| "tl_action ro Tl_tryrdlock_exit = (if tr_enable_u_rwlock_rd ro then Some A_exit else None)"
| "tl_action ro (Tl_wrlock_enter lock_ptr) = (if tr_enable_u_rwlock_wr ro then Some (A_enter lock_ptr 4) else None)"
| "tl_action ro Tl_wrlock_exit = (if tr_enable_u_rwlock_wr ro then Some A_exit else None)"
| "tl_action ro (Tl_trywrlock_enter lock_ptr) = (if tr_enable_u_rwlock_wr ro then Some (A_enter lock_ptr 4) else None)"
| "tl_action ro Tl_trywrlock_exit = (if tr_enable_u_rwlock_wr ro then Some A_exit else None)"
| "tl_action ro (Tl_rwunlock_enter lock_ptr) = (if tr_enable_u_rwlock_rd ro \<or> tr_enable_u_rwlock_wr ro then Some (A_unlock lock_ptr) else None)"
| "tl_action ro Tl_rwunlock_exit = (if tr_enable_u_rwlock_rd ro \<or> tr_enable_u_rwlock_wr ro then Some A_unlocked else None)"

fun tl_apply :: "tl_ro \<Rightarrow> tl_kern \<times> lock_action \<Rightarrow> tl_st \<Rightarrow> tl_st" where
  "tl_apply ro (kn, A_enter l t) s = tl_lock_enter ro kn l t s"
| "tl_apply ro (kn, A_exit) s = tl_lock_exit ro kn s"
| "tl_apply ro (kn, A_unlock l) s = tl_unlock_enter ro kn l s"
| "tl_apply ro (kn, A_unlocked) s = tl_unlock_exit ro kn s"

lemmas tl_probe_defs =
  tl_mutex_lock_enter_def tl_mutex_lock_exit_def tl_mutex_trylock_enter_def tl_mutex_trylock_exit_def
  tl_mutex_unlock_enter_def tl_mutex_unlock_exit_def tl_kmutex_lock_enter_def tl_kmutex_lock_exit_def
  tl_kmutex_trylock_enter_def tl_kmutex_trylock_exit_def tl_kmutex_unlock_enter_def tl_kmutex_unlock_exit_def
  tl_rdlock_enter_def tl_rdlock_exit_def tl_tryrdlock_enter_def tl_tryrdlock_exit_def
  tl_wrlock_enter_def tl_wrlock_exit_def tl_trywrlock_enter_def tl_trywrlock_exit_def
  tl_rwunlock_enter_def tl_rwunlock_exit_def

lemma tl_step_action:
  "tl_step ro (kn, pr) s = (case tl_action ro pr of None \<Rightarrow> s | Some a \<Rightarrow> tl_apply ro (kn, a) s)"
  by (cases pr) (simp_all add: tl_probe_defs)

lemma tl_apply_other: "cur_pid kn \<noteq> tr_target_pid ro \<Longrightarrow> tl_apply ro (kn, a) s = s"
  by (cases a) (simp_all add: tl_lock_enter_def tl_lock_exit_def tl_unlock_enter_def tl_unlock_exit_def Let_def)

text \<open>The actions of the target thread in a history; everything else leaves the state alone.\<close>

definition tl_acts :: "tl_ro \<Rightarrow> (tl_kern \<times> tl_probe) list \<Rightarrow> (tl_kern \<times> lock_action) list" where
  "tl_acts ro es = concat (map (\<lambda>(kn, pr).
     if cur_pid kn = tr_target_pid ro then (case tl_action ro pr of None \<Rightarrow> [] | Some a \<Rightarrow> [(kn, a)]) else []) es)"

lemma tl_run_acts: "run (tl_step ro) es s = run (tl_apply ro) (tl_acts ro es) s"
proof (induction es arbitrary: s)
  case (Cons e es)
  then show ?case
    by (cases e) (simp add: tl_step_action tl_acts_def tl_apply_other split: option.splits)
qed (simp add: tl_acts_def)

subsection \<open>Sessions\<close>

text \<open>A call that takes a lock, or one that gives it back: its entry and its return.\<close>

datatype tl_call = Take u64 s32 tl_kern tl_kern | Give u64 tl_kern tl_kern

fun call_acts :: "tl_call \<Rightarrow> (tl_kern \<times> lock_action) list" where
  "call_acts (Take l t a b) = [(a, A_enter l t), (b, A_exit)]"
| "call_acts (Give l a b) = [(a, A_unlock l), (b, A_unlocked)]"

text \<open>What a line says: kind, lock, when it was asked for, got and given back, the waiting and the holding.\<close>

type_synonym tl_says = "string \<times> u64 \<times> (u64 \<times> u64 \<times> u64) \<times> u64 \<times> u64"

fun line_says :: "tl_line \<Rightarrow> tl_says" where
  "line_says (Tl_line e c acq hold) =
     (c, tv_lock_ptr e, (tv_lock_acq_time e, tv_lock_time e, tv_unlock_time e), acq, hold)"

type_synonym tl_held = "u64 \<Rightarrow> (string \<times> u64 \<times> u64) option"

text \<open>
  The times of locking and unlocking in the record reserved by an event: the probe at the entry of a
  taking call writes neither of them, the one at its return only the first.
\<close>

definition left_times :: "tl_kern \<Rightarrow> nat \<Rightarrow> u64 \<times> u64" where
  "left_times kn i = (case kn_rsv kn i of Some r \<Rightarrow> (tv_lock_time r, tv_unlock_time r) | None \<Rightarrow> (0, 0))"

text \<open>
  The line about a lock that is asked for, with the times \<open>x\<close> and \<open>y\<close> found in the record: no waiting
  and no holding when both are 0, and else differences with them.  The line about a lock that has been
  got likewise depends on the time \<open>y\<close> of unlocking that is found.
\<close>

fun asked_says :: "string \<Rightarrow> u64 \<Rightarrow> u64 \<Rightarrow> u64 \<times> u64 \<Rightarrow> tl_says" where
  "asked_says c l acq (x, y) =
     (if x = 0 \<and> y = 0 then (c, l, (acq, 0, 0), 0, 0)
      else (c, l, (acq, x, y), x - acq, if y = 0 then 0 else y - x))"

definition got_says :: "string \<Rightarrow> u64 \<Rightarrow> u64 \<Rightarrow> u64 \<Rightarrow> u64 \<Rightarrow> tl_says" where
  "got_says c l acq got y = (c, l, (acq, got, y), got - acq, if y = 0 then 0 else y - got)"

fun tl_session :: "tl_call \<Rightarrow> tl_held \<times> tl_says list \<Rightarrow> tl_held \<times> tl_says list" where
  "tl_session (Take l t a b) (held, out) =
     (let c = the (tl_kind t); acq = kn_ktime a 0; got = kn_ktime b 1 in
      (held(l \<mapsto> (c, acq, got)), out @ [asked_says c l acq (left_times a 0), got_says c l acq got (snd (left_times b 1))]))"
| "tl_session (Give l a b) (held, out) =
     (case held l of
        None \<Rightarrow> (held, out)
      | Some (c, acq, got) \<Rightarrow>
          (let rel = kn_ktime b 2 in (held(l := None), out @ [(c, l, (acq, got, rel), got - acq, rel - got)])))"

definition tl_calm :: "tl_ro \<Rightarrow> tl_kern \<Rightarrow> bool" where
  "tl_calm ro kn \<longleftrightarrow> cur_pid kn = tr_target_pid ro \<and> (\<forall>i. kn_upd kn i = 0) \<and> kn_ktime kn 1 \<noteq> 0 \<and> kn_ktime kn 2 \<noteq> 0 \<and>
     (\<forall>i. kn_rsv kn i \<noteq> None)"

fun call_ok :: "tl_ro \<Rightarrow> u64 set \<Rightarrow> tl_call \<Rightarrow> bool" where
  "call_ok ro K (Take l t a b) = (l \<in> K \<and> tl_kind t \<noteq> None \<and> tl_calm ro a \<and> tl_calm ro b)"
| "call_ok ro K (Give l a b) = (l \<in> K \<and> tl_calm ro a \<and> tl_calm ro b)"

definition tl_key :: "tl_ro \<Rightarrow> u64 \<Rightarrow> proc_lockptr" where
  "tl_key ro l = \<lparr>tk_pid = tr_target_pid ro, tk_lock_ptr = l\<rparr>"

definition tl_entry :: "tl_event \<Rightarrow> string \<times> u64 \<times> u64" where
  "tl_entry ev = (the (tl_kind (tv_type ev)), tv_lock_acq_time ev, tv_lock_time ev)"

definition tl_shown :: "tl_event list \<Rightarrow> tl_says list" where
  "tl_shown rb = map line_says (concat (map tl_handle_event rb))"

definition tl_inv :: "tl_ro \<Rightarrow> u64 set \<Rightarrow> tl_held \<times> tl_says list \<Rightarrow> tl_st \<Rightarrow> bool" where
  "tl_inv ro K x s \<longleftrightarrow>
     finite K \<and> card K \<le> 1024 \<and> hm_max (tl_proc_lock s) = 1024 \<and> hm_ents (tl_proc_lock s) = [] \<and>
     hm_max (tl_proc_unlock s) = 1024 \<and> hm_within {tr_target_pid ro} (tl_proc_unlock s) \<and>
     hm_max (tl_lock s) = 1024 \<and> hm_within (tl_key ro ` K) (tl_lock s) \<and>
     (\<forall>l. map_option tl_entry (hm_lookup (tl_lock s) (tl_key ro l)) = fst x l) \<and>
     (\<forall>k ev. hm_lookup (tl_lock s) k = Some ev \<longrightarrow> tl_kind (tv_type ev) \<noteq> None \<and> tv_lock_time ev \<noteq> 0) \<and>
     tl_shown (tl_rb s) = snd x"

lemma tl_key_eq [simp]: "tl_key ro l = tl_key ro k \<longleftrightarrow> l = k"
  by (simp add: tl_key_def)

lemma tl_room: "tl_inv ro K x s \<Longrightarrow> l \<in> K \<Longrightarrow> hm_room (tl_lock s) (tl_key ro l)"
  using card_image_le [of K "tl_key ro"]
  by (intro hm_within_room [where K = "tl_key ro ` K"]) (auto simp: tl_inv_def)

lemma tl_shown_append [simp]: "tl_shown (xs @ ys) = tl_shown xs @ tl_shown ys"
  by (simp add: tl_shown_def)

lemma hm_update_absent:
  "hm_ents m = [] \<Longrightarrow> 0 < hm_max m \<Longrightarrow> hm_update 0 m k v = (0, m\<lparr>hm_ents := [(k, v)]\<rparr>)"
  by (simp add: hm_update_def hm_lookup_def)

lemma tl_take:
  assumes inv: "tl_inv ro K (held, out) s" and ok: "call_ok ro K (Take l t a b)"
  shows "tl_inv ro K (tl_session (Take l t a b) (held, out)) (run (tl_apply ro) (call_acts (Take l t a b)) s)"
proof -
  have calm: "tl_calm ro a" "tl_calm ro b" and l: "l \<in> K" and kind: "tl_kind t \<noteq> None" using ok by simp_all
  then obtain c where c: "tl_kind t = Some c" by blast
  obtain r0 where r0: "kn_rsv a 0 = Some r0"
    using calm(1) unfolding tl_calm_def by blast
  obtain r1 where r1: "kn_rsv b 1 = Some r1"
    using calm(2) unfolding tl_calm_def by blast
  have key: "\<lparr>tk_pid = tr_target_pid ro, tk_lock_ptr = k\<rparr> = tl_key ro k" for k by (simp add: tl_key_def)
  let ?ev = "\<lparr>tv_type = t, tv_pid = tr_target_pid ro, tv_comm = lt_comm a, tv_lock_ptr = l,
      tv_lock_acq_time = kn_ktime a 0, tv_lock_time = 0, tv_unlock_time = 0\<rparr>"
  let ?m = "snd (hm_update 0 (tl_lock s) (tl_key ro l) ?ev)"
  let ?e0 = "r0\<lparr>tv_type := t, tv_pid := tr_target_pid ro, tv_comm := lt_comm a, tv_lock_ptr := l,
      tv_lock_acq_time := kn_ktime a 0\<rparr>"
  let ?e1 = "r1\<lparr>tv_type := t, tv_pid := tr_target_pid ro, tv_comm := lt_comm b, tv_lock_ptr := l,
      tv_lock_acq_time := kn_ktime a 0, tv_lock_time := kn_ktime b 1\<rparr>"
  have room: "hm_room (tl_lock s) (tl_key ro l)" by (rule tl_room [OF inv l])
  have lk: "hm_lookup ?m = (hm_lookup (tl_lock s))(tl_key ro l \<mapsto> ?ev)" "fst (hm_update 0 (tl_lock s) (tl_key ro l) ?ev) = 0"
    using room by (simp_all add: hm_update_done hm_update_accepted)
  have pl: "hm_ents (tl_proc_lock s) = []" "hm_max (tl_proc_lock s) = 1024" using inv by (simp_all add: tl_inv_def)
  have e: "tl_lock_enter ro a l t s = s\<lparr>tl_proc_lock := (tl_proc_lock s)\<lparr>hm_ents := [(tr_target_pid ro, l)]\<rparr>,
      tl_lock := ?m, tl_rb := tl_rb s @ [?e0]\<rparr>"
    using calm(1) r0 pl lk(2) by (simp add: tl_lock_enter_def Let_def tl_calm_def hm_update_absent key split_beta)
  have x: "tl_lock_exit ro b (tl_lock_enter ro a l t s) = s\<lparr>
      tl_lock := hm_poke ?m (tl_key ro l) (?ev\<lparr>tv_lock_time := kn_ktime b 1\<rparr>),
      tl_rb := (tl_rb s @ [?e0]) @ [?e1], tl_proc_lock := (tl_proc_lock s)\<lparr>hm_ents := []\<rparr>\<rparr>"
    using calm(2) r1 lk(1) pl
    by (simp add: e tl_lock_exit_def Let_def tl_calm_def key hm_lookup_def [of "_\<lparr>hm_ents := _\<rparr>"] hm_delete_def)
  show ?thesis
    using inv l kind c r0 r1 calm(2)
    by (auto simp: x tl_inv_def Let_def lk(1) hm_lookup_poke tl_entry_def tl_shown_def tl_handle_event_def tl_calm_def
        left_times_def got_says_def
        intro!: hm_within_rules split: if_splits)
qed

lemma tl_give:
  assumes inv: "tl_inv ro K (held, out) s" and ok: "call_ok ro K (Give l a b)"
  shows "tl_inv ro K (tl_session (Give l a b) (held, out)) (run (tl_apply ro) (call_acts (Give l a b)) s)"
proof -
  have calm: "tl_calm ro a" "tl_calm ro b" using ok by simp_all
  obtain r where r: "kn_rsv b 2 = Some r" using calm(2) unfolding tl_calm_def by blast
  have key: "\<lparr>tk_pid = tr_target_pid ro, tk_lock_ptr = k\<rparr> = tl_key ro k" for k by (simp add: tl_key_def)
  let ?m = "snd (hm_update 0 (tl_proc_unlock s) (tr_target_pid ro) l)"
  have within: "hm_within {tr_target_pid ro} (tl_proc_unlock s)" "hm_max (tl_proc_unlock s) = 1024"
    using inv by (simp_all add: tl_inv_def)
  then have "hm_room (tl_proc_unlock s) (tr_target_pid ro)"
    by (intro hm_within_room [where K = "{tr_target_pid ro}"]) simp_all
  then have lk: "hm_lookup ?m (tr_target_pid ro) = Some l" by (simp add: hm_update_done hm_update_accepted)
  have e: "tl_unlock_enter ro a l s = s\<lparr>tl_proc_unlock := ?m\<rparr>"
    using calm(1) by (simp add: tl_unlock_enter_def Let_def tl_calm_def)
  show ?thesis
  proof (cases "hm_lookup (tl_lock s) (tl_key ro l)")
    case None
    then have "held l = None" using inv by (auto simp: tl_inv_def dest: spec [where x = l])
    moreover have "tl_unlock_exit ro b (tl_unlock_enter ro a l s) = s\<lparr>tl_proc_unlock := ?m\<rparr>"
      using calm(2) lk None by (simp add: e tl_unlock_exit_def Let_def tl_calm_def key)
    ultimately show ?thesis
      using inv by (auto simp: tl_inv_def intro: hm_within_rules)
  next
    case (Some ev)
    let ?ev = "ev\<lparr>tv_unlock_time := kn_ktime b 2\<rparr>"
    let ?e = "r\<lparr>tv_type := tv_type ev, tv_pid := tr_target_pid ro, tv_comm := lt_comm b, tv_lock_ptr := l,
        tv_lock_acq_time := tv_lock_acq_time ev, tv_lock_time := tv_lock_time ev, tv_unlock_time := kn_ktime b 2\<rparr>"
    have ev: "held l = Some (tl_entry ev)" "tl_kind (tv_type ev) \<noteq> None" "tv_lock_time ev \<noteq> 0"
      using inv Some by (auto simp: tl_inv_def dest: spec [where x = l])
    then obtain c where c: "tl_kind (tv_type ev) = Some c" by blast
    have x: "tl_unlock_exit ro b (tl_unlock_enter ro a l s) = s\<lparr>
        tl_lock := hm_delete (hm_poke (tl_lock s) (tl_key ro l) ?ev) (tl_key ro l),
        tl_rb := tl_rb s @ [?e], tl_proc_unlock := hm_delete ?m (tr_target_pid ro)\<rparr>"
      using calm(2) lk Some r by (simp add: e tl_unlock_exit_def Let_def tl_calm_def key)
    have lk': "hm_lookup (hm_delete (hm_poke (tl_lock s) (tl_key ro l) ?ev) (tl_key ro l)) =
        (hm_lookup (tl_lock s))(tl_key ro l := None)"
      by (auto simp: hm_lookup_delete hm_lookup_poke fun_eq_iff)
    show ?thesis
      using inv ev c calm(2) within
      by (auto simp: x tl_inv_def Let_def lk' tl_entry_def tl_shown_def tl_handle_event_def tl_calm_def
          intro!: hm_within_rules split: if_splits)
  qed
qed

lemma tl_calls_inv:
  "tl_inv ro K x s \<Longrightarrow> \<forall>c \<in> set cs. call_ok ro K c \<Longrightarrow>
   tl_inv ro K (run tl_session cs x) (run (tl_apply ro) (concat (map call_acts cs)) s)"
proof (induction cs arbitrary: x s)
  case (Cons c cs)
  obtain held out where x: "x = (held, out)" by (cases x)
  have "tl_inv ro K (tl_session c x) (run (tl_apply ro) (call_acts c) s)"
    using Cons.prems x by (cases c) (auto simp del: tl_session.simps call_acts.simps intro: tl_take tl_give)
  with Cons show ?case by simp
qed simp

text \<open>
  C16. The stand-alone lock tool shows the sessions of its thread with each lock: if the calls of the
  target thread that are traced follow one another, whatever other threads do meanwhile and whatever
  else the probes see, every call that takes a lock has one line when it starts and one when it returns, the
  latter with the time of waiting, and every call that gives back a lock the thread has taken has one with the
  times of waiting and holding, as long as the kernel refuses no insertion and no reservation, the clock
  is not 0, and at most 1024 locks are used.  Nothing is assumed of what the reserved records contain:
  the line of a start has its two times 0 exactly when the two fields its probe does not write are
  found to be 0, and the line of a return shows no holding exactly as the one field it does not write
  says; otherwise they show the differences with the leftover times that the session states (a
  defect of the probes).
\<close>

theorem tool_lock_sessions:
  assumes "tl_acts ro es = concat (map call_acts cs)" and "\<forall>c \<in> set cs. call_ok ro K c" and "finite K" and "card K \<le> 1024"
  shows "map line_says (concat (map tl_handle_event (tl_rb (run (tl_step ro) es tl_maps)))) =
    snd (run tl_session cs (Map.empty, []))"
proof -
  have "tl_inv ro K (Map.empty, []) tl_maps"
    using assms(3,4) by (simp add: tl_inv_def tl_maps_def tl_shown_def) (simp add: hm_new_def)
  from tl_calls_inv [OF this assms(2)]
  show ?thesis by (simp add: tl_inv_def tl_shown_def tl_run_acts assms(1))
qed

text \<open>
  Thread 7 takes the mutex at 80 while thread 9 makes calls of its own, gives it back, and takes it
  again, now with records that still have the times 30 and 41.
\<close>

definition tl_slot :: "u64 \<Rightarrow> u64 \<Rightarrow> tl_event" where
  "tl_slot x y = \<lparr>tv_type = 0, tv_pid = 0, tv_comm = [], tv_lock_ptr = 0, tv_lock_acq_time = 0, tv_lock_time = x,
     tv_unlock_time = y\<rparr>"

definition tl_at :: "pid_t \<Rightarrow> u64 \<Rightarrow> u64 \<Rightarrow> u64 \<Rightarrow> tl_kern" where
  "tl_at p t x y = kern.extend (calm p p t (tl_slot x y)) \<lparr>lt_comm = replicate 16 0\<rparr>"

definition tl_seven :: tl_ro where
  "tl_seven = \<lparr>tr_target_pid = 7, tr_enable_u_mutex = True, tr_enable_k_mutex = False, tr_enable_u_rwlock_rd = False,
     tr_enable_u_rwlock_wr = False\<rparr>"

lemma tl_at_simps [simp]:
  "cur_pid (tl_at p t x y) = p" "kn_ktime (tl_at p t x y) i = t" "kn_upd (tl_at p t x y) i = 0"
  "kn_rsv (tl_at p t x y) i = Some (tl_slot x y)"
  by (simp_all add: tl_at_def)

theorem tool_lock_sessions_witness:
  "map line_says (concat (map tl_handle_event (tl_rb (run (tl_step tl_seven)
     [(tl_at 7 10 0 0, Tl_mutex_lock_enter 80), (tl_at 9 12 0 0, Tl_mutex_lock_enter 96),
      (tl_at 7 15 0 0, Tl_kmutex_lock_enter 64),
      (tl_at 7 30 0 0, Tl_mutex_lock_exit), (tl_at 9 31 0 0, Tl_mutex_lock_exit), (tl_at 7 40 0 0, Tl_mutex_unlock_enter 80),
      (tl_at 7 41 0 0, Tl_mutex_unlock_exit), (tl_at 7 50 30 41, Tl_mutex_trylock_enter 80),
      (tl_at 7 52 30 41, Tl_mutex_trylock_exit)] tl_maps)))) =
   [(''u_mutex'', 80, (10, 0, 0), 0, 0), (''u_mutex'', 80, (10, 30, 0), 20, 0), (''u_mutex'', 80, (10, 30, 41), 20, 11),
    (''u_mutex'', 80, (50, 30, 41), - 20, 11), (''u_mutex'', 80, (50, 52, 41), 2, - 11)]"
proof -
  let ?cs = "[Take 80 1 (tl_at 7 10 0 0) (tl_at 7 30 0 0), Give 80 (tl_at 7 40 0 0) (tl_at 7 41 0 0),
      Take 80 1 (tl_at 7 50 30 41) (tl_at 7 52 30 41)]"
  have acts: "tl_acts tl_seven
     [(tl_at 7 10 0 0, Tl_mutex_lock_enter 80), (tl_at 9 12 0 0, Tl_mutex_lock_enter 96),
      (tl_at 7 15 0 0, Tl_kmutex_lock_enter 64),
      (tl_at 7 30 0 0, Tl_mutex_lock_exit), (tl_at 9 31 0 0, Tl_mutex_lock_exit), (tl_at 7 40 0 0, Tl_mutex_unlock_enter 80),
      (tl_at 7 41 0 0, Tl_mutex_unlock_exit), (tl_at 7 50 30 41, Tl_mutex_trylock_enter 80),
      (tl_at 7 52 30 41, Tl_mutex_trylock_exit)] =
     concat (map call_acts ?cs)"
    by (simp add: tl_acts_def tl_seven_def)
  have ok: "\<forall>c \<in> set ?cs. call_ok tl_seven {80} c"
    by (simp add: tl_calm_def tl_seven_def tl_kind_def)
  have "snd (run tl_session ?cs (Map.empty, [])) =
     [(''u_mutex'', 80, (10, 0, 0), 0, 0), (''u_mutex'', 80, (10, 30, 0), 20, 0), (''u_mutex'', 80, (10, 30, 41), 20, 11),
      (''u_mutex'', 80, (50, 30, 41), - 20, 11), (''u_mutex'', 80, (50, 52, 41), 2, - 11)]"
    by (simp add: Let_def tl_kind_def left_times_def got_says_def tl_slot_def)
  with tool_lock_sessions [OF acts ok] show ?thesis by (simp only: finite.intros) simp
qed

text \<open>
  One slot remembers the lock a thread is asking for: when a call enters another lock before it returns,
  as a pthread function does with a mutex of the kernel, its own return is not reported.
\<close>

lemma nested_lock_lost:
  assumes "tl_calm ro a" "tl_calm ro b" "tl_calm ro c" "tl_calm ro d" and "l \<noteq> k"
  shows "map (\<lambda>e. (tv_lock_ptr e, tv_lock_time e)) (tl_rb (run (tl_apply ro)
      [(a, A_enter l 1), (b, A_enter k 2), (c, A_exit), (d, A_exit)] tl_maps)) =
    [(l, fst (left_times a 0)), (k, fst (left_times b 0)), (k, kn_ktime c 1)]"
proof -
  obtain r0 r1 r2 where "kn_rsv a 0 = Some r0" "kn_rsv b 0 = Some r1" "kn_rsv c (Suc 0) = Some r2"
    using assms(1-3) unfolding tl_calm_def by (meson not_None_eq)
  then show ?thesis
    using assms by (simp add: tl_maps_def hm_new_def tl_calm_def tl_lock_enter_def tl_lock_exit_def Let_def
        hm_update_def hm_lookup_def hm_poke_def hm_delete_def left_times_def)
qed

end
