(* ===== verification/ToolKeytimeProps.thy ===== *)
theory ToolKeytimeProps imports ToolKeytime KeytimeProps begin

text \<open>
  The stand-alone key-time tool: the arguments of an \<open>execve\<close> stay inside their buffer, and a call of the
  target thread is displayed twice, when it begins and, with its duration and the same arguments, when
  it has succeeded, whatever other threads do meanwhile (\<open>tool_exec_timed\<close>).
\<close>

subsection \<open>The buffer of the arguments\<close>

definition xk_buffer :: "xk_event \<Rightarrow> bool" where
  "xk_buffer ev \<longleftrightarrow> unat (xe_args_size ev) \<le> 7680 \<and> length (xe_args ev) = 7680"

lemma xk_size_add:
  assumes "unat (xe_args_size ev) \<le> 7552" and "read_ok r" and "\<not> ur_ret r <s 0"
  shows "unat (xe_args_size ev + ur_ret r) = unat (xe_args_size ev) + length (ur_bytes r)"
proof -
  have "unat (ur_ret r) = length (ur_bytes r)" "length (ur_bytes r) \<le> 128"
    using assms(2,3) by (simp_all add: read_ok_def)
  then show ?thesis
    using assms(1) unat_plus_no_wrap [of "xe_args_size ev" "ur_ret r"] by simp
qed

lemma xk_exec_loop_buffer:
  "\<forall>j. read_ok (xa_str xa j) \<Longrightarrow> xk_buffer ev \<Longrightarrow> xk_buffer (snd (xk_exec_loop ma xa i ev))"
proof (induction ma xa i ev rule: xk_exec_loop.induct)
  case (1 ma xa i ev)
  have len: "length (ur_bytes (xa_str xa i)) \<le> 128" using "1.prems"(1) by (auto simp: read_ok_def)
  show ?case
  proof (cases "i < 60 \<and> int i < sint ma \<and> \<not> xa_ptr xa i <s 0 \<and> \<not> xe_args_size ev > 7680 - 128")
    case True
    then have size: "unat (xe_args_size ev) \<le> 7552" by (simp add: word_le_nat_alt not_less)
    define ev1 where "ev1 = ev\<lparr>xe_args := put_bytes (unat (xe_args_size ev)) (ur_bytes (xa_str xa i)) (xe_args ev)\<rparr>"
    have ok1: "xk_buffer ev1" using "1.prems"(2) size len by (simp add: xk_buffer_def ev1_def length_put_bytes)
    show ?thesis
    proof (cases "ur_ret (xa_str xa i) <s 0")
      case True
      with \<open>i < 60 \<and> _\<close> ok1 show ?thesis by (subst xk_exec_loop.simps) (simp add: ev1_def Let_def)
    next
      case False
      have "xk_buffer (ev1\<lparr>xe_args_count := xe_args_count ev1 + 1, xe_args_size := xe_args_size ev1 + ur_ret (xa_str xa i)\<rparr>)"
        using ok1 xk_size_add [OF size _ False] "1.prems"(1) size len by (simp add: xk_buffer_def ev1_def)
      with False True "1.IH" [of "xa_str xa i" ev1] "1.prems"(1) show ?thesis
        by (subst xk_exec_loop.simps) (simp add: ev1_def Let_def)
    qed
  next
    case False
    with "1.prems"(2) show ?thesis by (subst xk_exec_loop.simps) auto
  qed
qed

lemma xk_exec_event_buffer:
  assumes "exec_reads_ok xa" and "length (xe_args ev) = 7680"
  shows "xk_buffer (xk_exec_event ma xa kn ev)"
proof -
  let ?r = "xa_file xa"
  have r: "length (ur_bytes ?r) \<le> 128" "\<not> ur_ret ?r <s 0 \<Longrightarrow> unat (ur_ret ?r) = length (ur_bytes ?r)"
    using assms(1) by (simp_all add: exec_reads_ok_def read_ok_def)
  have loop: "xk_buffer (snd (xk_exec_loop ma xa i ev))" if "xk_buffer ev" for i ev
    using xk_exec_loop_buffer [of xa ev ma i] assms(1) that by (simp add: exec_reads_ok_def)
  have count: "xk_buffer (ev\<lparr>xe_args_count := n\<rparr>) = xk_buffer ev" for ev n
    by (simp add: xk_buffer_def)
  show ?thesis
    using r assms(2) unfolding xk_exec_event_def Let_def case_prod_beta
    by (auto simp: count intro!: loop) (auto simp: xk_buffer_def length_put_bytes)
qed

text \<open>The fields the loop does not write.\<close>

lemma xk_exec_loop_head:
  "xe_flag (snd (xk_exec_loop ma xa i ev)) = xe_flag ev \<and> xe_pid (snd (xk_exec_loop ma xa i ev)) = xe_pid ev \<and>
   xe_ppid (snd (xk_exec_loop ma xa i ev)) = xe_ppid ev \<and> xe_comm (snd (xk_exec_loop ma xa i ev)) = xe_comm ev \<and>
   xe_start (snd (xk_exec_loop ma xa i ev)) = xe_start ev \<and> xe_exit (snd (xk_exec_loop ma xa i ev)) = xe_exit ev \<and>
   xe_enable_char_args (snd (xk_exec_loop ma xa i ev)) = xe_enable_char_args ev"
proof (induction ma xa i ev rule: xk_exec_loop.induct)
  case (1 ma xa i ev)
  then show ?case by (subst (1 2 3 4 5 6 7) xk_exec_loop.simps) (auto simp: Let_def)
qed

lemma xk_exec_event_head:
  "xe_flag (xk_exec_event ma xa kn ev) = 1" "xe_pid (xk_exec_event ma xa kn ev) = cur_pid kn"
  "xe_ppid (xk_exec_event ma xa kn ev) = xn_ppid kn" "xe_comm (xk_exec_event ma xa kn ev) = xn_comm kn"
  "xe_start (xk_exec_event ma xa kn ev) = kn_ktime kn 1" "xe_exit (xk_exec_event ma xa kn ev) = 0"
  "xe_enable_char_args (xk_exec_event ma xa kn ev)"
  by (simp_all add: xk_exec_event_def Let_def case_prod_beta xk_exec_loop_head)

subsection \<open>The display of the arguments\<close>

definition xk_bump :: "u8 \<Rightarrow> s32 \<Rightarrow> s32" where
  "xk_bump c n = (if c = 0 then n + 1 else n)"

definition xk_piece :: "bool \<Rightarrow> s32 \<Rightarrow> u8 \<Rightarrow> s32 \<Rightarrow> u8 list" where
  "xk_piece quote count c n =
     (if quote then (if c = 0 then [34, 32] @ (if n <s count then [34] else []) else quoted_symbol c)
      else if c = 0 then [32] else [c])"

lemma xk_print_step:
  "xk_print_loop q e i n =
     (if i < unat (xe_args_size e) \<and> n <s xe_args_count e then
        (if length (xe_args e) \<le> i then None
         else map_option (\<lambda>cs. xk_piece q (xe_args_count e) (xe_args e ! i) (xk_bump (xe_args e ! i) n) @ cs)
                (xk_print_loop q e (Suc i) (xk_bump (xe_args e ! i) n)))
      else Some [])"
  by (subst xk_print_loop.simps) (auto simp: Let_def xk_bump_def xk_piece_def split: option.splits)

lemma xk_print_loop_some:
  assumes "unat (xe_args_size e) \<le> length (xe_args e)"
  shows "xk_print_loop q e i n \<noteq> None"
proof (induction "unat (xe_args_size e) - i" arbitrary: i n)
  case 0
  then show ?case by (subst xk_print_step) simp
next
  case (Suc d)
  then show ?case using assms by (subst xk_print_step) simp
qed

lemma xk_print_loop_cong:
  assumes "xe_args_size e' = xe_args_size e" and "xe_args_count e' = xe_args_count e"
    and "xe_args e' = take (unat (xe_args_size e)) (xe_args e)" and "unat (xe_args_size e) \<le> length (xe_args e)"
  shows "xk_print_loop q e' i n = xk_print_loop q e i n"
proof (induction "unat (xe_args_size e) - i" arbitrary: i n)
  case 0
  then show ?case using assms(1) by (subst (1 2) xk_print_step) simp
next
  case (Suc d)
  then have "xk_print_loop q e' (Suc i) n' = xk_print_loop q e (Suc i) n'" for n' by simp
  then show ?case using assms by (subst (1 2) xk_print_step) auto
qed

lemma xk_same: "e\<lparr>xe_flag := xe_flag e, xe_exit := xe_exit e, xe_retval := xe_retval e\<rparr> = e"
  by simp

lemma xk_sent_args:
  assumes "xk_buffer ev" and "xe_enable_char_args ev"
  shows "\<exists>shown. xk_print_args env ev = Some shown \<and>
    (\<forall>f x r. xk_show_args env (ev\<lparr>xe_flag := f, xe_exit := x, xe_retval := r,
       xe_args := take (unat (xe_args_size ev)) (xe_args ev)\<rparr>) = Some (Xk_text shown))"
proof -
  have len: "unat (xe_args_size ev) \<le> length (xe_args ev)" using assms(1) by (simp add: xk_buffer_def)
  have "xk_print_args env ev \<noteq> None"
    using xk_print_loop_some [OF len, of "xv_quote env" 0 0] by (auto simp: xk_print_args_def)
  then obtain shown where shown: "xk_print_args env ev = Some shown" by blast
  have "xk_print_args env (ev\<lparr>xe_flag := f, xe_exit := x, xe_retval := r,
      xe_args := take (unat (xe_args_size ev)) (xe_args ev)\<rparr>) = xk_print_args env ev" for f x r
    using len by (simp add: xk_print_args_def xk_print_loop_cong [where e = ev])
  then show ?thesis using shown assms(2) by (simp add: xk_show_args_def)
qed

subsection \<open>A call\<close>

lemma xk_other: "cur_pid (fst e) \<noteq> xr_target_pid ro \<Longrightarrow> xk_step ro e s = s"
  by (cases e; cases "snd e")
    (auto simp: xk_enter_execve_def xk_exit_execve_def xk_record_exitsys_def Let_def)

lemma xk_run_others: "\<forall>e \<in> set es. cur_pid (fst e) \<noteq> xr_target_pid ro \<Longrightarrow> run (xk_step ro) es s = s"
  by (induction es) (simp_all add: xk_other)

text \<open>
  C17. The stand-alone key-time tool shows each \<open>execve\<close> of its thread that succeeds: a line when the call
  begins, with the time, the process and the arguments that could be read, and a line when it returns,
  with the same arguments, the result and the time between the two, whatever other threads do in between;
  nothing is left in the map, and no index leaves its array.  Tracing of \<open>execve\<close> is enabled, the thread has no call
  pending, the map has room, the kernel grants the insertion and the room in the buffer for both events, the
  strings are read without error, and the clock is not 0.
\<close>

theorem tool_exec_timed:
  assumes "xr_enable_execve ro" and "cur_pid ke = xr_target_pid ro" and "cur_pid kx = xr_target_pid ro"
    and "hm_lookup (xk_keytime s) (xr_target_pid ro) = None" and "hm_room (xk_keytime s) (xr_target_pid ro)"
    and "kn_upd ke 1 = 0" and "xn_fits ke" and "xn_fits kx" and "exec_reads_ok xa"
    and "kn_ktime ke 1 \<noteq> 0" and "kn_ktime kx 3 \<noteq> 0" and "\<not> (ucast ret :: s32) <s 0"
    and "\<forall>e \<in> set es. cur_pid (fst e) \<noteq> xr_target_pid ro"
  shows "\<exists>shown s'. s' = run (xk_step ro) ((ke, Xk_enter xa) # es @ [(kx, Xk_exit ret)]) s \<and>
    xk_print_args env (xk_exec_event (xr_max_args ro) xa ke empty_event) = Some shown \<and>
    map (xk_handle_event env) (xk_events s') = map (xk_handle_event env) (xk_events s) @
      [Some (Xk_began (kn_ktime ke 1) ''execve_enter'' (xn_comm ke) (cur_pid ke) (xn_ppid ke) (Xk_text shown)),
       Some (Xk_done (kn_ktime kx 3) ''execve_exit'' (xn_comm ke) (cur_pid ke) (xn_ppid ke)
         (kn_ktime kx 3 - kn_ktime ke 1) (ucast ret) (Xk_text shown))] \<and>
    hm_lookup (xk_keytime s') (xr_target_pid ro) = None"
proof -
  let ?p = "xr_target_pid ro"
  let ?ev = "xk_exec_event (xr_max_args ro) xa ke empty_event"
  let ?ev2 = "?ev\<lparr>xe_flag := 2, xe_exit := kn_ktime kx 3, xe_retval := ucast ret\<rparr>"
  let ?sent = "\<lambda>e. e\<lparr>xe_args := take (unat (xe_args_size ?ev)) (xe_args ?ev)\<rparr>"
  have buf: "xk_buffer ?ev" by (rule xk_exec_event_buffer [OF assms(9)]) (simp add: empty_event_def)
  then have size: "unat (xe_args_size ?ev) \<le> 7684" by (simp add: xk_buffer_def)
  let ?m = "snd (hm_update 0 (xk_keytime s) ?p empty_event)"
  have ins: "hm_insert (kn_upd ke 1) (xk_keytime s) ?p empty_event = (0, ?m)"
    using assms(4-6) by (simp add: hm_insert_def hm_update_accepted prod_eq_iff)
  have lk: "hm_lookup ?m ?p = Some empty_event" using assms(5) by (simp add: hm_update_done hm_update_accepted)
  have enter: "xk_enter_execve ro ke xa s =
      s\<lparr>xk_keytime := hm_poke ?m ?p ?ev, xk_events := xk_events s @ [?sent ?ev]\<rparr>"
    using assms(1,2,7) ins lk size by (simp add: xk_enter_execve_def Let_def xk_output_def)
  let ?s1 = "s\<lparr>xk_keytime := hm_poke ?m ?p ?ev, xk_events := xk_events s @ [?sent ?ev]\<rparr>"
  have lk1: "hm_lookup (hm_poke ?m ?p ?ev) ?p = Some ?ev" by (simp add: hm_lookup_poke lk)
  have exit: "xk_exit_execve ro kx ret ?s1 = s\<lparr>
      xk_keytime := hm_delete (hm_poke (hm_poke ?m ?p ?ev) ?p ?ev2) ?p,
      xk_events := (xk_events s @ [?sent ?ev]) @ [?sent ?ev2]\<rparr>"
    using assms(1,3,8,12) lk1 size by (simp add: xk_exit_execve_def Let_def xk_output_def)
  have run: "run (xk_step ro) ((ke, Xk_enter xa) # es @ [(kx, Xk_exit ret)]) s = xk_exit_execve ro kx ret ?s1"
    using xk_run_others [OF assms(13)] by (simp add: enter)
  obtain shown where shown: "xk_print_args env ?ev = Some shown"
      "\<forall>f x r. xk_show_args env (?sent (?ev\<lparr>xe_flag := f, xe_exit := x, xe_retval := r\<rparr>)) = Some (Xk_text shown)"
    using xk_sent_args [OF buf xk_exec_event_head(7), of env] by auto
  have "xk_show_args env (?sent (?ev\<lparr>xe_flag := xe_flag ?ev, xe_exit := xe_exit ?ev, xe_retval := xe_retval ?ev\<rparr>)) =
      Some (Xk_text shown)" and sent2: "xk_show_args env (?sent ?ev2) = Some (Xk_text shown)"
    using shown(2) by blast+
  then have sent: "xk_show_args env (?sent ?ev) = Some (Xk_text shown)" unfolding xk_same by blast
  have "xk_handle_event env (?sent ?ev) =
      Some (Xk_began (kn_ktime ke 1) ''execve_enter'' (xn_comm ke) (cur_pid ke) (xn_ppid ke) (Xk_text shown))"
    using assms(10) sent
    by (simp add: xk_handle_event_def Let_def xk_exec_event_head xk_name_def)
  moreover have "xk_handle_event env (?sent ?ev2) = Some (Xk_done (kn_ktime kx 3) ''execve_exit'' (xn_comm ke) (cur_pid ke)
      (xn_ppid ke) (kn_ktime kx 3 - kn_ktime ke 1) (ucast ret) (Xk_text shown))"
    using assms(10,11) sent2
    by (simp add: xk_handle_event_def Let_def xk_exec_event_head xk_name_def)
  ultimately show ?thesis
    using shown(1) unfolding run exit by (simp add: hm_lookup_delete)
qed

text \<open>Thread 7 calls \<open>execve\<close> at 10 and has succeeded at 60; thread 9 exits meanwhile.\<close>

definition xk_at :: "pid_t \<Rightarrow> u64 \<Rightarrow> xk_kern" where
  "xk_at p t = kern.extend (calm p p t ()) \<lparr>xn_ppid = 1, xn_comm = replicate 16 0, xn_fits = True\<rparr>"

definition xk_seven :: xk_ro where
  "xk_seven = \<lparr>xr_target_pid = 7, xr_enable_execve = True, xr_enable_exit = True, xr_max_args = 20\<rparr>"

lemma xk_at_simps [simp]:
  "cur_pid (xk_at p t) = p" "kn_ktime (xk_at p t) i = t" "kn_upd (xk_at p t) i = 0"
  "xn_fits (xk_at p t)" "xn_ppid (xk_at p t) = 1" "xn_comm (xk_at p t) = replicate 16 0"
  by (simp_all add: xk_at_def kern.defs calm_def cur_pid_def ucast_or_push32)

theorem tool_exec_timed_witness:
  "\<exists>shown s'. s' = run (xk_step xk_seven)
      ((xk_at 7 10, Xk_enter demo_args) # [(xk_at 9 20, Xk_thread_exit 0)] @ [(xk_at 7 60, Xk_exit 0)]) xk_maps \<and>
    map (xk_handle_event xk_env0) (xk_events s') =
      [Some (Xk_began 10 ''execve_enter'' (replicate 16 0) 7 1 (Xk_text shown)),
       Some (Xk_done 60 ''execve_exit'' (replicate 16 0) 7 1 50 0 (Xk_text shown))]"
proof -
  have start: "hm_lookup (xk_keytime xk_maps) 7 = None" "hm_room (xk_keytime xk_maps) 7" "xk_events xk_maps = []"
    by (simp_all add: xk_maps_def hm_room_def) (simp add: hm_new_def)
  show ?thesis
    using tool_exec_timed [of xk_seven "xk_at 7 10" "xk_at 7 60" xk_maps demo_args 0 "[(xk_at 9 20, Xk_thread_exit 0)]" xk_env0]
      demo_args_ok start
    by (auto simp: xk_seven_def)
qed

end
