(* ===== verification/ElfHelpers.thy ===== *)
theory ElfHelpers imports Prelude begin

text \<open>
  \<open>include/uprobe_helpers.c\<close>: finding the binary a probe is for, opening it, and finding a function
  in it.

  libelf is not part of the repository.  What it makes of a file is given as a value of type \<open>elf\<close>:
  the type of the file, the sections in the order \<open>elf_nextscn\<close> visits them with their data blocks
  and the symbols \<open>gelf_getsym\<close> reads in them, and the program headers; every call that can fail has
  its failure as a value.  File names and symbol names are lists of bytes without the final NUL.
\<close>

definition bytes :: "string \<Rightarrow> u8 list" where
  "bytes s = map of_char s"

subsection \<open>An ELF file\<close>

text \<open>A symbol: the string \<open>elf_strptr\<close> gives for \<open>st_name\<close>, and the fields that are read.\<close>

record elf_sym =
  est_name :: "u8 list option"
  est_value :: u64
  est_size :: u64
  est_info :: u8

record elf_data =
  ed_size :: u64
  ed_syms :: "elf_sym option list"

text \<open>\<open>esh_ok\<close>: \<open>gelf_getshdr\<close> succeeds.  \<open>esh_name\<close>: the string of \<open>sh_name\<close>.\<close>

record elf_scn =
  esh_ok :: bool
  esh_name :: "u8 list option"
  esh_type :: u32
  esh_addr :: u64
  esh_offset :: u64
  esh_entsize :: u64
  esh_data :: "elf_data list"

record elf_phdr =
  eph_type :: u32
  eph_flags :: u32
  eph_vaddr :: u64
  eph_memsz :: u64
  eph_offset :: u64

text \<open>
  \<open>elf_ehdr\<close>: \<open>e_type\<close>, if \<open>gelf_getehdr\<close> succeeds; \<open>elf_strndx\<close>: \<open>elf_getshdrstrndx\<close> succeeds;
  \<open>elf_phdrs\<close>: the headers, if \<open>elf_getphdrnum\<close> succeeds.
\<close>

record elf =
  elf_is_elf :: bool
  elf_ehdr :: "u16 option"
  elf_strndx :: bool
  elf_scns :: "elf_scn list"
  elf_phdrs :: "elf_phdr option list option"

text \<open>\<open>gelf_getsym(data, i, _)\<close>: nothing for an index outside of the block.\<close>

definition gelf_getsym :: "elf_data \<Rightarrow> int \<Rightarrow> elf_sym option" where
  "gelf_getsym data i =
     (if i < 0 \<or> int (length (ed_syms data)) \<le> i then None else ed_syms data ! nat i)"

text \<open>The library and the file system: \<open>elf_version\<close>, \<open>open\<close> and \<open>elf_begin\<close>.\<close>

record elf_lib =
  lib_version :: bool
  lib_open :: "u8 list \<Rightarrow> s32"
  lib_begin :: "s32 \<Rightarrow> elf option"

abbreviation (input) ET_EXEC :: u16 where "ET_EXEC \<equiv> 2"
abbreviation (input) ET_DYN :: u16 where "ET_DYN \<equiv> 3"
abbreviation (input) SHT_SYMTAB :: u32 where "SHT_SYMTAB \<equiv> 2"
abbreviation (input) SHT_DYNSYM :: u32 where "SHT_DYNSYM \<equiv> 11"

definition open_elf_by_fd :: "elf_lib \<Rightarrow> s32 \<Rightarrow> elf option" where
  "open_elf_by_fd lib fd =
     (if \<not> lib_version lib then None
      else (case lib_begin lib fd of None \<Rightarrow> None | Some e \<Rightarrow> if elf_is_elf e then Some e else None))"

text \<open>The descriptor that \<open>*fd_close\<close> gets is the one \<open>close_elf\<close> closes; it is not kept here.\<close>

definition open_elf :: "elf_lib \<Rightarrow> u8 list \<Rightarrow> elf option" where
  "open_elf lib path =
     (if \<not> lib_version lib then None
      else (let fd = lib_open lib path in
        if fd <s 0 then None
        else (case lib_begin lib fd of None \<Rightarrow> None | Some e \<Rightarrow> if elf_is_elf e then Some e else None)))"

subsection \<open>The offset of a function\<close>

text \<open>\<open>GELF_ST_TYPE(info)\<close> is \<open>info & 0xf\<close>; \<open>STT_FUNC\<close> is 2.\<close>

definition is_func_sym :: "u8 list \<Rightarrow> elf_sym \<Rightarrow> bool" where
  "is_func_sym func es = (est_name es = Some func \<and> take_bit 4 (est_info es) = 2)"

text \<open>The loop over the symbols of a block ends at the first one that cannot be read.\<close>

fun func_in_syms :: "u8 list \<Rightarrow> elf_sym option list \<Rightarrow> u64 option" where
  "func_in_syms func [] = None"
| "func_in_syms func (None # syms) = None"
| "func_in_syms func (Some es # syms) =
     (if is_func_sym func es then Some (est_value es) else func_in_syms func syms)"

fun func_in_data :: "u8 list \<Rightarrow> elf_data list \<Rightarrow> u64 option" where
  "func_in_data func [] = None"
| "func_in_data func (d # ds) =
     (case func_in_syms func (ed_syms d) of None \<Rightarrow> func_in_data func ds | Some v \<Rightarrow> Some v)"

fun func_in_scns :: "u8 list \<Rightarrow> elf_scn list \<Rightarrow> u64 option" where
  "func_in_scns func [] = None"
| "func_in_scns func (scn # scns) =
     (if \<not> esh_ok scn \<or> \<not> (esh_type scn = SHT_SYMTAB \<or> esh_type scn = SHT_DYNSYM) then func_in_scns func scns
      else (case func_in_data func (esh_data scn) of None \<Rightarrow> func_in_scns func scns | Some v \<Rightarrow> Some v))"

text \<open>
  The loop over the program headers: \<open>PT_LOAD\<close> is 1, \<open>PF_X\<close> is 1.  \<open>ret\<close> is an \<open>off_t\<close>, which the
  comparisons with the \<open>uint64_t\<close> fields turn into an unsigned number.
\<close>

definition seg_holds :: "elf_phdr \<Rightarrow> u64 \<Rightarrow> bool" where
  "seg_holds phdr ret =
     (eph_type phdr = 1 \<and> bit (eph_flags phdr) 0 \<and>
      eph_vaddr phdr \<le> ret \<and> ret < eph_vaddr phdr + eph_memsz phdr)"

fun seg_offset :: "elf_phdr option list \<Rightarrow> u64 \<Rightarrow> u64" where
  "seg_offset [] ret = -1"
| "seg_offset (None # ps) ret = seg_offset ps ret"
| "seg_offset (Some p # ps) ret =
     (if seg_holds p ret then ret - eph_vaddr p + eph_offset p else seg_offset ps ret)"

text \<open>An ELF file that cannot be opened makes \<open>gelf_getehdr(NULL, _)\<close> fail.\<close>

definition get_elf_func_offset :: "elf_lib \<Rightarrow> u8 list \<Rightarrow> u8 list \<Rightarrow> u64" where
  "get_elf_func_offset lib path func =
     (case open_elf lib path of None \<Rightarrow> -1
      | Some e \<Rightarrow>
        (case elf_ehdr e of None \<Rightarrow> -1
         | Some e_type \<Rightarrow>
           if \<not> elf_strndx e then -1
           else (let ret = (case func_in_scns func (elf_scns e) of None \<Rightarrow> -1 | Some v \<Rightarrow> v) in
             if e_type = ET_EXEC \<or> e_type = ET_DYN then
               (case elf_phdrs e of None \<Rightarrow> -1 | Some phdrs \<Rightarrow> seg_offset phdrs ret)
             else ret)))"

subsection \<open>The binary of a process\<close>

text \<open>
  \<open>readlink\<close> on \<open>/proc/PID/exe\<close> gives the target, or fails; it stops at \<open>path_sz\<close> bytes, so that the
  code sees a number that is not below \<open>path_sz\<close> exactly when the target does not fit with its NUL.
  (\<open>snprintf\<close> of the two paths fits in 32 bytes for every \<open>int\<close>.)
\<close>

definition get_pid_binary_path :: "(pid_t \<Rightarrow> u8 list option) \<Rightarrow> pid_t \<Rightarrow> nat \<Rightarrow> u8 list option" where
  "get_pid_binary_path exe_link pid path_sz =
     (case exe_link pid of None \<Rightarrow> None | Some ret \<Rightarrow> if path_sz \<le> length ret then None else Some ret)"

text \<open>\<open>strrchr(path_buf, '/')\<close>, and \<open>strncmp(s, t, strlen(t)) = 0\<close>.\<close>

definition strrchr_slash :: "u8 list \<Rightarrow> u8 list option" where
  "strrchr_slash s = (if 47 \<in> set s then Some (47 # rev (takeWhile (\<lambda>c. c \<noteq> 47) (rev s))) else None)"

definition starts_with :: "u8 list \<Rightarrow> u8 list \<Rightarrow> bool" where
  "starts_with s t = (take (length t) s = t)"

text \<open>
  The test on one line.  \<open>strncmp(lib, p, strlen(lib))\<close> compares all of \<open>lib\<close>; what follows in the
  path must be a dot (46) or a dash (45).
\<close>

definition is_lib_path :: "u8 list \<Rightarrow> u8 list \<Rightarrow> bool" where
  "is_lib_path lib path_buf =
     (case strrchr_slash path_buf of None \<Rightarrow> False
      | Some p \<Rightarrow>
        starts_with p (bytes ''/lib'') \<and> starts_with (drop 4 p) lib \<and>
        (case drop (length lib) (drop 4 p) of [] \<Rightarrow> False | c # _ \<Rightarrow> c = 46 \<or> c = 45))"

text \<open>
  \<open>maps\<close>: the lines of \<open>/proc/PID/maps\<close>, each with the file name \<open>sscanf\<close> finds in it, if it finds
  one.
\<close>

fun find_lib :: "u8 list \<Rightarrow> nat \<Rightarrow> u8 list option list \<Rightarrow> u8 list option" where
  "find_lib lib path_sz [] = None"
| "find_lib lib path_sz (None # ls) = find_lib lib path_sz ls"
| "find_lib lib path_sz (Some path_buf # ls) =
     (if \<not> is_lib_path lib path_buf then find_lib lib path_sz ls
      else if path_sz \<le> length path_buf then None
      else Some path_buf)"

definition get_pid_lib_path ::
  "(pid_t \<Rightarrow> u8 list option list option) \<Rightarrow> pid_t \<Rightarrow> u8 list \<Rightarrow> nat \<Rightarrow> u8 list option" where
  "get_pid_lib_path maps pid lib path_sz =
     (case maps pid of None \<Rightarrow> None | Some ls \<Rightarrow> find_lib lib path_sz ls)"

text \<open>
  \<open>which prog\<close>, whose output is \<open>None\<close> if \<open>popen\<close> fails or there is none.  \<open>fgets\<close> stops behind the
  newline or after \<open>path_sz - 1\<close> bytes; the last byte it read is dropped.
\<close>

definition which_program :: "(u8 list \<Rightarrow> u8 list option) \<Rightarrow> u8 list \<Rightarrow> nat \<Rightarrow> u8 list option" where
  "which_program which_out prog path_sz =
     (if 100 \<le> length prog + 6 then None
      else (case which_out prog of None \<Rightarrow> None
        | Some line \<Rightarrow>
          (let path = take (path_sz - 1) line in if path = [] then None else Some (butlast path))))"

definition resolve_binary_path ::
  "(pid_t \<Rightarrow> u8 list option) \<Rightarrow> (pid_t \<Rightarrow> u8 list option list option) \<Rightarrow> (u8 list \<Rightarrow> u8 list option) \<Rightarrow>
     u8 list \<Rightarrow> pid_t \<Rightarrow> nat \<Rightarrow> u8 list option" where
  "resolve_binary_path exe_link maps which_out binary pid path_sz =
     (if binary = [] then (if pid = 0 then None else get_pid_binary_path exe_link pid path_sz)
      else if pid \<noteq> 0 then get_pid_lib_path maps pid binary path_sz
      else which_program which_out binary path_sz)"

subsection \<open>Properties\<close>

lemma seg_offset_minus1: "seg_offset phdrs (-1) = -1"
proof (induction phdrs)
  case (Cons p phdrs)
  have "\<not> seg_holds q (-1)" for q by (auto simp: seg_holds_def not_less)
  with Cons show ?case by (cases p) simp_all
qed simp

lemma seg_offset_found:
  assumes "seg_offset phdrs ret \<noteq> -1"
  shows "\<exists>p. Some p \<in> set phdrs \<and> seg_holds p ret \<and> seg_offset phdrs ret - eph_offset p = ret - eph_vaddr p"
  using assms
proof (induction phdrs)
  case (Cons q phdrs)
  show ?case
  proof (cases q)
    case None
    with Cons show ?thesis by auto
  next
    case (Some p)
    show ?thesis
    proof (cases "seg_holds p ret")
      case True
      with Some show ?thesis by (intro exI [of _ p]) simp
    next
      case False
      with Some Cons show ?thesis by auto
    qed
  qed
qed simp

lemma func_in_syms_sym:
  "func_in_syms func syms = Some v \<Longrightarrow> \<exists>es. Some es \<in> set syms \<and> is_func_sym func es \<and> est_value es = v"
  by (induction func syms rule: func_in_syms.induct) (auto split: if_splits)

lemma func_in_data_sym:
  "func_in_data func ds = Some v \<Longrightarrow>
     \<exists>d \<in> set ds. \<exists>es. Some es \<in> set (ed_syms d) \<and> is_func_sym func es \<and> est_value es = v"
  by (induction ds) (auto split: option.splits dest: func_in_syms_sym)

lemma func_in_scns_sym:
  "func_in_scns func scns = Some v \<Longrightarrow>
     \<exists>scn \<in> set scns. \<exists>d \<in> set (esh_data scn). \<exists>es.
       Some es \<in> set (ed_syms d) \<and> is_func_sym func es \<and> est_value es = v"
  by (induction scns) (auto split: option.splits if_splits dest: func_in_data_sym)

text \<open>
  The offset of a function in an executable or a shared object: a symbol of this name and of the type
  function has the address \<open>v\<close>, an executable segment is loaded over it, and the offset lies as far
  into the segment in the file as \<open>v\<close> does in memory.
\<close>

theorem func_offset_in_text:
  assumes "open_elf lib path = Some e" and "elf_ehdr e = Some ET_DYN"
    and "get_elf_func_offset lib path func \<noteq> -1"
  shows "\<exists>v phdrs p. func_in_scns func (elf_scns e) = Some v \<and> elf_phdrs e = Some phdrs \<and> Some p \<in> set phdrs \<and>
    seg_holds p v \<and> get_elf_func_offset lib path func - eph_offset p = v - eph_vaddr p"
proof -
  obtain phdrs where ph: "elf_phdrs e = Some phdrs"
    and r: "get_elf_func_offset lib path func =
      seg_offset phdrs (case func_in_scns func (elf_scns e) of None \<Rightarrow> -1 | Some v \<Rightarrow> v)"
    using assms by (cases "elf_phdrs e") (auto simp: get_elf_func_offset_def Let_def split: if_splits)
  show ?thesis
  proof (cases "func_in_scns func (elf_scns e)")
    case None
    with r assms(3) show ?thesis by (simp add: seg_offset_minus1)
  next
    case (Some v)
    with r have o: "get_elf_func_offset lib path func = seg_offset phdrs v" by simp
    with assms(3) have "seg_offset phdrs v \<noteq> -1" by simp
    from seg_offset_found [OF this] show ?thesis unfolding o using Some ph by blast
  qed
qed

text \<open>
  Of the four cases of \<open>resolve_binary_path\<close> the third one, no process and no name, is the only one
  that fails whatever the system says.
\<close>

theorem resolve_needs_pid_or_name:
  "resolve_binary_path exe_link maps which_out [] 0 path_sz = None"
  "\<lbrakk>pid \<noteq> 0; exe_link pid = Some p; length p < path_sz\<rbrakk> \<Longrightarrow>
     resolve_binary_path exe_link maps which_out [] pid path_sz = Some p"
  by (simp_all add: resolve_binary_path_def get_pid_binary_path_def)

theorem lib_path_found:
  assumes "find_lib lib path_sz ls = Some path"
  shows "Some path \<in> set ls \<and> is_lib_path lib path \<and> length path < path_sz"
  using assms by (induction lib path_sz ls rule: find_lib.induct) (auto split: if_splits)

end
