(* ===== verification/UserSyms.thy ===== *)
theory UserSyms imports Ksyms ElfHelpers begin

text \<open>
  The symbols of a process, \<open>include/trace_helpers.c\<close> lines 184-797: \<open>syms__load_file\<close> reads the
  executable mappings of \<open>/proc/PID/maps\<close> into a list of objects (\<open>struct dso\<close>), each with its
  address ranges; \<open>syms__map_addr\<close> finds the object and the symbol of an address and loads the
  symbol table of an object the first time one of its addresses is asked for; the cache keeps the
  tables of the processes.

  What the code can do to its own memory is a value of type \<open>usym_fault\<close>: the use of fields that
  \<open>dso__free_fields\<close> has freed, a division by zero, a variable that was never set.  An allocation
  that fails is an input.  \<open>strdup\<close> and \<open>btf__new_empty\<close>, whose results the code does not check, are
  taken to succeed; the string table of libbpf's BTF object gives back the string that was added.
\<close>

datatype usym_fault = Freed_memory | Zero_divide | Unset_variable

datatype elf_type = EXEC | DYN | PERF_MAP | VDSO | UNKNOWN

record load_range =
  lr_start :: u64
  lr_end :: u64
  lr_file_off :: u64

record usym =
  us_name :: "u8 list"
  us_start :: u64
  us_size :: u64
  us_offset :: u64

text \<open>
  \<open>struct dso\<close>.  \<open>syms\<close> is \<open>NULL\<close> as long as there is no symbol.  \<open>ds_freed\<close>: the fields have been
  freed, the pointers to them are still there.
\<close>

record dso =
  ds_name :: "u8 list"
  ds_ranges :: "load_range list"
  ds_sh_addr :: u64
  ds_sh_offset :: u64
  ds_type :: elf_type
  ds_syms :: "usym list"
  ds_freed :: bool

text \<open>\<open>struct map\<close>, as far as its fields are read.\<close>

record mapping_region =
  mr_start_addr :: u64
  mr_end_addr :: u64
  mr_file_off :: u64

subsection \<open>The names of mappings\<close>

definition is_file_backed :: "u8 list \<Rightarrow> bool" where
  "is_file_backed mapname =
     (mapname \<noteq> [] \<and>
      \<not> (starts_with mapname (bytes ''//anon'') \<or>
         starts_with mapname (bytes ''/dev/zero'') \<or>
         starts_with mapname (bytes ''/anon_hugepage'') \<or>
         starts_with mapname (bytes ''[stack'') \<or>
         starts_with mapname (bytes ''/SYSV'') \<or>
         starts_with mapname (bytes ''[heap]'') \<or>
         starts_with mapname (bytes ''[uprobes]'') \<or>
         starts_with mapname (bytes ''[vsyscall]'')))"

definition is_perf_map :: "u8 list \<Rightarrow> bool" where
  "is_perf_map path = False"

definition is_vdso :: "u8 list \<Rightarrow> bool" where
  "is_vdso path = (path = bytes ''[vdso]'')"

definition is_uprobes :: "u8 list \<Rightarrow> bool" where
  "is_uprobes path = (path = bytes ''[uprobes]'')"

text \<open>\<open>get_elf_type\<close>: \<open>None\<close> for -1.\<close>

definition get_elf_type :: "elf_lib \<Rightarrow> u8 list \<Rightarrow> u16 option" where
  "get_elf_type lib path =
     (if is_vdso path then None
      else if is_uprobes path then None
      else (case open_elf lib path of None \<Rightarrow> None | Some e \<Rightarrow> elf_ehdr e))"

fun text_scn :: "elf_scn list \<Rightarrow> (u64 \<times> u64) option" where
  "text_scn [] = None"
| "text_scn (scn # scns) =
     (if \<not> esh_ok scn then text_scn scns
      else if esh_name scn = Some (bytes ''.text'') then Some (esh_addr scn, esh_offset scn)
      else text_scn scns)"

definition get_elf_text_scn_info :: "elf_lib \<Rightarrow> u8 list \<Rightarrow> (u64 \<times> u64) option" where
  "get_elf_text_scn_info lib path =
     (case open_elf lib path of None \<Rightarrow> None
      | Some e \<Rightarrow> if \<not> elf_strndx e then None else text_scn (elf_scns e))"

subsection \<open>The objects of a process\<close>

text \<open>The first object of this name; \<open>realloc\<close> for the array of objects and for the ranges of one.\<close>

fun dso_index :: "dso list \<Rightarrow> u8 list \<Rightarrow> nat option" where
  "dso_index [] name = None"
| "dso_index (d # ds) name = (if ds_name d = name then Some 0 else map_option Suc (dso_index ds name))"

definition new_dso :: "u8 list \<Rightarrow> dso" where
  "new_dso name = \<lparr> ds_name = name, ds_ranges = [], ds_sh_addr = 0, ds_sh_offset = 0, ds_type = EXEC,
     ds_syms = [], ds_freed = False \<rparr>"

text \<open>The type of the object and, for a shared object, where its text section is; \<open>False\<close>: -1.\<close>

definition dso_set_type :: "elf_lib \<Rightarrow> u8 list \<Rightarrow> dso \<Rightarrow> dso \<times> bool" where
  "dso_set_type lib name d =
     (if get_elf_type lib name = Some ET_EXEC then (d\<lparr>ds_type := EXEC\<rparr>, True)
      else if get_elf_type lib name = Some ET_DYN then
        (case get_elf_text_scn_info lib name of
           None \<Rightarrow> (d\<lparr>ds_type := DYN\<rparr>, False)
         | Some (addr, off) \<Rightarrow> (d\<lparr>ds_type := DYN, ds_sh_addr := addr, ds_sh_offset := off\<rparr>, True))
      else if is_perf_map name then (d\<lparr>ds_type := PERF_MAP\<rparr>, True)
      else if is_vdso name then (d\<lparr>ds_type := VDSO\<rparr>, True)
      else (d\<lparr>ds_type := UNKNOWN\<rparr>, True))"

text \<open>
  \<open>al_dsos n\<close>: the array grows beyond \<open>n\<close> objects; \<open>al_ranges i n\<close>: the ranges of object \<open>i\<close> grow
  beyond \<open>n\<close>; \<open>al_sym n\<close>: a symbol table takes symbol \<open>n\<close> and its name; \<open>al_cache n\<close>: the cache
  grows beyond \<open>n\<close> entries; \<open>al_calloc\<close>: the head of a table.
\<close>

record sym_alloc =
  al_calloc :: bool
  al_dsos :: "nat \<Rightarrow> bool"
  al_ranges :: "nat \<Rightarrow> nat \<Rightarrow> bool"
  al_sym :: "nat \<Rightarrow> bool"
  al_cache :: "nat \<Rightarrow> bool"

definition syms_add_dso ::
  "elf_lib \<Rightarrow> sym_alloc \<Rightarrow> dso list \<Rightarrow> mapping_region \<Rightarrow> u8 list \<Rightarrow> dso list \<times> bool" where
  "syms_add_dso lib al syms m name =
     (let found = dso_index syms name;
          syms1 = (if found = None then syms @ [new_dso name] else syms);
          i = (case found of Some i \<Rightarrow> i | None \<Rightarrow> length syms)
      in if found = None \<and> \<not> al_dsos al (length syms) then (syms, False)
         else (let d = syms1 ! i in
           if \<not> al_ranges al i (length (ds_ranges d)) then (syms1, False)
           else (let d' = d\<lparr>ds_ranges := ds_ranges d @
                        [\<lparr> lr_start = mr_start_addr m, lr_end = mr_end_addr m, lr_file_off = mr_file_off m \<rparr>]\<rparr>;
                     (d'', ok) = dso_set_type lib name d'
                 in (syms1[i := d''], ok))))"

text \<open>
  A line of \<open>/proc/PID/maps\<close> as \<open>fscanf\<close> reads it: the region, the third character of the
  permissions and the rest of the line; or a line that does not give all the items.
\<close>

datatype maps_line = Maps_line mapping_region u8 "u8 list" | Maps_bad

text \<open>\<open>isspace\<close> of the C locale.\<close>

definition is_space8 :: "u8 \<Rightarrow> bool" where
  "is_space8 c = (c = 32 \<or> (9 \<le> c \<and> c \<le> 13))"

fun syms_read :: "elf_lib \<Rightarrow> sym_alloc \<Rightarrow> maps_line list \<Rightarrow> dso list \<Rightarrow> dso list option" where
  "syms_read lib al [] syms = Some syms"
| "syms_read lib al (Maps_bad # ls) syms = None"
| "syms_read lib al (Maps_line m perm2 buf # ls) syms =
     (if perm2 \<noteq> 120 then syms_read lib al ls syms
      else (let name = dropWhile is_space8 buf in
        if \<not> is_file_backed name then syms_read lib al ls syms
        else (case syms_add_dso lib al syms m name of
                (syms', True) \<Rightarrow> syms_read lib al ls syms'
              | (syms', False) \<Rightarrow> None)))"

text \<open>\<open>syms__load_file\<close> on the contents of the file, if it can be opened.\<close>

definition syms_load_file :: "elf_lib \<Rightarrow> sym_alloc \<Rightarrow> maps_line list option \<Rightarrow> dso list option" where
  "syms_load_file lib al file =
     (case file of None \<Rightarrow> None
      | Some ls \<Rightarrow> if \<not> al_calloc al then None else syms_read lib al ls [])"

definition syms_load_pid :: "elf_lib \<Rightarrow> sym_alloc \<Rightarrow> (pid_t \<Rightarrow> maps_line list option) \<Rightarrow> pid_t \<Rightarrow> dso list option" where
  "syms_load_pid lib al maps tgid = syms_load_file lib al (maps tgid)"

subsection \<open>The object of an address\<close>

definition range_skips :: "u64 \<Rightarrow> load_range \<Rightarrow> bool" where
  "range_skips addr rg = (addr \<le> lr_start rg \<or> lr_end rg \<le> addr)"

definition range_offset :: "dso \<Rightarrow> u64 \<Rightarrow> load_range \<Rightarrow> u64" where
  "range_offset d addr rg =
     (if ds_type d = DYN \<or> ds_type d = VDSO
      then addr - lr_start rg + lr_file_off rg + (ds_sh_addr d - ds_sh_offset d)
      else addr)"

fun find_range :: "u64 \<Rightarrow> load_range list \<Rightarrow> load_range option" where
  "find_range addr [] = None"
| "find_range addr (rg # ranges) = (if range_skips addr rg then find_range addr ranges else Some rg)"

text \<open>The index of the object, and the offset in it.\<close>

fun find_dso_from :: "nat \<Rightarrow> dso list \<Rightarrow> u64 \<Rightarrow> usym_fault + (nat \<times> u64) option" where
  "find_dso_from i [] addr = Inr None"
| "find_dso_from i (d # ds) addr =
     (if ds_freed d \<and> ds_ranges d \<noteq> [] then Inl Freed_memory
      else (case find_range addr (ds_ranges d) of
              Some rg \<Rightarrow> Inr (Some (i, range_offset d addr rg))
            | None \<Rightarrow> find_dso_from (Suc i) ds addr))"

definition syms_find_dso :: "dso list \<Rightarrow> u64 \<Rightarrow> usym_fault + (nat \<times> u64) option" where
  "syms_find_dso syms addr = find_dso_from 0 syms addr"

subsection \<open>The symbol table of an object\<close>

definition dso_add_sym :: "sym_alloc \<Rightarrow> dso \<Rightarrow> u8 list \<Rightarrow> u64 \<Rightarrow> u64 \<Rightarrow> dso option" where
  "dso_add_sym al d name start sz =
     (if al_sym al (length (ds_syms d))
      then Some (d\<lparr>ds_syms := ds_syms d @ [\<lparr> us_name = name, us_start = start, us_size = sz, us_offset = 0 \<rparr>]\<rparr>)
      else None)"

text \<open>The loop over the symbols of a block; the index of symbol \<open>i\<close> is cast to \<open>int\<close>.\<close>

fun add_block :: "sym_alloc \<Rightarrow> elf_data \<Rightarrow> nat list \<Rightarrow> dso \<Rightarrow> dso \<times> bool" where
  "add_block al data [] d = (d, True)"
| "add_block al data (i # is) d =
     (case gelf_getsym data (sint (of_nat i :: s32)) of
        None \<Rightarrow> add_block al data is d
      | Some es \<Rightarrow>
        (case est_name es of
           None \<Rightarrow> add_block al data is d
         | Some name \<Rightarrow>
           if name = [] then add_block al data is d
           else if est_value es = 0 then add_block al data is d
           else (case dso_add_sym al d name (est_value es) (est_size es) of
                   None \<Rightarrow> (d, False)
                 | Some d' \<Rightarrow> add_block al data is d')))"

fun dso_add_syms :: "sym_alloc \<Rightarrow> elf_data list \<Rightarrow> u64 \<Rightarrow> dso \<Rightarrow> usym_fault + dso \<times> bool" where
  "dso_add_syms al [] symsize d = Inr (d, True)"
| "dso_add_syms al (data # ds) symsize d =
     (if symsize = 0 then Inl Zero_divide
      else if ed_size data mod symsize \<noteq> 0 then Inr (d, False)
      else (case add_block al data [0 ..< unat (ed_size data div symsize)] d of
              (d', True) \<Rightarrow> dso_add_syms al ds symsize d'
            | (d', False) \<Rightarrow> Inr (d', False)))"

fun load_scns :: "sym_alloc \<Rightarrow> elf_scn list \<Rightarrow> dso \<Rightarrow> usym_fault + dso \<times> bool" where
  "load_scns al [] d = Inr (d, True)"
| "load_scns al (scn # scns) d =
     (if \<not> esh_ok scn then load_scns al scns d
      else if esh_type scn \<noteq> SHT_SYMTAB \<and> esh_type scn \<noteq> SHT_DYNSYM then load_scns al scns d
      else (case dso_add_syms al (esh_data scn) (esh_entsize scn) d of
              Inl f \<Rightarrow> Inl f
            | Inr (d', True) \<Rightarrow> load_scns al scns d'
            | Inr (d', False) \<Rightarrow> Inr (d', False)))"

text \<open>
  \<open>sym_cmp\<close> orders by address, then by name, as \<open>ksym_cmp\<close> does; \<open>qsort\<close> is glibc's merge sort,
  which leaves symbols that are equal in both in their order.
\<close>

definition usym_key :: "usym \<Rightarrow> ksym" where
  "usym_key s = Ksym (us_start s) (us_name s)"

definition dso_free_fields :: "dso \<Rightarrow> dso" where
  "dso_free_fields d = d\<lparr>ds_freed := True\<rparr>"

definition dso_load_sym_table_from_elf :: "elf_lib \<Rightarrow> sym_alloc \<Rightarrow> dso \<Rightarrow> s32 \<Rightarrow> usym_fault + dso \<times> bool" where
  "dso_load_sym_table_from_elf lib al d fd =
     (case (if 0 <s fd then open_elf_by_fd lib fd else open_elf lib (ds_name d)) of
        None \<Rightarrow> Inr (d, False)
      | Some e \<Rightarrow>
        (case load_scns al (elf_scns e) d of
           Inl f \<Rightarrow> Inl f
         | Inr (d', True) \<Rightarrow> Inr (d'\<lparr>ds_syms := sort_key usym_key (ds_syms d')\<rparr>, True)
         | Inr (d', False) \<Rightarrow> Inr (dso_free_fields d', False)))"

text \<open>
  \<open>create_tmp_vdso_image\<close>: the mappings of this process, of which the code reads the bounds and the
  name; \<open>vd_malloc\<close>, \<open>vd_mkostemp\<close>, \<open>vd_write\<close>: the results of these calls.  The value is the region that
  is copied and the descriptor, or nothing for -1.  The bounds are those of the line the loop stopped
  at, the last one of the file if there is no \<open>[vdso]\<close>.
\<close>

datatype own_line = Own_line u64 u64 "u8 list" | Own_bad

record vdso_env =
  vd_maps :: "own_line list option"
  vd_malloc :: bool
  vd_mkostemp :: s32
  vd_write :: bool

fun vdso_region :: "(u64 \<times> u64) option \<Rightarrow> own_line list \<Rightarrow> (u64 \<times> u64) option option" where
  "vdso_region r [] = Some r"
| "vdso_region r (Own_bad # ls) = None"
| "vdso_region r (Own_line start_addr end_addr buf # ls) =
     (let name = dropWhile is_space8 buf in
      if \<not> is_file_backed name then vdso_region (Some (start_addr, end_addr)) ls
      else if is_vdso name then Some (Some (start_addr, end_addr))
      else vdso_region (Some (start_addr, end_addr)) ls)"

definition create_tmp_vdso_image :: "vdso_env \<Rightarrow> usym_fault + ((u64 \<times> u64) \<times> s32) option" where
  "create_tmp_vdso_image vd =
     (case vd_maps vd of None \<Rightarrow> Inr None
      | Some ls \<Rightarrow>
        (case vdso_region None ls of
           None \<Rightarrow> Inr None
         | Some None \<Rightarrow> Inl Unset_variable
         | Some (Some region) \<Rightarrow>
           if \<not> vd_malloc vd then Inr None
           else if vd_mkostemp vd <s 0 then Inr None
           else if \<not> vd_write vd then Inr None
           else Inr (Some (region, vd_mkostemp vd))))"

definition dso_load_sym_table_from_vdso_image ::
  "elf_lib \<Rightarrow> sym_alloc \<Rightarrow> vdso_env \<Rightarrow> dso \<Rightarrow> usym_fault + dso \<times> bool" where
  "dso_load_sym_table_from_vdso_image lib al vd d =
     (case create_tmp_vdso_image vd of
        Inl f \<Rightarrow> Inl f
      | Inr None \<Rightarrow> Inr (d, False)
      | Inr (Some (region, fd)) \<Rightarrow> dso_load_sym_table_from_elf lib al d fd)"

text \<open>\<open>dso__load_sym_table_from_perf_map\<close> is \<open>return -1\<close>.\<close>

definition dso_load_sym_table :: "elf_lib \<Rightarrow> sym_alloc \<Rightarrow> vdso_env \<Rightarrow> dso \<Rightarrow> usym_fault + dso \<times> bool" where
  "dso_load_sym_table lib al vd d =
     (case ds_type d of
        UNKNOWN \<Rightarrow> Inr (d, False)
      | PERF_MAP \<Rightarrow> Inr (d, False)
      | EXEC \<Rightarrow> dso_load_sym_table_from_elf lib al d 0
      | DYN \<Rightarrow> dso_load_sym_table_from_elf lib al d 0
      | VDSO \<Rightarrow> dso_load_sym_table_from_vdso_image lib al vd d)"

subsection \<open>The symbol of an address\<close>

text \<open>
  The loop is that of \<open>ksyms__map_addr\<close>, on the addresses of the object's symbols.  The symbol that
  is found gets the offset written into its entry.
\<close>

definition dso_search :: "dso \<Rightarrow> u64 \<Rightarrow> dso \<times> usym option" where
  "dso_search d offset =
     (if ds_syms d = [] then (d, None)
      else
        (let i = addr_search (map usym_key (ds_syms d)) offset 0 (length (ds_syms d) - 1);
             s = ds_syms d ! i
         in if us_start s \<le> offset
            then (let s' = s\<lparr>us_offset := offset - us_start s\<rparr>
                  in (d\<lparr>ds_syms := (ds_syms d)[i := s']\<rparr>, Some s'))
            else (d, None)))"

text \<open>\<open>dso__find_sym\<close>; the fields of a freed object must not be read.\<close>

definition dso_find_sym :: "elf_lib \<Rightarrow> sym_alloc \<Rightarrow> vdso_env \<Rightarrow> dso \<Rightarrow> u64 \<Rightarrow> usym_fault + dso \<times> usym option" where
  "dso_find_sym lib al vd d offset =
     (if ds_freed d then Inl Freed_memory
      else if ds_syms d = [] then
        (case dso_load_sym_table lib al vd d of
           Inl f \<Rightarrow> Inl f
         | Inr (d', False) \<Rightarrow> Inr (d', None)
         | Inr (d', True) \<Rightarrow> Inr (dso_search d' offset))
      else Inr (dso_search d offset))"

definition syms_map_addr :: "elf_lib \<Rightarrow> sym_alloc \<Rightarrow> vdso_env \<Rightarrow> dso list \<Rightarrow> u64 \<Rightarrow> usym_fault + dso list \<times> usym option" where
  "syms_map_addr lib al vd syms addr =
     (case syms_find_dso syms addr of
        Inl f \<Rightarrow> Inl f
      | Inr None \<Rightarrow> Inr (syms, None)
      | Inr (Some (i, offset)) \<Rightarrow>
        (case dso_find_sym lib al vd (syms ! i) offset of
           Inl f \<Rightarrow> Inl f
         | Inr (d, r) \<Rightarrow> Inr (syms[i := d], r)))"

text \<open>The same, with the name of the object and the offset in it.\<close>

definition syms_map_addr_dso ::
  "elf_lib \<Rightarrow> sym_alloc \<Rightarrow> vdso_env \<Rightarrow> dso list \<Rightarrow> u64 \<Rightarrow>
     usym_fault + dso list \<times> (u8 list \<times> u64) option \<times> usym option" where
  "syms_map_addr_dso lib al vd syms addr =
     (case syms_find_dso syms addr of
        Inl f \<Rightarrow> Inl f
      | Inr None \<Rightarrow> Inr (syms, None, None)
      | Inr (Some (i, offset)) \<Rightarrow>
        (case dso_find_sym lib al vd (syms ! i) offset of
           Inl f \<Rightarrow> Inl f
         | Inr (d, r) \<Rightarrow> Inr (syms[i := d], Some (ds_name (syms ! i), offset), r)))"

text \<open>\<open>syms__free\<close> frees the fields of every object, those that are freed already too.\<close>

fun syms_free :: "dso list \<Rightarrow> usym_fault + unit" where
  "syms_free [] = Inr ()"
| "syms_free (d # ds) = (if ds_freed d then Inl Freed_memory else syms_free ds)"

subsection \<open>The cache\<close>

text \<open>
  An entry: the process and its table, which may be \<open>NULL\<close>.  \<open>syms_cache__get_syms\<close> gives a pointer
  to a table, which is the index of its entry here; \<open>None\<close>: \<open>NULL\<close>.
\<close>

type_synonym sym_cache = "(pid_t \<times> dso list option) list"

text \<open>\<open>syms_cache__new\<close> reserves memory for \<open>nr\<close> entries, but the cache has none.\<close>

definition syms_cache_new :: "bool \<Rightarrow> s32 \<Rightarrow> sym_cache option" where
  "syms_cache_new calloc_ok nr = (if calloc_ok then Some [] else None)"

fun cache_index :: "sym_cache \<Rightarrow> pid_t \<Rightarrow> nat option" where
  "cache_index [] tgid = None"
| "cache_index ((t, s) # es) tgid = (if t = tgid then Some 0 else map_option Suc (cache_index es tgid))"

definition table_of :: "sym_cache \<Rightarrow> nat \<Rightarrow> nat option" where
  "table_of c i = (if snd (c ! i) = None then None else Some i)"

definition syms_cache_get_syms ::
  "elf_lib \<Rightarrow> sym_alloc \<Rightarrow> (pid_t \<Rightarrow> maps_line list option) \<Rightarrow> sym_cache \<Rightarrow> pid_t \<Rightarrow> sym_cache \<times> nat option" where
  "syms_cache_get_syms lib al maps c tgid =
     (case cache_index c tgid of
        Some i \<Rightarrow> (c, table_of c i)
      | None \<Rightarrow>
        if \<not> al_cache al (length c) then (c, None)
        else (let c' = c @ [(tgid, syms_load_pid lib al maps tgid)] in (c', table_of c' (length c))))"

fun syms_cache_free :: "sym_cache \<Rightarrow> usym_fault + unit" where
  "syms_cache_free [] = Inr ()"
| "syms_cache_free ((t, None) # c) = syms_cache_free c"
| "syms_cache_free ((t, Some syms) # c) =
     (case syms_free syms of Inl f \<Rightarrow> Inl f | Inr _ \<Rightarrow> syms_cache_free c)"

end
