(* ===== verification/UserSymsProps.thy ===== *)
theory UserSymsProps imports UserSyms begin

text \<open>
  What a look-up of an address answers: the first object one of whose ranges holds the address, and of
  its symbols the last one at or below the offset, as a scan of the file would find it; loading the
  tables on demand and writing offsets into them does not change any later answer.  A table that
  cannot be loaded completely leaves freed fields behind, which the next look-up reads.
\<close>

subsection \<open>The reference\<close>

text \<open>All the ranges that hold the address, with the index of their object, in the order of the table.\<close>

definition hits_from :: "nat \<Rightarrow> dso list \<Rightarrow> u64 \<Rightarrow> (nat \<times> load_range) list" where
  "hits_from n syms addr =
     concat (map (\<lambda>(i, d). map (Pair i) (filter (\<lambda>rg. lr_start rg < addr \<and> addr < lr_end rg) (ds_ranges d)))
       (enumerate n syms))"

definition syms_locate :: "dso list \<Rightarrow> u64 \<Rightarrow> (nat \<times> u64) option" where
  "syms_locate syms addr =
     (case hits_from 0 syms addr of [] \<Rightarrow> None | (i, rg) # _ \<Rightarrow> Some (i, range_offset (syms ! i) addr rg))"

text \<open>The sorted table of an object, nothing if it cannot be loaded.\<close>

definition dso_table :: "elf_lib \<Rightarrow> sym_alloc \<Rightarrow> vdso_env \<Rightarrow> dso \<Rightarrow> ksym list" where
  "dso_table lib al vd d =
     (case dso_load_sym_table lib al vd d of Inr (d', True) \<Rightarrow> map usym_key (ds_syms d') | _ \<Rightarrow> [])"

definition syms_scan :: "elf_lib \<Rightarrow> sym_alloc \<Rightarrow> vdso_env \<Rightarrow> dso list \<Rightarrow> u64 \<Rightarrow> (ksym \<times> u64) option" where
  "syms_scan lib al vd syms addr =
     (case syms_locate syms addr of None \<Rightarrow> None
      | Some (i, off) \<Rightarrow>
        map_option (\<lambda>k. (k, off - ks_addr k)) (last_below (dso_table lib al vd (syms ! i)) off))"

definition answer :: "usym option \<Rightarrow> (ksym \<times> u64) option" where
  "answer r = map_option (\<lambda>s. (usym_key s, us_offset s)) r"

text \<open>A sequence of look-ups in the same table.\<close>

fun lookups :: "elf_lib \<Rightarrow> sym_alloc \<Rightarrow> vdso_env \<Rightarrow> dso list \<Rightarrow> u64 list \<Rightarrow> usym_fault + dso list" where
  "lookups lib al vd syms [] = Inr syms"
| "lookups lib al vd syms (a # as) =
     (case syms_map_addr lib al vd syms a of Inl f \<Rightarrow> Inl f | Inr (syms', r) \<Rightarrow> lookups lib al vd syms' as)"

subsection \<open>Loading a table\<close>

text \<open>Loading changes the symbols only, and may free the fields.\<close>

definition same_dso :: "dso \<Rightarrow> dso \<Rightarrow> bool" where
  "same_dso d d' = (d' = d\<lparr>ds_syms := ds_syms d', ds_freed := ds_freed d'\<rparr>)"

lemma same_dso_refl [simp]: "same_dso d d"
  by (simp add: same_dso_def)

lemma same_dso_fields:
  "same_dso d d' \<longleftrightarrow> ds_name d' = ds_name d \<and> ds_ranges d' = ds_ranges d \<and> ds_sh_addr d' = ds_sh_addr d \<and>
     ds_sh_offset d' = ds_sh_offset d \<and> ds_type d' = ds_type d"
  by (cases d; cases d') (auto simp: same_dso_def)

lemma same_dso_trans: "same_dso a b \<Longrightarrow> same_dso b c \<Longrightarrow> same_dso a c"
  by (simp add: same_dso_fields)

lemma same_dso_eq: "same_dso d d' \<Longrightarrow> ds_syms d' = ds_syms d \<Longrightarrow> ds_freed d' = ds_freed d \<Longrightarrow> d' = d"
  by (simp add: same_dso_def)

text \<open>What holds after each of the loops: \<open>fresh\<close> symbols have no offset yet.\<close>

definition fresh_syms :: "dso \<Rightarrow> bool" where
  "fresh_syms d = (\<forall>s \<in> set (ds_syms d). us_offset s = 0)"

definition keeps :: "dso \<Rightarrow> dso \<Rightarrow> bool" where
  "keeps d d' = (same_dso d d' \<and> ds_freed d' = ds_freed d \<and> (fresh_syms d \<longrightarrow> fresh_syms d'))"

lemma keeps_refl [simp]: "keeps d d"
  by (simp add: keeps_def)

lemma keeps_trans: "keeps a b \<Longrightarrow> keeps b c \<Longrightarrow> keeps a c"
  by (auto simp: keeps_def intro: same_dso_trans)

lemma dso_add_sym_keeps: "dso_add_sym al d name start sz = Some d' \<Longrightarrow> keeps d d'"
  by (auto simp: dso_add_sym_def keeps_def same_dso_fields fresh_syms_def split: if_splits)

lemma add_block_keeps: "add_block al data is d = (d', ok) \<Longrightarrow> keeps d d'"
proof (induction al data "is" d rule: add_block.induct)
  case (2 al data i "is" d)
  then show ?case
    by (auto split: option.splits if_splits dest: dso_add_sym_keeps intro: keeps_trans)
qed simp

lemma dso_add_syms_keeps: "dso_add_syms al ds symsize d = Inr (d', ok) \<Longrightarrow> keeps d d'"
proof (induction al ds symsize d rule: dso_add_syms.induct)
  case (2 al data ds symsize d)
  obtain d1 ok1 where b: "add_block al data [0 ..< unat (ed_size data div symsize)] d = (d1, ok1)" by fastforce
  with 2 add_block_keeps [OF b] show ?case
    by (cases ok1) (auto split: if_splits intro: keeps_trans)
qed simp

lemma load_scns_keeps: "load_scns al scns d = Inr (d', ok) \<Longrightarrow> keeps d d'"
proof (induction al scns d rule: load_scns.induct)
  case (2 al scn scns d)
  show ?case
  proof (cases "esh_ok scn \<and> (esh_type scn = SHT_SYMTAB \<or> esh_type scn = SHT_DYNSYM)")
    case False
    with 2 show ?thesis by (auto split: if_splits)
  next
    case True
    then obtain d1 ok1 where b: "dso_add_syms al (esh_data scn) (esh_entsize scn) d = Inr (d1, ok1)"
      using "2.prems" by (auto split: sum.splits)
    with True 2 dso_add_syms_keeps [OF b] show ?thesis
      by (cases ok1) (auto intro: keeps_trans)
  qed
qed simp

lemma load_from_elf:
  assumes "dso_load_sym_table_from_elf lib al d fd = Inr (d', ok)"
  shows "same_dso d d' \<and> (ok \<longrightarrow> ds_freed d' = ds_freed d \<and> sorted (map usym_key (ds_syms d')) \<and>
      (fresh_syms d \<longrightarrow> fresh_syms d')) \<and> (\<not> ok \<longrightarrow> ds_freed d' \<or> d' = d)"
proof (cases "if 0 <s fd then open_elf_by_fd lib fd else open_elf lib (ds_name d)")
  case None
  with assms show ?thesis by (simp add: dso_load_sym_table_from_elf_def)
next
  case (Some e)
  with assms obtain d1 ok1 where l: "load_scns al (elf_scns e) d = Inr (d1, ok1)"
    by (auto simp: dso_load_sym_table_from_elf_def split: sum.splits)
  have "d' = (if ok then d1\<lparr>ds_syms := sort_key usym_key (ds_syms d1)\<rparr> else dso_free_fields d1)" "ok = ok1"
    using assms Some l by (cases ok1; auto simp: dso_load_sym_table_from_elf_def)+
  with load_scns_keeps [OF l] show ?thesis
    by (auto simp: keeps_def same_dso_fields fresh_syms_def dso_free_fields_def)
qed

lemma load_sym_table:
  assumes "dso_load_sym_table lib al vd d = Inr (d', ok)"
  shows "same_dso d d' \<and> (ok \<longrightarrow> ds_freed d' = ds_freed d \<and> sorted (map usym_key (ds_syms d')) \<and>
      (fresh_syms d \<longrightarrow> fresh_syms d')) \<and> (\<not> ok \<longrightarrow> ds_freed d' \<or> d' = d)"
proof (cases "ds_type d")
  case VDSO
  with assms have v: "dso_load_sym_table_from_vdso_image lib al vd d = Inr (d', ok)"
    by (simp add: dso_load_sym_table_def)
  show ?thesis
  proof (cases "create_tmp_vdso_image vd")
    case (Inl f)
    with v show ?thesis by (simp add: dso_load_sym_table_from_vdso_image_def)
  next
    case (Inr im)
    show ?thesis
    proof (cases im)
      case None
      with v Inr show ?thesis by (simp add: dso_load_sym_table_from_vdso_image_def)
    next
      case (Some p)
      with v Inr have "dso_load_sym_table_from_elf lib al d (snd p) = Inr (d', ok)"
        by (simp add: dso_load_sym_table_from_vdso_image_def split_beta)
      then show ?thesis by (rule load_from_elf)
    qed
  qed
next
  case EXEC
  with assms show ?thesis by (intro load_from_elf [of lib al d 0]) (simp add: dso_load_sym_table_def)
next
  case DYN
  with assms show ?thesis by (intro load_from_elf [of lib al d 0]) (simp add: dso_load_sym_table_def)
qed (use assms in \<open>simp_all add: dso_load_sym_table_def\<close>)

subsection \<open>Searching a table\<close>

definition clear_offset :: "usym \<Rightarrow> usym" where
  "clear_offset s = s\<lparr>us_offset := 0\<rparr>"

lemma usym_key_clear [simp]: "usym_key (clear_offset s) = usym_key s"
  by (simp add: usym_key_def clear_offset_def)

lemma clear_fresh: "fresh_syms d \<Longrightarrow> map clear_offset (ds_syms d) = ds_syms d"
  by (auto simp: fresh_syms_def clear_offset_def intro!: map_idI)

lemma keys_of_cleared: "map clear_offset xs = map clear_offset ys \<Longrightarrow> map usym_key xs = map usym_key ys"
  by (metis (no_types, lifting) map_map comp_def map_cong usym_key_clear)

lemma dso_search_answer:
  assumes "sorted (map usym_key (ds_syms d))" and "dso_search d off = (d', r)"
  shows "answer r = map_option (\<lambda>k. (k, off - ks_addr k)) (last_below (map usym_key (ds_syms d)) off)"
    and "same_dso d d'" and "ds_freed d' = ds_freed d"
    and "map clear_offset (ds_syms d') = map clear_offset (ds_syms d)"
proof -
  let ?ks = "map usym_key (ds_syms d)"
  let ?i = "addr_search ?ks off 0 (length (ds_syms d) - 1)"
  have i: "?i < length (ds_syms d)" if "ds_syms d \<noteq> []"
  proof -
    from that have "0 < length (ds_syms d)" by simp
    with addr_search_range [of 0 "length (ds_syms d) - 1" ?ks off] show ?thesis by linarith
  qed
  have ref: "last_below ?ks off = ksyms_map_addr ?ks off"
    using map_addr_last_below [OF assms(1), of off] by simp
  have addr: "ks_addr (usym_key s) = us_start s" for s by (simp add: usym_key_def)
  show "answer r = map_option (\<lambda>k. (k, off - ks_addr k)) (last_below ?ks off)"
    using assms(2) i unfolding ref
    by (auto simp: dso_search_def ksyms_map_addr_def Let_def answer_def addr usym_key_def split: if_splits)
  show "same_dso d d'" "ds_freed d' = ds_freed d"
    using assms(2) by (auto simp: dso_search_def Let_def same_dso_fields split: if_splits)
  show "map clear_offset (ds_syms d') = map clear_offset (ds_syms d)"
  proof (cases "ds_syms d \<noteq> [] \<and> us_start (ds_syms d ! ?i) \<le> off")
    case True
    then have "ds_syms d' = (ds_syms d)[?i := (ds_syms d ! ?i)\<lparr>us_offset := off - us_start (ds_syms d ! ?i)\<rparr>]"
      using assms(2) by (auto simp: dso_search_def Let_def)
    moreover have "clear_offset ((ds_syms d ! ?i)\<lparr>us_offset := off - us_start (ds_syms d ! ?i)\<rparr>)
        = map clear_offset (ds_syms d) ! ?i"
      using True i by (simp add: clear_offset_def)
    ultimately show ?thesis by (simp add: map_update)
  next
    case False
    with assms(2) show ?thesis by (auto simp: dso_search_def Let_def split: if_splits)
  qed
qed

subsection \<open>The state of an object between look-ups\<close>

definition pristine :: "dso \<Rightarrow> bool" where
  "pristine d = (ds_syms d = [] \<and> \<not> ds_freed d)"

definition dso_inv :: "elf_lib \<Rightarrow> sym_alloc \<Rightarrow> vdso_env \<Rightarrow> dso \<Rightarrow> dso \<Rightarrow> bool" where
  "dso_inv lib al vd d0 d =
     (same_dso d0 d \<and>
      (ds_freed d \<or> ds_syms d = [] \<or>
       (\<exists>d1. dso_load_sym_table lib al vd d0 = Inr (d1, True) \<and> map clear_offset (ds_syms d) = ds_syms d1)))"

lemma dso_inv_refl: "pristine d \<Longrightarrow> dso_inv lib al vd d d"
  by (simp add: dso_inv_def pristine_def)

lemma dso_inv_search:
  assumes "pristine d0" and "dso_inv lib al vd d0 d" and "\<not> ds_freed d" and "ds_syms d \<noteq> []"
    and "dso_search d off = (d', r)"
  shows "dso_inv lib al vd d0 d' \<and>
    answer r = map_option (\<lambda>k. (k, off - ks_addr k)) (last_below (dso_table lib al vd d0) off)"
proof -
  from assms obtain d1 where l: "dso_load_sym_table lib al vd d0 = Inr (d1, True)"
    and c: "map clear_offset (ds_syms d) = ds_syms d1" and same: "same_dso d0 d"
    by (auto simp: dso_inv_def)
  have fresh: "map clear_offset (ds_syms d1) = ds_syms d1"
    using load_sym_table [OF l] assms(1) by (intro clear_fresh) (simp add: pristine_def fresh_syms_def)
  have "map usym_key (ds_syms d) = map usym_key (ds_syms d1)"
    using c fresh by (intro keys_of_cleared) simp
  moreover from this have "sorted (map usym_key (ds_syms d))" using load_sym_table [OF l] by simp
  note s = dso_search_answer [OF this assms(5)]
  moreover have "dso_inv lib al vd d0 d'"
    using same_dso_trans [OF same s(2)] l c s(4) by (auto simp: dso_inv_def)
  ultimately show ?thesis using l s(1) by (simp add: dso_table_def)
qed

lemma dso_find_sym_step:
  assumes "pristine d0" and "dso_inv lib al vd d0 d" and "dso_find_sym lib al vd d off = Inr (d', r)"
  shows "dso_inv lib al vd d0 d' \<and>
    answer r = map_option (\<lambda>k. (k, off - ks_addr k)) (last_below (dso_table lib al vd d0) off)"
proof -
  have free: "\<not> ds_freed d" using assms(3) by (auto simp: dso_find_sym_def)
  show ?thesis
  proof (cases "ds_syms d = []")
    case False
    then have "dso_search d off = (d', r)" using assms(3) free by (simp add: dso_find_sym_def)
    then show ?thesis using dso_inv_search [OF assms(1,2) free False] by blast
  next
    case True
    have d: "d = d0"
      using assms(1,2) True free by (intro same_dso_eq) (simp_all add: dso_inv_def pristine_def)
    then obtain d1 ok where l: "dso_load_sym_table lib al vd d0 = Inr (d1, ok)"
      using assms(3) True free by (auto simp: dso_find_sym_def split: sum.splits)
    note load = load_sym_table [OF l]
    show ?thesis
    proof (cases ok)
      case False
      then have "d' = d1" "r = None" using assms(3) True free d l by (simp_all add: dso_find_sym_def)
      with False l load d True show ?thesis
        by (auto simp: dso_inv_def dso_table_def answer_def last_below_def)
    next
      case ok: True
      then have s: "dso_search d1 off = (d', r)" using assms(3) True free d l by (simp add: dso_find_sym_def)
      have i: "dso_inv lib al vd d0 d1" "\<not> ds_freed d1" "sorted (map usym_key (ds_syms d1))"
        using load l ok d free True clear_fresh [of d1] assms(1)
        by (auto simp: dso_inv_def pristine_def fresh_syms_def)
      show ?thesis
      proof (cases "ds_syms d1 = []")
        case False
        then show ?thesis using dso_inv_search [OF assms(1) i(1,2) False s] by blast
      next
        case True
        with s i(1) l ok show ?thesis
          by (auto simp: dso_search_def dso_table_def answer_def last_below_def)
      qed
    qed
  qed
qed

subsection \<open>The object of an address\<close>

lemma find_range_filter:
  "find_range addr rs = (case filter (\<lambda>rg. lr_start rg < addr \<and> addr < lr_end rg) rs of [] \<Rightarrow> None | rg # _ \<Rightarrow> Some rg)"
  by (induction rs) (auto simp: range_skips_def not_less)

lemma find_dso_hits:
  assumes "find_dso_from n ds addr = Inr r" and "list_all2 same_dso ds0 ds"
  shows "r = (case hits_from n ds0 addr of [] \<Rightarrow> None | (i, rg) # _ \<Rightarrow> Some (i, range_offset (ds0 ! (i - n)) addr rg)) \<and>
    (\<forall>i off. r = Some (i, off) \<longrightarrow> n \<le> i \<and> i - n < length ds)"
  using assms
proof (induction ds arbitrary: n ds0)
  case Nil
  then show ?case by (simp add: hits_from_def)
next
  case (Cons d ds)
  then obtain d0 ds1 where ds0: "ds0 = d0 # ds1" and same: "same_dso d0 d" and rest: "list_all2 same_dso ds1 ds"
    by (auto simp: list_all2_Cons2)
  have hits: "hits_from n ds0 addr =
      map (Pair n) (filter (\<lambda>rg. lr_start rg < addr \<and> addr < lr_end rg) (ds_ranges d0)) @ hits_from (Suc n) ds1 addr"
    by (simp add: ds0 hits_from_def)
  have off: "range_offset d addr rg = range_offset d0 addr rg" for rg
    using same by (simp add: same_dso_fields range_offset_def)
  have rs: "ds_ranges d = ds_ranges d0" using same by (simp add: same_dso_fields)
  show ?case
  proof (cases "find_range addr (ds_ranges d)")
    case (Some rg)
    with Cons.prems(1) have "r = Some (n, range_offset d0 addr rg)" by (auto simp: off split: if_splits)
    moreover obtain more' where "filter (\<lambda>rg. lr_start rg < addr \<and> addr < lr_end rg) (ds_ranges d0) = rg # more'"
      using Some unfolding find_range_filter rs by (auto split: list.splits)
    moreover have "ds0 ! 0 = d0" by (simp add: ds0)
    ultimately show ?thesis by (simp add: hits)
  next
    case None
    then have "filter (\<lambda>rg. lr_start rg < addr \<and> addr < lr_end rg) (ds_ranges d0) = []"
      unfolding find_range_filter rs by (auto split: list.splits)
    moreover have "find_dso_from (Suc n) ds addr = Inr r" using Cons.prems(1) None by (auto split: if_splits)
    note IH = Cons.IH [OF this rest]
    moreover have "n < i \<and> ds0 ! (i - n) = ds1 ! (i - Suc n)" if "Suc n \<le> i" for i
    proof -
      from that have "i - n = Suc (i - Suc n)" by simp
      then show ?thesis using that by (simp add: ds0)
    qed
    moreover have "Suc n \<le> i" if "(i, rg) \<in> set (hits_from (Suc n) ds1 addr)" for i rg
      using that by (auto simp: hits_from_def in_set_enumerate_eq)
    ultimately show ?thesis
      by (fastforce simp: hits split: list.splits)
  qed
qed

subsection \<open>A sequence of look-ups\<close>

lemma map_addr_step:
  assumes "list_all pristine syms0" and "list_all2 (dso_inv lib al vd) syms0 syms"
    and "syms_map_addr lib al vd syms addr = Inr (syms', r)"
  shows "list_all2 (dso_inv lib al vd) syms0 syms' \<and> answer r = syms_scan lib al vd syms0 addr"
proof -
  have same: "list_all2 same_dso syms0 syms"
    using assms(2) by (rule list_all2_mono) (simp add: dso_inv_def)
  obtain hit where f: "find_dso_from 0 syms addr = Inr hit"
    using assms(3) by (auto simp: syms_map_addr_def syms_find_dso_def split: sum.splits)
  have loc: "hit = syms_locate syms0 addr"
    using find_dso_hits [OF f same] by (auto simp: syms_locate_def split: list.splits)
  show ?thesis
  proof (cases hit)
    case None
    with assms(2,3) f loc show ?thesis
      by (auto simp: syms_map_addr_def syms_find_dso_def syms_scan_def answer_def)
  next
    case (Some p)
    obtain i off where p: "p = (i, off)" by fastforce
    then have i: "i < length syms" using find_dso_hits [OF f same] Some by simp
    obtain d where d: "dso_find_sym lib al vd (syms ! i) off = Inr (d, r)" "syms' = syms[i := d]"
      using assms(3) f Some p by (auto simp: syms_map_addr_def syms_find_dso_def split: sum.splits)
    have "pristine (syms0 ! i)" "dso_inv lib al vd (syms0 ! i) (syms ! i)"
      using assms(1,2) i by (simp_all add: list_all_length list_all2_lengthD list_all2_nthD2)
    from dso_find_sym_step [OF this d(1)] show ?thesis
      using list_all2_update_cong [OF assms(2), of "syms0 ! i" d i] loc Some p
      by (simp add: d(2) syms_scan_def flip: loc)
  qed
qed

lemma lookups_inv:
  assumes "list_all pristine syms0" and "list_all2 (dso_inv lib al vd) syms0 syms"
    and "lookups lib al vd syms as = Inr syms'"
  shows "list_all2 (dso_inv lib al vd) syms0 syms'"
  using assms(2,3)
proof (induction as arbitrary: syms)
  case (Cons a as)
  then obtain s r where "syms_map_addr lib al vd syms a = Inr (s, r)" "lookups lib al vd s as = Inr syms'"
    by (auto split: sum.splits)
  with Cons map_addr_step [OF assms(1)] show ?case by blast
qed simp

lemma dso_index_less: "dso_index syms name = Some i \<Longrightarrow> i < length syms"
  by (induction syms arbitrary: i) (auto split: if_splits)

lemma dso_set_type_keeps: "dso_set_type lib name d = (d', ok) \<Longrightarrow> ds_syms d' = ds_syms d \<and> ds_freed d' = ds_freed d"
  by (auto simp: dso_set_type_def split: if_splits option.splits)

lemma syms_add_dso_pristine:
  assumes "list_all pristine syms" and "syms_add_dso lib al syms m name = (syms', ok)"
  shows "list_all pristine syms'"
proof -
  define syms1 where "syms1 = (if dso_index syms name = None then syms @ [new_dso name] else syms)"
  define i where "i = (case dso_index syms name of Some i \<Rightarrow> i | None \<Rightarrow> length syms)"
  define d where "d = (syms1 ! i)\<lparr>ds_ranges := ds_ranges (syms1 ! i) @
    [\<lparr> lr_start = mr_start_addr m, lr_end = mr_end_addr m, lr_file_off = mr_file_off m \<rparr>]\<rparr>"
  have p1: "list_all pristine syms1" using assms(1) by (simp add: syms1_def pristine_def new_dso_def)
  have i: "i < length syms1" using dso_index_less [of syms name] by (auto simp: syms1_def i_def split: option.splits)
  obtain d' ok' where t: "dso_set_type lib name d = (d', ok')" by fastforce
  have "pristine (syms1 ! i)" using p1 i by (simp add: list_all_length)
  then have "pristine d'" using dso_set_type_keeps [OF t] by (simp add: d_def pristine_def)
  then have "list_all pristine (syms1[i := d'])"
    using p1 i by (auto simp: list_all_length nth_list_update)
  moreover have "syms' = syms \<or> syms' = syms1 \<or> syms' = syms1[i := d']"
    using assms(2) t unfolding syms_add_dso_def Let_def syms1_def [symmetric] i_def [symmetric] d_def [symmetric]
    by (auto split: if_splits)
  ultimately show ?thesis using assms(1) p1 by blast
qed

lemma syms_read_pristine:
  "list_all pristine syms \<Longrightarrow> syms_read lib al ls syms = Some syms' \<Longrightarrow> list_all pristine syms'"
proof (induction lib al ls syms rule: syms_read.induct)
  case (3 lib al m perm2 buf ls syms)
  obtain s ok where a: "syms_add_dso lib al syms m (dropWhile is_space8 buf) = (s, ok)" by fastforce
  with 3 syms_add_dso_pristine [OF "3.prems"(1) a] show ?case
    by (cases ok) (auto simp: Let_def split: if_splits)
qed simp_all

lemma list_all2_refl_on: "list_all P xs \<Longrightarrow> (\<And>x. P x \<Longrightarrow> R x x) \<Longrightarrow> list_all2 R xs xs"
  by (induction xs) auto

text \<open>
  C36. Equivalence: in the table read from any mappings file, after any sequence of look-ups, the
  answer for an address (symbol and offset in it) is the one a scan of the files gives: the first
  object with a range strictly around the address, and in its symbols, sorted, the last one at or
  below the offset.  Loading a symbol table on the first use and the offsets that earlier look-ups
  wrote into it have no influence.
\<close>

theorem user_lookup:
  assumes "syms_load_file lib al file = Some syms"
    and "lookups lib al vd syms as = Inr syms'"
    and "syms_map_addr lib al vd syms' addr = Inr (syms'', r)"
  shows "answer r = syms_scan lib al vd syms addr"
proof -
  have p: "list_all pristine syms"
    using assms(1) syms_read_pristine [of "[]"] by (auto simp: syms_load_file_def split: option.splits if_splits)
  then have "list_all2 (dso_inv lib al vd) syms syms" using dso_inv_refl by (rule list_all2_refl_on)
  from map_addr_step [OF p lookups_inv [OF p this assms(2)] assms(3)] show ?thesis by blast
qed

text \<open>
  A program with two symbols, which a file gives in the wrong order: the address 5012 is looked up
  before and after the address 5001.
\<close>

definition wit_elf :: elf where
  "wit_elf = \<lparr> elf_is_elf = True, elf_ehdr = Some ET_EXEC, elf_strndx = True,
     elf_scns = [\<lparr> esh_ok = True, esh_name = None, esh_type = SHT_SYMTAB, esh_addr = 0, esh_offset = 0,
       esh_entsize = 24, esh_data = [\<lparr> ed_size = 48, ed_syms =
         [Some \<lparr> est_name = Some [98], est_value = 5010, est_size = 8, est_info = 2 \<rparr>,
          Some \<lparr> est_name = Some [97], est_value = 5000, est_size = 8, est_info = 2 \<rparr>] \<rparr>] \<rparr>],
     elf_phdrs = None \<rparr>"

definition wit_lib :: elf_lib where
  "wit_lib = \<lparr> lib_version = True, lib_open = (\<lambda>_. 3), lib_begin = (\<lambda>_. Some wit_elf) \<rparr>"

definition wit_alloc :: sym_alloc where
  "wit_alloc = \<lparr> al_calloc = True, al_dsos = (\<lambda>_. True), al_ranges = (\<lambda>_ _. True), al_sym = (\<lambda>_. True),
     al_cache = (\<lambda>_. True) \<rparr>"

definition wit_vdso :: vdso_env where
  "wit_vdso = \<lparr> vd_maps = None, vd_malloc = True, vd_mkostemp = 4, vd_write = True \<rparr>"

definition wit_maps :: "maps_line list" where
  "wit_maps = [Maps_line \<lparr> mr_start_addr = 4096, mr_end_addr = 8192, mr_file_off = 0 \<rparr> 120 [32, 47, 97]]"

theorem user_lookup_witness:
  "\<exists>syms syms' syms'' r. syms_load_file wit_lib wit_alloc (Some wit_maps) = Some syms \<and>
     lookups wit_lib wit_alloc wit_vdso syms [5012, 5001] = Inr syms' \<and>
     syms_map_addr wit_lib wit_alloc wit_vdso syms' 5012 = Inr (syms'', r) \<and>
     answer r = Some (Ksym 5010 [98], 2) \<and> answer r = syms_scan wit_lib wit_alloc wit_vdso syms 5012"
proof -
  have run: "case syms_load_file wit_lib wit_alloc (Some wit_maps) of None \<Rightarrow> False
    | Some syms \<Rightarrow> (case lookups wit_lib wit_alloc wit_vdso syms [5012, 5001] of Inl f \<Rightarrow> False
      | Inr syms' \<Rightarrow> (case syms_map_addr wit_lib wit_alloc wit_vdso syms' 5012 of Inl f \<Rightarrow> False
        | Inr (syms'', r) \<Rightarrow> answer r = Some (Ksym 5010 [98], 2)))"
    by code_simp
  then obtain syms syms' syms'' r where
    r: "syms_load_file wit_lib wit_alloc (Some wit_maps) = Some syms"
      "lookups wit_lib wit_alloc wit_vdso syms [5012, 5001] = Inr syms'"
      "syms_map_addr wit_lib wit_alloc wit_vdso syms' 5012 = Inr (syms'', r)" "answer r = Some (Ksym 5010 [98], 2)"
    by (auto split: option.splits sum.splits)
  with user_lookup [OF r(1-3)] show ?thesis by blast
qed

text \<open>
  A position-independent object that is mapped as its headers say: if the first range that holds the
  address \<open>start + (sh_offset + (v - sh_addr) - file_off)\<close>, where the text section puts the byte with
  the address \<open>v\<close> of the file, is that mapping, the offset that is looked up is \<open>v\<close> again.
\<close>

theorem dyn_offset_roundtrip:
  assumes "ds_type d = DYN"
    and "addr = lr_start rg + (ds_sh_offset d + (v - ds_sh_addr d) - lr_file_off rg)"
  shows "range_offset d addr rg = v"
  using assms by (simp add: range_offset_def algebra_simps)

text \<open>The first byte of a mapping belongs to no object, unless another range holds it.\<close>

theorem first_byte_not_found:
  assumes "\<forall>d \<in> set syms. ds_ranges d = [rg] \<and> \<not> ds_freed d"
  shows "syms_map_addr lib al vd syms (lr_start rg) = Inr (syms, None)"
proof -
  have "find_dso_from n syms (lr_start rg) = Inr None" for n
    using assms by (induction syms arbitrary: n) (auto simp: range_skips_def)
  then show ?thesis by (simp add: syms_map_addr_def syms_find_dso_def)
qed

text \<open>
  A symbol table that breaks off in the middle: the look-up says that there is no symbol, and the next
  one of the same address, as the release of the table, reads what was freed.
\<close>

theorem failed_load_faults:
  assumes "ds_type d = EXEC" and "pristine d" and "ds_ranges d = [rg]" and "lr_start rg < addr" and "addr < lr_end rg"
    and "open_elf lib (ds_name d) = Some e" and "load_scns al (elf_scns e) d = Inr (d1, False)"
  shows "\<exists>syms'. syms_map_addr lib al vd [d] addr = Inr (syms', None) \<and>
    syms_map_addr lib al vd syms' addr = Inl Freed_memory \<and> syms_free syms' = Inl Freed_memory"
proof -
  have l: "dso_load_sym_table lib al vd d = Inr (dso_free_fields d1, False)"
    using assms by (simp add: dso_load_sym_table_def dso_load_sym_table_from_elf_def)
  have "ds_ranges d1 = [rg]"
    using load_scns_keeps [OF assms(7)] assms(3) by (simp add: keeps_def same_dso_fields)
  then show ?thesis
    using assms l by (simp add: syms_map_addr_def syms_find_dso_def range_skips_def range_offset_def
        dso_find_sym_def pristine_def dso_free_fields_def not_le)
qed

subsection \<open>The cache\<close>

lemma cache_index_Some: "cache_index c tgid = Some i \<Longrightarrow> i < length c \<and> fst (c ! i) = tgid"
  by (induction c arbitrary: i) (auto split: if_splits)

lemma cache_index_None: "cache_index c tgid = None \<longleftrightarrow> tgid \<notin> fst ` set c"
  by (induction c tgid rule: cache_index.induct) auto

lemma cache_index_append:
  "cache_index c tgid = None \<Longrightarrow> cache_index (c @ [(tgid, s)]) tgid = Some (length c)"
  by (induction c tgid rule: cache_index.induct) (auto split: if_splits)

lemma cache_distinct:
  "distinct (map fst c) \<Longrightarrow> distinct (map fst (fst (syms_cache_get_syms lib al maps c tgid)))"
  by (auto simp: syms_cache_get_syms_def Let_def cache_index_None split: option.splits)

text \<open>
  A process has one table: asking again gives the same one, whatever has become of the process and
  of other processes in between; also if there was none, so that a process whose mappings could not
  be read at first stays without symbols.
\<close>

theorem cache_stable:
  assumes "al_cache al (length c)" and "syms_cache_get_syms lib al maps c tgid = (c1, t)"
  shows "fst (syms_cache_get_syms lib al maps' c1 tgid) = c1" "snd (syms_cache_get_syms lib al maps' c1 tgid) = t"
  using assms by (auto simp: syms_cache_get_syms_def Let_def cache_index_append split: option.splits)

end
