(* ===== verification/TraceHelpers.thy ===== *)
theory TraceHelpers imports ElfHelpers begin

text \<open>
  The other helpers of \<open>include/trace_helpers.c\<close>, lines 799-1196: the table of disk partitions, the
  two histograms, and the tests whether a kernel module, a probe point or a tracepoint exists.

  A file is given as its bytes where the code reads it into a buffer of a fixed size, and as the
  items \<open>fscanf\<close> reads where it does not matter how the text is cut; what the kernel says about
  paths is an argument.
\<close>

subsection \<open>Reading lines\<close>

text \<open>\<open>fgets\<close> with room for \<open>n\<close> bytes and the NUL: the bytes read, and the rest of the file.\<close>

fun fgets_take :: "nat \<Rightarrow> u8 list \<Rightarrow> u8 list \<times> u8 list" where
  "fgets_take 0 xs = ([], xs)"
| "fgets_take (Suc n) [] = ([], [])"
| "fgets_take (Suc n) (x # xs) =
     (if x = 10 then ([x], xs) else (case fgets_take n xs of (l, r) \<Rightarrow> (x # l, r)))"

definition is_blank8 :: "u8 \<Rightarrow> bool" where
  "is_blank8 c = (c = 32 \<or> (9 \<le> c \<and> c \<le> 13))"

text \<open>\<open>%s\<close>: the first word, if there is one.\<close>

definition first_word :: "u8 list \<Rightarrow> u8 list option" where
  "first_word buf =
     (let w = takeWhile (\<lambda>c. \<not> is_blank8 c) (dropWhile is_blank8 buf) in if w = [] then None else Some w)"

lemma fgets_take_rest: "fgets_take n xs = (l, r) \<Longrightarrow> length l + length r = length xs"
  by (induction n xs arbitrary: l r rule: fgets_take.induct) (auto split: if_splits prod.splits)

lemma fgets_take_less:
  assumes "0 < n" and "xs \<noteq> []"
  shows "length (snd (fgets_take n xs)) < length xs"
proof -
  obtain k x ys where "n = Suc k" "xs = x # ys" using assms by (cases n; cases xs) auto
  moreover obtain l r where "fgets_take k ys = (l, r)" by fastforce
  moreover from this have "length r \<le> length ys" using fgets_take_rest by fastforce
  ultimately show ?thesis by simp
qed

subsection \<open>Partitions\<close>

record part_entry =
  pt_name :: "u8 list"
  pt_dev :: u32

text \<open>\<open>MKDEV(ma, mi)\<close>.\<close>

definition mkdev :: "u32 \<Rightarrow> u32 \<Rightarrow> u32" where
  "mkdev ma mi = or (push_bit 20 ma) mi"

text \<open>
  A line of \<open>/proc/partitions\<close> as \<open>fgets\<close> gives it: its first byte, and the major and minor number and
  the name that \<open>sscanf\<close> finds, if it finds the four items.  (The kernel's names have less than 32
  bytes.)
\<close>

datatype part_line = Part_line u8 "(u32 \<times> u32 \<times> u8 list) option"

text \<open>\<open>alloc n\<close>: the array grows beyond \<open>n\<close> partitions.\<close>

fun partitions_read :: "(nat \<Rightarrow> bool) \<Rightarrow> part_line list \<Rightarrow> part_entry list \<Rightarrow> part_entry list option" where
  "partitions_read alloc [] ps = Some ps"
| "partitions_read alloc (Part_line c items # ls) ps =
     (if c \<noteq> 32 then partitions_read alloc ls ps
      else (case items of None \<Rightarrow> None
        | Some (devmaj, devmin, part_name) \<Rightarrow>
          if \<not> alloc (length ps) then None
          else partitions_read alloc ls (ps @ [\<lparr> pt_name = part_name, pt_dev = mkdev devmaj devmin \<rparr>])))"

definition partitions_load :: "bool \<Rightarrow> (nat \<Rightarrow> bool) \<Rightarrow> part_line list option \<Rightarrow> part_entry list option" where
  "partitions_load calloc_ok alloc file =
     (case file of None \<Rightarrow> None | Some ls \<Rightarrow> if \<not> calloc_ok then None else partitions_read alloc ls [])"

fun partitions_get_by_dev :: "part_entry list \<Rightarrow> u32 \<Rightarrow> part_entry option" where
  "partitions_get_by_dev [] dev = None"
| "partitions_get_by_dev (p # ps) dev = (if pt_dev p = dev then Some p else partitions_get_by_dev ps dev)"

fun partitions_get_by_name :: "part_entry list \<Rightarrow> u8 list \<Rightarrow> part_entry option" where
  "partitions_get_by_name [] name = None"
| "partitions_get_by_name (p # ps) name = (if pt_name p = name then Some p else partitions_get_by_name ps name)"

subsection \<open>Histograms\<close>

text \<open>
  \<open>print_stars\<close>: the numbers of stars and of blanks and whether there is a plus.  The product is an
  \<open>unsigned int\<close>; \<open>None\<close>: the division by zero, if \<open>val_max\<close> is 0.
\<close>

definition print_stars :: "u32 \<Rightarrow> u32 \<Rightarrow> s32 \<Rightarrow> (s32 \<times> s32 \<times> bool) option" where
  "print_stars val val_max width =
     (if val_max = 0 then None
      else (let num_stars = (min val val_max * width) div val_max
            in Some (num_stars, width - num_stars, val_max < val)))"

record hist_row =
  hr_low :: u64
  hr_high :: u64
  hr_val :: u32
  hr_stars :: "s32 \<times> s32 \<times> bool"

text \<open>The first loop: the first and the last index with a value (\<open>None\<close>: -1) and the largest value.\<close>

fun hist_scan :: "nat \<Rightarrow> u32 list \<Rightarrow> nat option \<times> nat option \<times> u32 \<Rightarrow> nat option \<times> nat option \<times> u32" where
  "hist_scan i [] st = st"
| "hist_scan i (val # vals) (idx_min, idx_max, val_max) =
     hist_scan (Suc i) vals
       (if 0 < val then (if idx_min = None then Some i else idx_min) else idx_min,
        if 0 < val then Some i else idx_max,
        if val_max < val then val else val_max)"

text \<open>
  The bounds of bucket \<open>i\<close>.  A shift by 64 or more has no meaning in C, so that the buckets from 63
  on have no bounds.
\<close>

definition log2_bounds :: "nat \<Rightarrow> (u64 \<times> u64) option" where
  "log2_bounds i =
     (if 64 \<le> i + 1 then None
      else (let low = drop_bit 1 (push_bit (i + 1) 1 :: u64);
                high = push_bit (i + 1) 1 - 1
            in Some (if low = high then low - 1 else low, high)))"

fun log2_rows :: "u32 list \<Rightarrow> u32 \<Rightarrow> s32 \<Rightarrow> nat list \<Rightarrow> hist_row list option" where
  "log2_rows vals val_max stars [] = Some []"
| "log2_rows vals val_max stars (i # is) =
     (case log2_bounds i of None \<Rightarrow> None
      | Some (low, high) \<Rightarrow>
        (case print_stars (vals ! i) val_max stars of None \<Rightarrow> None
         | Some s \<Rightarrow>
           (case log2_rows vals val_max stars is of None \<Rightarrow> None
            | Some rows \<Rightarrow> Some (\<lparr> hr_low = low, hr_high = high, hr_val = vals ! i, hr_stars = s \<rparr> # rows))))"

text \<open>
  \<open>print_log2_hist\<close>: nothing is printed if there is no value; the head line and the columns are
  narrow (\<open>True\<close>) or wide.  The outer \<open>None\<close>: a shift that has no meaning.
\<close>

definition print_log2_hist :: "u32 list \<Rightarrow> (bool \<times> hist_row list) option option" where
  "print_log2_hist vals =
     (case hist_scan 0 vals (None, None, 0) of
        (_, None, _) \<Rightarrow> Some None
      | (_, Some idx_max, val_max) \<Rightarrow>
        (let stars = (if idx_max \<le> 32 then 40 else 20)
         in map_option (\<lambda>rows. Some (idx_max \<le> 32, rows)) (log2_rows vals val_max stars [0 ..< Suc idx_max])))"

text \<open>\<open>print_linear_hist\<close>: the number, the value and the stars of each line.\<close>

fun linear_rows :: "u32 list \<Rightarrow> u32 \<Rightarrow> u32 \<Rightarrow> u32 \<Rightarrow> nat list \<Rightarrow> (u32 \<times> u32 \<times> (s32 \<times> s32 \<times> bool) option) list" where
  "linear_rows vals base step val_max [] = []"
| "linear_rows vals base step val_max (i # is) =
     (if vals ! i = 0 then linear_rows vals base step val_max is
      else (base + of_nat i * step, vals ! i, print_stars (vals ! i) val_max 40) #
        linear_rows vals base step val_max is)"

definition print_linear_hist ::
  "u32 list \<Rightarrow> u32 \<Rightarrow> u32 \<Rightarrow> (u32 \<times> u32 \<times> (s32 \<times> s32 \<times> bool) option) list option" where
  "print_linear_hist vals base step =
     (case hist_scan 0 vals (None, None, 0) of
        (Some idx_min, Some idx_max, val_max) \<Rightarrow>
          Some (linear_rows vals base step val_max [idx_min ..< Suc idx_max])
      | _ \<Rightarrow> None)"

text \<open>\<open>get_ktime_ns\<close> on what \<open>clock_gettime\<close> gives.\<close>

definition get_ktime_ns :: "u64 \<Rightarrow> u64 \<Rightarrow> u64" where
  "get_ktime_ns tv_sec tv_nsec = tv_sec * 1000000000 + tv_nsec"

subsection \<open>Tests of what the kernel has\<close>

text \<open>The loop over \<open>/proc/modules\<close>, with a buffer of 64 bytes.\<close>

function modules_loop :: "u8 list \<Rightarrow> u8 list \<Rightarrow> bool" where
  "modules_loop name file =
     (if file = [] then False
      else (case first_word (fst (fgets_take 63 file)) of
              None \<Rightarrow> False
            | Some w \<Rightarrow> if w = name then True else modules_loop name (snd (fgets_take 63 file))))"
  by pat_completeness auto
termination
  by (relation "measure (\<lambda>(_, file). length file)") (auto intro: fgets_take_less)

declare modules_loop.simps [simp del]

definition is_kernel_module :: "u8 list option \<Rightarrow> u8 list \<Rightarrow> bool" where
  "is_kernel_module file name = (case file of None \<Rightarrow> False | Some bs \<Rightarrow> modules_loop name bs)"

text \<open>\<open>use_debugfs\<close> with its static variable, -1 before the first call; \<open>has_path\<close>: the directory exists.\<close>

definition use_debugfs :: "bool \<Rightarrow> s32 \<Rightarrow> bool \<times> s32" where
  "use_debugfs has_path has_debugfs =
     (let h = (if has_debugfs <s 0 then (if has_path then 1 else 0) else has_debugfs) in (h = 1, h))"

definition tracefs_path :: "bool \<Rightarrow> u8 list" where
  "tracefs_path debugfs = (if debugfs then bytes ''/sys/kernel/debug/tracing'' else bytes ''/sys/kernel/tracing'')"

definition tracefs_available_filter_functions :: "bool \<Rightarrow> u8 list" where
  "tracefs_available_filter_functions debugfs =
     (if debugfs then bytes ''/sys/kernel/debug/tracing/available_filter_functions''
      else bytes ''/sys/kernel/tracing/available_filter_functions'')"

text \<open>One of the three loops of \<open>kprobe_exists\<close>; \<open>None\<close>: a line that cannot be read, where it stops.\<close>

fun name_in_file :: "u8 list \<Rightarrow> u8 list option list \<Rightarrow> bool" where
  "name_in_file name [] = False"
| "name_in_file name (None # ls) = False"
| "name_in_file name (Some sym_name # ls) = (sym_name = name \<or> name_in_file name ls)"

definition kprobe_exists ::
  "(u8 list \<Rightarrow> u8 list option list option) \<Rightarrow> bool \<Rightarrow> u8 list \<Rightarrow> bool" where
  "kprobe_exists file debugfs name =
     (if (case file (bytes ''/sys/kernel/debug/kprobes/blacklist'') of None \<Rightarrow> False | Some ls \<Rightarrow> name_in_file name ls)
      then False
      else (case file (tracefs_available_filter_functions debugfs) of
              Some ls \<Rightarrow> name_in_file name ls
            | None \<Rightarrow> (case file (bytes ''/proc/kallsyms'') of None \<Rightarrow> False | Some ls \<Rightarrow> name_in_file name ls)))"

text \<open>\<open>PATH_MAX\<close> is 4096, of which \<open>snprintf\<close> uses 4095 bytes.\<close>

definition tracepoint_exists :: "(u8 list \<Rightarrow> bool) \<Rightarrow> bool \<Rightarrow> u8 list \<Rightarrow> u8 list \<Rightarrow> bool" where
  "tracepoint_exists path_ok debugfs category event =
     path_ok (take 4095 (tracefs_path debugfs @ bytes ''/events/'' @ category @ [47] @ event @ bytes ''/format''))"

definition module_btf_exists :: "(u8 list \<Rightarrow> bool) \<Rightarrow> u8 list option \<Rightarrow> bool" where
  "module_btf_exists readable module_name =
     (case module_name of None \<Rightarrow> False | Some m \<Rightarrow> readable (take 79 (bytes ''/sys/kernel/btf/'' @ m)))"

subsection \<open>Properties\<close>

text \<open>A partition is found under its numbers: the entry has them, and it is the first one that does.\<close>

theorem partition_by_dev:
  "partitions_get_by_dev ps dev = (case filter (\<lambda>p. pt_dev p = dev) ps of [] \<Rightarrow> None | p # _ \<Rightarrow> Some p)"
  by (induction ps) auto

theorem partition_by_name:
  "partitions_get_by_name ps name = (case filter (\<lambda>p. pt_name p = name) ps of [] \<Rightarrow> None | p # _ \<Rightarrow> Some p)"
  by (induction ps) auto

text \<open>Numbers that fit into 12 and 20 bits are told apart.\<close>

theorem mkdev_numbers:
  assumes "take_bit 12 ma = ma" and "take_bit 20 mi = mi"
  shows "drop_bit 20 (mkdev ma mi) = ma" "take_bit 20 (mkdev ma mi) = mi"
proof -
  have hi: "\<not> bit ma n" if "12 \<le> n" for n
    using assms(1) that by (metis bit_take_bit_iff not_less)
  have lo: "\<not> bit mi n" if "20 \<le> n" for n
    using assms(2) that by (metis bit_take_bit_iff not_less)
  show "drop_bit 20 (mkdev ma mi) = ma"
  proof (rule bit_word_eqI)
    fix n
    have "bit ma n \<Longrightarrow> n < 12" using hi [of n] by (cases "12 \<le> n") auto
    then show "bit (drop_bit 20 (mkdev ma mi)) n = bit ma n"
      by (auto simp: mkdev_def bit_drop_bit_eq bit_or_iff bit_push_bit_iff lo)
  qed
  show "take_bit 20 (mkdev ma mi) = mi"
  proof (rule bit_word_eqI)
    fix n
    have "bit mi n \<Longrightarrow> n < 20" using lo [of n] by (cases "20 \<le> n") auto
    then show "bit (take_bit 20 (mkdev ma mi)) n = bit mi n"
      by (auto simp: mkdev_def bit_take_bit_iff bit_or_iff bit_push_bit_iff)
  qed
qed

text \<open>The buckets of the logarithmic histogram: the first is 0 and 1, bucket \<open>i\<close> begins at \<open>2 ^ i\<close>, and each
  begins behind the one before it.\<close>

lemma half_power: "i < 63 \<Longrightarrow> drop_bit (Suc 0) (2 * 2 ^ i :: u64) = 2 ^ i"
proof (rule bit_word_eqI)
  fix n
  assume "i < 63"
  moreover have "2 * 2 ^ i = (2 ^ Suc i :: u64)" by simp
  ultimately show "bit (drop_bit (Suc 0) (2 * 2 ^ i :: u64)) n = bit (2 ^ i :: u64) n"
    by (auto simp: bit_drop_bit_eq bit_exp_iff simp del: power_Suc)
qed

theorem log2_buckets:
  assumes "0 < i" and "i < 63"
  shows "log2_bounds i = Some (push_bit i 1, push_bit (i + 1) 1 - 1)"
    and "log2_bounds 0 = Some (0, 1)"
    and "\<exists>low. log2_bounds (i - 1) = Some (low, push_bit i 1 - 1)"
proof -
  have "bit (2 ^ i :: u64) i" using assms by (simp add: bit_exp_iff)
  moreover have "\<not> bit (1 :: u64) i" using assms by (simp add: bit_1_iff)
  ultimately have "2 ^ i \<noteq> (1 :: u64)" by metis
  then have "2 ^ i \<noteq> (2 * 2 ^ i - 1 :: u64)" by (auto simp: algebra_simps)
  with assms show "log2_bounds i = Some (push_bit i 1, push_bit (i + 1) 1 - 1)"
    by (simp add: log2_bounds_def half_power Let_def)
  show "log2_bounds 0 = Some (0, 1)" by code_simp
  show "\<exists>low. log2_bounds (i - 1) = Some (low, push_bit i 1 - 1)"
    using assms by (simp add: log2_bounds_def Let_def del: push_bit_Suc)
qed

text \<open>The line of a value is as long as its share of the largest one, if the product fits.\<close>

theorem stars_share:
  assumes "0 < val_max" and "val \<le> val_max" and "unat val_max * unat width < 2 ^ 32"
    and "print_stars val val_max width = Some (num_stars, num_spaces, need_plus)"
  shows "unat num_stars = unat val * unat width div unat val_max"
    and "num_stars \<le> width" and "num_stars + num_spaces = width" and "\<not> need_plus"
proof -
  have le: "unat val \<le> unat val_max" using assms(2) by (simp add: word_le_nat_alt)
  then have prod: "unat val * unat width \<le> unat val_max * unat width" by simp
  with assms(3) have "unat val * unat width < 2 ^ 32" by linarith
  then have "unat (val * width) = unat val * unat width" by (simp add: unat_word_ariths)
  moreover have n: "num_stars = (val * width) div val_max" "num_spaces = width - num_stars" "need_plus = (val_max < val)"
    using assms(1,2,4) by (auto simp: print_stars_def min_def Let_def split: if_splits)
  ultimately show u: "unat num_stars = unat val * unat width div unat val_max"
    by (simp add: unat_div)
  have "unat num_stars \<le> unat val_max * unat width div unat val_max"
    unfolding u using prod by (rule div_le_mono)
  then show "num_stars \<le> width" using assms(1) by (simp add: word_le_nat_alt word_less_nat_alt)
  show "num_stars + num_spaces = width" "\<not> need_plus" using n assms(2) by simp_all
qed

text \<open>A largest value of \<open>2 ^ 31\<close> gets no star at all.\<close>

lemma stars_wrap: "print_stars 2147483648 2147483648 40 = Some (0, 40, False)"
  by code_simp

text \<open>The loop over the values.\<close>

lemma hist_scan_max:
  "hist_scan i vals (a, b, m) = (a', b', m') \<Longrightarrow> m \<le> m' \<and> (\<forall>v \<in> set vals. v \<le> m') \<and> (m' = m \<or> m' \<in> set vals)"
proof (induction vals arbitrary: i a b m)
  case (Cons v vals)
  from Cons.IH [of "Suc i" "if 0 < v then (if a = None then Some i else a) else a" "if 0 < v then Some i else b"
      "if m < v then v else m"] Cons.prems
  show ?case by (auto split: if_splits)
qed simp

lemma hist_scan_last:
  "hist_scan i vals (a, b, m) = (a', b', m') \<Longrightarrow>
     (\<forall>j < length vals. 0 < vals ! j \<longrightarrow> (\<exists>k. b' = Some k \<and> i + j \<le> k)) \<and>
     (b' = b \<or> (\<exists>j < length vals. b' = Some (i + j) \<and> 0 < vals ! j))"
proof (induction vals arbitrary: i a b m)
  case (Cons v vals)
  define b1 where "b1 = (if 0 < v then Some i else b)"
  have r: "hist_scan (Suc i) vals (if 0 < v then (if a = None then Some i else a) else a, b1, if m < v then v else m)
      = (a', b', m')" using Cons.prems by (simp add: b1_def)
  note IH = Cons.IH [OF r]
  have "\<exists>k. b' = Some k \<and> i + j \<le> k" if "j < length (v # vals)" "0 < (v # vals) ! j" for j
  proof (cases j)
    case 0
    with that have "b1 = Some i" by (simp add: b1_def)
    with IH 0 show ?thesis by auto
  next
    case (Suc n)
    with that IH show ?thesis by fastforce
  qed
  moreover have "b' = b \<or> (\<exists>j < length (v # vals). b' = Some (i + j) \<and> 0 < (v # vals) ! j)"
  proof (cases "b' = b1")
    case True
    then show ?thesis by (cases "0 < v") (auto simp: b1_def)
  next
    case False
    with IH obtain j where "j < length vals" "b' = Some (Suc i + j)" "0 < vals ! j" by auto
    then have "Suc j < length (v # vals) \<and> b' = Some (i + Suc j) \<and> 0 < (v # vals) ! Suc j" by simp
    then show ?thesis by blast
  qed
  ultimately show ?case by blast
qed simp

lemma log2_rows_nth:
  "log2_rows vals val_max stars is = Some rows \<Longrightarrow>
     length rows = length is \<and> (\<forall>k < length is. hr_val (rows ! k) = vals ! (is ! k) \<and>
       log2_bounds (is ! k) = Some (hr_low (rows ! k), hr_high (rows ! k)))"
proof (induction "is" arbitrary: rows)
  case (Cons i "is")
  then obtain b s rows' where b: "log2_bounds i = Some b" and r: "log2_rows vals val_max stars is = Some rows'"
    and "rows = \<lparr> hr_low = fst b, hr_high = snd b, hr_val = vals ! i, hr_stars = s \<rparr> # rows'"
    by (force split: option.splits prod.splits)
  with Cons.IH [OF r] show ?case by (auto simp: nth_Cons split: nat.splits)
qed simp

text \<open>
  The logarithmic histogram shows the buckets from the first to the last one that has a value, each
  with its bounds and its value; the buckets it leaves out are all empty.
\<close>

theorem log2_hist_complete:
  assumes "print_log2_hist vals = Some (Some (narrow, rows))"
  shows "length rows \<le> length vals"
    and "\<forall>k < length rows. hr_val (rows ! k) = vals ! k \<and> log2_bounds k = Some (hr_low (rows ! k), hr_high (rows ! k))"
    and "\<forall>j < length vals. length rows \<le> j \<longrightarrow> vals ! j = 0"
    and "0 < hr_val (last rows)"
proof -
  obtain a b m where h: "hist_scan 0 vals (None, None, 0) = (a, b, m)" by (cases "hist_scan 0 vals (None, None, 0)")
  obtain k stars where b: "b = Some k" and r: "log2_rows vals m stars [0 ..< Suc k] = Some rows"
    using assms h by (auto simp: print_log2_hist_def Let_def split: option.splits)
  have k: "k < length vals" "0 < vals ! k" using hist_scan_last [OF h] b by auto
  have last: "j \<le> k" if "j < length vals" "0 < vals ! j" for j
    using hist_scan_last [OF h] b that by auto
  note rows = log2_rows_nth [OF r]
  have len: "length rows = Suc k" using rows by simp
  show "length rows \<le> length vals" using k(1) len by simp
  show nth: "\<forall>k < length rows. hr_val (rows ! k) = vals ! k \<and> log2_bounds k = Some (hr_low (rows ! k), hr_high (rows ! k))"
    using rows by (auto simp del: upt_Suc)
  show "\<forall>j < length vals. length rows \<le> j \<longrightarrow> vals ! j = 0"
  proof (intro allI impI)
    fix j
    assume j: "j < length vals" "length rows \<le> j"
    with last [of j] len have "\<not> 0 < vals ! j" by auto
    then show "vals ! j = 0" by (simp add: word_gt_0)
  qed
  have "rows \<noteq> []" using len by auto
  then have "last rows = rows ! k" using len by (simp add: last_conv_nth)
  moreover have "hr_val (rows ! k) = vals ! k" using nth len lessI [of k] by metis
  ultimately show "0 < hr_val (last rows)" using k(2) by metis
qed

text \<open>
  A function can be probed only if it is not on the black list; it then has to be in the list of the
  tracing file system, and in the symbol table only if that list cannot be opened.
\<close>

lemma name_in_file_set: "name_in_file name ls \<Longrightarrow> Some name \<in> set ls"
  by (induction name ls rule: name_in_file.induct) auto

lemma name_in_file_all: "name_in_file name (map Some names) \<longleftrightarrow> name \<in> set names"
  by (induction names) auto

theorem kprobe_on_list:
  assumes "file (bytes ''/sys/kernel/debug/kprobes/blacklist'') = Some (map Some black)"
    and "file (tracefs_available_filter_functions debugfs) = Some (map Some avail)"
  shows "kprobe_exists file debugfs name \<longleftrightarrow> name \<notin> set black \<and> name \<in> set avail"
  using assms by (simp add: kprobe_exists_def name_in_file_all)

text \<open>The second call of \<open>use_debugfs\<close> does not look again.\<close>

theorem debugfs_cached:
  "use_debugfs p' (snd (use_debugfs p (-1))) = use_debugfs p (-1)"
  by (cases p) (simp_all add: use_debugfs_def Let_def word_sless_alt)

text \<open>
  A line of more than 63 bytes is read in pieces, and the piece behind the first is taken for a line
  of its own: here the state of a module is taken for the name of one.
\<close>

lemma module_of_long_line:
  "is_kernel_module (Some (replicate 62 97 @ bytes '' Live 0x0'' @ [10])) (bytes ''Live'')"
  by code_simp

end
