(* ===== verification/Spec2Isabelle.thy ===== *)
theory Spec2Isabelle
  imports LockProps ResourceProps SyscallProps ScheduleProps KeytimeProps ControllerProps
    CwDelayProps CwMqProps CwStatProps CwControllerProps CwLockCount CwUserProps CwMainProps
    TopSyscallsProps Ksyms ProcSyscallProps ProcKeytimeProps ProcReportsProps ProcResourceProps ProcMainProps
    SyscallMapProps MigrateProps LifecycleProps NewlifeProps ToolLockProps ToolKeytimeProps ToolMain
    UserSymsProps TraceHelpers
begin

text \<open>
  A verification development of the CPU subsystem of \<open>proc_iimage2.0\<close>, the C programs under
  \<open>src/CPU_Subsystem/eBPF_proc_image\<close> (the process image) and \<open>src/CPU_Subsystem/cpu_watcher\<close> (the CPU
  watcher).

  \<^bold>\<open>The programs.\<close>  Each of the two consists of eBPF programs that run in the kernel at probes and keep
  their state in BPF maps, a display program that loads them, pins their control maps in the BPF file
  system and prints what they report through ring buffers and maps, and a control program that opens
  the pinned control maps and switches the tools on and off.  The parts share nothing but those maps,
  whose states are records of the model: what one part writes is what the other one reads.

  \<^bold>\<open>The platform\<close> (\<open>Prelude\<close>, \<open>Bpf\<close>).  C's integers are words of their width, so that sums and
  differences wrap as in C; BPF hash maps are lists of entries with a capacity, arrays are lists,
  ring buffers lists of records.  What the kernel answers (clock readings, errors of updates,
  reservations, the current thread) is an input of the handler, a record of type \<open>kern\<close>; every handler
  is one atomic step, and a history is the fold (\<open>run\<close>) of a tool's step function over a list of
  events.  Undefined behaviour and traps are \<open>None\<close>; a loop that may not end is a
  \<open>partial_function (option)\<close>, so that ending is something that has to be proved.  The locales of \<open>Bpf\<close>
  are the interfaces: what maps promise (\<open>kv_map\<close>, \<open>kv_store\<close>), and what step functions do
  (\<open>tool\<close>: an invariant; \<open>gated_tool\<close>, \<open>ungated_tool\<close>: obedience to the control map or not;
  \<open>keyed_tool\<close>, \<open>sliced_tool\<close>: independence of the parties' events).  Each is interpreted on the
  model of the tools that have the property.

  \<^bold>\<open>The process image, kernel side.\<close>
  \<^item> \<open>LockImage\<close> (\<open>include/lock_image.h\<close>, \<open>bpf/lock_image.bpf.c\<close>): the four recorders and the 22 probes
    on lock functions.  \<open>LockProps\<close>: pairing of calls and returns, sessions of read-write locks,
    isolation of the target.
  \<^item> \<open>ResourceImage\<close> (\<open>bpf/resource_image.bpf.c\<close>): the probe at the end of a task switch.
    \<open>ResourceProps\<close>: refinement of an abstract account of time slices, and the totals as sums over
    slices, also with tasks without a memory map, after which the probe passes over an arrival.
  \<^item> \<open>SyscallImage\<close> (\<open>bpf/syscall_image.bpf.c\<close>): batches of system calls; an access outside the array of
    call numbers is visible in the state.  \<open>SyscallProps\<close>: reports per batch, in container mode too, the
    bounds of the array, the container filter.
  \<^item> \<open>ScheduleImage\<close> (\<open>bpf/schedule_image.bpf.c\<close>): delays between wake-up and switch.
    \<open>ScheduleProps\<close>: the sums per task under any interleaving, positive counts.
  \<^item> \<open>KeytimeImage\<close> (\<open>bpf/keytime_image.bpf.c\<close>, \<open>include/keytime_image.h\<close>): \<open>execve\<close>, children, exits and
    switches.  \<open>KeytimeProps\<close>: the buffer of the arguments, pairing of children, kinds of reports.

  \<^bold>\<open>The process image, user side.\<close>
  \<^item> \<open>CString\<close>: \<open>strtol\<close> and \<open>sprintf\<close>.  \<open>Controller\<close> (\<open>controller.c\<close>, the updates in
    \<open>include/helpers.h\<close>): options, activation, deactivation.  \<open>ControllerProps\<close>: what they do to the
    five tools.
  \<^item> \<open>TopSyscalls\<close> (\<open>update_syscalls\<close> of \<open>include/helpers.h\<close>) and \<open>TopSyscallsProps\<close>: the ranking of a
    process's calls is right, up to the number 0, which also stands for an empty place.
  \<^item> \<open>HashMap\<close> and \<open>SipHash\<close> (\<open>include/hashmap.c\<close>): the Robin Hood hash map and its hash functions.
    \<open>RobinHood\<close>: the invariant of the table, and that each loop ends and keeps it.  \<open>HashMapProps\<close>,
    \<open>HashMapRefine\<close>: under the contract of the callbacks (the locale \<open>hashed_items\<close>) every operation is
    that of a finite map.  \<open>SyscallMap\<close> (the callbacks in \<open>include/helpers.h\<close>, \<open>print_syscall\<close> with the
    pointer \<open>map\<close>) and \<open>SyscallMapProps\<close>: the contract holds for the program's items, and its reports
    are those of \<open>ProcImage\<close>, where the values of the processes are a finite map.
  \<^item> \<open>Ksyms\<close> (\<open>include/trace_helpers.c\<close>): the symbol table; its binary search is equivalent to a scan.
  \<^item> \<open>ElfHelpers\<close> (\<open>include/uprobe_helpers.c\<close>), \<open>UserSyms\<close>, \<open>TraceHelpers\<close> (the rest of
    \<open>trace_helpers.c\<close>): helpers that the programs link, but do not call.  \<open>UserSymsProps\<close>: the look-up in
    the table of a process is a scan of its files, whatever was looked up before.
  \<^item> \<open>ProcImage\<close>, \<open>ProcReports\<close> (\<open>proc_image.c\<close> up to line 653): what is printed for a record and for
    the contents of a map.  \<open>ProcSyscallProps\<close>, \<open>ProcKeytimeProps\<close>, \<open>ProcReportsProps\<close>,
    \<open>ProcResourceProps\<close> compose them with the kernel side: every record or map that any history of the
    probes leaves is displayed without undefined behaviour, with the cases named in which it is not.
  \<^item> \<open>ProcMain\<close>, \<open>ProcMainProps\<close> (\<open>proc_image.c\<close> from line 655): options, loading, the main loop, the
    helper thread (as a step relation over the threads), the cleanup.

  \<^bold>\<open>The CPU watcher, kernel side.\<close>
  \<^item> \<open>CwDelay\<close> (\<open>cs_delay\<close>, \<open>preempt\<close>, \<open>sc_delay\<close>), \<open>CwMq\<close> (\<open>mq_delay\<close>), \<open>CwMutrace\<close> (\<open>mutrace\<close>), \<open>CwSched\<close>
    (\<open>schedule_delay\<close>), \<open>CwSar\<close> (\<open>sar\<close>): the seven programs of \<open>cpu_watcher/bpf\<close>.
  \<^item> \<open>CwDelayProps\<close>, \<open>CwMqProps\<close>, \<open>CwStatProps\<close>: which interval each report is about, the way of a
    message from its sender to its receiver, the sums, under interleaving with other threads.

  \<^bold>\<open>The CPU watcher, user side.\<close>
  \<^item> \<open>CwController\<close> (\<open>cpu_watcher/controller.c\<close>) and \<open>CwControllerProps\<close>: activation, and that
    deactivation does not silence the programs whose probes ignore their control map.
  \<^item> \<open>CwUser\<close> (\<open>cpu_watcher_helper.h\<close>, the callbacks and reports of \<open>cpu_watcher.c\<close>).  \<open>CwLockCount\<close>: the
    open-addressing table of contention counts is exact as long as it is not full, and its search does
    not end when it is.  \<open>CwUserProps\<close>: the histogram, the averages, the activity report over an
    interval of kernel events.
  \<^item> \<open>CwMain\<close>, \<open>CwMainProps\<close> (\<open>main\<close> of \<open>cpu_watcher.c\<close>): loading, the loop, the seven cleanup
    labels.  The exit code of a failed start is that of its first failing step; no turn of the loop hangs as
    long as \<open>mutrace\<close> reports at most 1024 locks.

  \<^bold>\<open>The stand-alone tools\<close> (\<open>eBPF_proc_image/tools\<close>), which share nothing with the programs above but
  the platform.
  \<^item> \<open>MigrateImage\<close> (\<open>migrate_image.bpf.c\<close>, \<open>migrate_print\<close>): migrations of tasks between CPUs.
    \<open>MigrateProps\<close>: over any history of migrations and reports, each migration is printed once and in
    order.  \<open>MapWalk\<close> holds the walk over a BPF map that its report and those of the process image use.
  \<^item> \<open>LifecycleImage\<close> (\<open>lifecycle_image.bpf.c\<close>, options and display of \<open>lifecycle_image.c\<close>): intervals on and
    off the CPU.  \<open>LifecycleProps\<close>: what is shown is what lies between consecutive moves of the process.
  \<^item> \<open>NewlifeImage\<close> (\<open>newlife_image.bpf.c\<close>, options and display of \<open>newlife_image.c\<close>): births and deaths of
    children.  \<open>NewlifeProps\<close>: what is shown of each child under any interleaving is its own life, where the
    line of a birth depends on a field of the reserved record that the probe does not write.
  \<^item> \<open>ToolLock\<close> (\<open>tools/lock_image.bpf.c\<close>, options and display of \<open>tools/lock_image.c\<close>): the predecessor of
    the lock tool, with the mutexes of the kernel.  \<open>ToolLockProps\<close>: the sessions of a thread with each
    lock, for whatever the reserved records contain, and the call that is lost when another one is
    nested in it.
  \<^item> \<open>ToolKeytime\<close> (\<open>tools/keytime_image.bpf.c\<close>, options and display of \<open>tools/keytime_image.c\<close>): the
    predecessor of the key-time tool.  \<open>ToolKeytimeProps\<close>: the buffer of the arguments, and the two lines
    for a call of \<open>execve\<close>.
  \<^item> \<open>ToolMain\<close>: \<open>main\<close> of the five, the loops and the resources that are given back.

  \<^bold>\<open>Bounds.\<close>  Where a counter could wrap, the theorem says how long a history may be (fewer than
  \<open>2 ^ 31\<close> or \<open>2 ^ 32\<close> events or calls); where a map could be full, how many parties there are.  The
  hash map is right up to 65535 items, since its distances have 16 bits.  No definition uses fuel.

  \<^bold>\<open>Not modelled.\<close>  Concurrent execution inside a handler (two CPUs in one map entry at once); the
  columns, the local time and the scaling of printed numbers; floating-point arithmetic (the test for
  at most 100 percent, the conversion of ticks, the moving average of \<open>dynamic_filter\<close> are parameters,
  the load factor of the hash map is a real number); the opening of perf events, \<open>find_ksym\<close> and
  \<open>get_hostname\<close>; libbpf, libelf, bpftool, blazesym and the kernel headers, whose results are inputs.  The
  programs that only produce load for the tools (\<open>test\<close>, \<open>ospp\<close>) and the predecessors under
  \<open>old_project\<close> are left out.
\<close>

end
